(* ===== verification/Js_Strings.thy ===== *)
theory Js_Strings
  imports Main
begin

text \<open>
  The prelude: JavaScript strings and the operations of the standard library that the modelled
  code uses.

  A string is the list of its UTF-16 code units, so that lengths, indices and slices count what
  JavaScript counts. \<open>u ''abc''\<close> is the string of an ASCII literal; other literals are written as
  their code units. White space (\<open>trim\<close> and \<open>\s\<close>) is the exact set of the language. Case mapping is
  exact on ASCII and on the two other letters whose lower case contains an ASCII letter
  (U+0130 and U+212A); every other unit is left as it is, which cannot change a comparison with an
  ASCII string.

  The collection \<open>js_eval\<close> holds the equations that evaluate closed string terms.
\<close>

section \<open>Strings\<close>

named_theorems js_eval \<open>equations that evaluate closed terms over strings\<close>

type_synonym js = "nat list"

primrec u :: "string \<Rightarrow> js" where
  "u [] = []"
| "u (c # cs) = of_char c # u cs"

lemma length_u [simp]: "length (u s) = length s"
  by (induction s) auto

lemma u_not_Nil [simp]: "u (c # cs) \<noteq> []"
  by simp

declare u.simps [simp del]
lemmas u_eval [js_eval] = u.simps

abbreviation BACKTICK :: nat where "BACKTICK \<equiv> 96"
abbreviation QUOTE :: nat where "QUOTE \<equiv> 39"
abbreviation DQUOTE :: nat where "DQUOTE \<equiv> 34"
abbreviation BACKSLASH :: nat where "BACKSLASH \<equiv> 92"
abbreviation SEMICOLON :: nat where "SEMICOLON \<equiv> 59"
abbreviation NEWLINE :: nat where "NEWLINE \<equiv> 10"
abbreviation CARRIAGE :: nat where "CARRIAGE \<equiv> 13"
abbreviation TAB :: nat where "TAB \<equiv> 9"
abbreviation COMMA :: nat where "COMMA \<equiv> 44"

subsection \<open>Characters\<close>

definition is_ws :: "nat \<Rightarrow> bool" where
  "is_ws c \<longleftrightarrow> (9 \<le> c \<and> c \<le> 13) \<or> c = 32 \<or> c = 160 \<or> c = 5760 \<or> (8192 \<le> c \<and> c \<le> 8202)
     \<or> c = 8232 \<or> c = 8233 \<or> c = 8239 \<or> c = 8287 \<or> c = 12288 \<or> c = 65279"

definition is_digit :: "nat \<Rightarrow> bool" where
  "is_digit c \<longleftrightarrow> 48 \<le> c \<and> c \<le> 57"

definition is_lower :: "nat \<Rightarrow> bool" where
  "is_lower c \<longleftrightarrow> 97 \<le> c \<and> c \<le> 122"

definition is_upper :: "nat \<Rightarrow> bool" where
  "is_upper c \<longleftrightarrow> 65 \<le> c \<and> c \<le> 90"

definition is_word :: "nat \<Rightarrow> bool" where
  "is_word c \<longleftrightarrow> is_lower c \<or> is_upper c \<or> is_digit c \<or> c = 95"

lemmas char_class_defs [js_eval] = is_ws_def is_digit_def is_lower_def is_upper_def is_word_def

lemma digit_not_ws [simp]: "is_digit c \<Longrightarrow> \<not> is_ws c"
  by (auto simp: is_digit_def is_ws_def)

lemma lower_not_ws [simp]: "is_lower c \<Longrightarrow> \<not> is_ws c"
  by (auto simp: is_lower_def is_ws_def)

lemma lower_not_digit [simp]: "is_lower c \<Longrightarrow> \<not> is_digit c"
  by (auto simp: is_lower_def is_digit_def)

subsection \<open>Case mapping\<close>

definition lower_unit :: "nat \<Rightarrow> js" where
  "lower_unit c =
     (if is_upper c then [c + 32] else if c = 8490 then [107] else if c = 304 then [105, 775] else [c])"

definition upper_unit :: "nat \<Rightarrow> nat" where
  "upper_unit c = (if is_lower c then c - 32 else c)"

definition to_lower :: "js \<Rightarrow> js" where
  "to_lower s = concat (map lower_unit s)"

definition to_upper :: "js \<Rightarrow> js" where
  "to_upper s = map upper_unit s"

lemmas case_defs [js_eval] = lower_unit_def upper_unit_def to_lower_def to_upper_def

lemma to_lower_Nil [simp]: "to_lower [] = []"
  and to_lower_append [simp]: "to_lower (s @ t) = to_lower s @ to_lower t"
  by (simp_all add: to_lower_def)

lemma lower_unit_id [simp]: "is_lower c \<Longrightarrow> lower_unit c = [c]"
  by (auto simp: lower_unit_def is_lower_def is_upper_def)

lemma to_lower_id: "\<forall>c \<in> set s. is_lower c \<Longrightarrow> to_lower s = s"
  by (induction s) (auto simp: to_lower_def)

lemma lower_unit_idem: "concat (map lower_unit (lower_unit c)) = lower_unit c"
  by (auto simp: lower_unit_def is_upper_def)

lemma to_lower_idem [simp]: "to_lower (to_lower s) = to_lower s"
  by (induction s) (auto simp: to_lower_def lower_unit_idem)

subsection \<open>Trimming\<close>

definition trim_start :: "js \<Rightarrow> js" where
  "trim_start s = dropWhile is_ws s"

definition trim_end :: "js \<Rightarrow> js" where
  "trim_end s = rev (dropWhile is_ws (rev s))"

definition trim :: "js \<Rightarrow> js" where
  "trim s = trim_end (trim_start s)"

lemmas trim_defs [js_eval] = trim_start_def trim_end_def trim_def

lemma trim_end_split: "\<exists>w. s = trim_end s @ w \<and> (\<forall>c \<in> set w. is_ws c)"
proof -
  have "rev s = takeWhile is_ws (rev s) @ dropWhile is_ws (rev s)" by simp
  then have "s = rev (dropWhile is_ws (rev s)) @ rev (takeWhile is_ws (rev s))"
    by (metis rev_append rev_rev_ident)
  then show ?thesis unfolding trim_end_def
    by (metis set_rev set_takeWhileD)
qed

lemma set_trim_start: "set (trim_start s) \<subseteq> set s"
  by (auto simp: trim_start_def dest: set_dropWhileD)

lemma set_trim_end: "set (trim_end s) \<subseteq> set s"
  using trim_end_split [of s] by (metis Un_iff set_append subsetI)

lemma set_trim: "set (trim s) \<subseteq> set s"
  using set_trim_start set_trim_end by (fastforce simp: trim_def)

lemma trim_end_id: "s = [] \<or> \<not> is_ws (last s) \<Longrightarrow> trim_end s = s"
  by (cases s rule: rev_cases) (auto simp: trim_end_def)

lemma trim_id: "s = [] \<or> (\<not> is_ws (hd s) \<and> \<not> is_ws (last s)) \<Longrightarrow> trim s = s"
  by (cases s) (auto simp: trim_def trim_start_def trim_end_id)

lemma trim_no_ws: "\<forall>c \<in> set s. \<not> is_ws c \<Longrightarrow> trim s = s"
  by (rule trim_id) (cases s; simp)

lemma trim_end_last: "trim_end s \<noteq> [] \<Longrightarrow> \<not> is_ws (last (trim_end s))"
  unfolding trim_end_def by (metis dropWhile_eq_Nil_conv hd_dropWhile last_rev rev_is_Nil_conv)

lemma trim_ends: "trim s \<noteq> [] \<Longrightarrow> \<not> is_ws (hd (trim s)) \<and> \<not> is_ws (last (trim s))"
proof -
  assume a: "trim s \<noteq> []"
  then obtain w where w: "trim_start s = trim s @ w"
    using trim_end_split [of "trim_start s"] by (auto simp: trim_def)
  with a have ne: "trim_start s \<noteq> []" by auto
  then have "\<not> is_ws (hd (trim_start s))"
    unfolding trim_start_def by (metis dropWhile_eq_Nil_conv hd_dropWhile)
  with w a have "\<not> is_ws (hd (trim s))" by (cases "trim s") auto
  moreover have "\<not> is_ws (last (trim s))"
    using a trim_end_last by (simp add: trim_def)
  ultimately show ?thesis by simp
qed

lemma trim_idem [simp]: "trim (trim s) = trim s"
  using trim_ends trim_id by blast

lemma trim_Nil [simp]: "trim [] = []"
  by (simp add: trim_defs)


subsection \<open>Searching, splitting and joining\<close>

fun starts_with :: "js \<Rightarrow> js \<Rightarrow> bool" where
  "starts_with s [] = True"
| "starts_with [] (p # ps) = False"
| "starts_with (c # cs) (p # ps) = (c = p \<and> starts_with cs ps)"

lemma starts_with_append [simp]: "starts_with (p @ s) p"
  by (induction p) auto

lemma starts_with_iff: "starts_with s p \<longleftrightarrow> (\<exists>r. s = p @ r)"
  by (induction s p rule: starts_with.induct) auto

definition ends_with :: "js \<Rightarrow> js \<Rightarrow> bool" where
  "ends_with s p = starts_with (rev s) (rev p)"

fun index_from :: "nat \<Rightarrow> js \<Rightarrow> js \<Rightarrow> nat option" where
  "index_from i s p =
     (if starts_with s p then Some i
      else case s of [] \<Rightarrow> None | _ # t \<Rightarrow> index_from (Suc i) t p)"

declare index_from.simps [simp del]

definition index_of :: "js \<Rightarrow> js \<Rightarrow> nat option" where
  "index_of s p = index_from 0 s p"

definition has_sub :: "js \<Rightarrow> js \<Rightarrow> bool" where
  "has_sub s p = (index_of s p \<noteq> None)"

fun split_on :: "nat \<Rightarrow> js \<Rightarrow> js list" where
  "split_on d [] = [[]]"
| "split_on d (c # cs) =
     (if c = d then [] # split_on d cs
      else case split_on d cs of [] \<Rightarrow> [[c]] | p # ps \<Rightarrow> (c # p) # ps)"

fun join :: "js \<Rightarrow> js list \<Rightarrow> js" where
  "join sep [] = []"
| "join sep [p] = p"
| "join sep (p # q # ps) = p @ sep @ join sep (q # ps)"

lemmas search_defs [js_eval] =
  ends_with_def index_from.simps index_of_def has_sub_def

lemma has_sub_append: "has_sub (s @ p @ t) p"
proof -
  have "index_from i (s @ p @ t) p \<noteq> None" for i
  proof (induction s arbitrary: i)
    case Nil
    then show ?case by (subst index_from.simps) simp
  next
    case (Cons c s)
    then show ?case by (subst index_from.simps) simp
  qed
  then show ?thesis by (simp add: has_sub_def index_of_def)
qed

lemma split_on_not_Nil [simp]: "split_on d s \<noteq> []"
  by (cases s) (auto split: list.splits)

lemma join_split_on: "join [d] (split_on d s) = s"
proof (induction s)
  case (Cons c cs)
  obtain p ps where "split_on d cs = p # ps" by (cases "split_on d cs") auto
  with Cons show ?case by (cases ps) auto
qed simp

lemma split_on_parts: "\<forall>p \<in> set (split_on d s). d \<notin> set p"
  by (induction s) (auto split: list.splits)

lemma split_on_single: "d \<notin> set s \<Longrightarrow> split_on d s = [s]"
  by (induction s) auto

lemma split_on_append_sep: "d \<notin> set s \<Longrightarrow> split_on d (s @ d # t) = s # split_on d t"
  by (induction s) auto

lemma split_on_join:
  "ps \<noteq> [] \<Longrightarrow> \<forall>p \<in> set ps. d \<notin> set p \<Longrightarrow> split_on d (join [d] ps) = ps"
  by (induction "[d]" ps rule: join.induct) (auto simp: split_on_single split_on_append_sep)

lemma join_Cons: "ps \<noteq> [] \<Longrightarrow> join sep (p # ps) = p @ sep @ join sep ps"
  by (cases ps) auto

lemma join_append:
  "ps \<noteq> [] \<Longrightarrow> qs \<noteq> [] \<Longrightarrow> join sep (ps @ qs) = join sep ps @ sep @ join sep qs"
proof (induction sep ps rule: join.induct)
  case (2 sep p)
  then show ?case by (cases qs) auto
qed auto

lemma set_join: "set (join sep ps) \<subseteq> set sep \<union> (\<Union>p \<in> set ps. set p)"
  by (induction sep ps rule: join.induct) auto

lemma set_join_part: "p \<in> set ps \<Longrightarrow> set p \<subseteq> set (join sep ps)"
  by (induction sep ps rule: join.induct) auto

definition replace_char :: "nat \<Rightarrow> js \<Rightarrow> js \<Rightarrow> js" where
  "replace_char c r s = concat (map (\<lambda>x. if x = c then r else [x]) s)"

lemma replace_char_simps [simp]:
  "replace_char c r [] = []"
  "replace_char c r (x # s) = (if x = c then r else [x]) @ replace_char c r s"
  "replace_char c r (s @ t) = replace_char c r s @ replace_char c r t"
  by (simp_all add: replace_char_def)

lemma replace_char_id: "c \<notin> set s \<Longrightarrow> replace_char c r s = s"
  by (induction s) auto

lemma join_split_replace: "join r (split_on c s) = replace_char c r s"
proof (induction s)
  case (Cons x s)
  obtain p ps where "split_on c s = p # ps" by (cases "split_on c s") auto
  with Cons show ?case by (cases ps) auto
qed simp

text \<open>\<open>s.slice(i, j)\<close> for indices that are not negative.\<close>

definition slice :: "js \<Rightarrow> nat \<Rightarrow> nat \<Rightarrow> js" where
  "slice s i j = take (j - i) (drop i s)"

lemmas slice_eval [js_eval] = slice_def

subsection \<open>Numbers in strings\<close>

fun dec :: "nat \<Rightarrow> js" where
  "dec n = (if n < 10 then [48 + n] else dec (n div 10) @ [48 + n mod 10])"

declare dec.simps [simp del]
lemmas dec_eval [js_eval] = dec.simps

definition dec_int :: "int \<Rightarrow> js" where
  "dec_int i = (if i < 0 then 45 # dec (nat (- i)) else dec (nat i))"

definition digits_val :: "js \<Rightarrow> nat" where
  "digits_val s = foldl (\<lambda>n c. 10 * n + (c - 48)) 0 s"

lemmas number_eval [js_eval] = dec_int_def digits_val_def

lemma dec_digits: "\<forall>c \<in> set (dec n). is_digit c"
proof (induction n rule: dec.induct)
  case (1 n)
  have m: "n mod 10 < 10" by simp
  show ?case
  proof (cases "n < 10")
    case True
    then show ?thesis by (simp add: dec.simps [of n] is_digit_def)
  next
    case False
    with "1" m show ?thesis by (auto simp: dec.simps [of n] is_digit_def)
  qed
qed

lemma dec_not_Nil [simp]: "dec n \<noteq> []"
  by (subst dec.simps) simp

lemma digits_val_dec [simp]: "digits_val (dec n) = n"
proof (induction n rule: dec.induct)
  case (1 n)
  show ?case
  proof (cases "n < 10")
    case True
    then show ?thesis by (simp add: dec.simps [of n] digits_val_def)
  next
    case False
    then have "digits_val (dec n) = 10 * digits_val (dec (n div 10)) + n mod 10"
      by (simp add: dec.simps [of n] digits_val_def)
    also have "\<dots> = 10 * (n div 10) + n mod 10" using "1" False by simp
    finally show ?thesis by simp
  qed
qed

lemma dec_inj: "dec m = dec n \<Longrightarrow> m = n"
  by (metis digits_val_dec)

section \<open>Arrays, sets and maps\<close>

text \<open>\<open>xs[i]\<close>: undefined out of range.\<close>

definition at :: "'a list \<Rightarrow> nat \<Rightarrow> 'a option" where
  "at xs i = (if i < length xs then Some (xs ! i) else None)"

lemma at_simps [simp]:
  "at [] i = None"
  "at (x # xs) 0 = Some x"
  "at (x # xs) (Suc i) = at xs i"
  by (simp_all add: at_def)

lemma at_Some [dest]: "at xs i = Some x \<Longrightarrow> i < length xs \<and> xs ! i = x \<and> x \<in> set xs"
  by (auto simp: at_def split: if_splits)

lemma at_None: "at xs i = None \<longleftrightarrow> length xs \<le> i"
  by (auto simp: at_def)

text \<open>\<open>xs.findIndex(p)\<close>, with \<open>None\<close> for -1, and \<open>xs.find(p)\<close>.\<close>

fun find_index :: "('a \<Rightarrow> bool) \<Rightarrow> 'a list \<Rightarrow> nat option" where
  "find_index p [] = None"
| "find_index p (x # xs) = (if p x then Some 0 else map_option Suc (find_index p xs))"

lemma find_index_Some: "find_index p xs = Some i \<Longrightarrow> i < length xs \<and> p (xs ! i)"
  by (induction xs arbitrary: i) (auto split: if_splits)

lemma find_index_None: "find_index p xs = None \<longleftrightarrow> (\<forall>x \<in> set xs. \<not> p x)"
  by (induction xs) auto

lemma find_index_first: "find_index p xs = Some i \<Longrightarrow> j < i \<Longrightarrow> \<not> p (xs ! j)"
proof (induction xs arbitrary: i j)
  case (Cons x xs)
  then show ?case by (cases j) (auto split: if_splits)
qed simp

text \<open>\<open>[...new Set(xs)]\<close>: the first occurrence of every element, in order.\<close>

definition new_set :: "'a list \<Rightarrow> 'a list" where
  "new_set xs = rev (remdups (rev xs))"

lemma set_new_set [simp]: "set (new_set xs) = set xs"
  by (simp add: new_set_def)

lemma distinct_new_set [simp]: "distinct (new_set xs)"
  by (simp add: new_set_def)

lemma new_set_Nil [simp]: "new_set xs = [] \<longleftrightarrow> xs = []"
  by (simp add: new_set_def)

lemma new_set_snoc: "new_set (xs @ [x]) = (if x \<in> set xs then new_set xs else new_set xs @ [x])"
  by (simp add: new_set_def)

text \<open>A set of strings in insertion order: \<open>add\<close> and \<open>delete\<close> of JavaScript's \<open>Set\<close>.\<close>

definition set_add :: "'a \<Rightarrow> 'a list \<Rightarrow> 'a list" where
  "set_add x xs = (if x \<in> set xs then xs else xs @ [x])"

definition set_delete :: "'a \<Rightarrow> 'a list \<Rightarrow> 'a list" where
  "set_delete x xs = filter (\<lambda>y. y \<noteq> x) xs"

lemma set_set_add [simp]: "set (set_add x xs) = insert x (set xs)"
  by (auto simp: set_add_def)

lemma set_set_delete [simp]: "set (set_delete x xs) = set xs - {x}"
  by (auto simp: set_delete_def)

lemma distinct_set_add [simp]: "distinct xs \<Longrightarrow> distinct (set_add x xs)"
  by (auto simp: set_add_def)

lemma distinct_set_delete [simp]: "distinct xs \<Longrightarrow> distinct (set_delete x xs)"
  by (simp add: set_delete_def)

text \<open>A loop keeps what every turn keeps.\<close>

lemma foldl_keeps:
  "(\<And>acc x. x \<in> set xs \<Longrightarrow> P acc \<Longrightarrow> P (f acc x)) \<Longrightarrow> P acc \<Longrightarrow> P (foldl f acc xs)"
  by (induction xs arbitrary: acc) auto

text \<open>\<open>new Map(pairs)\<close>: a later pair overrides an earlier one with the same key.\<close>

definition new_map :: "('k \<times> 'v) list \<Rightarrow> 'k \<Rightarrow> 'v option" where
  "new_map ps = map_of (rev ps)"

lemma new_map_mem: "new_map ps k = Some v \<Longrightarrow> (k, v) \<in> set ps"
  by (auto simp: new_map_def dest: map_of_SomeD)

lemma new_map_None: "new_map ps k = None \<longleftrightarrow> k \<notin> fst ` set ps"
  by (simp add: new_map_def map_of_eq_None_iff)

lemmas array_eval [js_eval] =
  new_set_def set_add_def set_delete_def new_map_def

end
