(* ===== verification/Js_Regex.thy ===== *)
theory Js_Regex
  imports Js_Strings
begin

text \<open>
  Regular expressions of the language, as the modelled code writes them: a backtracking matcher that
  returns every way to match at a position, in the order in which the language tries them, so that
  the first element is the match the language reports. A position is the consumed text (reversed,
  for \<open>\b\<close> and \<open>^\<close>), the remaining text and the groups captured so far.

  The lemmas say what a match can consume (\<open>rxm_consumes\<close>, \<open>rxm_chars\<close>) and find the first match of
  the deterministic patterns the code uses (\<open>rxf_star_cls\<close> and the lemmas on \<open>rxf\<close>).
\<close>

section \<open>Syntax and matcher\<close>

datatype rx =
    Eps
  | Cls "nat \<Rightarrow> bool"
  | Seq rx rx
  | Alt rx rx
  | Star rx
  | Grp nat rx
  | Bnd "nat \<Rightarrow> bool"
  | Bol
  | Eol
  | Ahead bool rx

type_synonym rx_state = "js \<times> js \<times> (nat \<times> js) list"

abbreviation rx_rest :: "rx_state \<Rightarrow> js" where
  "rx_rest st \<equiv> fst (snd st)"

definition at_word :: "(nat \<Rightarrow> bool) \<Rightarrow> js \<Rightarrow> bool" where
  "at_word w s = (case s of [] \<Rightarrow> False | c # _ \<Rightarrow> w c)"

text \<open>
  An iteration of a loop that consumes nothing is not repeated.
\<close>

definition star_next :: "nat \<Rightarrow> (rx_state \<Rightarrow> rx_state list) \<Rightarrow> rx_state \<Rightarrow> rx_state list" where
  "star_next n f st = (if length (rx_rest st) < n then f st else [])"

lemma star_next_cong [fundef_cong]:
  "m = n \<Longrightarrow> st = st' \<Longrightarrow> (length (rx_rest st') < n \<Longrightarrow> f st' = g st') \<Longrightarrow>
    star_next m f st = star_next n g st'"
  by (simp add: star_next_def)

function (sequential) rxm :: "rx \<Rightarrow> rx_state \<Rightarrow> rx_state list" where
  "rxm Eps st = [st]"
| "rxm (Cls p) (pre, [], caps) = []"
| "rxm (Cls p) (pre, c # cs, caps) = (if p c then [(c # pre, cs, caps)] else [])"
| "rxm (Seq r s) st = concat (map (rxm s) (rxm r st))"
| "rxm (Alt r s) st = rxm r st @ rxm s st"
| "rxm (Star r) st =
     concat (map (star_next (length (rx_rest st)) (rxm (Star r))) (rxm r st)) @ [st]"
| "rxm (Grp i r) (pre, post, caps) =
     map (\<lambda>(pre', post', caps').
       (pre', post', (i, take (length post - length post') post) # caps')) (rxm r (pre, post, caps))"
| "rxm (Bnd w) (pre, post, caps) =
     (if at_word w pre \<noteq> at_word w post then [(pre, post, caps)] else [])"
| "rxm Bol (pre, post, caps) = (if pre = [] then [(pre, post, caps)] else [])"
| "rxm Eol (pre, post, caps) = (if post = [] then [(pre, post, caps)] else [])"
| "rxm (Ahead b r) st = (if (rxm r st \<noteq> []) = b then [st] else [])"
  by pat_completeness auto
termination
  by (relation "measures [\<lambda>(r, st). size r, \<lambda>(r, st). length (rx_rest st)]") auto

declare rxm.simps(6) [simp del]
lemmas rxm_Star = rxm.simps(6)
lemmas rxm_eval [js_eval] = rxm_Star star_next_def at_word_def

section \<open>Derived forms\<close>

definition rx_opt :: "rx \<Rightarrow> rx" where "rx_opt r = Alt r Eps"
definition rx_plus :: "rx \<Rightarrow> rx" where "rx_plus r = Seq r (Star r)"
definition rx_chr :: "nat \<Rightarrow> rx" where "rx_chr c = Cls (\<lambda>x. x = c)"

primrec rx_seqs :: "rx list \<Rightarrow> rx" where
  "rx_seqs [] = Eps"
| "rx_seqs (r # rs) = (if rs = [] then r else Seq r (rx_seqs rs))"

fun rx_alts :: "rx list \<Rightarrow> rx" where
  "rx_alts [] = Cls (\<lambda>_. False)"
| "rx_alts [r] = r"
| "rx_alts (r # rs) = Alt r (rx_alts rs)"

text \<open>
  One letter under the flags \<open>iu\<close>: simple case folding relates the two cases, and the Kelvin sign and
  the long s to \<open>k\<close> and \<open>s\<close>.
\<close>

definition ci_eq :: "nat \<Rightarrow> nat \<Rightarrow> bool" where
  "ci_eq l x \<longleftrightarrow> x = l \<or> (is_lower l \<and> (x + 32 = l \<or> (l = 107 \<and> x = 8490) \<or> (l = 115 \<and> x = 383)))"

definition rx_lit :: "string \<Rightarrow> rx" where "rx_lit s = rx_seqs (map rx_chr (u s))"
definition rx_liti :: "string \<Rightarrow> rx" where "rx_liti s = rx_seqs (map (\<lambda>l. Cls (ci_eq l)) (u s))"

definition rx_digit :: rx where "rx_digit = Cls is_digit"
definition rx_ws :: rx where "rx_ws = Cls is_ws"
definition word_iu :: "nat \<Rightarrow> bool" where "word_iu c \<longleftrightarrow> is_word c \<or> c = 383 \<or> c = 8490"
definition letter_iu :: "nat \<Rightarrow> bool" where
  "letter_iu c \<longleftrightarrow> is_lower c \<or> is_upper c \<or> c = 383 \<or> c = 8490"

primrec rx_rep :: "nat \<Rightarrow> rx \<Rightarrow> rx" where
  "rx_rep 0 r = Eps"
| "rx_rep (Suc n) r = Seq r (rx_rep n r)"

text \<open>\<open>r{0,n}\<close>, greedy.\<close>

primrec rx_upto :: "nat \<Rightarrow> rx \<Rightarrow> rx" where
  "rx_upto 0 r = Eps"
| "rx_upto (Suc n) r = rx_opt (Seq r (rx_upto n r))"

lemmas rx_forms [js_eval] =
  rx_opt_def rx_plus_def rx_chr_def ci_eq_def rx_lit_def rx_liti_def rx_digit_def rx_ws_def
  word_iu_def letter_iu_def

section \<open>Searching and replacing\<close>

definition rxf :: "rx \<Rightarrow> rx_state \<Rightarrow> rx_state option" where
  "rxf r st = (case rxm r st of [] \<Rightarrow> None | x # _ \<Rightarrow> Some x)"

text \<open>The leftmost match: the start of the match (reversed prefix) and the state after it.\<close>

fun rx_from :: "rx \<Rightarrow> js \<Rightarrow> js \<Rightarrow> (js \<times> rx_state) option" where
  "rx_from r pre post =
     (case rxf r (pre, post, []) of
        Some st \<Rightarrow> Some (pre, st)
      | None \<Rightarrow> (case post of [] \<Rightarrow> None | c # cs \<Rightarrow> rx_from r (c # pre) cs))"

declare rx_from.simps [simp del]

definition rx_exec :: "rx \<Rightarrow> js \<Rightarrow> (js \<times> rx_state) option" where
  "rx_exec r s = rx_from r [] s"

definition rx_test :: "rx \<Rightarrow> js \<Rightarrow> bool" where
  "rx_test r s = (rx_exec r s \<noteq> None)"

text \<open>The groups of \<open>s.match(r)\<close>: group 0 is the whole match.\<close>

definition rx_groups :: "rx \<Rightarrow> js \<Rightarrow> (nat \<Rightarrow> js option) option" where
  "rx_groups r s = (case rx_exec r s of
      None \<Rightarrow> None
    | Some (pre, pre', post', caps) \<Rightarrow>
        Some (map_of ((0, rev (take (length pre' - length pre) pre')) # caps)))"

function rx_replace :: "rx \<Rightarrow> js \<Rightarrow> js \<Rightarrow> js \<Rightarrow> js" where
  "rx_replace r t pre post =
     (case rxf r (pre, post, []) of
        None \<Rightarrow> (case post of [] \<Rightarrow> [] | c # cs \<Rightarrow> c # rx_replace r t (c # pre) cs)
      | Some (pre', post', _) \<Rightarrow>
          if length post' < length post then t @ rx_replace r t pre' post'
          else t @ (case post of [] \<Rightarrow> [] | c # cs \<Rightarrow> c # rx_replace r t (c # pre) cs))"
  by pat_completeness auto
termination
  by (relation "measure (\<lambda>(r, t, pre, post). length post)") auto

declare rx_replace.simps [simp del]

text \<open>\<open>s.replace(/r/g, t)\<close> for a replacement text without \<open>$\<close>.\<close>

definition rx_replace_all :: "rx \<Rightarrow> js \<Rightarrow> js \<Rightarrow> js" where
  "rx_replace_all r t s = rx_replace r t [] s"

lemmas rx_search [js_eval] =
  rxf_def rx_from.simps rx_exec_def rx_test_def rx_groups_def rx_replace.simps rx_replace_all_def

section \<open>What a match consumes\<close>

primrec rx_chars :: "(nat \<Rightarrow> bool) \<Rightarrow> rx \<Rightarrow> bool" where
  "rx_chars P Eps = True"
| "rx_chars P (Cls p) = (\<forall>c. p c \<longrightarrow> P c)"
| "rx_chars P (Seq r s) = (rx_chars P r \<and> rx_chars P s)"
| "rx_chars P (Alt r s) = (rx_chars P r \<and> rx_chars P s)"
| "rx_chars P (Star r) = rx_chars P r"
| "rx_chars P (Grp i r) = rx_chars P r"
| "rx_chars P (Bnd w) = True"
| "rx_chars P Bol = True"
| "rx_chars P Eol = True"
| "rx_chars P (Ahead b r) = True"

definition consumes :: "(nat \<Rightarrow> bool) \<Rightarrow> rx_state \<Rightarrow> rx_state \<Rightarrow> bool" where
  "consumes P st st' \<longleftrightarrow>
     (\<exists>w. rx_rest st = w @ rx_rest st' \<and> fst st' = rev w @ fst st \<and> (\<forall>c \<in> set w. P c))"

lemma consumes_refl [simp]: "consumes P st st"
  by (auto simp: consumes_def)

lemma consumes_trans: "consumes P st st' \<Longrightarrow> consumes P st' st'' \<Longrightarrow> consumes P st st''"
proof -
  assume "consumes P st st'" "consumes P st' st''"
  then obtain v w where
    "rx_rest st = v @ rx_rest st'" "fst st' = rev v @ fst st" "\<forall>c \<in> set v. P c"
    "rx_rest st' = w @ rx_rest st''" "fst st'' = rev w @ fst st'" "\<forall>c \<in> set w. P c"
    by (auto simp: consumes_def)
  then show ?thesis unfolding consumes_def by (intro exI [of _ "v @ w"]) auto
qed

lemma rxm_consumes: "rx_chars P r \<Longrightarrow> st' \<in> set (rxm r st) \<Longrightarrow> consumes P st st'"
proof (induction r st arbitrary: st' rule: rxm.induct)
  case (4 r s st)
  then obtain st1 where "st1 \<in> set (rxm r st)" "st' \<in> set (rxm s st1)" by auto
  with 4 show ?case by (meson consumes_trans rx_chars.simps(3))
next
  case (6 r st)
  show ?case
  proof (cases "st' = st")
    case False
    with 6(4) obtain st1 where st1: "st1 \<in> set (rxm r st)"
      "length (rx_rest st1) < length (rx_rest st)" "st' \<in> set (rxm (Star r) st1)"
      by (auto simp: rxm_Star [of r st] star_next_def split: if_splits)
    with 6 show ?thesis by (meson consumes_trans rx_chars.simps(5))
  qed simp
next
  case (7 i r pre post caps)
  then show ?case by (fastforce simp: consumes_def)
next
  case (3 p pre c cs caps)
  then show ?case by (auto simp: consumes_def split: if_splits)
next
  case (5 r s st)
  then have "st' \<in> set (rxm r st) \<or> st' \<in> set (rxm s st)" by simp
  with 5 show ?case by (metis rx_chars.simps(4))
next
  case (11 b r st)
  then have "st' = st" by (simp split: if_splits)
  then show ?case by simp
qed (simp_all split: if_splits)

lemma rxf_Some_in: "rxf r st = Some st' \<Longrightarrow> st' \<in> set (rxm r st)"
  by (auto simp: rxf_def split: list.splits)

lemma rxf_consumes: "rx_chars P r \<Longrightarrow> rxf r st = Some st' \<Longrightarrow> consumes P st st'"
  by (blast intro: rxm_consumes rxf_Some_in)

text \<open>The least number of units a match consumes.\<close>

primrec rx_min :: "rx \<Rightarrow> nat" where
  "rx_min Eps = 0"
| "rx_min (Cls p) = 1"
| "rx_min (Seq r s) = rx_min r + rx_min s"
| "rx_min (Alt r s) = min (rx_min r) (rx_min s)"
| "rx_min (Star r) = 0"
| "rx_min (Grp i r) = rx_min r"
| "rx_min (Bnd w) = 0"
| "rx_min Bol = 0"
| "rx_min Eol = 0"
| "rx_min (Ahead b r) = 0"

lemma rxm_min: "st' \<in> set (rxm r st) \<Longrightarrow> length (rx_rest st') + rx_min r \<le> length (rx_rest st)"
proof (induction r st arbitrary: st' rule: rxm.induct)
  case (4 r s st)
  then obtain st1 where "st1 \<in> set (rxm r st)" "st' \<in> set (rxm s st1)" by auto
  from 4(1) [OF this(1)] 4(2) [OF this] show ?case by simp
next
  case (5 r s st)
  then have "st' \<in> set (rxm r st) \<or> st' \<in> set (rxm s st)" by simp
  then show ?case
  proof
    assume "st' \<in> set (rxm r st)"
    from 5(1) [OF this] show ?case by simp
  next
    assume "st' \<in> set (rxm s st)"
    from 5(2) [OF this] show ?case by simp
  qed
next
  case (6 r st)
  have "rx_chars (\<lambda>_. True) (Star r)" by (induction r) auto
  from rxm_consumes [OF this 6(3)] show ?case by (auto simp: consumes_def)
next
  case (7 i r pre post caps)
  then obtain x where "x \<in> set (rxm r (pre, post, caps))" "rx_rest x = rx_rest st'" by auto
  from 7(1) [OF this(1)] this(2) show ?case by simp
qed (auto split: if_splits)

section \<open>The first match\<close>

lemma rxf_Eps [simp]: "rxf Eps st = Some st"
  by (simp add: rxf_def)

lemma rxf_Cls [simp]:
  "rxf (Cls p) (pre, [], caps) = None"
  "rxf (Cls p) (pre, c # cs, caps) = (if p c then Some (c # pre, cs, caps) else None)"
  by (simp_all add: rxf_def)

lemma rxf_Eol [simp]: "rxf Eol (pre, post, caps) = (if post = [] then Some (pre, post, caps) else None)"
  by (simp add: rxf_def)

lemma rxf_Bol [simp]: "rxf Bol (pre, post, caps) = (if pre = [] then Some (pre, post, caps) else None)"
  by (simp add: rxf_def)

lemma rxf_None: "rxf r st = None \<longleftrightarrow> rxm r st = []"
  by (simp add: rxf_def split: list.splits)

lemma rxf_Seq: "rxf r st = Some st1 \<Longrightarrow> rxf s st1 = Some st2 \<Longrightarrow> rxf (Seq r s) st = Some st2"
  by (auto simp: rxf_def split: list.splits)

lemma rxf_Alt: "rxf (Alt r s) st = (case rxf r st of None \<Rightarrow> rxf s st | Some x \<Rightarrow> Some x)"
  by (auto simp: rxf_def split: list.splits)

lemma rxf_Grp: "rxf r (pre, post, caps) = Some (pre', post', caps') \<Longrightarrow>
  rxf (Grp i r) (pre, post, caps) =
    Some (pre', post', (i, take (length post - length post') post) # caps')"
  by (auto simp: rxf_def split: list.splits)

lemma rxm_star_cls_step:
  "rxm (Star (Cls p)) (pre, [], caps) = [(pre, [], caps)]"
  "rxm (Star (Cls p)) (pre, c # s, caps) =
    (if p c then rxm (Star (Cls p)) (c # pre, s, caps) @ [(pre, c # s, caps)]
     else [(pre, c # s, caps)])"
  by (simp_all add: rxm_Star [of _ "(pre, _, caps)"] star_next_def)

lemma rxm_star_cls:
  "\<forall>c \<in> set w. p c \<Longrightarrow> rest = [] \<or> \<not> p (hd rest) \<Longrightarrow>
    rxm (Star (Cls p)) (pre, w @ rest, caps) =
      rev (map (\<lambda>i. (rev (take i w) @ pre, drop i w @ rest, caps)) [0..<Suc (length w)])"
proof (induction w arbitrary: pre)
  case Nil
  then show ?case by (cases rest) (simp_all add: rxm_star_cls_step del: rxm.simps(6))
next
  case (Cons c w)
  have e: "[0..<Suc (length (c # w))] = 0 # map Suc [0..<Suc (length w)]"
    by (simp add: map_Suc_upt upt_conv_Cons del: upt_Suc)
  from Cons have "rxm (Star (Cls p)) (c # pre, w @ rest, caps) =
      rev (map (\<lambda>i. (rev (take i w) @ c # pre, drop i w @ rest, caps)) [0..<Suc (length w)])"
    by simp
  with Cons.prems show ?case unfolding e
    by (simp add: comp_def rxm_star_cls_step del: upt_Suc rxm.simps(6))
qed

lemma rxf_star_cls:
  "\<forall>c \<in> set w. p c \<Longrightarrow> rest = [] \<or> \<not> p (hd rest) \<Longrightarrow>
    rxf (Star (Cls p)) (pre, w @ rest, caps) = Some (rev w @ pre, rest, caps)"
  unfolding rxf_def by (subst rxm_star_cls) auto

lemma rxf_plus_cls:
  "w \<noteq> [] \<Longrightarrow> \<forall>c \<in> set w. p c \<Longrightarrow> rest = [] \<or> \<not> p (hd rest) \<Longrightarrow>
    rxf (rx_plus (Cls p)) (pre, w @ rest, caps) = Some (rev w @ pre, rest, caps)"
proof (cases w)
  case (Cons c v)
  assume "\<forall>c \<in> set w. p c" "rest = [] \<or> \<not> p (hd rest)"
  with Cons have "rxf (Star (Cls p)) (c # pre, v @ rest, caps) = Some (rev v @ c # pre, rest, caps)"
    and "p c" by (auto intro: rxf_star_cls)
  with Cons show ?thesis unfolding rx_plus_def by (intro rxf_Seq) auto
qed simp

lemma rx_exec_start: "rxf r ([], s, []) = Some st \<Longrightarrow> rx_exec r s = Some ([], st)"
  by (simp add: rx_exec_def rx_from.simps)

text \<open>A pattern that begins with \<open>^\<close> is tried at the start only.\<close>

lemma rx_from_Bol: "pre \<noteq> [] \<Longrightarrow> rx_from (Seq Bol r) pre post = None"
proof (induction "Seq Bol r" pre post rule: rx_from.induct)
  case (1 pre post)
  have "rxf (Seq Bol r) (pre, post, []) = None"
    using "1.prems" by (simp add: rxf_None)
  with "1.hyps" show ?case by (auto simp: rx_from.simps [of _ pre post] split: list.splits)
qed

lemma rxm_Seq_Bol: "rxm (Seq Bol r) ([], s, caps) = rxm r ([], s, caps)"
  by simp

lemma rx_exec_Bol: "rx_exec (Seq Bol r) s = map_option (Pair []) (rxf r ([], s, []))"
proof -
  have f: "rxf (Seq Bol r) ([], s, []) = rxf r ([], s, [])" by (simp add: rxf_def)
  show ?thesis
  proof (cases "rxf r ([], s, [])")
    case None
    with f have n: "rxf (Seq Bol r) ([], s, []) = None" by simp
    have "rx_from (Seq Bol r) [] s = None"
      by (subst rx_from.simps) (auto simp: n rx_from_Bol split: list.splits)
    with None show ?thesis by (simp add: rx_exec_def)
  next
    case (Some st)
    then show ?thesis by (simp add: rx_exec_def rx_from.simps [of _ "[]" s] f)
  qed
qed

lemma rx_test_Bol: "rx_test (Seq Bol r) s = (rxm r ([], s, []) \<noteq> [])"
  by (simp add: rx_test_def rx_exec_Bol rxf_None)

end
