(* ===== verification/Sql_Scanner.thy ===== *)
theory Sql_Scanner
  imports Js_Regex
begin

text \<open>
  The two SQL scanners: \<open>features/query/sqlSelection.ts\<close> (which statement the editor executes) and
  \<open>features/mcp/sqlReview.ts\<close> (how many statements a proposal holds). The loops over an index are
  recursions on the remaining text; \<open>skipQuoted\<close> and \<open>skipTo\<close> keep the index, and their lemmas relate
  them to the suffixes \<open>after_quoted\<close> and \<open>after_text\<close> on which the proofs run.
\<close>

section \<open>Statement under the cursor\<close>

datatype ScannerState =
  normal | single_quote | double_quote | backtick | line_comment | block_comment

record SqlSelection =
  sel_start :: nat
  sel_end :: nat

definition isMySqlDashCommentFollower :: "nat option \<Rightarrow> bool" where
  "isMySqlDashCommentFollower character =
     (case character of None \<Rightarrow> False | Some c \<Rightarrow> is_ws c \<or> c \<le> 31 \<or> c = 127)"

definition quote_of :: "ScannerState \<Rightarrow> nat" where
  "quote_of state =
     (if state = single_quote then QUOTE else if state = double_quote then DQUOTE else BACKTICK)"

text \<open>
  One turn of the scanner's loop away from the delimiter: the next state and the number of units
  consumed (2 where the loop body advances \<open>index\<close> itself).
\<close>

definition scan_step :: "ScannerState \<Rightarrow> nat \<Rightarrow> js \<Rightarrow> ScannerState \<times> nat" where
  "scan_step state c cs =
     (if state = line_comment then (if c = NEWLINE \<or> c = CARRIAGE then normal else line_comment, 1)
      else if state = block_comment then
        (if c = 42 \<and> at cs 0 = Some 47 then (normal, 2) else (block_comment, 1))
      else if state \<noteq> normal then
        (if c = BACKSLASH then (state, 2)
         else if c = quote_of state \<and> at cs 0 = Some (quote_of state) then (state, 2)
         else if c = quote_of state then (normal, 1)
         else (state, 1))
      else if c = QUOTE then (single_quote, 1)
      else if c = DQUOTE then (double_quote, 1)
      else if c = BACKTICK then (backtick, 1)
      else if c = 35 then (line_comment, 1)
      else if c = 45 \<and> at cs 0 = Some 45 \<and> isMySqlDashCommentFollower (at cs 1) then (line_comment, 2)
      else if c = 47 \<and> at cs 0 = Some 42 then (block_comment, 2)
      else (normal, 1))"

lemma scan_step_pos: "0 < snd (scan_step state c cs)" "snd (scan_step state c cs) \<le> 2"
  by (auto simp: scan_step_def)

function sql_scan :: "js \<Rightarrow> nat \<Rightarrow> ScannerState \<Rightarrow> nat \<Rightarrow> nat \<Rightarrow> js \<Rightarrow> js" where
  "sql_scan sql cursor state statementStart index [] = trim (drop statementStart sql)"
| "sql_scan sql cursor state statementStart index (c # cs) =
     (if state = normal \<and> c = SEMICOLON then
        if cursor \<le> index then trim (slice sql statementStart index)
        else sql_scan sql cursor normal (index + 1) (index + 1) cs
      else sql_scan sql cursor (fst (scan_step state c cs)) statementStart
             (index + snd (scan_step state c cs)) (drop (snd (scan_step state c cs)) (c # cs)))"
  by pat_completeness auto
termination
  using scan_step_pos by (relation "measure (\<lambda>(_, _, _, _, _, r). length r)") (auto simp: Suc_le_eq)

definition sqlToExecute :: "js \<Rightarrow> SqlSelection option \<Rightarrow> int \<Rightarrow> js" where
  "sqlToExecute sql selection cursorOffset =
     (let selectedSql = (case selection of
            None \<Rightarrow> [] | Some s \<Rightarrow> trim (slice sql (sel_start s) (sel_end s)));
          cursor = nat (max 0 (min cursorOffset (max 0 (int (length sql) - 1))))
      in if selectedSql \<noteq> [] then selectedSql else sql_scan sql cursor normal 0 0 sql)"

lemmas scanner_eval [js_eval] =
  isMySqlDashCommentFollower_def quote_of_def scan_step_def sqlToExecute_def

text \<open>
  The positions at which the scanner meets a semicolon in the state \<open>normal\<close>; that they are the delimiters is shown
  below (\<open>sql_text_iff\<close>).
\<close>

function delimiters :: "ScannerState \<Rightarrow> nat \<Rightarrow> js \<Rightarrow> nat list" where
  "delimiters state index [] = []"
| "delimiters state index (c # cs) =
     (if state = normal \<and> c = SEMICOLON then index # delimiters normal (index + 1) cs
      else delimiters (fst (scan_step state c cs)) (index + snd (scan_step state c cs))
             (drop (snd (scan_step state c cs)) (c # cs)))"
  by pat_completeness auto
termination
  using scan_step_pos by (relation "measure (\<lambda>(_, _, r). length r)") (auto simp: Suc_le_eq)

text \<open>The statement spans: from a start to the next delimiter, and the text after the last one.\<close>

fun spans :: "nat \<Rightarrow> nat \<Rightarrow> nat list \<Rightarrow> (nat \<times> nat) list" where
  "spans len s [] = [(s, len)]"
| "spans len s (d # ds) = (s, d) # spans len (Suc d) ds"

text \<open>The first span that does not end before the cursor.\<close>

fun span_at :: "nat \<Rightarrow> (nat \<times> nat) list \<Rightarrow> nat \<times> nat" where
  "span_at cursor [] = (0, 0)"
| "span_at cursor [sp] = sp"
| "span_at cursor (sp # q # sps) = (if cursor \<le> snd sp then sp else span_at cursor (q # sps))"

lemma spans_not_Nil [simp]: "spans len s ds \<noteq> []"
  by (cases ds) auto

lemma span_at_Cons: "sps \<noteq> [] \<Longrightarrow>
    span_at cursor (sp # sps) = (if cursor \<le> snd sp then sp else span_at cursor sps)"
  by (cases sps) auto

lemma sql_scan_span:
  "sql_scan sql cursor state start index rest =
     (case span_at cursor (spans (length sql) start (delimiters state index rest)) of
        (s, e) \<Rightarrow> trim (slice sql s e))"
proof (induction sql cursor state start index rest rule: sql_scan.induct)
  case (1 sql cursor state start index)
  then show ?case by (simp add: slice_def)
next
  case (2 sql cursor state start index c cs)
  then show ?case by (cases "state = normal \<and> c = SEMICOLON") (auto simp: span_at_Cons split: if_splits)
qed

lemma delimiters_ge: "d \<in> set (delimiters state index rest) \<Longrightarrow> index \<le> d"
proof (induction state index rest rule: delimiters.induct)
  case (2 state index c cs)
  show ?case
  proof (cases "state = normal \<and> c = SEMICOLON")
    case True
    with 2 show ?thesis by fastforce
  next
    case False
    with 2(3) have "d \<in> set (delimiters (fst (scan_step state c cs)) (index + snd (scan_step state c cs))
        (drop (snd (scan_step state c cs)) (c # cs)))" by auto
    from 2(2) [OF False this] show ?thesis by simp
  qed
qed simp

lemma delimiters_char:
  "d \<in> set (delimiters state index rest) \<Longrightarrow> d - index < length rest \<and> rest ! (d - index) = SEMICOLON"
proof (induction state index rest rule: delimiters.induct)
  case (2 state index c cs)
  show ?case
  proof (cases "state = normal \<and> c = SEMICOLON")
    case True
    show ?thesis
    proof (cases "d = index")
      case False
      with True 2(3) have d: "d \<in> set (delimiters normal (index + 1) cs)" by auto
      then have "index + 1 \<le> d" by (rule delimiters_ge)
      moreover from this have "d - index = Suc (d - (index + 1))" by simp
      ultimately show ?thesis using 2(1) [OF True d] by simp
    qed (use True in simp)
  next
    case False
    let ?n = "snd (scan_step state c cs)"
    from False 2(3) have d: "d \<in> set (delimiters (fst (scan_step state c cs)) (index + ?n)
        (drop ?n (c # cs)))" by auto
    then have ge: "index + ?n \<le> d" by (rule delimiters_ge)
    note ih = 2(2) [OF False d]
    from ge have e: "d - index = ?n + (d - (index + ?n))" by simp
    from ih have l: "?n + (d - (index + ?n)) < length (c # cs)"
      unfolding length_drop by linarith
    then have "(c # cs) ! (?n + (d - (index + ?n))) = drop ?n (c # cs) ! (d - (index + ?n))"
      by (metis less_imp_le_nat add_leE nth_drop)
    with ih l show ?thesis unfolding e by simp
  qed
qed simp

lemma delimiters_sorted: "sorted_wrt (<) (delimiters state index rest)"
proof (induction state index rest rule: delimiters.induct)
  case (2 state index c cs)
  then show ?case
    by (cases "state = normal \<and> c = SEMICOLON") (auto dest: delimiters_ge)
qed simp

text \<open>The chosen span lies around the cursor and between neighbouring delimiters.\<close>

lemma span_at_bounds:
  "sorted_wrt (<) ds \<Longrightarrow> s \<le> cursor \<Longrightarrow> \<forall>d \<in> set ds. s \<le> d \<and> d < len \<Longrightarrow> cursor \<le> len \<Longrightarrow>
    span_at cursor (spans len s ds) = (a, b) \<Longrightarrow>
    s \<le> a \<and> a \<le> cursor \<and> cursor \<le> b \<and> b \<le> len \<and> (a = s \<or> a - 1 \<in> set ds) \<and> (b = len \<or> b \<in> set ds)
      \<and> (\<forall>d \<in> set ds. \<not> (a \<le> d \<and> d < b))"
proof (induction ds arbitrary: s)
  case (Cons d ds)
  show ?case
  proof (cases "cursor \<le> d")
    case True
    with Cons.prems show ?thesis by (auto simp: span_at_Cons)
  next
    case False
    with Cons.prems have "span_at cursor (spans len (Suc d) ds) = (a, b)" by (simp add: span_at_Cons)
    with False Cons.prems have ih: "Suc d \<le> a \<and> a \<le> cursor \<and> cursor \<le> b \<and> b \<le> len \<and>
        (a = Suc d \<or> a - 1 \<in> set ds) \<and> (b = len \<or> b \<in> set ds) \<and> (\<forall>d \<in> set ds. \<not> (a \<le> d \<and> d < b))"
      by (intro Cons.IH) (auto simp: Suc_le_eq)
    with Cons.prems show ?thesis by auto
  qed
qed auto

section \<open>What a delimiter is\<close>

text \<open>
  The lexical rules that \<open>sqlToExecute\<close> documents, without the scanner: a text is a sequence of quoted pieces (a
  backslash takes the next unit, a doubled quote stands for itself), line comments, block comments, delimiters and
  other units; the last piece may be left open. \<open>sql_text i s ds\<close> says that a text at position \<open>i\<close> has its delimiters
  at the positions \<open>ds\<close>.
\<close>

inductive quoted_text :: "nat \<Rightarrow> js \<Rightarrow> bool" for q where
  quoted_end: "quoted_text q []"
| quoted_unit: "c \<noteq> q \<Longrightarrow> c \<noteq> BACKSLASH \<Longrightarrow> quoted_text q w \<Longrightarrow> quoted_text q (c # w)"
| quoted_escape: "quoted_text q w \<Longrightarrow> quoted_text q (BACKSLASH # c # w)"
| quoted_double: "quoted_text q w \<Longrightarrow> quoted_text q (q # q # w)"

definition sql_quote :: "nat \<Rightarrow> bool" where
  "sql_quote q \<longleftrightarrow> q = QUOTE \<or> q = DQUOTE \<or> q = BACKTICK"

definition opens_line :: "js \<Rightarrow> bool" where
  "opens_line s \<longleftrightarrow> at s 0 = Some 35 \<or>
     (at s 0 = Some 45 \<and> at s 1 = Some 45 \<and> (\<exists>c. at s 2 = Some c \<and> (is_ws c \<or> c \<le> 31 \<or> c = 127)))"

definition line_end :: "nat \<Rightarrow> bool" where
  "line_end c \<longleftrightarrow> c = NEWLINE \<or> c = CARRIAGE"

definition opens_block :: "js \<Rightarrow> bool" where
  "opens_block s \<longleftrightarrow> at s 0 = Some 47 \<and> at s 1 = Some 42"

fun block_free :: "js \<Rightarrow> bool" where
  "block_free (c # d # s) = (\<not> (c = 42 \<and> d = 47) \<and> block_free (d # s))"
| "block_free s = True"

inductive sql_text :: "nat \<Rightarrow> js \<Rightarrow> nat list \<Rightarrow> bool" where
  text_end: "sql_text i [] []"
| text_delimiter: "sql_text (i + 1) s ds \<Longrightarrow> sql_text i (SEMICOLON # s) (i # ds)"
| text_quoted: "sql_quote q \<Longrightarrow> quoted_text q w \<Longrightarrow> at s 0 \<noteq> Some q \<Longrightarrow> sql_text (i + length w + 2) s ds \<Longrightarrow>
    sql_text i (q # w @ q # s) ds"
| text_open_quote: "sql_quote q \<Longrightarrow> quoted_text q w \<Longrightarrow> t = w \<or> t = w @ [BACKSLASH] \<Longrightarrow> sql_text i (q # t) []"
| text_line: "p = [35] \<or> p = [45, 45] \<Longrightarrow> opens_line (p @ w @ e # s) \<Longrightarrow> \<forall>c \<in> set w. \<not> line_end c \<Longrightarrow> line_end e \<Longrightarrow>
    sql_text (i + length p + length w + 1) s ds \<Longrightarrow> sql_text i (p @ w @ e # s) ds"
| text_open_line: "p = [35] \<or> p = [45, 45] \<Longrightarrow> opens_line (p @ w) \<Longrightarrow> \<forall>c \<in> set w. \<not> line_end c \<Longrightarrow> sql_text i (p @ w) []"
| text_block: "block_free w \<Longrightarrow> sql_text (i + length w + 4) s ds \<Longrightarrow> sql_text i (47 # 42 # w @ 42 # 47 # s) ds"
| text_open_block: "block_free w \<Longrightarrow> sql_text i (47 # 42 # w) []"
| text_unit: "\<not> sql_quote c \<Longrightarrow> c \<noteq> SEMICOLON \<Longrightarrow> \<not> opens_line (c # s) \<Longrightarrow> \<not> opens_block (c # s) \<Longrightarrow>
    sql_text (i + 1) s ds \<Longrightarrow> sql_text i (c # s) ds"

text \<open>The scanner inside each kind of piece.\<close>

definition quote_state :: "nat \<Rightarrow> ScannerState" where
  "quote_state q = (if q = QUOTE then single_quote else if q = DQUOTE then double_quote else backtick)"

lemma quote_state_of: "sql_quote q \<Longrightarrow> quote_of (quote_state q) = q"
  by (auto simp: sql_quote_def quote_state_def quote_of_def)

lemma quote_state_neq [simp]:
  "quote_state q \<noteq> normal" "quote_state q \<noteq> line_comment" "quote_state q \<noteq> block_comment"
  by (simp_all add: quote_state_def)

lemma step_quoted:
  assumes "sql_quote q"
  shows "scan_step (quote_state q) c cs =
    (if c = BACKSLASH then (quote_state q, 2) else if c = q \<and> at cs 0 = Some q then (quote_state q, 2)
     else if c = q then (normal, 1) else (quote_state q, 1))"
  using quote_state_of [OF assms] by (simp add: scan_step_def)

lemma quote_not_backslash: "sql_quote q \<Longrightarrow> q \<noteq> BACKSLASH"
  by (auto simp: sql_quote_def)

lemma in_quoted:
  "quoted_text q w \<Longrightarrow> sql_quote q \<Longrightarrow> at s 0 \<noteq> Some q \<Longrightarrow>
    delimiters (quote_state q) i (w @ q # s) = delimiters normal (i + length w + 1) s"
proof (induction arbitrary: i rule: quoted_text.induct)
  case quoted_end
  then show ?case by (simp add: step_quoted quote_not_backslash)
next
  case (quoted_double w)
  then show ?case by (simp add: step_quoted quote_not_backslash)
qed (simp_all add: step_quoted)

lemma in_open_quote:
  "quoted_text q w \<Longrightarrow> sql_quote q \<Longrightarrow> delimiters (quote_state q) i w = [] \<and> delimiters (quote_state q) i (w @ [BACKSLASH]) = []"
  by (induction arbitrary: i rule: quoted_text.induct) (simp_all add: step_quoted quote_not_backslash)

lemma step_line: "scan_step line_comment c cs = (if line_end c then normal else line_comment, 1)"
  by (simp add: scan_step_def line_end_def)

lemma in_line:
  "\<forall>c \<in> set w. \<not> line_end c \<Longrightarrow> line_end e \<Longrightarrow>
    delimiters line_comment i (w @ e # s) = delimiters normal (i + length w + 1) s"
  by (induction w arbitrary: i) (simp_all add: step_line)

lemma in_open_line: "\<forall>c \<in> set w. \<not> line_end c \<Longrightarrow> delimiters line_comment i w = []"
  by (induction w arbitrary: i) (simp_all add: step_line)

lemma step_block: "scan_step block_comment c cs = (if c = 42 \<and> at cs 0 = Some 47 then (normal, 2) else (block_comment, 1))"
  by (simp add: scan_step_def)

lemma block_free_step: "block_free (c # w) \<Longrightarrow> block_free w \<and> \<not> (c = 42 \<and> at w 0 = Some 47)"
  by (cases w) auto

lemma in_block:
  "block_free w \<Longrightarrow> delimiters block_comment i (w @ 42 # 47 # s) = delimiters normal (i + length w + 2) s"
proof (induction w arbitrary: i)
  case (Cons c w)
  then have w: "block_free w" "\<not> (c = 42 \<and> at (w @ 42 # 47 # s) 0 = Some 47)"
    using block_free_step [of c w] by (cases w; auto)+
  with Cons.IH [OF w(1)] show ?case by (auto simp: step_block)
qed (simp add: step_block)

lemma in_open_block: "block_free w \<Longrightarrow> delimiters block_comment i w = []"
proof (induction w arbitrary: i)
  case (Cons c w)
  from block_free_step [OF Cons.prems] Cons.IH show ?case by (auto simp: step_block)
qed simp

lemma step_normal:
  "scan_step normal c cs =
    (if sql_quote c then (quote_state c, 1) else if opens_line (c # cs) then (line_comment, if c = 35 then 1 else 2)
     else if opens_block (c # cs) then (block_comment, 2) else (normal, 1))"
proof -
  have "at (c # cs) 0 = Some c" "at (c # cs) 1 = at cs 0" "at (c # cs) 2 = at cs 1" by (auto simp: at_def numeral_2_eq_2)
  then show ?thesis
    by (cases "at cs 1") (auto simp: scan_step_def sql_quote_def quote_state_def opens_line_def opens_block_def
        isMySqlDashCommentFollower_def)
qed

lemma opens_line_start: "opens_line (c # s) \<Longrightarrow> \<not> sql_quote c \<and> c \<noteq> SEMICOLON"
  by (auto simp: opens_line_def sql_quote_def)

lemma sql_text_delimiters: "sql_text i s ds \<Longrightarrow> delimiters normal i s = ds"
proof (induction rule: sql_text.induct)
  case (text_quoted q w s i ds)
  then have "q \<noteq> SEMICOLON" by (auto simp: sql_quote_def)
  with text_quoted in_quoted [of q w s "i + 1"] show ?case by (simp add: step_normal)
next
  case (text_open_quote q w t i)
  then have "q \<noteq> SEMICOLON" by (auto simp: sql_quote_def)
  with text_open_quote in_open_quote [of q w "i + 1"] show ?case by (auto simp: step_normal)
next
  case (text_line p w e s i ds)
  with opens_line_start [of "hd p" "tl p @ w @ e # s"] in_line [of w e "i + length p" s] show ?case
    by (auto simp: step_normal)
next
  case (text_open_line p w i)
  with opens_line_start [of "hd p" "tl p @ w"] in_open_line [of w "i + length p"] show ?case
    by (auto simp: step_normal)
next
  case (text_block w i s ds)
  with in_block [of w "i + 2" s] show ?case
    by (simp add: step_normal sql_quote_def opens_line_def opens_block_def eval_nat_numeral)
next
  case (text_open_block w i)
  with in_open_block [of w "i + 2"] show ?case
    by (simp add: step_normal sql_quote_def opens_line_def opens_block_def)
next
  case (text_unit c s i ds)
  then show ?case by (simp add: step_normal)
qed simp_all

text \<open>Every text is made of such pieces.\<close>

lemma quoted_split:
  "(\<exists>w r. s = w @ q # r \<and> quoted_text q w \<and> at r 0 \<noteq> Some q) \<or>
   (\<exists>w. quoted_text q w \<and> (s = w \<or> s = w @ [BACKSLASH]))"
proof (induction "length s" arbitrary: s rule: less_induct)
  case less
  have prefix: ?case if "s = p @ t" "p \<noteq> []" "\<And>w. quoted_text q w \<Longrightarrow> quoted_text q (p @ w)" for p t
  proof -
    from that(1,2) have "length t < length s" by simp
    from less [OF this] show ?thesis
    proof
      assume "\<exists>w r. t = w @ q # r \<and> quoted_text q w \<and> at r 0 \<noteq> Some q"
      then obtain w r where "t = w @ q # r" "quoted_text q w" "at r 0 \<noteq> Some q" by blast
      with that show ?thesis by (intro disjI1 exI [of _ "p @ w"] exI [of _ r]) simp
    next
      assume "\<exists>w. quoted_text q w \<and> (t = w \<or> t = w @ [BACKSLASH])"
      then obtain w where "quoted_text q w" "t = w \<or> t = w @ [BACKSLASH]" by blast
      with that show ?thesis by (intro disjI2 exI [of _ "p @ w"]) auto
    qed
  qed
  show ?case
  proof (cases s)
    case Nil
    then show ?thesis by (auto intro: quoted_end)
  next
    case s: (Cons c t)
    consider (close) "c = q" "at t 0 \<noteq> Some q" | (double) "c = q" "at t 0 = Some q"
      | (escape) "c \<noteq> q" "c = BACKSLASH" | (unit) "c \<noteq> q" "c \<noteq> BACKSLASH" by blast
    then show ?thesis
    proof cases
      case close
      with s show ?thesis by (intro disjI1 exI [of _ "[]"] exI [of _ t]) (simp add: quoted_end)
    next
      case double
      then obtain r where "t = q # r" by (cases t) auto
      with s double prefix [of "[q, q]" r] show ?thesis by (simp add: quoted_double)
    next
      case escape
      show ?thesis
      proof (cases t)
        case Nil
        with s escape show ?thesis by (auto intro!: exI [of _ "[]"] quoted_end)
      next
        case (Cons d r)
        with s escape prefix [of "[BACKSLASH, d]" r] show ?thesis by (simp add: quoted_escape)
      qed
    next
      case unit
      with s prefix [of "[c]" t] show ?thesis by (simp add: quoted_unit)
    qed
  qed
qed

lemma block_split: "(\<exists>w r. s = w @ 42 # 47 # r \<and> block_free w) \<or> block_free s"
proof (induction s)
  case (Cons c s)
  show ?case
  proof (cases "c = 42 \<and> at s 0 = Some 47")
    case True
    then obtain r where "c # s = [] @ 42 # 47 # r \<and> block_free []" by (cases s) auto
    then show ?thesis by blast
  next
    case False
    have keep: "block_free (c # w)" if "block_free w" "at w 0 = None \<or> at w 0 = at s 0" for w
      using that False by (cases w) auto
    from Cons.IH show ?thesis
    proof
      assume "\<exists>w r. s = w @ 42 # 47 # r \<and> block_free w"
      then obtain w r where w: "s = w @ 42 # 47 # r" "block_free w" by blast
      then have "block_free (c # w)" by (intro keep) (cases w; simp)+
      with w show ?thesis by (intro disjI1 exI [of _ "c # w"] exI [of _ r]) simp
    next
      assume "block_free s"
      then have "block_free (c # s)" by (rule keep) simp
      then show ?thesis by (rule disjI2)
    qed
  qed
qed simp

lemma line_split: "(\<exists>w e r. s = w @ e # r \<and> (\<forall>c \<in> set w. \<not> line_end c) \<and> line_end e) \<or> (\<forall>c \<in> set s. \<not> line_end c)"
  by (metis split_list_first_prop)

lemma sql_text_exists: "\<exists>ds. sql_text i s ds"
proof (induction "length s" arbitrary: i s rule: less_induct)
  case less
  show ?case
  proof (cases s)
    case Nil
    then show ?thesis by (auto intro: text_end)
  next
    case s: (Cons c t)
    consider (quote) "sql_quote c" | (line) "opens_line s" | (block) "opens_block s" | (delimiter) "c = SEMICOLON"
      | (unit) "\<not> sql_quote c" "\<not> opens_line s" "\<not> opens_block s" "c \<noteq> SEMICOLON" by blast
    then show ?thesis
    proof cases
      case quote
      from quoted_split [of t c] show ?thesis
      proof
        assume "\<exists>w r. t = w @ c # r \<and> quoted_text c w \<and> at r 0 \<noteq> Some c"
        then obtain w r where w: "t = w @ c # r" "quoted_text c w" "at r 0 \<noteq> Some c" by blast
        moreover from w s obtain ds where "sql_text (i + length w + 2) r ds" using less [of r] by auto
        ultimately show ?thesis using s quote text_quoted by blast
      qed (use s quote text_open_quote in blast)
    next
      case line
      then obtain p u where p: "p = [35] \<or> p = [45, 45]" "s = p @ u"
      proof (cases "c = 35")
        case False
        with line s obtain r where "s = 45 # 45 # r" by (cases t) (auto simp: opens_line_def at_def split: if_splits)
        then show ?thesis by (intro that [of "[45, 45]" r]) auto
      qed (use s in \<open>auto intro: that [of "[35]"]\<close>)
      from line_split [of u] show ?thesis
      proof
        assume "\<exists>w e r. u = w @ e # r \<and> (\<forall>c \<in> set w. \<not> line_end c) \<and> line_end e"
        then obtain w e r where w: "u = w @ e # r" "\<forall>c \<in> set w. \<not> line_end c" "line_end e" by blast
        moreover from w p obtain ds where "sql_text (i + length p + length w + 1) r ds" using less [of r] by auto
        ultimately show ?thesis using p line text_line by blast
      qed (use p line text_open_line in blast)
    next
      case block
      with s obtain u where u: "s = 47 # 42 # u" by (cases t) (auto simp: opens_block_def)
      from block_split [of u] show ?thesis
      proof
        assume "\<exists>w r. u = w @ 42 # 47 # r \<and> block_free w"
        then obtain w r where w: "u = w @ 42 # 47 # r" "block_free w" by blast
        moreover from w u obtain ds where "sql_text (i + length w + 4) r ds" using less [of r] by auto
        ultimately show ?thesis using u text_block by blast
      qed (use u text_open_block in blast)
    next
      case delimiter
      from s obtain ds where "sql_text (i + 1) t ds" using less [of t] by auto
      with s delimiter show ?thesis using text_delimiter by blast
    next
      case unit
      from s obtain ds where "sql_text (i + 1) t ds" using less [of t] by auto
      with s unit show ?thesis using text_unit by blast
    qed
  qed
qed

lemma sql_text_iff: "sql_text i s ds \<longleftrightarrow> ds = delimiters normal i s"
  using sql_text_exists [of i s] sql_text_delimiters by metis

text \<open>C19: Without a selection, the text executed is the trimmed statement around the cursor: the
  span from the start or the last delimiter before it to the next delimiter or the end, with no delimiter inside. The
  delimiters are those of the lexical rules of \<open>sql_text\<close>, which every text satisfies for exactly one list: semicolons
  outside quotes and comments.\<close>

theorem sqlToExecute_span:
  "\<exists>ds. (\<forall>ds'. sql_text 0 sql ds' \<longleftrightarrow> ds' = ds)
     \<and> (\<exists>a b. sqlToExecute sql None cursorOffset = trim (slice sql a b)
     \<and> a \<le> nat (max 0 (min cursorOffset (max 0 (int (length sql) - 1))))
     \<and> nat (max 0 (min cursorOffset (max 0 (int (length sql) - 1)))) \<le> b \<and> b \<le> length sql
     \<and> (a = 0 \<or> a - 1 \<in> set ds)
     \<and> (b = length sql \<or> b \<in> set ds)
     \<and> set ds \<inter> {a..<b} = {})"
proof -
  let ?c = "nat (max 0 (min cursorOffset (max 0 (int (length sql) - 1))))"
  let ?ds = "delimiters normal 0 sql"
  obtain a b where ab: "span_at ?c (spans (length sql) 0 ?ds) = (a, b)" by force
  have "\<forall>d \<in> set ?ds. 0 \<le> d \<and> d < length sql"
    using delimiters_char [of _ normal 0 sql] by fastforce
  then have i: "0 \<le> a \<and> a \<le> ?c \<and> ?c \<le> b \<and> b \<le> length sql \<and> (a = 0 \<or> a - 1 \<in> set ?ds)
      \<and> (b = length sql \<or> b \<in> set ?ds) \<and> (\<forall>d \<in> set ?ds. \<not> (a \<le> d \<and> d < b))"
    by (intro span_at_bounds [OF delimiters_sorted _ _ _ ab]) simp_all
  then have "set ?ds \<inter> {a..<b} = {}" by (simp add: disjoint_iff)
  moreover from ab have "sqlToExecute sql None cursorOffset = trim (slice sql a b)"
    by (simp add: sqlToExecute_def sql_scan_span)
  moreover have "\<forall>ds'. sql_text 0 sql ds' \<longleftrightarrow> ds' = ?ds" by (simp add: sql_text_iff)
  ultimately show ?thesis using i by blast
qed

section \<open>Counting the statements of a proposal\<close>

definition SQL_PREVIEW_LINE_LIMIT :: nat where "SQL_PREVIEW_LINE_LIMIT = 12"

function skip_quoted_from :: "js \<Rightarrow> nat \<Rightarrow> nat \<Rightarrow> nat" where
  "skip_quoted_from sql quote index =
     (case at sql index of
        None \<Rightarrow> length sql
      | Some character \<Rightarrow>
          if character = BACKSLASH then skip_quoted_from sql quote (index + 2)
          else if character = quote then
            (if at sql (index + 1) = Some quote then skip_quoted_from sql quote (index + 2)
             else index + 1)
          else skip_quoted_from sql quote (index + 1))"
  by pat_completeness auto
termination
  by (relation "measure (\<lambda>(sql, _, i). length sql - i)") auto

declare skip_quoted_from.simps [simp del]

definition skipQuoted :: "js \<Rightarrow> nat \<Rightarrow> nat \<Rightarrow> nat" where
  "skipQuoted sql start quote = skip_quoted_from sql quote (start + 1)"

definition skipTo :: "js \<Rightarrow> nat \<Rightarrow> js \<Rightarrow> nat" where
  "skipTo sql start terminator =
     (case index_from start (drop start sql) terminator of
        None \<Rightarrow> length sql | Some found \<Rightarrow> found + length terminator)"

lemma skip_quoted_from_bounds:
  "index \<le> length sql \<Longrightarrow> index \<le> skip_quoted_from sql quote index \<and> skip_quoted_from sql quote index \<le> length sql"
proof (induction sql quote index rule: skip_quoted_from.induct)
  case (1 sql quote index)
  show ?case
  proof (cases "at sql index")
    case None
    with 1(4) show ?thesis by (simp add: skip_quoted_from.simps [of sql quote index])
  next
    case (Some c)
    then have l: "index < length sql" by auto
    have out: "skip_quoted_from sql quote (index + 2) = length sql" if "\<not> index + 2 \<le> length sql"
      using that by (subst skip_quoted_from.simps) (simp add: at_def)
    show ?thesis
      using 1(1-3) Some l out
      by (cases "index + 2 \<le> length sql")
        (auto simp: skip_quoted_from.simps [of sql quote index])
  qed
qed

lemma index_from_bounds: "index_from i s p = Some j \<Longrightarrow> i \<le> j \<and> j + length p \<le> i + length s"
proof (induction i s p rule: index_from.induct)
  case (1 i s p)
  show ?case
  proof (cases "starts_with s p")
    case True
    with 1(2) show ?thesis by (auto simp: index_from.simps [of i s p] starts_with_iff)
  next
    case False
    with 1(2) obtain c t where s: "s = c # t" and "index_from (Suc i) t p = Some j"
      by (auto simp: index_from.simps [of i s p] split: list.splits)
    with 1(1) [OF False s] show ?thesis by simp
  qed
qed

lemma skipTo_bounds:
  "start \<le> length sql \<Longrightarrow> start \<le> skipTo sql start t \<and> skipTo sql start t \<le> length sql"
  by (auto simp: skipTo_def split: option.splits dest: index_from_bounds)

text \<open>An offset of the search makes the result lie behind the character at \<open>index\<close>.\<close>

lemma skipTo_gt:
  "index < length sql \<Longrightarrow> sql ! index = c \<Longrightarrow> t \<noteq> [] \<Longrightarrow> hd t \<noteq> c \<Longrightarrow> index < skipTo sql index t"
proof -
  assume a: "index < length sql" "sql ! index = c" "t \<noteq> []" "hd t \<noteq> c"
  then obtain cs where d: "drop index sql = c # cs" by (metis Cons_nth_drop_Suc)
  from a have "\<not> starts_with (c # cs) t" by (cases t) auto
  then show ?thesis
    using a(1) unfolding skipTo_def d
    by (auto simp: index_from.simps [of index "c # cs"] split: option.splits dest: index_from_bounds)
qed

function count_loop :: "js \<Rightarrow> nat \<Rightarrow> nat \<Rightarrow> bool \<Rightarrow> nat" where
  "count_loop sql index statements hasContent =
     (case at sql index of
        None \<Rightarrow> if hasContent then statements + 1 else statements
      | Some character \<Rightarrow>
          if character = QUOTE \<or> character = DQUOTE \<or> character = BACKTICK then
            count_loop sql (skipQuoted sql index character) statements True
          else if character = 45 \<and> at sql (index + 1) = Some 45 then
            count_loop sql (skipTo sql index [NEWLINE]) statements hasContent
          else if character = 35 then
            count_loop sql (skipTo sql index [NEWLINE]) statements hasContent
          else if character = 47 \<and> at sql (index + 1) = Some 42 then
            count_loop sql (skipTo sql (index + 2) [42, 47]) statements hasContent
          else if character = SEMICOLON then
            (if hasContent then count_loop sql (index + 1) (statements + 1) False
             else count_loop sql (index + 1) statements hasContent)
          else if trim [character] \<noteq> [] then count_loop sql (index + 1) statements True
          else count_loop sql (index + 1) statements hasContent)"
  by pat_completeness auto
termination
proof (relation "measure (\<lambda>(sql, i, _). length sql - i)", goal_cases)
  case (2 sql index statements hasContent character)
  then have "index + 1 \<le> skipQuoted sql index character"
    using skip_quoted_from_bounds [of "index + 1" sql character]
    by (auto simp: skipQuoted_def)
  with 2 show ?case by auto
next
  case (3 sql index statements hasContent character)
  then have "index < length sql" "sql ! index = 45" by auto
  with skipTo_gt [of index sql 45 "[NEWLINE]"] show ?case by auto
next
  case (4 sql index statements hasContent character)
  then have "index < length sql" "sql ! index = 35" by auto
  with skipTo_gt [of index sql 35 "[NEWLINE]"] show ?case by auto
next
  case (5 sql index statements hasContent character)
  then have "index + 2 \<le> length sql" by (auto simp: at_def split: if_splits)
  with skipTo_bounds [of "index + 2" sql "[42, 47]"] show ?case by auto
qed auto

declare count_loop.simps [simp del]

definition countSqlStatements :: "js \<Rightarrow> nat" where
  "countSqlStatements sql = count_loop sql 0 0 False"

record SqlReviewSummary =
  lineCount :: nat
  charCount :: nat
  collapsible :: bool
  previewText :: js
  hiddenLineCount :: nat
  statementCount :: nat

definition summarizeSqlForReview :: "js \<Rightarrow> SqlReviewSummary" where
  "summarizeSqlForReview sql =
     (let normalized = trim_end sql;
          lines = split_on NEWLINE normalized;
          previewLines = take SQL_PREVIEW_LINE_LIMIT lines
      in \<lparr> lineCount = length lines,
           charCount = length normalized,
           collapsible = (length lines > SQL_PREVIEW_LINE_LIMIT),
           previewText = join [NEWLINE] previewLines,
           hiddenLineCount = nat (max 0 (int (length lines) - int (length previewLines))),
           statementCount = countSqlStatements normalized \<rparr>)"

lemmas review_eval [js_eval] =
  SQL_PREVIEW_LINE_LIMIT_def skip_quoted_from.simps skipQuoted_def skipTo_def count_loop.simps
  countSqlStatements_def summarizeSqlForReview_def

section \<open>The counter on suffixes\<close>

fun after_quoted :: "nat \<Rightarrow> js \<Rightarrow> js" where
  "after_quoted q [] = []"
| "after_quoted q (c # cs) =
     (if c = BACKSLASH then after_quoted q (drop 1 cs)
      else if c = q then (if at cs 0 = Some q then after_quoted q (drop 1 cs) else cs)
      else after_quoted q cs)"

fun after_text :: "js \<Rightarrow> js \<Rightarrow> js" where
  "after_text t [] = []"
| "after_text t (c # cs) =
     (if starts_with (c # cs) t then drop (length t) (c # cs) else after_text t cs)"

lemma length_after_quoted: "length (after_quoted q s) \<le> length s"
  by (induction q s rule: after_quoted.induct) (auto simp: le_SucI)

lemma length_after_text: "length (after_text t s) \<le> length s"
  by (induction s) (auto simp: le_SucI)

lemma at_drop: "at s (i + n) = at (drop i s) n"
  by (auto simp: at_def)

lemma drop_at: "at s i = Some c \<Longrightarrow> drop i s = c # drop (Suc i) s"
  by (auto simp: at_def Cons_nth_drop_Suc split: if_splits)

lemma drop_skip_quoted: "drop (skip_quoted_from sql q i) sql = after_quoted q (drop i sql)"
proof (induction sql q i rule: skip_quoted_from.induct)
  case (1 sql q i)
  show ?case
  proof (cases "at sql i")
    case None
    then have "drop i sql = []" by (simp add: at_None)
    with None show ?thesis by (simp add: skip_quoted_from.simps [of sql q i])
  next
    case (Some c)
    then have d: "drop i sql = c # drop (Suc i) sql" by (rule drop_at)
    have a: "at (drop (Suc i) sql) 0 = at sql (i + 1)" by (simp add: at_def)
    show ?thesis using 1 Some
      by (auto simp: skip_quoted_from.simps [of sql q i] d a simp del: at_simps)
  qed
qed

lemma drop_skipTo: "t \<noteq> [] \<Longrightarrow> drop (skipTo sql i t) sql = after_text t (drop i sql)"
proof -
  assume t: "t \<noteq> []"
  have "drop (case index_from i s t of None \<Rightarrow> length sql | Some j \<Rightarrow> j + length t) sql = after_text t s"
    if "s = drop i sql" for s i
    using that t
  proof (induction s arbitrary: i)
    case Nil
    then show ?case by (cases t) (simp_all add: index_from.simps)
  next
    case (Cons c s)
    then have s: "s = drop (Suc i) sql" by (metis drop_Suc list.sel(3) tl_drop)
    show ?case
    proof (cases "starts_with (c # s) t")
      case True
      have "drop (i + length t) sql = drop (length t) (c # s)"
        using Cons.prems(1) by (simp add: drop_drop add.commute)
      with True show ?thesis by (simp add: index_from.simps [of i])
    next
      case False
      with Cons.IH [OF s t] show ?thesis by (simp add: index_from.simps [of i "c # s"])
    qed
  qed
  then show ?thesis by (simp add: skipTo_def)
qed

function stmts :: "js \<Rightarrow> nat \<Rightarrow> bool \<Rightarrow> nat" where
  "stmts [] k h = (if h then k + 1 else k)"
| "stmts (c # cs) k h =
     (if c = QUOTE \<or> c = DQUOTE \<or> c = BACKTICK then stmts (after_quoted c cs) k True
      else if c = 45 \<and> at cs 0 = Some 45 \<or> c = 35 then stmts (after_text [NEWLINE] cs) k h
      else if c = 47 \<and> at cs 0 = Some 42 then stmts (after_text [42, 47] (drop 1 cs)) k h
      else if c = SEMICOLON then stmts cs (if h then k + 1 else k) False
      else stmts cs k (h \<or> \<not> is_ws c))"
  by pat_completeness auto
termination
proof (relation "measure (\<lambda>(s, _). length s)", goal_cases)
  case (4 c cs k h)
  then show ?case using length_after_text [of "[42, 47]" "drop 1 cs"] by (auto simp: le_imp_less_Suc)
qed (auto simp: length_after_quoted length_after_text le_imp_less_Suc)

lemma trim_single: "trim [c] \<noteq> [] \<longleftrightarrow> \<not> is_ws c"
  by (simp add: trim_defs)

lemma count_loop_stmts: "count_loop sql i k h = stmts (drop i sql) k h"
proof (induction sql i k h rule: count_loop.induct)
  case (1 sql i k h)
  show ?case
  proof (cases "at sql i")
    case None
    then have "drop i sql = []" by (simp add: at_None)
    with None show ?thesis by (simp add: count_loop.simps [of sql i])
  next
    case (Some c)
    then have d: "drop i sql = c # drop (Suc i) sql" by (rule drop_at)
    have a: "at sql (i + 1) = at (drop (Suc i) sql) 0" by (simp add: at_def)
    have q: "drop (skipQuoted sql i c) sql = after_quoted c (drop (Suc i) sql)"
      by (simp add: skipQuoted_def drop_skip_quoted)
    have l: "drop (skipTo sql i [NEWLINE]) sql = after_text [NEWLINE] (drop (Suc i) sql)"
      if "c \<noteq> NEWLINE" using that by (simp add: drop_skipTo d)
    have b: "drop (skipTo sql (Suc (Suc i)) [42, 47]) sql = after_text [42, 47] (drop (Suc (Suc i)) sql)"
      by (simp add: drop_skipTo)
    show ?thesis
      unfolding count_loop.simps [of sql i] Some option.case d stmts.simps a
      using 1 [OF Some, unfolded a]
      by (auto simp: q l b trim_single simp del: at_simps trim_defs)
  qed
qed

lemma countSqlStatements_stmts: "countSqlStatements sql = stmts sql 0 False"
  by (simp add: countSqlStatements_def count_loop_stmts)

subsection \<open>Stretches of text that hold no separator\<close>

definition plain_unit :: "nat \<Rightarrow> bool" where
  "plain_unit c \<longleftrightarrow> c \<notin> {QUOTE, DQUOTE, BACKTICK, 45, 35, 47, SEMICOLON}"

lemma stmts_plain:
  "\<forall>c \<in> set w. plain_unit c \<Longrightarrow> stmts (w @ rest) k h = stmts rest k (h \<or> (\<exists>c \<in> set w. \<not> is_ws c))"
  by (induction w arbitrary: h) (auto simp: plain_unit_def)

text \<open>
  \<open>inert w\<close>: after \<open>w\<close> the counter has found content and no separator, whatever follows, provided
  the text that follows does not extend the last token of \<open>w\<close>.
\<close>

definition inert :: "js \<Rightarrow> bool" where
  "inert w \<longleftrightarrow> (\<forall>rest k h. at rest 0 \<noteq> Some QUOTE \<and> at rest 0 \<noteq> Some BACKTICK \<longrightarrow>
     stmts (w @ rest) k h = stmts rest k True)"

lemma inert_append_plain:
  "inert w \<Longrightarrow> \<forall>c \<in> set p. plain_unit c \<Longrightarrow> inert (w @ p)"
proof -
  assume w: "inert w" and p: "\<forall>c \<in> set p. plain_unit c"
  show ?thesis unfolding inert_def
  proof (intro allI impI)
    fix rest k h
    assume r: "at rest 0 \<noteq> Some QUOTE \<and> at rest 0 \<noteq> Some BACKTICK"
    have "at (p @ rest) 0 \<noteq> Some QUOTE \<and> at (p @ rest) 0 \<noteq> Some BACKTICK"
      using p r by (cases p) (auto simp: plain_unit_def)
    with w have "stmts (w @ p @ rest) k h = stmts (p @ rest) k True" by (simp add: inert_def)
    with p show "stmts ((w @ p) @ rest) k h = stmts rest k True" by (simp add: stmts_plain)
  qed
qed

lemma inert_plain: "\<forall>c \<in> set w. plain_unit c \<Longrightarrow> \<exists>c \<in> set w. \<not> is_ws c \<Longrightarrow> inert w"
  by (simp add: inert_def stmts_plain)

text \<open>Plain text before and between inert pieces keeps the whole inert.\<close>

lemma inert_seq:
  "inert v \<Longrightarrow> \<forall>c \<in> set p. plain_unit c \<Longrightarrow> p \<noteq> [] \<Longrightarrow> inert w \<Longrightarrow> inert (v @ p @ w)"
proof -
  assume v: "inert v" and p: "\<forall>c \<in> set p. plain_unit c" "p \<noteq> []" and w: "inert w"
  show ?thesis unfolding inert_def
  proof (intro allI impI)
    fix rest k h
    assume r: "at rest 0 \<noteq> Some QUOTE \<and> at rest 0 \<noteq> Some BACKTICK"
    have "at (p @ w @ rest) 0 \<noteq> Some QUOTE \<and> at (p @ w @ rest) 0 \<noteq> Some BACKTICK"
      using p by (cases p) (auto simp: plain_unit_def)
    with v have "stmts (v @ p @ w @ rest) k h = stmts (p @ w @ rest) k True" by (simp add: inert_def)
    also have "\<dots> = stmts (w @ rest) k True" using p by (simp add: stmts_plain)
    also have "\<dots> = stmts rest k True" using w r by (simp add: inert_def)
    finally show "stmts ((v @ p @ w) @ rest) k h = stmts rest k True" by simp
  qed
qed

lemma inert_prepend: "\<forall>c \<in> set p. plain_unit c \<Longrightarrow> inert w \<Longrightarrow> inert (p @ w)"
  by (auto simp: inert_def stmts_plain)

lemma inert_join:
  "ps \<noteq> [] \<Longrightarrow> \<forall>p \<in> set ps. inert p \<Longrightarrow> \<forall>c \<in> set sep. plain_unit c \<Longrightarrow> sep \<noteq> [] \<Longrightarrow> inert (join sep ps)"
  by (induction sep ps rule: join.induct) (auto intro!: inert_seq)

lemma countSqlStatements_inert: "inert w \<Longrightarrow> countSqlStatements w = 1"
proof -
  assume "inert w"
  then have "stmts (w @ []) 0 False = stmts [] 0 True" unfolding inert_def by (metis at_simps(1) option.distinct(1))
  then show ?thesis by (simp add: countSqlStatements_stmts)
qed

lemma countSqlStatements_inert_semicolon: "inert w \<Longrightarrow> countSqlStatements (w @ [SEMICOLON]) = 1"
proof -
  assume "inert w"
  then have "stmts (w @ [SEMICOLON]) 0 False = stmts [SEMICOLON] 0 True" by (simp add: inert_def)
  then show ?thesis by (simp add: countSqlStatements_stmts)
qed

lemma stmts_inert_all:
  "\<forall>w \<in> set ws. inert w \<Longrightarrow> stmts (concat (map (\<lambda>w. w @ [SEMICOLON]) ws)) k False = k + length ws"
proof (induction ws arbitrary: k)
  case (Cons w ws)
  then have "stmts (w @ SEMICOLON # concat (map (\<lambda>w. w @ [SEMICOLON]) ws)) k False
      = stmts (SEMICOLON # concat (map (\<lambda>w. w @ [SEMICOLON]) ws)) k True"
    by (simp add: inert_def)
  with Cons show ?case by simp
qed simp

text \<open>A batch of statements, each ended by a semicolon, is counted as that many
  statements, whatever quoted text the statements hold.\<close>

theorem countSqlStatements_all:
  assumes "\<forall>w \<in> set ws. inert w"
  shows "countSqlStatements (concat (map (\<lambda>w. w @ [SEMICOLON]) ws)) = length ws"
  using stmts_inert_all [OF assms, of 0] by (simp add: countSqlStatements_stmts)

theorem countSqlStatements_all_witness:
  "countSqlStatements (u ''SELECT 1;SELECT 2;'') = 2"
proof -
  have "\<forall>w \<in> set [u ''SELECT 1'', u ''SELECT 2'']. inert w"
    by (auto intro!: inert_plain simp: plain_unit_def u.simps is_ws_def)
  from countSqlStatements_all [OF this] show ?thesis by (simp add: u.simps)
qed

lemmas plain_eval = plain_unit_def u.simps

end
