(* ===== verification/Sql_Text.thy ===== *)
theory Sql_Text
  imports Sql_Scanner
begin

text \<open>
  Quoting: the ways in which the program turns untrusted text into one token of another language
  (\<open>quoteIdentifier\<close> and \<open>mysqlStringLiteral\<close> of \<open>features/tables/tableSql.ts\<close>,
  \<open>quoteRedisArgument\<close> of \<open>features/redis/redisKeyWorkspace.ts\<close>). The locale \<open>text_codec\<close> is the
  contract they share: the reader of that language takes the token back, whatever follows it. The
  readers are specifications of MySQL's and redis-cli's lexical rules.
\<close>

section \<open>The contract of a quoting function\<close>

locale text_codec =
  fixes enc :: "js \<Rightarrow> js"
    and reader :: "js \<Rightarrow> (js \<times> js) option"
    and stop :: "js \<Rightarrow> bool"
  assumes reader_enc: "stop rest \<Longrightarrow> reader (enc v @ rest) = Some (v, rest)"
    and stop_Nil: "stop []"
begin

lemma enc_inj: "enc v = enc w \<Longrightarrow> v = w"
  by (metis append_Nil2 option.inject prod.inject reader_enc stop_Nil)

lemma enc_split: "enc v @ r = enc w @ s \<Longrightarrow> stop r \<Longrightarrow> stop s \<Longrightarrow> v = w \<and> r = s"
  by (metis option.inject prod.inject reader_enc)

lemma join_enc_inj:
  assumes sep: "\<And>rest. stop (sep @ rest)" "sep \<noteq> []"
  shows "vs \<noteq> [] \<Longrightarrow> ws \<noteq> [] \<Longrightarrow> join sep (map enc vs) = join sep (map enc ws) \<Longrightarrow> vs = ws"
proof (induction vs arbitrary: ws)
  case (Cons v vs)
  then obtain w ws' where ws: "ws = w # ws'" by (cases ws) auto
  show ?case
  proof (cases "vs = [] \<or> ws' = []")
    case True
    let ?tail = "\<lambda>xs. if xs = [] then [] else sep @ join sep (map enc xs)"
    have split: "join sep (map enc (x # xs)) = enc x @ ?tail xs" for x xs
      by (cases xs) auto
    have "enc v @ ?tail vs = enc w @ ?tail ws'"
      using Cons.prems(3) unfolding ws split .
    then have "v = w \<and> ?tail vs = ?tail ws'"
      by (rule enc_split) (auto simp: stop_Nil sep)
    with True sep(2) ws show ?thesis by (auto split: if_splits)
  next
    case False
    then have "enc v @ sep @ join sep (map enc vs) = enc w @ sep @ join sep (map enc ws')"
      using Cons.prems(3) ws by (simp add: join_Cons)
    then have "v = w" "sep @ join sep (map enc vs) = sep @ join sep (map enc ws')"
      using enc_split sep(1) by blast+
    with False Cons.IH [of ws'] ws show ?thesis by simp
  qed
qed simp

end

section \<open>MySQL identifiers\<close>

definition quoteIdentifier :: "js \<Rightarrow> js" where
  "quoteIdentifier identifier =
     [BACKTICK] @ join [BACKTICK, BACKTICK] (split_on BACKTICK identifier) @ [BACKTICK]"

lemma quoteIdentifier_replace:
  "quoteIdentifier s = [BACKTICK] @ replace_char BACKTICK [BACKTICK, BACKTICK] s @ [BACKTICK]"
  by (simp add: quoteIdentifier_def join_split_replace)

text \<open>A quoted identifier in MySQL: a doubled back quote stands for one, a backslash for itself.\<close>

fun read_body :: "nat \<Rightarrow> js \<Rightarrow> (js \<times> js) option" where
  "read_body q [] = None"
| "read_body q [c] = (if c = q then Some ([], []) else None)"
| "read_body q (c # d # cs) =
     (if c = q then
        if d = q then map_option (\<lambda>(v, r). (q # v, r)) (read_body q cs) else Some ([], d # cs)
      else map_option (\<lambda>(v, r). (c # v, r)) (read_body q (d # cs)))"

definition read_identifier :: "js \<Rightarrow> (js \<times> js) option" where
  "read_identifier s = (case s of c # cs \<Rightarrow> if c = BACKTICK then read_body BACKTICK cs else None
                        | [] \<Rightarrow> None)"

lemma read_body_doubled:
  "at rest 0 \<noteq> Some q \<Longrightarrow> read_body q (replace_char q [q, q] v @ q # rest) = Some (v, rest)"
proof (induction v)
  case Nil
  then show ?case by (cases rest) auto
next
  case (Cons c v)
  show ?case
  proof (cases "c = q")
    case False
    obtain d ds where "replace_char q [q, q] v @ q # rest = d # ds"
      by (cases "replace_char q [q, q] v @ q # rest") auto
    with Cons False show ?thesis by simp
  qed (use Cons in simp)
qed

lemma read_identifier_quote:
  "at rest 0 \<noteq> Some BACKTICK \<Longrightarrow> read_identifier (quoteIdentifier v @ rest) = Some (v, rest)"
  by (simp add: quoteIdentifier_replace read_identifier_def read_body_doubled)

interpretation ident: text_codec quoteIdentifier read_identifier "\<lambda>r. at r 0 \<noteq> Some BACKTICK"
  by unfold_locales (auto simp: read_identifier_quote)

section \<open>MySQL string literals\<close>

definition mysqlStringLiteral :: "js \<Rightarrow> js" where
  "mysqlStringLiteral value =
     [QUOTE] @ replace_char QUOTE [QUOTE, QUOTE] (replace_char BACKSLASH [BACKSLASH, BACKSLASH] value)
       @ [QUOTE]"

text \<open>
  A string literal in MySQL: a doubled quote stands for one; a backslash takes the next unit
  (\<open>unescape\<close>, the escape table of the manual, of which the quoting uses \<open>\\\<close> only).
\<close>

definition unescape :: "nat \<Rightarrow> nat" where
  "unescape c = (if c = 48 then 0 else if c = 98 then 8 else if c = 110 then 10
     else if c = 114 then 13 else if c = 116 then 9 else if c = 90 then 26 else c)"

fun read_string_body :: "js \<Rightarrow> (js \<times> js) option" where
  "read_string_body [] = None"
| "read_string_body [c] = (if c = QUOTE then Some ([], []) else None)"
| "read_string_body (c # d # cs) =
     (if c = BACKSLASH then map_option (\<lambda>(v, r). (unescape d # v, r)) (read_string_body cs)
      else if c = QUOTE then
        if d = QUOTE then map_option (\<lambda>(v, r). (QUOTE # v, r)) (read_string_body cs)
        else Some ([], d # cs)
      else map_option (\<lambda>(v, r). (c # v, r)) (read_string_body (d # cs)))"

definition read_string :: "js \<Rightarrow> (js \<times> js) option" where
  "read_string s = (case s of c # cs \<Rightarrow> if c = QUOTE then read_string_body cs else None
                    | [] \<Rightarrow> None)"

text \<open>The two passes of the quoting, unit by unit.\<close>

definition esc_string :: "nat \<Rightarrow> js" where
  "esc_string c = (if c = BACKSLASH then [BACKSLASH, BACKSLASH]
     else if c = QUOTE then [QUOTE, QUOTE] else [c])"

lemma mysqlStringLiteral_esc:
  "mysqlStringLiteral v = QUOTE # concat (map esc_string v) @ [QUOTE]"
proof -
  have "replace_char QUOTE [QUOTE, QUOTE] (replace_char BACKSLASH [BACKSLASH, BACKSLASH] v)
      = concat (map esc_string v)"
    by (induction v) (auto simp: esc_string_def)
  then show ?thesis by (simp add: mysqlStringLiteral_def)
qed

lemma read_string_body_esc:
  "at rest 0 \<noteq> Some QUOTE \<Longrightarrow>
    read_string_body (concat (map esc_string v) @ QUOTE # rest) = Some (v, rest)"
proof (induction v)
  case Nil
  then show ?case by (cases rest) auto
next
  case (Cons c v)
  show ?case
  proof (cases "c = BACKSLASH \<or> c = QUOTE")
    case True
    with Cons show ?thesis by (auto simp: esc_string_def unescape_def)
  next
    case False
    obtain d ds where "concat (map esc_string v) @ QUOTE # rest = d # ds"
      by (cases "concat (map esc_string v) @ QUOTE # rest") auto
    moreover have "esc_string c = [c]" using False by (simp add: esc_string_def)
    ultimately show ?thesis using Cons False by simp
  qed
qed

lemma read_string_literal:
  "at rest 0 \<noteq> Some QUOTE \<Longrightarrow> read_string (mysqlStringLiteral v @ rest) = Some (v, rest)"
  by (simp add: mysqlStringLiteral_esc read_string_def read_string_body_esc)

interpretation strlit: text_codec mysqlStringLiteral read_string "\<lambda>r. at r 0 \<noteq> Some QUOTE"
  by unfold_locales (auto simp: read_string_literal)

section \<open>Redis arguments\<close>

definition quoteRedisArgument :: "js \<Rightarrow> js" where
  "quoteRedisArgument value =
     [DQUOTE] @ replace_char TAB [BACKSLASH, 116] (replace_char CARRIAGE [BACKSLASH, 114]
       (replace_char NEWLINE [BACKSLASH, 110] (replace_char DQUOTE [BACKSLASH, DQUOTE]
         (replace_char BACKSLASH [BACKSLASH, BACKSLASH] value)))) @ [DQUOTE]"

definition esc_redis :: "nat \<Rightarrow> js" where
  "esc_redis c = (if c = BACKSLASH then [BACKSLASH, BACKSLASH]
     else if c = DQUOTE then [BACKSLASH, DQUOTE] else if c = NEWLINE then [BACKSLASH, 110]
     else if c = CARRIAGE then [BACKSLASH, 114] else if c = TAB then [BACKSLASH, 116] else [c])"

lemma esc_redis_passes:
  "replace_char TAB [BACKSLASH, 116] (replace_char CARRIAGE [BACKSLASH, 114]
     (replace_char NEWLINE [BACKSLASH, 110] (replace_char DQUOTE [BACKSLASH, DQUOTE]
       (replace_char BACKSLASH [BACKSLASH, BACKSLASH] [c])))) = esc_redis c"
  by (cases "c = BACKSLASH"; cases "c = DQUOTE"; cases "c = NEWLINE"; cases "c = CARRIAGE";
      cases "c = TAB"; simp add: esc_redis_def)

lemma quoteRedisArgument_esc:
  "quoteRedisArgument v = DQUOTE # concat (map esc_redis v) @ [DQUOTE]"
proof -
  have "replace_char TAB [BACKSLASH, 116] (replace_char CARRIAGE [BACKSLASH, 114]
       (replace_char NEWLINE [BACKSLASH, 110] (replace_char DQUOTE [BACKSLASH, DQUOTE]
         (replace_char BACKSLASH [BACKSLASH, BACKSLASH] v)))) = concat (map esc_redis v)"
  proof (induction v)
    case (Cons c v)
    have "c # v = [c] @ v" by simp
    then show ?case
      by (simp only: replace_char_simps(3) Cons.IH esc_redis_passes list.map concat.simps map_append
          concat_append append_Nil2)
  qed simp
  then show ?thesis by (simp add: quoteRedisArgument_def)
qed

text \<open>
  A double-quoted argument of redis-cli (\<open>sdssplitargs\<close>), without the hexadecimal escape, which the
  quoting never writes: a backslash takes the next unit.
\<close>

definition redis_unescape :: "nat \<Rightarrow> nat" where
  "redis_unescape c = (if c = 110 then 10 else if c = 114 then 13 else if c = 116 then 9
     else if c = 98 then 8 else if c = 97 then 7 else c)"

fun read_redis_body :: "js \<Rightarrow> (js \<times> js) option" where
  "read_redis_body [] = None"
| "read_redis_body (c # cs) =
     (if c = DQUOTE then Some ([], cs)
      else if c = BACKSLASH then
        (case cs of [] \<Rightarrow> None
         | d # ds \<Rightarrow> map_option (\<lambda>(v, r). (redis_unescape d # v, r)) (read_redis_body ds))
      else map_option (\<lambda>(v, r). (c # v, r)) (read_redis_body cs))"

definition read_redis :: "js \<Rightarrow> (js \<times> js) option" where
  "read_redis s = (case s of c # cs \<Rightarrow> if c = DQUOTE then read_redis_body cs else None
                   | [] \<Rightarrow> None)"

lemma read_redis_body_esc:
  "read_redis_body (concat (map esc_redis v) @ DQUOTE # rest) = Some (v, rest)"
  by (induction v) (auto simp: esc_redis_def redis_unescape_def)

lemma read_redis_quote: "read_redis (quoteRedisArgument v @ rest) = Some (v, rest)"
  by (simp add: quoteRedisArgument_esc read_redis_def read_redis_body_esc)

interpretation redis: text_codec quoteRedisArgument read_redis "\<lambda>r. True"
  by unfold_locales (auto simp: read_redis_quote)

lemma quoteRedisArgument_one_line:
  "NEWLINE \<notin> set (quoteRedisArgument v) \<and> CARRIAGE \<notin> set (quoteRedisArgument v)"
proof -
  have "\<forall>d \<in> set (esc_redis c). d \<noteq> NEWLINE \<and> d \<noteq> CARRIAGE" for c
    by (simp add: esc_redis_def)
  then show ?thesis unfolding quoteRedisArgument_esc by fastforce
qed

section \<open>Quoted tokens and the statement counter\<close>

lemma after_quoted_esc:
  "at rest 0 \<noteq> Some QUOTE \<Longrightarrow> after_quoted QUOTE (concat (map esc_string v) @ QUOTE # rest) = rest"
  by (induction v) (auto simp: esc_string_def)

lemma inert_string: "inert (mysqlStringLiteral v)"
  by (auto simp: inert_def mysqlStringLiteral_esc after_quoted_esc)

lemma after_quoted_ident:
  "at rest 0 \<noteq> Some BACKTICK \<Longrightarrow> BACKSLASH \<notin> set v \<Longrightarrow>
    after_quoted BACKTICK (replace_char BACKTICK [BACKTICK, BACKTICK] v @ BACKTICK # rest) = rest"
  by (induction v) auto

lemma inert_ident: "BACKSLASH \<notin> set v \<Longrightarrow> inert (quoteIdentifier v)"
  by (auto simp: inert_def quoteIdentifier_replace after_quoted_ident)

section \<open>What the quoting promises\<close>

text \<open>C18: A quoted identifier is one token: MySQL reads the identifier back, and nothing
  of it leaks into the text that follows.\<close>

theorem quoteIdentifier_reads_back:
  assumes "at rest 0 \<noteq> Some BACKTICK"
  shows "read_identifier (quoteIdentifier identifier @ rest) = Some (identifier, rest)"
  using assms by (rule ident.reader_enc)

theorem quoteIdentifier_reads_back_witness:
  "read_identifier (quoteIdentifier [97, BACKTICK, 98] @ u '' = 1'') = Some ([97, BACKTICK, 98], u '' = 1'')"
  by (rule quoteIdentifier_reads_back) (simp add: u.simps)

text \<open>A string literal is one token whose value is the text, for texts with quotes and
  backslashes too.\<close>

theorem mysqlStringLiteral_reads_back:
  assumes "at rest 0 \<noteq> Some QUOTE"
  shows "read_string (mysqlStringLiteral v @ rest) = Some (v, rest)"
  using assms by (rule strlit.reader_enc)

theorem mysqlStringLiteral_reads_back_witness:
  "read_string (mysqlStringLiteral [BACKSLASH, QUOTE] @ [SEMICOLON]) = Some ([BACKSLASH, QUOTE], [SEMICOLON])"
  by (rule mysqlStringLiteral_reads_back) simp

text \<open>A quoted Redis argument is one line and one token: redis-cli reads the argument
  back, and no line break of it can start another command.\<close>

theorem quoteRedisArgument_one_token:
  "read_redis (quoteRedisArgument v @ rest) = Some (v, rest)
     \<and> NEWLINE \<notin> set (quoteRedisArgument v) \<and> CARRIAGE \<notin> set (quoteRedisArgument v)"
  using redis.reader_enc quoteRedisArgument_one_line by simp

lemmas quoting_eval [js_eval] =
  quoteIdentifier_def mysqlStringLiteral_def quoteRedisArgument_def

end
