(* ===== verification/Column_Types.thy ===== *)
theory Column_Types
  imports Sql_Text
begin

text \<open>
  MySQL column types: the type grammar of the visual structure editor, the parts of a declaration
  and their formatting (\<open>features/tables/tableSql.ts\<close>, from \<open>isStructureColumnEditable\<close> to
  \<open>columnDefaultValidationError\<close>). Every regular expression of the source is one \<open>rx\<close> constant.
\<close>

section \<open>Columns\<close>

record TableColumnDefinition =
  sourceName :: "js option"
  col_name :: js
  col_type :: js
  nullable :: bool
  defaultValue :: "js option"
  defaultExpression :: bool
  comment :: js
  primary :: bool
  extra :: js
  characterSet :: "js option"
  collation :: "js option"
  generationExpression :: js

section \<open>Type grammar\<close>

definition SPATIAL_TYPES :: "string list" where
  "SPATIAL_TYPES = [''geometry'', ''point'', ''linestring'', ''polygon'', ''multipoint'',
     ''multilinestring'', ''multipolygon'', ''geometrycollection'']"

definition MYSQL_VISUAL_BASE_TYPES :: "string list" where
  "MYSQL_VISUAL_BASE_TYPES = [''tinyint'', ''smallint'', ''mediumint'', ''int'', ''integer'',
     ''bigint'', ''decimal'', ''numeric'', ''float'', ''double'', ''real'', ''bit'', ''boolean'',
     ''bool'', ''date'', ''time'', ''datetime'', ''timestamp'', ''year'', ''char'', ''varchar'',
     ''binary'', ''varbinary'', ''tinyblob'', ''blob'', ''mediumblob'', ''longblob'', ''tinytext'',
     ''text'', ''mediumtext'', ''longtext'', ''json'']"

text \<open>\<open>\s*\(\s*\d+(?:\s*,\s*\d+)?\s*\)\<close>, with the digits in group 2 where \<open>g\<close> asks for it.\<close>

definition args_rx :: "bool \<Rightarrow> rx" where
  "args_rx g =
     (let body = Seq (rx_plus rx_digit)
            (rx_opt (rx_seqs [Star rx_ws, rx_chr COMMA, Star rx_ws, rx_plus rx_digit]))
      in rx_seqs [Star rx_ws, rx_chr 40, Star rx_ws, if g then Grp 2 body else body, Star rx_ws, rx_chr 41])"

definition attr_rx :: "string \<Rightarrow> rx" where
  "attr_rx word = Seq (rx_plus rx_ws) (rx_liti word)"

definition safeType :: rx where
  "safeType = Seq Bol (rx_seqs
     [rx_alts (map rx_liti (MYSQL_VISUAL_BASE_TYPES @ SPATIAL_TYPES)),
      rx_opt (args_rx False), rx_opt (attr_rx ''unsigned''), rx_opt (attr_rx ''zerofill''), Eol])"

text \<open>The field type uses syntax that the visual editor does not support; use an explicit ALTER TABLE.\<close>

definition COMPLEX_TYPE :: js where
  "COMPLEX_TYPE = ([23383, 27573, 31867, 22411, 21253, 21547, 21487, 35270, 21270, 32534, 36753, 22120, 19981, 25903, 25345, 30340, 22797, 26434, 35821, 27861, 65292, 35831, 20351, 29992, 26174, 24335] @ u '' ALTER TABLE'')"

definition columnTypeValidationError :: "js \<Rightarrow> js option" where
  "columnTypeValidationError databaseType =
     (if rx_test safeType (trim databaseType) then None else Some COMPLEX_TYPE)"

definition suggestMysqlBaseTypes :: "js \<Rightarrow> nat \<Rightarrow> js list" where
  "suggestMysqlBaseTypes query limit =
     (let normalized = to_lower (trim query);
          types = map u MYSQL_VISUAL_BASE_TYPES;
          prefixMatches = filter (\<lambda>t. starts_with t normalized) types;
          substringMatches = filter (\<lambda>t. \<not> starts_with t normalized \<and> has_sub t normalized) types
      in if normalized = [] then take limit types
         else take limit (prefixMatches @ substringMatches))"

section \<open>Parts of a declaration\<close>

record ParsedMysqlColumnType =
  baseType :: js
  lengthArgs :: "js option"
  unsigned :: bool
  zerofill :: bool

definition UNSIGNED_BASE_TYPES :: "string list" where
  "UNSIGNED_BASE_TYPES = [''tinyint'', ''smallint'', ''mediumint'', ''int'', ''integer'', ''bigint'',
     ''decimal'', ''numeric'', ''float'', ''double'', ''real'']"

definition LENGTH_BASE_TYPES :: "string list" where
  "LENGTH_BASE_TYPES = [''tinyint'', ''smallint'', ''mediumint'', ''int'', ''integer'', ''bigint'',
     ''decimal'', ''numeric'', ''float'', ''double'', ''real'', ''bit'', ''year'', ''char'',
     ''varchar'', ''binary'', ''varbinary'', ''time'', ''datetime'', ''timestamp'']"

definition typeSupportsUnsigned :: "js \<Rightarrow> bool" where
  "typeSupportsUnsigned b = (to_lower (trim b) \<in> set (map u UNSIGNED_BASE_TYPES))"

definition typeSupportsLength :: "js \<Rightarrow> bool" where
  "typeSupportsLength b = (to_lower (trim b) \<in> set (map u LENGTH_BASE_TYPES))"

definition CHARACTER_TYPES :: "string list" where
  "CHARACTER_TYPES = [''char'', ''varchar'', ''tinytext'', ''text'', ''mediumtext'', ''longtext'',
     ''enum'', ''set'']"

definition characterTypeRx :: rx where
  "characterTypeRx = Seq Bol (Seq (rx_alts (map rx_liti CHARACTER_TYPES)) (Bnd word_iu))"

definition typeSupportsCharset :: "js \<Rightarrow> bool" where
  "typeSupportsCharset databaseType = rx_test characterTypeRx (trim databaseType)"

definition columnTypeRx :: rx where
  "columnTypeRx = Seq Bol (rx_seqs
     [Grp 1 (rx_plus (Cls letter_iu)), rx_opt (args_rx True),
      Grp 3 (rx_opt (attr_rx ''unsigned'')), Grp 4 (rx_opt (attr_rx ''zerofill'')), Eol])"

definition strip_ws :: "js \<Rightarrow> js" where
  "strip_ws s = filter (\<lambda>c. \<not> is_ws c) s"

text \<open>\<open>Boolean(match[i])\<close>: a group that took part and is not empty.\<close>

definition truthy :: "js option \<Rightarrow> bool" where
  "truthy g = (case g of None \<Rightarrow> False | Some s \<Rightarrow> s \<noteq> [])"

definition parseMysqlColumnType :: "js \<Rightarrow> ParsedMysqlColumnType option" where
  "parseMysqlColumnType databaseType =
     (case rx_groups columnTypeRx (trim databaseType) of
        None \<Rightarrow> None
      | Some g \<Rightarrow> Some \<lparr>
          baseType = to_lower (case g 1 of None \<Rightarrow> [] | Some s \<Rightarrow> s),
          lengthArgs = (if truthy (g 2) then map_option strip_ws (g 2) else None),
          unsigned = truthy (g 3),
          zerofill = truthy (g 4) \<rparr>)"

definition formatMysqlColumnType :: "ParsedMysqlColumnType \<Rightarrow> js" where
  "formatMysqlColumnType parts =
     (let b0 = to_lower (trim (baseType parts));
          b = (if b0 = [] then u ''varchar'' else b0);
          args = (case lengthArgs parts of None \<Rightarrow> [] | Some a \<Rightarrow> strip_ws a);
          supportsUnsigned = typeSupportsUnsigned b;
          first = (if args \<noteq> [] \<and> typeSupportsLength b then b @ u ''('' @ args @ u '')'' else b)
      in join (u '' '') ([first]
           @ (if supportsUnsigned \<and> unsigned parts then [u ''unsigned''] else [])
           @ (if supportsUnsigned \<and> zerofill parts then [u ''zerofill''] else [])))"

section \<open>Defaults and editability\<close>

text \<open>\<open>type.trim().toLowerCase().match(/^[a-z]+/u)?.[0] ?? ""\<close>\<close>

definition base_type_of :: "js \<Rightarrow> js" where
  "base_type_of databaseType = takeWhile is_lower (to_lower (trim databaseType))"

definition NO_DEFAULT_TYPES :: "string list" where
  "NO_DEFAULT_TYPES = [''bit'', ''binary'', ''varbinary'', ''tinyblob'', ''blob'', ''mediumblob'',
     ''longblob'', ''tinytext'', ''text'', ''mediumtext'', ''longtext'', ''json''] @ SPATIAL_TYPES"

text \<open>Defaults of this type need an explicit typed expression.\<close>

definition ADVANCED_DEFAULT :: js where
  "ADVANCED_DEFAULT =
     ([35813, 31867, 22411, 30340, 40664, 35748, 20540, 38656, 35201, 26174, 24335, 31867, 22411, 34920, 36798, 24335, 65292, 35831, 31227, 38500, 40664, 35748, 20540, 24182, 20351, 29992, 21407, 22987] @ u '' ALTER TABLE'')"

definition columnDefaultValidationError :: "TableColumnDefinition \<Rightarrow> js option" where
  "columnDefaultValidationError column =
     (if defaultValue column = None \<or> defaultExpression column \<or> generationExpression column \<noteq> []
      then None
      else if base_type_of (col_type column) \<in> set (map u NO_DEFAULT_TYPES) then Some ADVANCED_DEFAULT
      else None)"

text \<open>\<open>/^CURRENT_TIMESTAMP(?:\(\d*\))?$/iu\<close>\<close>

definition precision_rx :: rx where
  "precision_rx = rx_opt (rx_seqs [rx_chr 40, Star rx_digit, rx_chr 41])"

definition currentTimestampRx :: rx where
  "currentTimestampRx = Seq Bol (rx_seqs [rx_liti ''current'', rx_chr 95, rx_liti ''timestamp'',
     precision_rx, Eol])"

definition isCurrentTimestampExpression :: "js option \<Rightarrow> bool" where
  "isCurrentTimestampExpression v =
     (case v of None \<Rightarrow> False | Some s \<Rightarrow> rx_test currentTimestampRx (trim s))"

text \<open>\<open>\b(word)\b\<close> with the flags \<open>iu\<close>; the words hold letters, underscores and blanks.\<close>

definition word_rx :: "string list \<Rightarrow> rx" where
  "word_rx ws = rx_seqs ([Bnd word_iu] @ map rx_liti ws @ [Bnd word_iu])"

definition spatialTypeRx :: rx where
  "spatialTypeRx = Seq Bol (Seq (rx_alts (map rx_lit SPATIAL_TYPES)) (Bnd is_word))"

definition bitTypeRx :: rx where
  "bitTypeRx = Seq Bol (Seq (rx_alts (map rx_lit [''bit'', ''binary'', ''varbinary''])) (Bnd is_word))"

text \<open>\<open>[A-Z0-9_]\<close> with the flags \<open>iu\<close>.\<close>

definition upper_digit_iu :: "nat \<Rightarrow> bool" where
  "upper_digit_iu c \<longleftrightarrow> letter_iu c \<or> is_digit c \<or> c = 95"

definition generatedRx :: rx where
  "generatedRx = rx_seqs [Bnd word_iu, rx_alts [rx_liti ''virtual'', rx_liti ''stored''],
     rx_liti '' generated'', Bnd word_iu]"

definition onUpdateRx :: rx where
  "onUpdateRx = rx_seqs [Bnd word_iu, rx_liti ''on update current_timestamp'', precision_rx,
     Ahead False (Cls upper_digit_iu)]"

definition knownExtraRemainder :: "js \<Rightarrow> js" where
  "knownExtraRemainder ext =
     trim (rx_replace_all onUpdateRx []
       (rx_replace_all (word_rx [''invisible'']) []
         (rx_replace_all generatedRx []
           (rx_replace_all (word_rx [''auto_increment'']) []
             (rx_replace_all (word_rx [''default_generated'']) [] ext)))))"

definition isStructureColumnEditable :: "TableColumnDefinition \<Rightarrow> bool" where
  "isStructureColumnEditable column =
     (let normalizedType = to_lower (trim (col_type column)) in
      if rx_test spatialTypeRx normalizedType
         \<or> generationExpression column \<noteq> []
         \<or> (defaultValue column \<noteq> None \<and> rx_test bitTypeRx normalizedType)
         \<or> (defaultExpression column \<and> \<not> isCurrentTimestampExpression (defaultValue column))
      then False
      else knownExtraRemainder (extra column) = []
           \<and> columnTypeValidationError (col_type column) = None)"

lemmas column_type_eval [js_eval] =
  SPATIAL_TYPES_def MYSQL_VISUAL_BASE_TYPES_def args_rx_def attr_rx_def safeType_def
  columnTypeValidationError_def suggestMysqlBaseTypes_def UNSIGNED_BASE_TYPES_def
  LENGTH_BASE_TYPES_def typeSupportsUnsigned_def typeSupportsLength_def CHARACTER_TYPES_def
  characterTypeRx_def typeSupportsCharset_def columnTypeRx_def strip_ws_def truthy_def
  parseMysqlColumnType_def formatMysqlColumnType_def base_type_of_def NO_DEFAULT_TYPES_def
  columnDefaultValidationError_def precision_rx_def currentTimestampRx_def
  isCurrentTimestampExpression_def word_rx_def spatialTypeRx_def bitTypeRx_def upper_digit_iu_def
  generatedRx_def onUpdateRx_def knownExtraRemainder_def isStructureColumnEditable_def

end
