(* ===== verification/Table_Ddl.thy ===== *)
theory Table_Ddl
  imports Column_Types
begin

text \<open>
  Database and table DDL: names and character sets of a new database, the column clauses and the
  ALTER TABLE preview of the structure editor, the table comment read back from SHOW CREATE TABLE
  (\<open>features/tables/tableSql.ts\<close>).
\<close>

section \<open>New databases\<close>

record DatabaseCharsetOption =
  charset :: js
  collations :: "js list"

definition charset_option :: "string \<Rightarrow> string list \<Rightarrow> DatabaseCharsetOption" where
  "charset_option c cs = \<lparr> charset = u c, collations = map u cs \<rparr>"

definition DATABASE_CHARSET_OPTIONS :: "DatabaseCharsetOption list" where
  "DATABASE_CHARSET_OPTIONS = [
     charset_option ''utf8mb4'' [''utf8mb4_0900_ai_ci'', ''utf8mb4_general_ci'', ''utf8mb4_unicode_ci'',
       ''utf8mb4_unicode_520_ci'', ''utf8mb4_bin''],
     charset_option ''utf8mb3'' [''utf8mb3_general_ci'', ''utf8mb3_unicode_ci'', ''utf8mb3_bin''],
     charset_option ''gbk'' [''gbk_chinese_ci'', ''gbk_bin''],
     charset_option ''gb18030'' [''gb18030_chinese_ci'', ''gb18030_unicode_520_ci'', ''gb18030_bin''],
     charset_option ''big5'' [''big5_chinese_ci'', ''big5_bin''],
     charset_option ''latin1'' [''latin1_swedish_ci'', ''latin1_general_ci'', ''latin1_bin''],
     charset_option ''ascii'' [''ascii_general_ci'', ''ascii_bin''],
     charset_option ''binary'' [''binary'']]"

definition MAX_DATABASE_NAME_LENGTH :: nat where "MAX_DATABASE_NAME_LENGTH = 64"

text \<open>Empty; too long; one of the three separators; a control character.\<close>

definition databaseNameValidationError :: "js \<Rightarrow> js option" where
  "databaseNameValidationError databaseName =
     (let trimmed = trim databaseName in
      if length trimmed = 0 then Some ([25968, 25454, 24211, 21517, 19981, 33021, 20026, 31354, 12290])
      else if length trimmed > MAX_DATABASE_NAME_LENGTH then
        Some (([25968, 25454, 24211, 21517, 19981, 33021, 36229, 36807] @ u '' '') @ dec MAX_DATABASE_NAME_LENGTH @ (u '' '' @ [20010, 23383, 31526, 12290]))
      else if \<exists>c \<in> set trimmed. c = 47 \<or> c = BACKSLASH \<or> c = 46 then
        Some ([25968, 25454, 24211, 21517, 19981, 33021, 21253, 21547] @ u '' / '' @ [92] @ u '' . '' @ [36825, 19977, 31181, 23383, 31526, 12290])
      else if \<exists>c \<in> set trimmed. c \<le> 31 \<or> c = 127 then
        Some ([25968, 25454, 24211, 21517, 19981, 33021, 21253, 21547, 25511, 21046, 23383, 31526, 12290])
      else None)"

definition buildCreateDatabaseStatement :: "js \<Rightarrow> js option \<Rightarrow> js option \<Rightarrow> js" where
  "buildCreateDatabaseStatement databaseName cs coll =
     (let chosen = List.find (\<lambda>item. Some (charset item) = cs) DATABASE_CHARSET_OPTIONS;
          charsetClause = (case chosen of None \<Rightarrow> []
            | Some co \<Rightarrow> u '' CHARACTER SET '' @ charset co);
          collationClause = (case (chosen, coll) of
              (Some co, Some c) \<Rightarrow> if c \<in> set (collations co) then u '' COLLATE '' @ c else []
            | _ \<Rightarrow> [])
      in u ''CREATE DATABASE '' @ quoteIdentifier databaseName @ charsetClause @ collationClause
           @ [SEMICOLON])"

section \<open>Column clauses\<close>

definition numericPrefixRx :: rx where
  "numericPrefixRx = Seq Bol (rx_alts (map rx_liti [''tinyint'', ''smallint'', ''mediumint'', ''int'',
     ''integer'', ''bigint'', ''decimal'', ''numeric'', ''float'', ''double'', ''real'', ''bit'']))"

definition temporalTypeRx :: rx where
  "temporalTypeRx = Seq Bol (Seq (rx_alts (map rx_liti [''date'', ''datetime'', ''timestamp'']))
     (Bnd word_iu))"

text \<open>\<open>^[+-]?(?:\d+(?:\.\d*)?|\.\d+)$\<close>\<close>

definition sign_rx :: rx where
  "sign_rx = rx_opt (Cls (\<lambda>c. c = 43 \<or> c = 45))"

definition mantissa_rx :: rx where
  "mantissa_rx = Alt (Seq (rx_plus rx_digit) (rx_opt (Seq (rx_chr 46) (Star rx_digit))))
     (Seq (rx_chr 46) (rx_plus rx_digit))"

definition decimalRx :: rx where
  "decimalRx = Seq Bol (rx_seqs [sign_rx, mantissa_rx, Eol])"

text \<open>\<open>^[+-]?(?:\d+(?:\.\d*)?|\.\d+)(?:e[+-]?\d+)?$\<close> with the flags \<open>iu\<close>\<close>

definition exponent_rx :: rx where
  "exponent_rx = rx_opt (rx_seqs [Cls (ci_eq 101), sign_rx, rx_plus rx_digit])"

definition numberRx :: rx where
  "numberRx = Seq Bol (rx_seqs [sign_rx, mantissa_rx, exponent_rx, Eol])"

definition defaultLiteral :: "js \<Rightarrow> js \<Rightarrow> js" where
  "defaultLiteral v databaseType =
     (let trimmed = trim v in
      if rx_test temporalTypeRx (trim databaseType) \<and> rx_test currentTimestampRx trimmed
      then to_upper trimmed
      else if rx_test numericPrefixRx (trim databaseType) \<and> rx_test decimalRx trimmed then trimmed
      else mysqlStringLiteral v)"

definition expressionDefault :: "js \<Rightarrow> js" where
  "expressionDefault v =
     (if isCurrentTimestampExpression (Some v) then to_upper (trim v) else u ''('' @ v @ u '')'')"

definition preservedOnUpdateRx :: rx where
  "preservedOnUpdateRx = rx_seqs [Bnd word_iu, rx_liti ''on update '',
     Grp 1 (Seq (rx_liti ''current_timestamp'') precision_rx)]"

definition preservedExtraClauses :: "js \<Rightarrow> js list" where
  "preservedExtraClauses ext =
     (let onUpdate = (case rx_groups preservedOnUpdateRx ext of None \<Rightarrow> None | Some g \<Rightarrow> g 1)
      in (if rx_test (word_rx [''auto_increment'']) ext then [u ''AUTO_INCREMENT''] else [])
         @ (if truthy onUpdate then [u ''ON UPDATE '' @ to_upper (the onUpdate)] else [])
         @ (if rx_test (word_rx [''invisible'']) ext then [u ''INVISIBLE''] else []))"

definition columnSql :: "TableColumnDefinition \<Rightarrow> js" where
  "columnSql column =
     (let typ = trim (col_type column);
          characterType = rx_test characterTypeRx typ;
          gen = generationExpression column
      in join (u '' '') (
           [quoteIdentifier (col_name column), if typ = [] then u ''VARCHAR(255)'' else typ]
           @ (if characterType \<and> truthy (characterSet column)
              then [u ''CHARACTER SET '' @ quoteIdentifier (the (characterSet column))] else [])
           @ (if characterType \<and> truthy (collation column)
              then [u ''COLLATE '' @ quoteIdentifier (the (collation column))] else [])
           @ (if gen \<noteq> [] then
                [u ''GENERATED ALWAYS AS ('' @ gen @ u '') ''
                 @ (if rx_test (word_rx [''stored generated'']) (extra column) then u ''STORED''
                    else u ''VIRTUAL'')] else [])
           @ [if nullable column then u ''NULL'' else u ''NOT NULL'']
           @ (case defaultValue column of
                None \<Rightarrow> []
              | Some v \<Rightarrow> if gen = [] then
                  [u ''DEFAULT '' @ (if defaultExpression column then expressionDefault v
                                    else defaultLiteral v (col_type column))] else [])
           @ preservedExtraClauses (extra column)
           @ (if comment column \<noteq> [] then [u ''COMMENT '' @ mysqlStringLiteral (comment column)]
              else [])))"

section \<open>ALTER TABLE\<close>

definition sameColumn :: "TableColumnDefinition \<Rightarrow> TableColumnDefinition \<Rightarrow> bool" where
  "sameColumn left right \<longleftrightarrow>
     col_name left = col_name right \<and> col_type left = col_type right \<and>
     nullable left = nullable right \<and> defaultValue left = defaultValue right \<and>
     defaultExpression left = defaultExpression right \<and> comment left = comment right \<and>
     extra left = extra right \<and> characterSet left = characterSet right \<and>
     collation left = collation right \<and> generationExpression left = generationExpression right"

definition tableTarget :: "js \<Rightarrow> js \<Rightarrow> js" where
  "tableTarget database table = quoteIdentifier database @ u ''.'' @ quoteIdentifier table"

text \<open>The statement one draft column contributes.\<close>

definition draftStatement ::
  "js \<Rightarrow> TableColumnDefinition list \<Rightarrow> TableColumnDefinition \<Rightarrow> js list" where
  "draftStatement target originalColumns column =
     (case sourceName column of
        None \<Rightarrow>
          if columnTypeValidationError (col_type column) = None
          then [u ''ALTER TABLE '' @ target @ u '' ADD COLUMN '' @ columnSql column @ [SEMICOLON]]
          else []
      | Some src \<Rightarrow>
          (case List.find (\<lambda>item. col_name item = src) originalColumns of
             None \<Rightarrow> []
           | Some original \<Rightarrow>
               if isStructureColumnEditable original
                  \<and> columnTypeValidationError (col_type column) = None
                  \<and> \<not> sameColumn original column
               then [u ''ALTER TABLE '' @ target @ u '' CHANGE COLUMN '' @ quoteIdentifier src
                       @ u '' '' @ columnSql column @ [SEMICOLON]]
               else []))"

definition buildDdlStatements ::
  "js \<Rightarrow> js \<Rightarrow> TableColumnDefinition list \<Rightarrow> TableColumnDefinition list \<Rightarrow> js list" where
  "buildDdlStatements database table originalColumns draftColumns =
     (let target = tableTarget database table;
          retainedSourceNames = set (List.map_filter sourceName draftColumns)
      in map (\<lambda>column. u ''ALTER TABLE '' @ target @ u '' DROP COLUMN ''
                @ quoteIdentifier (col_name column) @ [SEMICOLON])
             (filter (\<lambda>column. col_name column \<notin> retainedSourceNames) originalColumns)
         @ concat (map (draftStatement target originalColumns) draftColumns))"

definition buildAlterTableCommentStatement :: "js \<Rightarrow> js \<Rightarrow> js \<Rightarrow> js" where
  "buildAlterTableCommentStatement database table cmt =
     u ''ALTER TABLE '' @ tableTarget database table @ u '' COMMENT = '' @ mysqlStringLiteral cmt
       @ [SEMICOLON]"

section \<open>The comment in SHOW CREATE TABLE\<close>

function options_scan :: "nat option \<Rightarrow> int \<Rightarrow> js \<Rightarrow> js" where
  "options_scan inString depth [] = []"
| "options_scan inString depth (c # cs) =
     (case inString of
        Some q \<Rightarrow>
          if c = q then
            if q = QUOTE \<and> at cs 0 = Some QUOTE then options_scan inString depth (drop 1 cs)
            else options_scan None depth cs
          else if q \<noteq> BACKTICK \<and> c = BACKSLASH \<and> cs \<noteq> [] then
            options_scan inString depth (drop 1 cs)
          else options_scan inString depth cs
      | None \<Rightarrow>
          if c = QUOTE \<or> c = DQUOTE \<or> c = BACKTICK then options_scan (Some c) depth cs
          else if c = 40 then options_scan None (depth + 1) cs
          else if c = 41 then
            (if depth - 1 = 0 then cs else options_scan None (depth - 1) cs)
          else options_scan None depth cs)"
  by pat_completeness auto
termination
  by (relation "measure (\<lambda>(_, _, s). length s)") auto

definition extractCreateTableOptions :: "js \<Rightarrow> js" where
  "extractCreateTableOptions createSql =
     (case index_of createSql (u ''('') of
        None \<Rightarrow> [] | Some start \<Rightarrow> options_scan None 0 (drop start createSql))"

definition decodeMysqlQuotedString :: "js \<Rightarrow> js" where
  "decodeMysqlQuotedString v = rx_replace_all (Seq (rx_chr QUOTE) (rx_chr QUOTE)) [QUOTE] v"

text \<open>\<open>/\bCOMMENT\s*=\s*'((?:''|[^'])*)'/iu\<close>\<close>

definition commentRx :: rx where
  "commentRx = rx_seqs [Bnd word_iu, rx_liti ''comment'', Star rx_ws, rx_chr 61, Star rx_ws,
     rx_chr QUOTE,
     Grp 1 (Star (Alt (Seq (rx_chr QUOTE) (rx_chr QUOTE)) (Cls (\<lambda>c. c \<noteq> QUOTE)))),
     rx_chr QUOTE]"

definition parseCreateTableComment :: "js \<Rightarrow> js" where
  "parseCreateTableComment createSql =
     (let opts = extractCreateTableOptions createSql in
      if opts = [] then []
      else case rx_groups commentRx opts of
             None \<Rightarrow> []
           | Some g \<Rightarrow> decodeMysqlQuotedString (case g 1 of None \<Rightarrow> [] | Some s \<Rightarrow> s))"

lemmas ddl_eval [js_eval] =
  charset_option_def DATABASE_CHARSET_OPTIONS_def MAX_DATABASE_NAME_LENGTH_def
  databaseNameValidationError_def buildCreateDatabaseStatement_def numericPrefixRx_def
  temporalTypeRx_def sign_rx_def mantissa_rx_def decimalRx_def exponent_rx_def numberRx_def defaultLiteral_def
  expressionDefault_def preservedOnUpdateRx_def preservedExtraClauses_def columnSql_def
  sameColumn_def tableTarget_def draftStatement_def buildDdlStatements_def
  buildAlterTableCommentStatement_def extractCreateTableOptions_def decodeMysqlQuotedString_def
  commentRx_def parseCreateTableComment_def List.map_filter_def

end
