(* ===== verification/Table_Filter.thy ===== *)
theory Table_Filter
  imports Table_Ddl
begin

text \<open>
  The quick filter of the table view (\<open>features/tables/tableSql.ts\<close>, from
  \<open>TABLE_FILTER_OPERATORS\<close> to \<open>describeTableFilter\<close>): which operators a column type offers, the
  literal of an operand, the predicate of a condition and the WHERE clause of a list of conditions.
  Error results are the left summand.
\<close>

section \<open>Operators and column types\<close>

text \<open>The closed list of operators; \<open>OpOther\<close> is a value outside it, which the code checks for.\<close>

datatype TableFilterOperator =
    OpEq | OpNe | OpGt | OpGe | OpLt | OpLe | OpLike | OpNotLike | OpContains | OpStartsWith
  | OpEndsWith | OpIn | OpNotIn | OpBetween | OpIsNull | OpIsNotNull | OpOther js

fun op_text :: "TableFilterOperator \<Rightarrow> js" where
  "op_text OpEq = u ''=''"
| "op_text OpNe = u ''!=''"
| "op_text OpGt = u ''>''"
| "op_text OpGe = u ''>=''"
| "op_text OpLt = u ''<''"
| "op_text OpLe = u ''<=''"
| "op_text OpLike = u ''LIKE''"
| "op_text OpNotLike = u ''NOT LIKE''"
| "op_text OpContains = u ''CONTAINS''"
| "op_text OpStartsWith = u ''STARTS_WITH''"
| "op_text OpEndsWith = u ''ENDS_WITH''"
| "op_text OpIn = u ''IN''"
| "op_text OpNotIn = u ''NOT IN''"
| "op_text OpBetween = u ''BETWEEN''"
| "op_text OpIsNull = u ''IS NULL''"
| "op_text OpIsNotNull = u ''IS NOT NULL''"
| "op_text (OpOther t) = t"

definition TABLE_FILTER_OPERATORS :: "TableFilterOperator list" where
  "TABLE_FILTER_OPERATORS = [OpEq, OpNe, OpGt, OpGe, OpLt, OpLe, OpLike, OpNotLike, OpContains,
     OpStartsWith, OpEndsWith, OpIn, OpNotIn, OpBetween, OpIsNull, OpIsNotNull]"

datatype TableFilterConjunction = And | Or

fun conj_text :: "TableFilterConjunction \<Rightarrow> js" where
  "conj_text And = u ''AND''"
| "conj_text Or = u ''OR''"

record TableFilterCondition =
  columnName :: js
  operator :: TableFilterOperator
  cond_value :: js
  conjunction :: TableFilterConjunction
  enabled :: bool

text \<open>The labels of the operator control; there is none outside the list.\<close>

fun TABLE_FILTER_OPERATOR_LABELS :: "TableFilterOperator \<Rightarrow> js option" where
  "TABLE_FILTER_OPERATOR_LABELS OpEq = Some ([31561, 20110] @ u '' (=)'')"
| "TABLE_FILTER_OPERATOR_LABELS OpNe = Some ([19981, 31561, 20110] @ u '' (!=)'')"
| "TABLE_FILTER_OPERATOR_LABELS OpGt = Some ([22823, 20110] @ u '' (>)'')"
| "TABLE_FILTER_OPERATOR_LABELS OpGe = Some ([22823, 20110, 31561, 20110] @ u '' (>=)'')"
| "TABLE_FILTER_OPERATOR_LABELS OpLt = Some ([23567, 20110] @ u '' (<)'')"
| "TABLE_FILTER_OPERATOR_LABELS OpLe = Some ([23567, 20110, 31561, 20110] @ u '' (<=)'')"
| "TABLE_FILTER_OPERATOR_LABELS OpLike = Some ([21305, 37197] @ u '' (LIKE)'')"
| "TABLE_FILTER_OPERATOR_LABELS OpNotLike = Some ([19981, 21305, 37197] @ u '' (NOT LIKE)'')"
| "TABLE_FILTER_OPERATOR_LABELS OpContains = Some ([21253, 21547])"
| "TABLE_FILTER_OPERATOR_LABELS OpStartsWith = Some ([24320, 22836, 26159])"
| "TABLE_FILTER_OPERATOR_LABELS OpEndsWith = Some ([32467, 23614, 26159])"
| "TABLE_FILTER_OPERATOR_LABELS OpIn = Some ([23646, 20110] @ u '' (IN)'')"
| "TABLE_FILTER_OPERATOR_LABELS OpNotIn = Some ([19981, 23646, 20110] @ u '' (NOT IN)'')"
| "TABLE_FILTER_OPERATOR_LABELS OpBetween = Some ([21306, 38388] @ u '' (BETWEEN)'')"
| "TABLE_FILTER_OPERATOR_LABELS OpIsNull = Some ([20026, 31354] @ u '' (IS NULL)'')"
| "TABLE_FILTER_OPERATOR_LABELS OpIsNotNull = Some ([19981, 20026, 31354] @ u '' (IS NOT NULL)'')"
| "TABLE_FILTER_OPERATOR_LABELS (OpOther t) = None"

definition UNARY_FILTER_OPERATORS :: "TableFilterOperator list" where
  "UNARY_FILTER_OPERATORS = [OpIsNull, OpIsNotNull]"

definition NUMERIC_FILTER_BASE_TYPES :: "string list" where
  "NUMERIC_FILTER_BASE_TYPES = [''tinyint'', ''smallint'', ''mediumint'', ''int'', ''integer'',
     ''bigint'', ''decimal'', ''numeric'', ''float'', ''double'', ''real'', ''year'', ''bit'']"

definition TEMPORAL_FILTER_BASE_TYPES :: "string list" where
  "TEMPORAL_FILTER_BASE_TYPES = [''date'', ''time'', ''datetime'', ''timestamp'']"

definition UNFILTERABLE_BASE_TYPES :: "string list" where
  "UNFILTERABLE_BASE_TYPES = SPATIAL_TYPES @ [''tinyblob'', ''blob'', ''mediumblob'', ''longblob'',
     ''binary'', ''varbinary'']"

definition ORDERED_FILTER_OPERATORS :: "TableFilterOperator list" where
  "ORDERED_FILTER_OPERATORS = [OpEq, OpNe, OpGt, OpGe, OpLt, OpLe, OpBetween, OpIn, OpNotIn,
     OpIsNull, OpIsNotNull]"

definition TEXT_FILTER_OPERATORS :: "TableFilterOperator list" where
  "TEXT_FILTER_OPERATORS = [OpEq, OpNe, OpContains, OpStartsWith, OpEndsWith, OpLike, OpNotLike,
     OpIn, OpNotIn, OpIsNull, OpIsNotNull]"

definition EQUALITY_FILTER_OPERATORS :: "TableFilterOperator list" where
  "EQUALITY_FILTER_OPERATORS = [OpEq, OpNe, OpIn, OpNotIn, OpIsNull, OpIsNotNull]"

definition filterBaseType :: "js \<Rightarrow> js" where
  "filterBaseType databaseType = takeWhile is_lower (to_lower (trim databaseType))"

definition isUnaryFilterOperator :: "TableFilterOperator \<Rightarrow> bool" where
  "isUnaryFilterOperator opr = (opr \<in> set UNARY_FILTER_OPERATORS)"

definition isFilterableColumnType :: "js \<Rightarrow> bool" where
  "isFilterableColumnType databaseType =
     (filterBaseType databaseType \<notin> set (map u UNFILTERABLE_BASE_TYPES))"

definition filterOperatorsForColumnType :: "js \<Rightarrow> TableFilterOperator list" where
  "filterOperatorsForColumnType databaseType =
     (let b = filterBaseType databaseType in
      if \<not> isFilterableColumnType databaseType then []
      else if b \<in> set (map u NUMERIC_FILTER_BASE_TYPES) \<or> b \<in> set (map u TEMPORAL_FILTER_BASE_TYPES)
      then ORDERED_FILTER_OPERATORS
      else if b = u ''json'' \<or> b = u ''enum'' \<or> b = u ''set'' then
        (if b = u ''json'' then EQUALITY_FILTER_OPERATORS else TEXT_FILTER_OPERATORS)
      else TEXT_FILTER_OPERATORS)"

fun filterValuePlaceholder :: "TableFilterOperator \<Rightarrow> js" where
  "filterValuePlaceholder OpIsNull = []"
| "filterValuePlaceholder OpIsNotNull = []"
| "filterValuePlaceholder OpIn = ([22810, 20010, 20540, 29992, 33521, 25991, 36887, 21495, 20998, 38548])"
| "filterValuePlaceholder OpNotIn = ([22810, 20010, 20540, 29992, 33521, 25991, 36887, 21495, 20998, 38548])"
| "filterValuePlaceholder OpBetween = ([36215, 22987, 20540] @ u '','' @ [32467, 26463, 20540])"
| "filterValuePlaceholder OpLike = ([25903, 25345] @ u '' % '' @ [19982] @ u '' _ '' @ [36890, 37197, 31526])"
| "filterValuePlaceholder OpNotLike = ([25903, 25345] @ u '' % '' @ [19982] @ u '' _ '' @ [36890, 37197, 31526])"
| "filterValuePlaceholder _ = ([31579, 36873, 20540])"

section \<open>Operands\<close>

fun split_filter :: "js list \<Rightarrow> js \<Rightarrow> bool \<Rightarrow> js \<Rightarrow> js list" where
  "split_filter items current escaped [] = items @ [current]"
| "split_filter items current escaped (c # cs) =
     (if escaped then split_filter items (current @ [c]) False cs
      else if c = BACKSLASH then split_filter items current True cs
      else if c = COMMA then split_filter (items @ [current]) [] False cs
      else split_filter items (current @ [c]) False cs)"

definition splitFilterList :: "js \<Rightarrow> js list" where
  "splitFilterList v = split_filter [] [] False v"

definition escapeLikeWildcards :: "js \<Rightarrow> js" where
  "escapeLikeWildcards v =
     concat (map (\<lambda>c. if c = 37 \<or> c = 95 \<or> c = BACKSLASH then [BACKSLASH, c] else [c]) v)"

definition filterValueLiteral :: "js \<Rightarrow> TableColumnDefinition \<Rightarrow> js + js" where
  "filterValueLiteral v column =
     (let b = filterBaseType (col_type column);
          trimmed = trim v
      in if b \<in> set (map u NUMERIC_FILTER_BASE_TYPES) then
           if \<not> rx_test numberRx trimmed then Inl (col_name column @ (u '' '' @ [38656, 35201, 25968, 20540]))
           else Inr trimmed
         else if b \<in> set (map u TEMPORAL_FILTER_BASE_TYPES) then
           if trimmed = [] then Inl (col_name column @ (u '' '' @ [38656, 35201, 26102, 38388, 20540]))
           else Inr (mysqlStringLiteral trimmed)
         else Inr (mysqlStringLiteral v))"

text \<open>The literals of a list of items, up to the first error.\<close>

fun filterLiterals :: "TableColumnDefinition \<Rightarrow> js list \<Rightarrow> js + js list" where
  "filterLiterals column [] = Inr []"
| "filterLiterals column (i # is) =
     (case filterValueLiteral i column of
        Inl e \<Rightarrow> Inl e
      | Inr l \<Rightarrow> (case filterLiterals column is of Inl e \<Rightarrow> Inl e | Inr ls \<Rightarrow> Inr (l # ls)))"

section \<open>Predicates\<close>

definition ESCAPE_CLAUSE :: js where
  "ESCAPE_CLAUSE = u '' ESCAPE '' @ [QUOTE, BACKSLASH, BACKSLASH, QUOTE]"

definition filterPredicate :: "TableFilterCondition \<Rightarrow> TableColumnDefinition \<Rightarrow> js + js" where
  "filterPredicate condition column =
     (let identifier = quoteIdentifier (col_name column);
          opr = operator condition;
          v = cond_value condition
      in if isUnaryFilterOperator opr then Inr (identifier @ u '' '' @ op_text opr)
         else if opr = OpIn \<or> opr = OpNotIn then
           (let items = filter (\<lambda>item. item \<noteq> []) (map trim (splitFilterList v)) in
            if length items = 0 then
              Inl (col_name column @ (u '' '' @ [30340] @ u '' '') @ op_text opr @ (u '' '' @ [38656, 35201, 33267, 23569, 19968, 20010, 20540]))
            else case filterLiterals column items of
                   Inl e \<Rightarrow> Inl e
                 | Inr literals \<Rightarrow>
                     Inr (identifier @ u '' '' @ op_text opr @ u '' ('' @ join (u '', '') literals @ u '')''))
         else if opr = OpBetween then
           (let bounds = splitFilterList v in
            if length bounds \<noteq> 2 \<or> (\<exists>b \<in> set bounds. trim b = []) then
              Inl (col_name column @ (u '' '' @ [30340] @ u '' BETWEEN '' @ [38656, 35201, 29992, 36887, 21495, 20998, 38548, 30340, 20004, 20010, 20540]))
            else case filterValueLiteral (bounds ! 0) column of
                   Inl e \<Rightarrow> Inl e
                 | Inr lower \<Rightarrow>
                     (case filterValueLiteral (bounds ! 1) column of
                        Inl e \<Rightarrow> Inl e
                      | Inr upper \<Rightarrow> Inr (identifier @ u '' BETWEEN '' @ lower @ u '' AND '' @ upper)))
         else if opr = OpContains \<or> opr = OpStartsWith \<or> opr = OpEndsWith then
           if v = [] then Inl (col_name column @ (u '' '' @ [38656, 35201, 31579, 36873, 20540]))
           else
             (let escaped = escapeLikeWildcards v;
                  pattern = (if opr = OpContains then u ''%'' @ escaped @ u ''%''
                             else if opr = OpStartsWith then escaped @ u ''%''
                             else u ''%'' @ escaped)
              in Inr (identifier @ u '' LIKE '' @ mysqlStringLiteral pattern @ ESCAPE_CLAUSE))
         else if opr = OpLike \<or> opr = OpNotLike then
           if v = [] then Inl (col_name column @ (u '' '' @ [38656, 35201, 31579, 36873, 20540]))
           else Inr (identifier @ u '' '' @ op_text opr @ u '' '' @ mysqlStringLiteral v)
         else case filterValueLiteral v column of
                Inl e \<Rightarrow> Inl e
              | Inr literal \<Rightarrow> Inr (identifier @ u '' '' @ op_text opr @ u '' '' @ literal))"

section \<open>The WHERE clause\<close>

record TableFilterClause =
  clause_where :: js
  clause_errors :: "js list"
  activeCount :: nat

type_synonym filter_part = "js \<times> TableFilterConjunction"

text \<open>One turn of the loop over the conditions: the errors and the predicates so far.\<close>

definition filterStep ::
  "TableColumnDefinition list \<Rightarrow> js list \<times> filter_part list \<Rightarrow> TableFilterCondition
    \<Rightarrow> js list \<times> filter_part list" where
  "filterStep schema acc condition =
     (case acc of (errors, parts) \<Rightarrow>
      let incomplete = (\<not> isUnaryFilterOperator (operator condition)
                        \<and> trim (cond_value condition) = [])
      in if \<not> enabled condition \<or> columnName condition = [] \<or> incomplete then (errors, parts)
         else case new_map (map (\<lambda>c. (col_name c, c)) schema) (columnName condition) of
                None \<Rightarrow> (errors @ [([23383, 27573] @ u '' '') @ columnName condition @ (u '' '' @ [19981, 22312, 24403, 21069, 34920, 32467, 26500, 20013])], parts)
              | Some column \<Rightarrow>
                  if operator condition \<notin> set TABLE_FILTER_OPERATORS then
                    (errors @ [([23383, 27573] @ u '' '') @ col_name column @ (u '' '' @ [20351, 29992, 20102, 19981, 25903, 25345, 30340, 27604, 36739, 31526])], parts)
                  else if operator condition \<notin> set (filterOperatorsForColumnType (col_type column)) then
                    (errors @ [col_name column @ ([65288]) @ col_type column @ ([65289, 19981, 25903, 25345, 35813, 27604, 36739, 31526])], parts)
                  else case filterPredicate condition column of
                         Inl e \<Rightarrow> (errors @ [e], parts)
                       | Inr predicate \<Rightarrow> (errors, parts @ [(predicate, conjunction condition)]))"

fun joinParts :: "bool \<Rightarrow> nat \<Rightarrow> js \<Rightarrow> filter_part list \<Rightarrow> js" where
  "joinParts mixed index clause [] = clause"
| "joinParts mixed index clause ((predicate, con) # ps) =
     joinParts mixed (Suc index)
       (if mixed \<and> index > 0
        then u ''('' @ clause @ u '') '' @ conj_text con @ u '' '' @ predicate
        else clause @ u '' '' @ conj_text con @ u '' '' @ predicate) ps"

definition buildTableFilterClause ::
  "TableFilterCondition list \<Rightarrow> TableColumnDefinition list \<Rightarrow> TableFilterClause" where
  "buildTableFilterClause conditions schema =
     (case foldl (filterStep schema) ([], []) conditions of (errors, parts) \<Rightarrow>
      if length errors > 0 \<or> length parts = 0 then
        \<lparr> clause_where = [], clause_errors = new_set errors, activeCount = 0 \<rparr>
      else
        (let mixed = length (new_set (map snd (drop 1 parts))) > 1;
             clause = joinParts mixed 0 (fst (parts ! 0)) (drop 1 parts)
         in \<lparr> clause_where = u '' WHERE '' @ clause, clause_errors = [],
              activeCount = length parts \<rparr>))"

text \<open>\<open>/\s*\(.*\)$/u\<close>; \<open>describeTableFilter\<close> throws (\<open>None\<close>) where an operator has no label.\<close>

definition labelSuffixRx :: rx where
  "labelSuffixRx = rx_seqs [Star rx_ws, rx_chr 40,
     Star (Cls (\<lambda>c. c \<noteq> 10 \<and> c \<noteq> 13 \<and> c \<noteq> 8232 \<and> c \<noteq> 8233)), rx_chr 41, Eol]"

definition describeCondition :: "TableFilterCondition \<Rightarrow> js option" where
  "describeCondition condition =
     (if isUnaryFilterOperator (operator condition)
      then Some (columnName condition @ u '' '' @ op_text (operator condition))
      else case TABLE_FILTER_OPERATOR_LABELS (operator condition) of
             None \<Rightarrow> None
           | Some label \<Rightarrow> Some (columnName condition @ u '' '' @ rx_replace_all labelSuffixRx [] label
                             @ u '' '' @ cond_value condition))"

fun describeAll :: "nat \<Rightarrow> TableFilterCondition list \<Rightarrow> js list option" where
  "describeAll index [] = Some []"
| "describeAll index (c # cs) =
     (case describeCondition c of
        None \<Rightarrow> None
      | Some label \<Rightarrow>
          map_option ((#) (if index = 0 then label else conj_text (conjunction c) @ u '' '' @ label))
            (describeAll (Suc index) cs))"

definition describeTableFilter :: "TableFilterCondition list \<Rightarrow> js option" where
  "describeTableFilter conditions =
     map_option (join (u '' ''))
       (describeAll 0 (filter (\<lambda>c. enabled c \<and> columnName c \<noteq> []
          \<and> (isUnaryFilterOperator (operator c) \<or> trim (cond_value c) \<noteq> [])) conditions))"

lemmas filter_eval [js_eval] =
  TABLE_FILTER_OPERATORS_def UNARY_FILTER_OPERATORS_def NUMERIC_FILTER_BASE_TYPES_def
  TEMPORAL_FILTER_BASE_TYPES_def UNFILTERABLE_BASE_TYPES_def ORDERED_FILTER_OPERATORS_def
  TEXT_FILTER_OPERATORS_def EQUALITY_FILTER_OPERATORS_def filterBaseType_def
  isUnaryFilterOperator_def isFilterableColumnType_def filterOperatorsForColumnType_def
  splitFilterList_def escapeLikeWildcards_def filterValueLiteral_def
  ESCAPE_CLAUSE_def filterPredicate_def filterStep_def buildTableFilterClause_def labelSuffixRx_def
  describeCondition_def describeTableFilter_def

section \<open>Every predicate is one stretch of SQL without a separator\<close>

text \<open>The texts the filter puts between quoted tokens hold no quote, comment or separator.\<close>

lemma plain_op_text: "opr \<in> set TABLE_FILTER_OPERATORS \<Longrightarrow> \<forall>c \<in> set (op_text opr). plain_unit c"
  by (auto simp: TABLE_FILTER_OPERATORS_def plain_eval)

lemma plain_conj_text: "\<forall>c \<in> set (conj_text k). plain_unit c"
  by (cases k) (simp_all add: plain_eval)

text \<open>
  An operand is inert: text and time operands are string literals, and a numeric operand is a number,
  in which a minus sign is followed by a digit or a dot.
\<close>

definition number_unit :: "nat \<Rightarrow> bool" where
  "number_unit c \<longleftrightarrow> is_digit c \<or> c = 46 \<or> c = 43 \<or> c = 69 \<or> c = 101"

lemma number_unit_plain: "number_unit c \<Longrightarrow> plain_unit c \<and> \<not> is_ws c \<and> c \<noteq> 45"
  by (auto simp: number_unit_def is_digit_def plain_unit_def is_ws_def)

lemma inert_number_units: "w \<noteq> [] \<Longrightarrow> \<forall>c \<in> set w. number_unit c \<Longrightarrow> inert w"
proof (rule inert_plain)
  assume w: "w \<noteq> []" "\<forall>c \<in> set w. number_unit c"
  then show "\<forall>c \<in> set w. plain_unit c" using number_unit_plain by blast
  from w have "hd w \<in> set w" "number_unit (hd w)" by simp_all
  then show "\<exists>c \<in> set w. \<not> is_ws c" using number_unit_plain by blast
qed

lemma inert_sign:
  assumes w: "inert w" "at w 0 = Some c" "c \<noteq> 45" and sg: "sg = [] \<or> sg = [43] \<or> sg = [45]"
  shows "inert (sg @ w)"
proof (cases "sg = []")
  case False
  from w obtain cs where cs: "w = c # cs" by (cases w) auto
  have "stmts (sg @ w @ rest) k h = stmts (w @ rest) k True" for rest k h
    using False sg w(3) unfolding cs by (auto simp: is_ws_def simp del: stmts.simps) (simp_all add: is_ws_def)
  with w(1) show ?thesis by (simp add: inert_def)
qed (use w in simp)

lemma sign_consumes:
  assumes "st' \<in> set (rxm sign_rx st)"
  shows "\<exists>sg. (sg = [] \<or> sg = [43] \<or> sg = [45]) \<and> rx_rest st = sg @ rx_rest st'"
proof -
  obtain pre post caps where st: "st = (pre, post, caps)" by (cases st)
  show ?thesis
  proof (cases "st' = st")
    case False
    with assms st obtain c cs where p: "post = c # cs" by (cases post) (auto simp: sign_rx_def rx_opt_def)
    with assms st False have "st' = (c # pre, cs, caps) \<and> (c = 43 \<or> c = 45)"
      by (simp add: sign_rx_def rx_opt_def split: if_splits)
    then have "([c] = [] \<or> [c] = [43] \<or> [c] = [45]) \<and> rx_rest st = [c] @ rx_rest st'"
      using st p by simp
    then show ?thesis by blast
  qed simp
qed

lemma mantissa_consumes:
  "st' \<in> set (rxm mantissa_rx st) \<Longrightarrow>
    \<exists>m. m \<noteq> [] \<and> (\<forall>c \<in> set m. number_unit c) \<and> rx_rest st = m @ rx_rest st'"
proof -
  assume a: "st' \<in> set (rxm mantissa_rx st)"
  have c: "rx_chars number_unit mantissa_rx"
    by (simp add: mantissa_rx_def rx_plus_def rx_opt_def rx_chr_def rx_digit_def number_unit_def)
  from rxm_consumes [OF c a] obtain m where
    m: "rx_rest st = m @ rx_rest st'" "\<forall>c \<in> set m. number_unit c" by (auto simp: consumes_def)
  have "length (rx_rest st') + rx_min mantissa_rx \<le> length (rx_rest st)"
    using a by (rule rxm_min)
  then have "length (rx_rest st') < length (rx_rest st)"
    by (simp add: mantissa_rx_def rx_plus_def rx_opt_def rx_chr_def rx_digit_def)
  with m show ?thesis by auto
qed

lemma exponent_consumes:
  "st' \<in> set (rxm exponent_rx st) \<Longrightarrow>
    \<exists>e sg d. rx_rest st = e @ sg @ d @ rx_rest st' \<and>
      (e = [] \<and> sg = [] \<and> d = [] \<or>
       (\<forall>c \<in> set e. number_unit c) \<and> (sg = [] \<or> sg = [43] \<or> sg = [45]) \<and> d \<noteq> [] \<and>
       (\<forall>c \<in> set d. is_digit c))"
proof -
  assume a: "st' \<in> set (rxm exponent_rx st)"
  show ?thesis
  proof (cases "st' = st")
    case False
    with a obtain st1 st2 where x: "st1 \<in> set (rxm (Cls (ci_eq 101)) st)"
      "st2 \<in> set (rxm sign_rx st1)" "st' \<in> set (rxm (rx_plus rx_digit) st2)"
      by (auto simp: exponent_rx_def rx_opt_def)
    have "rx_chars number_unit (Cls (ci_eq 101))"
      by (auto simp: ci_eq_def number_unit_def is_lower_def)
    from rxm_consumes [OF this x(1)] obtain e where e: "rx_rest st = e @ rx_rest st1"
      "\<forall>c \<in> set e. number_unit c" by (auto simp: consumes_def)
    from sign_consumes [OF x(2)] obtain sg where
      sg: "sg = [] \<or> sg = [43] \<or> sg = [45]" "rx_rest st1 = sg @ rx_rest st2" by blast
    have "rx_chars is_digit (rx_plus rx_digit)" by (simp add: rx_plus_def rx_digit_def)
    from rxm_consumes [OF this x(3)] obtain d where d: "rx_rest st2 = d @ rx_rest st'"
      "\<forall>c \<in> set d. is_digit c" by (auto simp: consumes_def)
    from rxm_min [OF x(3)] d(1) have "d \<noteq> []" by (auto simp: rx_plus_def rx_digit_def)
    with e sg d have "rx_rest st = e @ sg @ d @ rx_rest st' \<and>
        (\<forall>c \<in> set e. number_unit c) \<and> (sg = [] \<or> sg = [43] \<or> sg = [45]) \<and> d \<noteq> [] \<and>
        (\<forall>c \<in> set d. is_digit c)" by simp
    then show ?thesis by blast
  qed simp
qed

lemma number_shape:
  assumes "rx_test numberRx s"
  obtains sg m e sg2 d where "s = sg @ m @ e @ sg2 @ d"
    "sg = [] \<or> sg = [43] \<or> sg = [45]" "m \<noteq> []" "\<forall>c \<in> set m. number_unit c"
    "e = [] \<and> sg2 = [] \<and> d = [] \<or> (\<forall>c \<in> set e. number_unit c) \<and>
       (sg2 = [] \<or> sg2 = [43] \<or> sg2 = [45]) \<and> d \<noteq> [] \<and> (\<forall>c \<in> set d. is_digit c)"
proof -
  from assms have "rxm (rx_seqs [sign_rx, mantissa_rx, exponent_rx, Eol]) ([], s, []) \<noteq> []"
    unfolding numberRx_def rx_test_Bol .
  then obtain st1 st2 st3 where x: "st1 \<in> set (rxm sign_rx ([], s, []))"
    "st2 \<in> set (rxm mantissa_rx st1)" "st3 \<in> set (rxm exponent_rx st2)" "rxm Eol st3 \<noteq> []"
    by (auto simp: concat_eq_Nil_conv)
  then have r: "rx_rest st3 = []" by (cases st3) (auto split: if_splits)
  obtain sg where sg: "sg = [] \<or> sg = [43] \<or> sg = [45]" "s = sg @ rx_rest st1"
    using sign_consumes [OF x(1)] by auto
  obtain m where m: "m \<noteq> []" "\<forall>c \<in> set m. number_unit c" "rx_rest st1 = m @ rx_rest st2"
    using mantissa_consumes [OF x(2)] by blast
  obtain e sg2 d where e: "rx_rest st2 = e @ sg2 @ d @ rx_rest st3"
    "e = [] \<and> sg2 = [] \<and> d = [] \<or> (\<forall>c \<in> set e. number_unit c) \<and>
       (sg2 = [] \<or> sg2 = [43] \<or> sg2 = [45]) \<and> d \<noteq> [] \<and> (\<forall>c \<in> set d. is_digit c)"
    using exponent_consumes [OF x(3)] by blast
  have "s = sg @ m @ e @ sg2 @ d" using sg(2) m(3) e(1) r by simp
  from that [OF this sg(1) m(1,2) e(2)] show ?thesis .
qed

lemma inert_number: "rx_test numberRx s \<Longrightarrow> inert s"
proof -
  assume "rx_test numberRx s"
  then obtain sg m e sg2 d where s: "s = sg @ m @ e @ sg2 @ d"
    "sg = [] \<or> sg = [43] \<or> sg = [45]" "m \<noteq> []" "\<forall>c \<in> set m. number_unit c"
    "e = [] \<and> sg2 = [] \<and> d = [] \<or> (\<forall>c \<in> set e. number_unit c) \<and>
       (sg2 = [] \<or> sg2 = [43] \<or> sg2 = [45]) \<and> d \<noteq> [] \<and> (\<forall>c \<in> set d. is_digit c)"
    by (rule number_shape)
  have hd_unit: "at (m @ x) 0 = Some (hd m) \<and> hd m \<noteq> 45" for x
    using s(3,4) number_unit_plain by (cases m) auto
  have "inert (m @ e @ sg2 @ d)"
  proof (cases "d = []")
    case True
    with s show ?thesis by (simp add: inert_number_units)
  next
    case False
    with s(5) have d: "\<forall>c \<in> set d. number_unit c" "\<forall>c \<in> set e. number_unit c"
      and sg2: "sg2 = [] \<or> sg2 = [43] \<or> sg2 = [45]" by (auto simp: number_unit_def)
    from False d(1) have "at d 0 = Some (hd d) \<and> hd d \<noteq> 45"
      using number_unit_plain by (cases d) auto
    with inert_sign [OF inert_number_units [OF False d(1)] _ _ sg2] have "inert (sg2 @ d)" by blast
    moreover have "\<forall>c \<in> set (m @ e). plain_unit c" using s(4) d(2) number_unit_plain by auto
    ultimately have "inert ((m @ e) @ sg2 @ d)" by (rule inert_prepend [rotated])
    then show ?thesis by simp
  qed
  with s(2) hd_unit show ?thesis unfolding s(1) by (blast intro: inert_sign)
qed

lemma inert_filterValueLiteral: "filterValueLiteral v column = Inr l \<Longrightarrow> inert l"
  by (auto simp: filterValueLiteral_def Let_def inert_number inert_string split: if_splits)

lemma inert_filterLiterals: "filterLiterals column is = Inr ls \<Longrightarrow> \<forall>l \<in> set ls. inert l"
  by (induction "is" arbitrary: ls) (auto split: sum.splits dest: inert_filterValueLiteral)

lemma filterLiterals_length: "filterLiterals column is = Inr ls \<Longrightarrow> length ls = length is"
  by (induction "is" arbitrary: ls) (auto split: sum.splits)

text \<open>Predicates and clauses are inert for column names without a backslash.\<close>

lemma plain_blank: "\<forall>c \<in> set (u '' ''). plain_unit c"
  by (simp add: plain_eval)

lemma inert_identifier_op:
  assumes "BACKSLASH \<notin> set n" "opr \<in> set TABLE_FILTER_OPERATORS"
  shows "inert (quoteIdentifier n @ u '' '' @ op_text opr)"
    and "inert l \<Longrightarrow> inert (quoteIdentifier n @ u '' '' @ op_text opr @ u '' '' @ l)"
    and "inert l \<Longrightarrow> inert (quoteIdentifier n @ u '' '' @ op_text opr @ u '' ('' @ l @ u '')'')"
proof -
  have i: "inert (quoteIdentifier n)" using assms(1) by (rule inert_ident)
  have p: "\<forall>c \<in> set (u '' '' @ op_text opr). plain_unit c"
    using plain_op_text [OF assms(2)] plain_blank by auto
  show "inert (quoteIdentifier n @ u '' '' @ op_text opr)"
    using inert_append_plain [OF i p] by simp
  have p2: "\<forall>c \<in> set (u '' '' @ op_text opr @ u '' ''). plain_unit c"
    and p3: "\<forall>c \<in> set (u '' '' @ op_text opr @ u '' (''). plain_unit c"
    and p4: "\<forall>c \<in> set (u '')''). plain_unit c"
    using plain_op_text [OF assms(2)] by (auto simp: plain_eval)
  show "inert (quoteIdentifier n @ u '' '' @ op_text opr @ u '' '' @ l)" if "inert l"
    using inert_seq [OF i p2 _ that] by simp
  show "inert (quoteIdentifier n @ u '' '' @ op_text opr @ u '' ('' @ l @ u '')'')" if "inert l"
    using inert_append_plain [OF inert_seq [OF i p3 _ that] p4] by simp
qed

lemma inert_between:
  assumes "BACKSLASH \<notin> set n" "inert l" "inert r"
  shows "inert (quoteIdentifier n @ u '' BETWEEN '' @ l @ u '' AND '' @ r)"
  by (rule inert_seq [OF inert_ident [OF assms(1)] _ _ inert_seq [OF assms(2) _ _ assms(3)]])
    (simp_all add: plain_eval)

lemma inert_like:
  assumes "BACKSLASH \<notin> set n"
  shows "inert (quoteIdentifier n @ u '' LIKE '' @ mysqlStringLiteral p @ ESCAPE_CLAUSE)"
proof -
  have e: "ESCAPE_CLAUSE = u '' ESCAPE '' @ mysqlStringLiteral [BACKSLASH]"
    by (simp add: ESCAPE_CLAUSE_def mysqlStringLiteral_def)
  have "inert (mysqlStringLiteral p @ u '' ESCAPE '' @ mysqlStringLiteral [BACKSLASH])"
    by (rule inert_seq [OF inert_string _ _ inert_string]) (simp_all add: plain_eval)
  then show ?thesis unfolding e
    by (intro inert_seq [OF inert_ident [OF assms]]) (simp_all add: plain_eval)
qed

lemma inert_filterPredicate:
  assumes ok: "filterPredicate condition column = Inr p"
    and opr: "operator condition \<in> set TABLE_FILTER_OPERATORS"
    and name: "BACKSLASH \<notin> set (col_name column)"
  shows "inert p"
proof -
  note op = inert_identifier_op [OF name opr]
  show ?thesis
  proof (cases "operator condition = OpIn \<or> operator condition = OpNotIn")
    case True
    let ?items = "filter (\<lambda>item. item \<noteq> []) (map trim (splitFilterList (cond_value condition)))"
    from True ok obtain ls where ls: "filterLiterals column ?items = Inr ls" "?items \<noteq> []"
      and p: "p = quoteIdentifier (col_name column) @ u '' '' @ op_text (operator condition)
        @ u '' ('' @ join (u '', '') ls @ u '')''"
      by (auto simp: filterPredicate_def Let_def isUnaryFilterOperator_def UNARY_FILTER_OPERATORS_def
          split: if_splits sum.splits)
    have "ls \<noteq> []"
      using filterLiterals_length [OF ls(1)] ls(2) by (metis length_0_conv)
    then have "inert (join (u '', '') ls)"
      using inert_filterLiterals [OF ls(1)] by (intro inert_join) (auto simp: plain_eval)
    then show ?thesis unfolding p by (rule op(3))
  next
    case False
    have like: "OpLike \<in> set TABLE_FILTER_OPERATORS" "OpNotLike \<in> set TABLE_FILTER_OPERATORS"
      by (simp_all add: TABLE_FILTER_OPERATORS_def)
    note op' = inert_identifier_op(3) [OF name like(1), simplified]
      inert_identifier_op(3) [OF name like(2), simplified]
      inert_identifier_op(2) [OF name like(1), simplified]
      inert_identifier_op(2) [OF name like(2), simplified]
    from False ok show ?thesis
      by (auto simp: filterPredicate_def Let_def op op' inert_string inert_between [OF name]
          inert_like [OF name] inert_filterValueLiteral split: if_splits sum.splits)
  qed
qed

lemma inert_joinParts:
  "inert clause \<Longrightarrow> \<forall>p \<in> set ps. inert (fst p) \<Longrightarrow> inert (joinParts mixed i clause ps)"
proof (induction mixed i clause ps rule: joinParts.induct)
  case (2 mixed i clause predicate con ps)
  have sep: "\<forall>c \<in> set (u '' '' @ conj_text con @ u '' ''). plain_unit c"
    using plain_conj_text plain_blank by auto
  have "inert (clause @ u '' '' @ conj_text con @ u '' '' @ predicate)"
    using inert_seq [OF 2(2) sep] 2(3) by simp
  moreover have "inert (u ''('' @ clause @ u '') '' @ conj_text con @ u '' '' @ predicate)"
  proof -
    have sep': "\<forall>c \<in> set (u '') '' @ conj_text con @ u '' ''). plain_unit c"
      using plain_conj_text by (auto simp: plain_eval)
    have "inert (clause @ (u '') '' @ conj_text con @ u '' '') @ predicate)"
      using 2(2,3) sep' by (intro inert_seq) auto
    then have "inert (u ''('' @ clause @ (u '') '' @ conj_text con @ u '' '') @ predicate)"
      by (rule inert_prepend [rotated]) (simp add: plain_eval)
    then show ?thesis by simp
  qed
  ultimately show ?case using 2 by simp
qed simp

text \<open>What the loop keeps: every predicate collected is inert.\<close>

lemma filterStep_inert:
  assumes names: "\<forall>c \<in> set schema. BACKSLASH \<notin> set (col_name c)"
    and step: "filterStep schema (errors, parts) condition = (errors', parts')"
    and inv: "\<forall>p \<in> set parts. inert (fst p)"
  shows "\<forall>p \<in> set parts'. inert (fst p)"
proof (cases "parts' = parts")
  case False
  with step obtain column predicate where
    col: "new_map (map (\<lambda>c. (col_name c, c)) schema) (columnName condition) = Some column"
    and "operator condition \<in> set TABLE_FILTER_OPERATORS"
    and "filterPredicate condition column = Inr predicate"
    and p: "parts' = parts @ [(predicate, conjunction condition)]"
    by (auto simp: filterStep_def Let_def split: if_splits option.splits sum.splits)
  moreover from new_map_mem [OF col] names have "BACKSLASH \<notin> set (col_name column)" by auto
  ultimately show ?thesis using inv by (auto intro: inert_filterPredicate)
qed (use inv in simp)

lemma foldl_filterStep_inert:
  assumes "\<forall>c \<in> set schema. BACKSLASH \<notin> set (col_name c)"
  shows "foldl (filterStep schema) (errors, parts) conditions = (errors', parts') \<Longrightarrow>
    \<forall>p \<in> set parts. inert (fst p) \<Longrightarrow> \<forall>p \<in> set parts'. inert (fst p)"
proof (induction conditions arbitrary: errors parts)
  case (Cons c cs)
  obtain e p where s: "filterStep schema (errors, parts) c = (e, p)" by force
  from filterStep_inert [OF assms s Cons.prems(2)] Cons.prems(1) s Cons.IH show ?case by simp
qed simp

lemma inert_where:
  assumes "\<forall>c \<in> set schema. BACKSLASH \<notin> set (col_name c)"
    and "clause_where (buildTableFilterClause conditions schema) = w" "w \<noteq> []"
  shows "\<exists>clause. w = u '' WHERE '' @ clause \<and> inert clause"
proof -
  obtain errors parts where f: "foldl (filterStep schema) ([], []) conditions = (errors, parts)" by force
  from foldl_filterStep_inert [OF assms(1) f] have i: "\<forall>p \<in> set parts. inert (fst p)" by simp
  from assms(2,3) f have "errors = []" "parts \<noteq> []"
    by (auto simp: buildTableFilterClause_def split: if_splits)
  with i have "inert (joinParts m 0 (fst (parts ! 0)) (drop 1 parts))" for m
    by (intro inert_joinParts) (auto dest: in_set_dropD)
  with assms(2) f \<open>errors = []\<close> \<open>parts \<noteq> []\<close> show ?thesis
    by (auto simp: buildTableFilterClause_def Let_def)
qed

section \<open>No condition is lost\<close>

text \<open>A condition the bar applies: enabled, with a column and, unless unary, an operand.\<close>

definition applies :: "TableFilterCondition \<Rightarrow> bool" where
  "applies c \<longleftrightarrow> enabled c \<and> columnName c \<noteq> []
     \<and> (isUnaryFilterOperator (operator c) \<or> trim (cond_value c) \<noteq> [])"

lemma filterStep_length:
  assumes "filterStep schema (errors, parts) c = (errors', parts')"
  shows "length errors' + length parts' = length errors + length parts + (if applies c then 1 else 0)"
  using assms
  by (auto simp: filterStep_def applies_def Let_def split: if_splits option.splits sum.splits)

lemma foldl_filterStep_length:
  "foldl (filterStep schema) (errors, parts) cs = (errors', parts') \<Longrightarrow>
    length errors' + length parts' = length errors + length parts + length (filter applies cs)"
proof (induction cs arbitrary: errors parts)
  case (Cons c cs)
  obtain e p where s: "filterStep schema (errors, parts) c = (e, p)" by force
  from filterStep_length [OF s] Cons.IH [of e p] Cons.prems s show ?case by auto
qed simp

text \<open>The predicate of a condition: its column is in the schema and takes the operator, and the operand is accepted.\<close>

definition condition_predicate :: "TableColumnDefinition list \<Rightarrow> TableFilterCondition \<Rightarrow> js option" where
  "condition_predicate schema c =
     (case new_map (map (\<lambda>d. (col_name d, d)) schema) (columnName c) of
        None \<Rightarrow> None
      | Some column \<Rightarrow>
          if operator c \<notin> set (filterOperatorsForColumnType (col_type column)) then None
          else (case filterPredicate c column of Inl e \<Rightarrow> None | Inr p \<Rightarrow> Some p))"

lemma operators_listed: "set (filterOperatorsForColumnType t) \<subseteq> set TABLE_FILTER_OPERATORS"
  by (auto simp: filterOperatorsForColumnType_def ORDERED_FILTER_OPERATORS_def TEXT_FILTER_OPERATORS_def
      EQUALITY_FILTER_OPERATORS_def TABLE_FILTER_OPERATORS_def Let_def split: if_splits)

lemma filterStep_skip: "\<not> applies c \<Longrightarrow> filterStep schema (errors, parts) c = (errors, parts)"
  by (auto simp: filterStep_def applies_def)

lemma filterStep_predicate:
  "applies c \<Longrightarrow> condition_predicate schema c = Some p \<Longrightarrow>
    filterStep schema (errors, parts) c = (errors, parts @ [(p, conjunction c)])"
  using operators_listed
  by (auto simp: filterStep_def applies_def condition_predicate_def Let_def split: option.splits sum.splits if_splits)

lemma filterStep_error:
  "applies c \<Longrightarrow> condition_predicate schema c = None \<Longrightarrow> fst (filterStep schema (errors, parts) c) \<noteq> []"
  by (auto simp: filterStep_def applies_def condition_predicate_def Let_def split: option.splits sum.splits if_splits)

lemma filterStep_errors: "fst (filterStep schema (errors, parts) c) = [] \<Longrightarrow> errors = []"
  by (auto simp: filterStep_def Let_def split: if_splits option.splits sum.splits)

lemma foldl_filterStep_errors: "fst (foldl (filterStep schema) acc cs) = [] \<Longrightarrow> fst acc = []"
proof (induction cs arbitrary: acc)
  case (Cons c cs)
  from Cons.IH [of "filterStep schema acc c"] Cons.prems have "fst (filterStep schema acc c) = []" by simp
  then show ?case using filterStep_errors [of schema "fst acc" "snd acc" c] by simp
qed simp

lemma foldl_filterStep_parts:
  "(fst (foldl (filterStep schema) ([], parts) cs) = [])
     = (\<forall>c \<in> set (filter applies cs). condition_predicate schema c \<noteq> None) \<and>
   (fst (foldl (filterStep schema) ([], parts) cs) = [] \<longrightarrow>
     snd (foldl (filterStep schema) ([], parts) cs) =
       parts @ map (\<lambda>c. (the (condition_predicate schema c), conjunction c)) (filter applies cs))"
proof (induction cs arbitrary: parts)
  case (Cons c cs)
  consider (skip) "\<not> applies c" | (predicate) p where "applies c" "condition_predicate schema c = Some p"
    | (error) "applies c" "condition_predicate schema c = None" by fastforce
  then show ?case
  proof cases
    case skip
    with Cons.IH [of parts] show ?thesis by (simp add: filterStep_skip)
  next
    case (predicate p)
    with Cons.IH [of "parts @ [(p, conjunction c)]"] show ?thesis by (simp add: filterStep_predicate)
  next
    case error
    then have "fst (foldl (filterStep schema) ([], parts) (c # cs)) \<noteq> []"
      using foldl_filterStep_errors [of schema "filterStep schema ([], parts) c" cs] filterStep_error by auto
    with error show ?thesis by simp
  qed
qed simp

text \<open>
  How the server reads a clause: predicates and parentheses bind before \<open>AND\<close>, and \<open>AND\<close> before \<open>OR\<close>; both group from
  the left.
\<close>

datatype clause_word = POpen | PClose | PJoin TableFilterConjunction | PPredicate js

fun word_sql :: "clause_word \<Rightarrow> js" where
  "word_sql POpen = u ''(''"
| "word_sql PClose = u '')''"
| "word_sql (PJoin k) = u '' '' @ conj_text k @ u '' ''"
| "word_sql (PPredicate p) = p"

definition words_sql :: "clause_word list \<Rightarrow> js" where
  "words_sql ws = concat (map word_sql ws)"

datatype filter_tree = Leaf js | Node filter_tree TableFilterConjunction filter_tree

inductive sql_or :: "clause_word list \<Rightarrow> filter_tree \<Rightarrow> bool"
  and sql_and :: "clause_word list \<Rightarrow> filter_tree \<Rightarrow> bool"
  and sql_atom :: "clause_word list \<Rightarrow> filter_tree \<Rightarrow> bool" where
  or_and: "sql_and ws t \<Longrightarrow> sql_or ws t"
| or_or: "sql_or ws t \<Longrightarrow> sql_and vs r \<Longrightarrow> sql_or (ws @ PJoin Or # vs) (Node t Or r)"
| and_atom: "sql_atom ws t \<Longrightarrow> sql_and ws t"
| and_and: "sql_and ws t \<Longrightarrow> sql_atom vs r \<Longrightarrow> sql_and (ws @ PJoin And # vs) (Node t And r)"
| atom_predicate: "sql_atom [PPredicate p] (Leaf p)"
| atom_group: "sql_or ws t \<Longrightarrow> sql_atom (POpen # ws @ [PClose]) t"

lemma atom_or: "sql_atom ws t \<Longrightarrow> sql_or ws t"
  by (intro or_and and_atom)

lemma predicate_and: "sql_and [PPredicate p] (Leaf p)"
  by (intro and_atom atom_predicate)

text \<open>The conditions grouped in the order of the bar, each joined to all before it.\<close>

definition in_bar_order :: "filter_part list \<Rightarrow> filter_tree" where
  "in_bar_order ps = foldl (\<lambda>t (p, k). Node t k (Leaf p)) (Leaf (fst (hd ps))) (tl ps)"

lemma join_one:
  "sql_and ws t \<Longrightarrow> sql_or (ws @ [PJoin k, PPredicate p]) (Node t k (Leaf p))"
  using or_or [OF or_and predicate_and, of ws t p] or_and [OF and_and [OF _ atom_predicate], of ws t p] by (cases k) auto

lemma joinParts_same:
  "\<forall>q \<in> set ps. snd q = k \<Longrightarrow> (if k = And then sql_and ws t else sql_or ws t) \<Longrightarrow>
    \<exists>vs. joinParts False i (words_sql ws) ps = words_sql vs \<and> sql_or vs (foldl (\<lambda>t (p, k). Node t k (Leaf p)) t ps)"
proof (induction ps arbitrary: i ws t)
  case Nil
  then show ?case by (auto simp: or_and split: if_splits)
next
  case (Cons q ps)
  obtain p where q: "q = (p, k)" using Cons.prems(1) by (cases q) auto
  let ?ws = "ws @ [PJoin k, PPredicate p]"
  have "words_sql ws @ u '' '' @ conj_text k @ u '' '' @ p = words_sql ?ws" by (simp add: words_sql_def)
  moreover have "if k = And then sql_and ?ws (Node t k (Leaf p)) else sql_or ?ws (Node t k (Leaf p))"
    using Cons.prems(2) and_and [OF _ atom_predicate, of ws t p] or_or [OF _ predicate_and, of ws t p] by (cases k) auto
  ultimately show ?case using Cons.IH [of ?ws "Node t k (Leaf p)" "Suc i"] Cons.prems(1) q by simp
qed

lemma joinParts_mixed:
  "if i = 0 then sql_and ws t else sql_or ws t \<Longrightarrow>
    \<exists>vs. joinParts True i (words_sql ws) ps = words_sql vs \<and> sql_or vs (foldl (\<lambda>t (p, k). Node t k (Leaf p)) t ps)"
proof (induction ps arbitrary: i ws t)
  case Nil
  then show ?case by (auto simp: or_and split: if_splits)
next
  case (Cons q ps)
  obtain p k where q: "q = (p, k)" by (cases q)
  let ?ws = "(if i = 0 then ws else POpen # ws @ [PClose]) @ [PJoin k, PPredicate p]"
  have "sql_or ?ws (Node t k (Leaf p))"
    using Cons.prems by (intro join_one) (auto intro: and_atom atom_group split: if_splits)
  moreover have "joinParts True i (words_sql ws) (q # ps) = joinParts True (Suc i) (words_sql ?ws) ps"
    by (simp add: q words_sql_def u.simps)
  ultimately show ?case using Cons.IH [of "Suc i" ?ws "Node t k (Leaf p)"] q by simp
qed

lemma new_set_single: "length (new_set xs) \<le> 1 \<Longrightarrow> x \<in> set xs \<Longrightarrow> y \<in> set xs \<Longrightarrow> x = y"
proof -
  assume a: "length (new_set xs) \<le> 1" "x \<in> set xs" "y \<in> set xs"
  then have "x \<in> set (new_set xs)" "y \<in> set (new_set xs)" by simp_all
  with a(1) show "x = y" by (cases "new_set xs") (auto simp del: set_new_set)
qed

lemma joinParts_reads:
  assumes "ps \<noteq> []"
  shows "\<exists>vs. joinParts (length (new_set (map snd (drop 1 ps))) > 1) 0 (fst (ps ! 0)) (drop 1 ps) = words_sql vs \<and>
    sql_or vs (in_bar_order ps)"
proof -
  obtain q qs where q: "ps = q # qs" using assms by (cases ps) auto
  have one: "words_sql [PPredicate (fst q)] = fst q" by (simp add: words_sql_def)
  show ?thesis
  proof (cases "length (new_set (map snd qs)) > 1")
    case True
    with joinParts_mixed [of 0 "[PPredicate (fst q)]" "Leaf (fst q)" qs] predicate_and one q show ?thesis
      by (simp add: in_bar_order_def)
  next
    case False
    have "\<exists>k. \<forall>r \<in> set qs. snd r = k"
    proof (cases qs)
      case (Cons r rs)
      with new_set_single [of "map snd qs" _ "snd r"] False show ?thesis by (intro exI [of _ "snd r"]) auto
    qed simp
    then obtain k where k: "\<forall>r \<in> set qs. snd r = k" by blast
    have "if k = And then sql_and [PPredicate (fst q)] (Leaf (fst q)) else sql_or [PPredicate (fst q)] (Leaf (fst q))"
      by (simp add: predicate_and or_and)
    from joinParts_same [OF k this, of 0] False one q show ?thesis by (simp add: in_bar_order_def)
  qed
qed

text \<open>C20: The clause applies every condition of the bar or none: it is empty exactly when no
  condition counts; it has errors exactly when some condition that is enabled and complete has no predicate (column,
  operator or operand not accepted), and then it is empty; otherwise its count is the number of conditions that are
  enabled and complete, and it reads, with \<open>AND\<close> before \<open>OR\<close>, as exactly their predicates joined in the order of the
  bar, each by its own conjunction to all before it.\<close>

theorem filter_all_or_nothing:
  fixes conditions schema
  defines "c \<equiv> buildTableFilterClause conditions schema"
  shows "(clause_where c = []) = (activeCount c = 0)
     \<and> (if clause_errors c = [] then activeCount c = length (filter applies conditions)
        else activeCount c = 0)
     \<and> (clause_errors c = []) = list_all (\<lambda>d. condition_predicate schema d \<noteq> None) (filter applies conditions)
     \<and> (activeCount c = 0
        \<or> (\<exists>ws. clause_where c = u '' WHERE '' @ words_sql ws
             \<and> sql_or ws (in_bar_order (map (\<lambda>d. (the (condition_predicate schema d), conjunction d))
                              (filter applies conditions)))))"
proof -
  obtain errors parts where f: "foldl (filterStep schema) ([], []) conditions = (errors, parts)" by force
  from foldl_filterStep_length [OF f]
  have n: "length errors + length parts = length (filter applies conditions)" by simp
  have e: "errors = [] \<longleftrightarrow> list_all (\<lambda>d. condition_predicate schema d \<noteq> None) (filter applies conditions)"
    using foldl_filterStep_parts [of schema "[]" conditions] f by (simp add: list_all_iff)
  have p: "parts = map (\<lambda>d. (the (condition_predicate schema d), conjunction d)) (filter applies conditions)" if "errors = []"
    using foldl_filterStep_parts [of schema "[]" conditions] f that by simp
  show ?thesis
  proof (cases "errors = [] \<and> parts \<noteq> []")
    case True
    then have "filter applies conditions \<noteq> []" using n by auto
    with True joinParts_reads [of parts] f n e p [symmetric] show ?thesis
      by (simp add: c_def buildTableFilterClause_def Let_def u.simps)
  next
    case False
    with f n e show ?thesis by (auto simp: c_def buildTableFilterClause_def Let_def)
  qed
qed

section \<open>The clause stays inside its statement\<close>

lemma inert_target:
  "BACKSLASH \<notin> set d \<Longrightarrow> BACKSLASH \<notin> set t \<Longrightarrow> inert (tableTarget d t)"
  unfolding tableTarget_def
  by (rule inert_seq [OF inert_ident _ _ inert_ident]) (simp_all add: plain_eval)

text \<open>C21: The text of a filter cannot start a second statement: a SELECT with the clause built
  from any conditions, whatever the user typed as operand, is counted as one statement, provided the
  names of the schema hold no backslash (which the counter takes as an escape).\<close>

theorem filter_one_statement:
  assumes "BACKSLASH \<notin> set database" "BACKSLASH \<notin> set table"
    and "\<forall>c \<in> set schema. BACKSLASH \<notin> set (col_name c)"
  shows "countSqlStatements (u ''SELECT * FROM '' @ tableTarget database table
     @ clause_where (buildTableFilterClause conditions schema)) = 1"
proof -
  note t = inert_target [OF assms(1,2)]
  have select: "\<forall>c \<in> set (u ''SELECT * FROM ''). plain_unit c" by (simp add: plain_eval)
  have "inert (tableTarget database table @ clause_where (buildTableFilterClause conditions schema))"
  proof (cases "clause_where (buildTableFilterClause conditions schema) = []")
    case False
    from inert_where [OF assms(3) refl False] obtain clause where
      "clause_where (buildTableFilterClause conditions schema) = u '' WHERE '' @ clause" "inert clause"
      by blast
    moreover have "\<forall>c \<in> set (u '' WHERE ''). plain_unit c" by (simp add: plain_eval)
    ultimately show ?thesis using inert_seq [OF t] by simp
  qed (use t in simp)
  from inert_prepend [OF select this] show ?thesis by (rule countSqlStatements_inert)
qed

definition sample_column :: "string \<Rightarrow> string \<Rightarrow> TableColumnDefinition" where
  "sample_column name typ = \<lparr> sourceName = Some (u name), col_name = u name, col_type = u typ,
     nullable = True, defaultValue = None, defaultExpression = False, comment = [], primary = False,
     extra = [], characterSet = None, collation = None, generationExpression = [] \<rparr>"

theorem filter_one_statement_witness:
  "countSqlStatements (u ''SELECT * FROM '' @ tableTarget (u ''app'') (u ''users'')
     @ clause_where (buildTableFilterClause
         [\<lparr> columnName = u ''name'', operator = OpEq,
            cond_value = [QUOTE, SEMICOLON] @ u ''DROP TABLE users'',
            conjunction = And, enabled = True \<rparr>]
         [sample_column ''name'' ''varchar(20)''])) = 1"
  by (rule filter_one_statement) (simp_all add: sample_column_def u.simps)

end
