(* ===== verification/Js_Numbers.thy ===== *)
theory Js_Numbers
  imports Js_Regex
begin

text \<open>
  JavaScript numbers: the doubles of IEEE 754 as a sign, a significand and a binary exponent, the
  rounding of a rational to a format, \<open>Number(text)\<close> on decimal texts, \<open>Math.fround\<close> and
  \<open>String(number)\<close> (the shortest decimal that reads back as the number). Everything computes.
\<close>

section \<open>Doubles\<close>

text \<open>
  \<open>Fin neg m e\<close> is \<open>m * 2 ^ e\<close>, negated when \<open>neg\<close>; in a double \<open>m < 2 ^ 53\<close>, and \<open>2 ^ 52 \<le> m\<close>
  unless \<open>e = -1074\<close>. Negative zero is \<open>Fin True 0 (-1074)\<close>.
\<close>

datatype js_num = NaN | Inf bool | Fin bool nat int

fun bit_length :: "nat \<Rightarrow> nat" where
  "bit_length n = (if n = 0 then 0 else Suc (bit_length (n div 2)))"

declare bit_length.simps [simp del]

text \<open>A positive rational is a pair of a numerator and a denominator.\<close>

definition scale2 :: "nat \<times> nat \<Rightarrow> int \<Rightarrow> nat \<times> nat" where
  "scale2 q e = (if e \<ge> 0 then (fst q, snd q * 2 ^ nat e) else (fst q * 2 ^ nat (- e), snd q))"

definition half_even :: "nat \<times> nat \<Rightarrow> nat" where
  "half_even q =
     (let d = fst q div snd q; r = fst q mod snd q in
      if 2 * r > snd q \<or> (2 * r = snd q \<and> odd d) then d + 1 else d)"

definition floor_log2 :: "nat \<times> nat \<Rightarrow> int" where
  "floor_log2 q =
     (let l = int (bit_length (fst q)) - int (bit_length (snd q));
          s = scale2 q l
      in if fst s \<ge> snd s then l else l - 1)"

text \<open>Round to nearest, ties to even, in a format of \<open>p\<close> bits with least exponent \<open>emin\<close>.\<close>

definition round_to :: "nat \<Rightarrow> int \<Rightarrow> int \<Rightarrow> bool \<Rightarrow> nat \<times> nat \<Rightarrow> js_num" where
  "round_to p emin emax neg q =
     (if fst q = 0 then Fin neg 0 emin
      else let e = max emin (floor_log2 q - (int p - 1));
               m = half_even (scale2 q e);
               (m', e') = (if m = 2 ^ p then (2 ^ (p - 1), e + 1) else (m, e))
           in if e' > emax then Inf neg else Fin neg m' e')"

definition to_double :: "bool \<Rightarrow> nat \<times> nat \<Rightarrow> js_num" where
  "to_double = round_to 53 (- 1074) 971"

definition rat_of :: "nat \<Rightarrow> int \<Rightarrow> nat \<times> nat" where
  "rat_of m e = (if e \<ge> 0 then (m * 2 ^ nat e, 1) else (m, 2 ^ nat (- e)))"

text \<open>A double as the single nearest to it, again as a double.\<close>

definition fround :: "js_num \<Rightarrow> js_num" where
  "fround x =
     (case x of
        Fin neg m e \<Rightarrow>
          (case round_to 24 (- 149) 104 neg (rat_of m e) of
             Fin neg' m' e' \<Rightarrow> to_double neg' (rat_of m' e')
           | y \<Rightarrow> y)
      | _ \<Rightarrow> x)"

definition is_finite :: "js_num \<Rightarrow> bool" where
  "is_finite x = (case x of Fin _ _ _ \<Rightarrow> True | _ \<Rightarrow> False)"

definition is_zero :: "js_num \<Rightarrow> bool" where
  "is_zero x = (case x of Fin _ m _ \<Rightarrow> m = 0 | _ \<Rightarrow> False)"

definition is_neg_zero :: "js_num \<Rightarrow> bool" where
  "is_neg_zero x = (case x of Fin neg m _ \<Rightarrow> neg \<and> m = 0 | _ \<Rightarrow> False)"

text \<open>\<open>x < 0\<close>.\<close>

definition is_negative :: "js_num \<Rightarrow> bool" where
  "is_negative x = (case x of Fin neg m _ \<Rightarrow> neg \<and> m \<noteq> 0 | Inf neg \<Rightarrow> neg | NaN \<Rightarrow> False)"

definition num_of_nat :: "nat \<Rightarrow> js_num" where
  "num_of_nat n = to_double False (n, 1)"

section \<open>Decimal texts\<close>

definition pow10_rat :: "nat \<Rightarrow> int \<Rightarrow> nat \<times> nat" where
  "pow10_rat n e = (if e \<ge> 0 then (n * 10 ^ nat e, 1) else (n, 10 ^ nat (- e)))"

text \<open>
  \<open>Number(s)\<close> for a text of the form sign, digits with an optional point, optional exponent (the only
  texts the code converts).
\<close>

definition parse_sign :: "js \<Rightarrow> bool \<times> js" where
  "parse_sign s =
     (case s of c # cs \<Rightarrow> if c = 45 then (True, cs) else if c = 43 then (False, cs) else (False, s)
              | [] \<Rightarrow> (False, []))"

definition decimal_number :: "js \<Rightarrow> js_num" where
  "decimal_number s =
     (let (neg, t) = parse_sign s;
          whole = takeWhile is_digit t;
          t1 = dropWhile is_digit t;
          fraction = (if at t1 0 = Some 46 then takeWhile is_digit (drop 1 t1) else []);
          t2 = (if at t1 0 = Some 46 then dropWhile is_digit (drop 1 t1) else t1);
          (eneg, t3) = parse_sign (drop 1 t2);
          ex = (if t2 = [] then 0 else if eneg then - int (digits_val t3) else int (digits_val t3))
      in to_double neg (pow10_rat (digits_val (whole @ fraction)) (ex - int (length fraction))))"

section \<open>\<open>String(number)\<close>\<close>

text \<open>\<open>dec_exp q\<close>: the \<open>n\<close> with \<open>10 ^ (n - 1) \<le> q < 10 ^ n\<close>, found from the estimate of the digit counts.\<close>

definition below_pow10 :: "nat \<times> nat \<Rightarrow> int \<Rightarrow> bool" where
  "below_pow10 q n =
     (if n \<ge> 0 then fst q < snd q * 10 ^ nat n else fst q * 10 ^ nat (- n) < snd q)"

definition dec_exp :: "nat \<times> nat \<Rightarrow> int" where
  "dec_exp q =
     (let n = int (length (dec (fst q))) - int (length (dec (snd q)))
      in if below_pow10 q n then n else n + 1)"

text \<open>The two candidates with \<open>k\<close> digits, as significand and exponent.\<close>

definition shortest_with :: "bool \<Rightarrow> js_num \<Rightarrow> nat \<times> nat \<Rightarrow> int \<Rightarrow> nat \<Rightarrow> (nat \<times> int) option" where
  "shortest_with neg x q n k =
     (let s = (if int k - n \<ge> 0 then (fst q * 10 ^ nat (int k - n), snd q)
               else (fst q, snd q * 10 ^ nat (n - int k)));
          lo = fst s div snd s; r = fst s mod snd s; hi = lo + 1;
          ok = (\<lambda>d. to_double neg (pow10_rat d (n - int k)) = x);
          high = (if hi = 10 ^ k then (10 ^ (k - 1), n + 1) else (hi, n))
      in if ok lo \<and> ok hi then
           if 2 * r < snd s \<or> (2 * r = snd s \<and> even lo) then Some (lo, n) else Some high
         else if ok lo then Some (lo, n) else if ok hi then Some high else None)"

fun shortest_from :: "nat \<Rightarrow> nat \<Rightarrow> bool \<Rightarrow> js_num \<Rightarrow> nat \<times> nat \<Rightarrow> int \<Rightarrow> nat \<times> int" where
  "shortest_from 0 k neg x q n = (0, n)"
| "shortest_from (Suc i) k neg x q n =
     (case shortest_with neg x q n k of Some r \<Rightarrow> r | None \<Rightarrow> shortest_from i (Suc k) neg x q n)"

text \<open>The layouts of \<open>Number::toString\<close>; \<open>d\<close> are the digits and \<open>n\<close> the position of the point.\<close>

definition layout :: "js \<Rightarrow> int \<Rightarrow> js" where
  "layout d n =
     (let k = int (length d) in
      if k \<le> n \<and> n \<le> 21 then d @ replicate (nat (n - k)) 48
      else if 0 < n \<and> n \<le> 21 then take (nat n) d @ [46] @ drop (nat n) d
      else if - 6 < n \<and> n \<le> 0 then [48, 46] @ replicate (nat (- n)) 48 @ d
      else let ex = (if n - 1 < 0 then 45 # dec (nat (1 - n)) else 43 # dec (nat (n - 1)))
           in if k = 1 then d @ [101] @ ex else take 1 d @ [46] @ drop 1 d @ [101] @ ex)"

definition num_to_string :: "js_num \<Rightarrow> js" where
  "num_to_string x =
     (case x of
        NaN \<Rightarrow> u ''NaN''
      | Inf neg \<Rightarrow> if neg then u ''-Infinity'' else u ''Infinity''
      | Fin neg m e \<Rightarrow>
          if m = 0 then [48]
          else let q = rat_of m e;
                   (s, n) = shortest_from 17 1 neg x q (dec_exp q)
               in (if neg then [45] else []) @ layout (dec s) n)"

lemmas number_ops_eval [js_eval] =
  bit_length.simps scale2_def half_even_def floor_log2_def round_to_def to_double_def rat_of_def
  fround_def is_finite_def is_zero_def is_neg_zero_def is_negative_def num_of_nat_def pow10_rat_def
  parse_sign_def decimal_number_def below_pow10_def dec_exp_def shortest_with_def layout_def
  num_to_string_def

end
