(* ===== verification/Js_Json.thy ===== *)
theory Js_Json
  imports Js_Numbers Sql_Text
begin

text \<open>
  \<open>JSON.stringify\<close> and \<open>JSON.parse\<close> on strings of UTF-16 units. An object is the list of its members
  in the order of their first assignment. The parser runs on fuel; \<open>json_fuel_enough\<close> shows that
  the fuel it is given is enough, so that \<open>None\<close> means a syntax error and nothing else. The string
  form is another instance of the quoting contract \<open>text_codec\<close>.
\<close>

datatype json = JNull | JBool bool | JNum js_num | JStr js | JArr "json list" | JObj "(js \<times> json) list"

section \<open>Strings\<close>

definition hex_digit :: "nat \<Rightarrow> nat" where
  "hex_digit d = (if d < 10 then 48 + d else 87 + d)"

definition u_escape :: "nat \<Rightarrow> js" where
  "u_escape c = [BACKSLASH, 117, hex_digit (c div 4096 mod 16), hex_digit (c div 256 mod 16),
     hex_digit (c div 16 mod 16), hex_digit (c mod 16)]"

definition is_high :: "nat \<Rightarrow> bool" where "is_high c \<longleftrightarrow> 55296 \<le> c \<and> c \<le> 56319"
definition is_low :: "nat \<Rightarrow> bool" where "is_low c \<longleftrightarrow> 56320 \<le> c \<and> c \<le> 57343"

definition json_esc :: "nat \<Rightarrow> js" where
  "json_esc c =
     (if c = 8 then [BACKSLASH, 98] else if c = 9 then [BACKSLASH, 116]
      else if c = 10 then [BACKSLASH, 110] else if c = 12 then [BACKSLASH, 102]
      else if c = 13 then [BACKSLASH, 114] else if c = DQUOTE then [BACKSLASH, DQUOTE]
      else if c = BACKSLASH then [BACKSLASH, BACKSLASH]
      else if c < 32 \<or> is_high c \<or> is_low c then u_escape c else [c])"

text \<open>A pair of surrogates stands for itself; a surrogate on its own is escaped.\<close>

fun json_body :: "js \<Rightarrow> js" where
  "json_body [] = []"
| "json_body [c] = json_esc c"
| "json_body (c # d # cs) =
     (if is_high c \<and> is_low d then c # d # json_body cs else json_esc c @ json_body (d # cs))"

definition json_quote :: "js \<Rightarrow> js" where
  "json_quote s = DQUOTE # json_body s @ [DQUOTE]"

definition hex_value :: "nat \<Rightarrow> nat option" where
  "hex_value c =
     (if is_digit c then Some (c - 48) else if 97 \<le> c \<and> c \<le> 102 then Some (c - 87)
      else if 65 \<le> c \<and> c \<le> 70 then Some (c - 55) else None)"

definition simple_escape :: "nat \<Rightarrow> nat option" where
  "simple_escape c =
     (if c = DQUOTE \<or> c = BACKSLASH \<or> c = 47 then Some c else if c = 98 then Some 8
      else if c = 102 then Some 12 else if c = 110 then Some 10 else if c = 114 then Some 13
      else if c = 116 then Some 9 else None)"

text \<open>The text after a backslash: the unit it stands for and the number of units it takes.\<close>

definition read_escape :: "js \<Rightarrow> (nat \<times> nat) option" where
  "read_escape cs =
     (case cs of
        [] \<Rightarrow> None
      | e # ds \<Rightarrow>
          if e = 117 then
            (case map hex_value (take 4 ds) of
               [Some a, Some b, Some c, Some d] \<Rightarrow> Some (a * 4096 + b * 256 + c * 16 + d, 5)
             | _ \<Rightarrow> None)
          else map_option (\<lambda>x. (x, 1)) (simple_escape e))"

fun read_json_body :: "js \<Rightarrow> (js \<times> js) option" where
  "read_json_body [] = None"
| "read_json_body (c # cs) =
     (if c = DQUOTE then Some ([], cs)
      else if c = BACKSLASH then
        (case read_escape cs of
           None \<Rightarrow> None
         | Some (x, k) \<Rightarrow> map_option (\<lambda>(v, r). (x # v, r)) (read_json_body (drop k cs)))
      else if c < 32 then None
      else map_option (\<lambda>(v, r). (c # v, r)) (read_json_body cs))"

definition read_json_string :: "js \<Rightarrow> (js \<times> js) option" where
  "read_json_string s = (case s of [] \<Rightarrow> None | c # cs \<Rightarrow> if c = DQUOTE then read_json_body cs else None)"

lemma hex_value_digit: "d < 16 \<Longrightarrow> hex_value (hex_digit d) = Some d"
  by (auto simp: hex_value_def hex_digit_def is_digit_def)

lemma hex_sum:
  assumes "c < 65536"
  shows "c div 4096 mod 16 * 4096 + c div 256 mod 16 * 256 + c div 16 mod 16 * 16 + c mod 16 = (c::nat)"
proof -
  have d: "c div 256 = c div 16 div 16" "c div 4096 = c div 16 div 16 div 16"
    by (simp_all add: div_mult2_eq [symmetric])
  have m: "c div 16 * 16 + c mod 16 = c" "c div 16 div 16 * 16 + c div 16 mod 16 = c div 16"
    "c div 16 div 16 div 16 * 16 + c div 16 div 16 mod 16 = c div 16 div 16"
    by (rule div_mult_mod_eq)+
  have "c div 16 div 16 div 16 < 16" using assms by (simp add: div_mult2_eq [symmetric])
  then have "c div 16 div 16 div 16 mod 16 = c div 16 div 16 div 16" by simp
  with m show ?thesis unfolding d by linarith
qed

lemma read_u_escape:
  "c < 65536 \<Longrightarrow> read_json_body (u_escape c @ rest) = map_option (\<lambda>(v, r). (c # v, r)) (read_json_body rest)"
  using hex_sum [of c] by (simp add: u_escape_def read_escape_def hex_value_digit)

lemma read_json_esc:
  "read_json_body (json_esc c @ rest) = map_option (\<lambda>(v, r). (c # v, r)) (read_json_body rest)"
proof (cases "c \<in> {8, 9, 10, 12, 13, DQUOTE, BACKSLASH}")
  case True
  then show ?thesis by (auto simp: json_esc_def read_escape_def simple_escape_def)
next
  case False
  then have "json_esc c = (if c < 32 \<or> is_high c \<or> is_low c then u_escape c else [c])"
    by (simp add: json_esc_def)
  moreover have "c < 32 \<or> is_high c \<or> is_low c \<Longrightarrow> c < 65536" by (auto simp: is_high_def is_low_def)
  ultimately show ?thesis using False by (auto simp: read_u_escape)
qed

lemma surrogate_plain: "is_high c \<or> is_low c \<Longrightarrow> c \<noteq> DQUOTE \<and> c \<noteq> BACKSLASH \<and> \<not> c < 32"
  by (auto simp: is_high_def is_low_def)

lemma read_json_body_body: "read_json_body (json_body s @ DQUOTE # rest) = Some (s, rest)"
proof (induction s rule: json_body.induct)
  case (3 c d cs)
  then show ?case
  proof (cases "is_high c \<and> is_low d")
    case True
    with surrogate_plain [of c] surrogate_plain [of d] 3 show ?thesis by auto
  qed (auto simp: read_json_esc)
qed (auto simp: read_json_esc)

lemma read_json_quote: "read_json_string (json_quote s @ rest) = Some (s, rest)"
  by (simp add: read_json_string_def json_quote_def read_json_body_body)

interpretation jsonstr: text_codec json_quote read_json_string "\<lambda>r. True"
  by unfold_locales (auto simp: read_json_quote)

section \<open>\<open>JSON.stringify\<close>\<close>

definition json_number_text :: "js_num \<Rightarrow> js" where
  "json_number_text x = (if is_finite x then num_to_string x else u ''null'')"

fun json_stringify :: "json \<Rightarrow> js" where
  "json_stringify JNull = u ''null''"
| "json_stringify (JBool b) = (if b then u ''true'' else u ''false'')"
| "json_stringify (JNum x) = json_number_text x"
| "json_stringify (JStr s) = json_quote s"
| "json_stringify (JArr vs) = u ''['' @ join [COMMA] (map json_stringify vs) @ u '']''"
| "json_stringify (JObj ms) =
     u ''{'' @ join [COMMA] (map (\<lambda>(k, v). json_quote k @ u '':'' @ json_stringify v) ms) @ u ''}''"

section \<open>\<open>JSON.parse\<close>\<close>

definition json_ws :: "nat \<Rightarrow> bool" where
  "json_ws c \<longleftrightarrow> c = 32 \<or> c = 9 \<or> c = 10 \<or> c = 13"

definition skip_ws :: "js \<Rightarrow> js" where
  "skip_ws s = dropWhile json_ws s"

text \<open>The number token at the start of a text.\<close>

definition number_token :: rx where
  "number_token = Seq Bol (rx_seqs [rx_opt (rx_chr 45),
     Alt (rx_chr 48) (Seq (Cls (\<lambda>c. 49 \<le> c \<and> c \<le> 57)) (Star rx_digit)),
     rx_opt (Seq (rx_chr 46) (rx_plus rx_digit)),
     rx_opt (rx_seqs [Cls (\<lambda>c. c = 101 \<or> c = 69), rx_opt (Cls (\<lambda>c. c = 43 \<or> c = 45)),
       rx_plus rx_digit])])"

definition json_number :: "js \<Rightarrow> (json \<times> js) option" where
  "json_number s =
     (case rx_groups (Grp 1 number_token) s of
        Some g \<Rightarrow> (case g 1 of
            Some t \<Rightarrow> if t = [] then None else Some (JNum (decimal_number t), drop (length t) s)
          | None \<Rightarrow> None)
      | None \<Rightarrow> None)"

definition put_member :: "js \<Rightarrow> json \<Rightarrow> (js \<times> json) list \<Rightarrow> (js \<times> json) list" where
  "put_member k v ms =
     (if k \<in> fst ` set ms then map (\<lambda>(l, w). if l = k then (l, v) else (l, w)) ms else ms @ [(k, v)])"

definition json_word :: "js \<Rightarrow> (json \<times> js) option" where
  "json_word s =
     (if starts_with s (u ''null'') then Some (JNull, drop 4 s)
      else if starts_with s (u ''true'') then Some (JBool True, drop 4 s)
      else if starts_with s (u ''false'') then Some (JBool False, drop 5 s)
      else json_number s)"

text \<open>
  A value at the start of a text without leading white space; the elements after the first of an
  array, the members after the first of an object (the text starts after the comma or bracket).
\<close>

fun json_value :: "nat \<Rightarrow> js \<Rightarrow> (json \<times> js) option"
and json_elements :: "nat \<Rightarrow> json list \<Rightarrow> js \<Rightarrow> (json \<times> js) option"
and json_members :: "nat \<Rightarrow> (js \<times> json) list \<Rightarrow> js \<Rightarrow> (json \<times> js) option" where
  "json_value 0 s = None"
| "json_value (Suc n) s =
     (case s of
        [] \<Rightarrow> None
      | c # cs \<Rightarrow>
          if c = DQUOTE then map_option (\<lambda>(v, r). (JStr v, r)) (read_json_string s)
          else if c = 91 then
            (case skip_ws cs of
               [] \<Rightarrow> None
             | d # ds \<Rightarrow> if d = 93 then Some (JArr [], ds) else json_elements n [] (d # ds))
          else if c = 123 then
            (case skip_ws cs of
               [] \<Rightarrow> None
             | d # ds \<Rightarrow> if d = 125 then Some (JObj [], ds) else json_members n [] (d # ds))
          else json_word s)"
| "json_elements 0 vs s = None"
| "json_elements (Suc n) vs s =
     (case json_value n s of
        None \<Rightarrow> None
      | Some (v, r) \<Rightarrow>
          (case skip_ws r of
             [] \<Rightarrow> None
           | d # ds \<Rightarrow> if d = 93 then Some (JArr (vs @ [v]), ds)
                      else if d = COMMA then json_elements n (vs @ [v]) (skip_ws ds) else None))"
| "json_members 0 ms s = None"
| "json_members (Suc n) ms s =
     (case read_json_string s of
        None \<Rightarrow> None
      | Some (k, r) \<Rightarrow>
          (case skip_ws r of
             [] \<Rightarrow> None
           | e # es \<Rightarrow>
               if e \<noteq> 58 then None
               else (case json_value n (skip_ws es) of
                       None \<Rightarrow> None
                     | Some (v, r) \<Rightarrow>
                         (case skip_ws r of
                            [] \<Rightarrow> None
                          | d # ds \<Rightarrow>
                              if d = 125 then Some (JObj (put_member k v ms), ds)
                              else if d = COMMA then json_members n (put_member k v ms) (skip_ws ds)
                              else None))))"

definition json_parse :: "js \<Rightarrow> json option" where
  "json_parse s =
     (case json_value (2 * length s + 2) (skip_ws s) of
        None \<Rightarrow> None | Some (v, r) \<Rightarrow> if skip_ws r = [] then Some v else None)"

subsection \<open>The fuel is enough\<close>

lemma length_skip_ws: "length (skip_ws s) \<le> length s"
  by (simp add: skip_ws_def length_dropWhile_le)

lemma read_json_body_length: "read_json_body s = Some (v, r) \<Longrightarrow> length r < length s"
proof (induction s arbitrary: v r rule: read_json_body.induct)
  case (2 c cs)
  show ?case
  proof (cases "c = DQUOTE")
    case False
    show ?thesis
    proof (cases "c = BACKSLASH")
      case True
      with 2(3) False obtain x k w where e: "read_escape cs = Some (x, k)"
        and w: "read_json_body (drop k cs) = Some (w, r)"
        by (auto split: option.splits)
      from 2(1) [OF False True e refl w] show ?thesis by simp
    next
      case bs: False
      with 2(3) False obtain w where w: "read_json_body cs = Some (w, r)" "\<not> c < 32"
        by (auto split: if_splits)
      from 2(2) [OF False bs w(2,1)] show ?thesis by simp
    qed
  qed (use 2(3) in simp)
qed simp

lemma read_json_string_length: "read_json_string s = Some (v, r) \<Longrightarrow> length r < length s"
  by (auto simp: read_json_string_def split: list.splits if_splits dest: read_json_body_length)

lemma json_word_length: "json_word s = Some (v, r) \<Longrightarrow> s \<noteq> [] \<Longrightarrow> length r < length s"
  by (cases s) (auto simp: json_word_def json_number_def split: if_splits option.splits)

lemma json_length:
  "json_value n s = Some (v, r) \<Longrightarrow> length r < length s"
  "json_elements n vs s = Some (v, r) \<Longrightarrow> length r < length s"
  "json_members n ms s = Some (v, r) \<Longrightarrow> length r < length s"
proof (induction n s and n vs s and n ms s arbitrary: v r and v r and v r
    rule: json_value_json_elements_json_members.induct)
  case (2 n s)
  then show ?case
    using length_skip_ws [of "tl s"]
    by (cases s)
      (fastforce split: if_splits list.splits dest: read_json_string_length json_word_length)+
next
  case (4 n vs s)
  from 4(3) obtain w t where w: "json_value n s = Some (w, t)" by (auto split: option.splits)
  from 4(1) [OF w] have l: "length t < length s" .
  from 4(3) w obtain d ds where d: "skip_ws t = d # ds" by (auto split: list.splits)
  have "length ds < length s" using l d length_skip_ws [of t] by simp
  moreover have "length r < length (skip_ws ds)" if "json_elements n (vs @ [w]) (skip_ws ds) = Some (v, r)"
    "d = COMMA" using 4(2) [OF w refl d] that by simp
  ultimately show ?case using 4(3) w d length_skip_ws [of ds] by (auto split: if_splits)
next
  case (6 n ms s)
  from 6(3) obtain k t where k: "read_json_string s = Some (k, t)" by (auto split: option.splits)
  then have l: "length t < length s" by (rule read_json_string_length)
  from 6(3) k obtain es where e: "skip_ws t = 58 # es" by (auto split: list.splits if_splits)
  with 6(3) k obtain w t' where w: "json_value n (skip_ws es) = Some (w, t')"
    by (auto split: option.splits)
  from 6(1) [OF k refl e _ ] w have l': "length t' < length (skip_ws es)" by simp
  from 6(3) k e w obtain d ds where d: "skip_ws t' = d # ds" by (auto split: list.splits)
  have "length ds < length s"
    using l l' d e length_skip_ws [of t] length_skip_ws [of es] length_skip_ws [of t'] by simp
  moreover have "length r < length (skip_ws ds)"
    if "json_members n (put_member k w ms) (skip_ws ds) = Some (v, r)" "d = COMMA"
    using 6(2) [OF k refl e _ w refl d] that by simp
  ultimately show ?case using 6(3) k e w d length_skip_ws [of ds] by (auto split: if_splits)
qed auto

lemma json_fuel_step:
  "2 * length s + 1 \<le> n \<Longrightarrow> json_value (Suc n) s = json_value n s"
  "2 * length s + 2 \<le> n \<Longrightarrow> json_elements (Suc n) vs s = json_elements n vs s"
  "2 * length s + 2 \<le> n \<Longrightarrow> json_members (Suc n) ms s = json_members n ms s"
proof (induction n arbitrary: s vs ms)
  case (Suc n)
  {
    case 1
    have e: "json_elements (Suc n) [] t = json_elements n [] t"
      "json_members (Suc n) [] t = json_members n [] t" if "length t < length s" for t
    proof -
      from 1 that have "2 * length t + 2 \<le> n" by simp
      then show "json_elements (Suc n) [] t = json_elements n [] t"
        "json_members (Suc n) [] t = json_members n [] t" by (rule Suc.IH)+
    qed
    show ?case
    proof (cases s)
      case (Cons c cs)
      have "skip_ws cs = d # ds \<Longrightarrow> length (d # ds) < length s" for d ds
        using length_skip_ws [of cs] Cons by simp
      then show ?thesis
        using e Cons by (auto simp del: json_elements.simps json_members.simps split: list.split)
    qed simp
  next
    case 2
    have v: "json_value (Suc n) s = json_value n s" using 2 by (intro Suc.IH) simp
    show ?case
    proof (cases "json_value n s")
      case (Some p)
      obtain w r where p: "p = (w, r)" by force
      from json_length(1) Some p have l: "length r < length s" by blast
      have "json_elements (Suc n) (vs @ [w]) (skip_ws ds) = json_elements n (vs @ [w]) (skip_ws ds)"
        if "skip_ws r = d # ds" for d ds
        using 2 l that length_skip_ws [of r] length_skip_ws [of ds] by (intro Suc.IH) simp
      then show ?thesis
        using v Some p unfolding json_elements.simps(2) [of "Suc n"] json_elements.simps(2) [of n]
        by (auto simp del: json_elements.simps json_value.simps split: list.split)
    qed (use v in \<open>simp add: json_elements.simps(2) [of "Suc n"] json_elements.simps(2) [of n] del: json_value.simps\<close>)
  next
    case 3
    show ?case
    proof (cases "read_json_string s")
      case (Some p)
      obtain k r where p: "p = (k, r)" by force
      from read_json_string_length Some p have l: "length r < length s" by blast
      have v: "json_value (Suc n) (skip_ws es) = json_value n (skip_ws es)"
        if "skip_ws r = d # es" for d es
        using 3 l that length_skip_ws [of r] length_skip_ws [of es] by (intro Suc.IH) simp
      have m: "json_members (Suc n) ms' (skip_ws ds) = json_members n ms' (skip_ws ds)"
        if "skip_ws r = d # es" "json_value n (skip_ws es) = Some (w, r')" "skip_ws r' = d' # ds"
        for d es w r' d' ds ms'
        using 3 l that length_skip_ws [of r] length_skip_ws [of es] length_skip_ws [of r']
          length_skip_ws [of ds] json_length(1) [OF that(2)] by (intro Suc.IH) simp
      show ?thesis
        using Some p v m unfolding json_members.simps(2) [of "Suc n"] json_members.simps(2) [of n]
        by (auto simp del: json_members.simps json_value.simps split: list.split option.split)
    qed simp
  }
qed simp_all

lemma json_fuel_enough:
  "2 * length s + 1 \<le> n \<Longrightarrow> json_value n s = json_value (2 * length s + 1) s"
proof (induction n rule: dec_induct)
  case (step n)
  then show ?case using json_fuel_step(1) [of s n] by simp
qed simp

subsection \<open>Parsing what was written\<close>

text \<open>Values without numbers, whose objects have distinct keys.\<close>

fun json_plain :: "json \<Rightarrow> bool" where
  "json_plain (JNum x) = False"
| "json_plain (JArr vs) = (\<forall>v \<in> set vs. json_plain v)"
| "json_plain (JObj ms) = (distinct (map fst ms) \<and> (\<forall>m \<in> set ms. json_plain (snd m)))"
| "json_plain v = True"

lemma json_stringify_head:
  "json_plain v \<Longrightarrow> \<exists>c cs. json_stringify v = c # cs \<and> \<not> json_ws c \<and> c \<noteq> 93 \<and> c \<noteq> 125"
  by (cases v) (auto simp: u.simps json_quote_def json_ws_def)

lemma skip_ws_stringify: "json_plain v \<Longrightarrow> skip_ws (json_stringify v @ r) = json_stringify v @ r"
  using json_stringify_head [of v] by (auto simp: skip_ws_def)

lemma json_elements_join:
  assumes "\<And>v n r. v \<in> set vs \<Longrightarrow> 2 * length (json_stringify v @ r) + 1 \<le> n \<Longrightarrow>
      json_value n (json_stringify v @ r) = Some (v, r)"
    and "\<forall>v \<in> set vs. json_plain v" and "vs \<noteq> []"
    and "2 * length (join [COMMA] (map json_stringify vs) @ 93 # r) + 2 \<le> n"
  shows "json_elements n acc (join [COMMA] (map json_stringify vs) @ 93 # r) = Some (JArr (acc @ vs), r)"
  using assms
proof (induction vs arbitrary: acc n)
  case (Cons v vs)
  from Cons.prems(4) obtain m where n: "n = Suc m" by (cases n) auto
  show ?case
  proof (cases "vs = []")
    case True
    have "json_value m (json_stringify v @ 93 # r) = Some (v, 93 # r)"
      using Cons.prems(1) [of v "93 # r" m] Cons.prems(4) True n by simp
    then show ?thesis using True n by (simp add: skip_ws_def json_ws_def)
  next
    case False
    let ?t = "join [COMMA] (map json_stringify vs) @ 93 # r"
    have j: "join [COMMA] (map json_stringify (v # vs)) @ 93 # r = json_stringify v @ COMMA # ?t"
      using False by (simp add: join_Cons)
    have v: "json_value m (json_stringify v @ COMMA # ?t) = Some (v, COMMA # ?t)"
      using Cons.prems(1) [of v "COMMA # ?t" m] Cons.prems(4) n unfolding j by simp
    obtain w ws where vs: "vs = w # ws" using False by (cases vs) auto
    have "skip_ws ?t = ?t"
      using skip_ws_stringify [of w] Cons.prems(2) vs by (cases ws) (auto simp: join_Cons)
    moreover have "json_elements m (acc @ [v]) ?t = Some (JArr ((acc @ [v]) @ vs), r)"
      using Cons.prems n False unfolding j by (intro Cons.IH) auto
    ultimately show ?thesis unfolding j n json_elements.simps(2) v
      by (simp add: skip_ws_def json_ws_def)
  qed
qed simp

abbreviation member_text :: "js \<times> json \<Rightarrow> js" where
  "member_text m \<equiv> (case m of (k, v) \<Rightarrow> json_quote k @ u '':'' @ json_stringify v)"

lemma json_members_join:
  assumes "\<And>m n r. m \<in> set ms \<Longrightarrow> 2 * length (json_stringify (snd m) @ r) + 1 \<le> n \<Longrightarrow>
      json_value n (json_stringify (snd m) @ r) = Some (snd m, r)"
    and "\<forall>m \<in> set ms. json_plain (snd m)" and "ms \<noteq> []" and "distinct (map fst (acc @ ms))"
    and "2 * length (join [COMMA] (map member_text ms) @ 125 # r) + 2 \<le> n"
  shows "json_members n acc (join [COMMA] (map member_text ms) @ 125 # r) = Some (JObj (acc @ ms), r)"
  using assms
proof (induction ms arbitrary: acc n)
  case (Cons m ms)
  obtain k v where m: "m = (k, v)" by force
  from Cons.prems(5) obtain l where n: "n = Suc l" by (cases n) auto
  have put: "put_member k v acc = acc @ [(k, v)]"
    using Cons.prems(4) m by (auto simp: put_member_def)
  have pv: "json_plain v" using Cons.prems(2) m by simp
  have colon: "u '':'' = [58]" by (simp add: u.simps)
  have sk: "skip_ws (58 # s) = 58 # s" "skip_ws (125 # s) = 125 # s" "skip_ws (COMMA # s) = COMMA # s" for s
    by (simp_all add: skip_ws_def json_ws_def)
  show ?case
  proof (cases "ms = []")
    case True
    have "json_value l (json_stringify v @ 125 # r) = Some (v, 125 # r)"
      using Cons.prems(1) [of m "125 # r" l] Cons.prems(5) True n m by simp
    then show ?thesis
      using True n m put skip_ws_stringify [OF pv]
      by (simp add: read_json_quote sk colon)
  next
    case False
    let ?t = "join [COMMA] (map member_text ms) @ 125 # r"
    have j: "join [COMMA] (map member_text (m # ms)) @ 125 # r
        = json_quote k @ 58 # json_stringify v @ COMMA # ?t"
      using False m by (simp add: join_Cons colon)
    have v: "json_value l (json_stringify v @ COMMA # ?t) = Some (v, COMMA # ?t)"
      using Cons.prems(1) [of m "COMMA # ?t" l] Cons.prems(5) n m unfolding j by simp
    obtain k' v' ms' where ms: "ms = (k', v') # ms'" using False by (cases ms) auto
    have t: "skip_ws ?t = ?t"
      using ms by (cases ms') (simp_all add: json_quote_def skip_ws_def json_ws_def)
    have "json_members l (acc @ [(k, v)]) ?t = Some (JObj ((acc @ [(k, v)]) @ ms), r)"
      using Cons.prems n False m unfolding j by (intro Cons.IH) auto
    then show ?thesis unfolding j n json_members.simps(2)
      by (simp add: read_json_quote sk skip_ws_stringify [OF pv] v t put m)
  qed
qed simp

lemma json_value_stringify:
  "json_plain v \<Longrightarrow> 2 * length (json_stringify v @ r) + 1 \<le> n \<Longrightarrow>
    json_value n (json_stringify v @ r) = Some (v, r)"
proof (induction v arbitrary: n r)
  case (JStr s)
  then obtain m where "n = Suc m" by (cases n) auto
  moreover have "\<exists>t. json_quote s = DQUOTE # t" by (simp add: json_quote_def)
  ultimately show ?case using read_json_quote [of s r] by auto
next
  case (JArr vs)
  then obtain m where n: "n = Suc m" by (cases n) auto
  show ?case
  proof (cases "vs = []")
    case False
    then obtain w ws where vs: "vs = w # ws" by (cases vs) auto
    let ?t = "join [COMMA] (map json_stringify vs) @ 93 # r"
    have w: "json_plain w" using JArr.prems vs by simp
    obtain c cs where t: "?t = c # cs" "\<not> json_ws c" "c \<noteq> 93"
      using json_stringify_head [OF w] vs by (cases ws) auto
    have "json_elements m [] ?t = Some (JArr ([] @ vs), r)"
      using JArr n False by (intro json_elements_join) (auto simp: u.simps)
    then show ?thesis using n t False by (auto simp: u.simps skip_ws_def)
  qed (use n in \<open>simp add: u.simps skip_ws_def json_ws_def\<close>)
next
  case (JObj ms)
  then obtain m where n: "n = Suc m" by (cases n) auto
  show ?case
  proof (cases "ms = []")
    case False
    let ?t = "join [COMMA] (map member_text ms) @ 125 # r"
    obtain c cs where t: "?t = c # cs" "\<not> json_ws c" "c \<noteq> 125"
    proof -
      obtain k v ms' where "ms = (k, v) # ms'" using False by (cases ms) auto
      then have "\<exists>cs. ?t = DQUOTE # cs" by (cases ms') (auto simp: json_quote_def)
      then show ?thesis using that by (auto simp: json_ws_def)
    qed
    have "json_members m [] ?t = Some (JObj ([] @ ms), r)"
      using JObj n False by (intro json_members_join) (auto simp: u.simps)
    then show ?thesis using n t False by (auto simp: u.simps skip_ws_def)
  qed (use n in \<open>simp add: u.simps skip_ws_def json_ws_def\<close>)
next
  case JNull
  then obtain m where "n = Suc m" by (cases n) auto
  then show ?case by (simp add: u.simps json_word_def)
next
  case (JBool b)
  then obtain m where "n = Suc m" by (cases n) auto
  then show ?case by (cases b) (simp_all add: u.simps json_word_def)
qed simp

lemma json_parse_stringify: "json_plain v \<Longrightarrow> json_parse (json_stringify v) = Some v"
  using json_value_stringify [of v "[]" "2 * length (json_stringify v) + 2"] skip_ws_stringify [of v "[]"]
  by (simp add: json_parse_def skip_ws_def)

lemma json_stringify_inj:
  "json_plain v \<Longrightarrow> json_plain w \<Longrightarrow> json_stringify v = json_stringify w \<Longrightarrow> v = w"
  by (metis json_parse_stringify option.inject)

lemmas json_eval [js_eval] =
  hex_digit_def u_escape_def is_high_def is_low_def json_esc_def json_quote_def hex_value_def
  simple_escape_def read_escape_def read_json_string_def json_number_text_def json_ws_def skip_ws_def
  number_token_def json_number_def put_member_def json_word_def json_parse_def

end
