(* ===== verification/Mutation_Values.thy ===== *)
theory Mutation_Values
  imports Table_Ddl Js_Json
begin

text \<open>
  Typed values of staged edits (\<open>features/tables/tableSql.ts\<close>): the cells of the transport, the
  validation of an edited text against its column and the bound value it becomes
  (\<open>editableValueToMutationValue\<close> and its helpers). Errors are the left summand. Declared lengths and
  precisions are read as natural numbers, which \<open>Number\<close> is exact on below 2^53.
\<close>

section \<open>Cells\<close>

datatype CellValue =
  CNull | CBoolean bool | CInteger js | CFloat js_num | CDecimal js | CText js | CJson js
| CBinary js | CDateTime js

record QueryColumn =
  qc_name :: js
  databaseType :: js
  qc_nullable :: "bool option"

datatype TableMutationValue =
  MNull | MBoolean bool | MInteger js | MFloat js | MDecimal js | MText js | MJson js
| MBinary js | MDateTime js

text \<open>\<open>None\<close> is SQL NULL.\<close>

type_synonym EditableCellValue = "js option"

definition cellValueToEditable :: "CellValue option \<Rightarrow> EditableCellValue" where
  "cellValueToEditable cell =
     (case cell of
        None \<Rightarrow> None
      | Some c \<Rightarrow>
          (case c of
             CNull \<Rightarrow> None
           | CBoolean b \<Rightarrow> Some (if b then u ''1'' else u ''0'')
           | CFloat x \<Rightarrow> Some (num_to_string x)
           | CInteger s \<Rightarrow> Some s | CDecimal s \<Rightarrow> Some s | CText s \<Rightarrow> Some s | CJson s \<Rightarrow> Some s
           | CBinary s \<Rightarrow> Some s | CDateTime s \<Rightarrow> Some s))"

fun cellValueToMutationValue :: "CellValue \<Rightarrow> TableMutationValue" where
  "cellValueToMutationValue CNull = MNull"
| "cellValueToMutationValue (CBoolean b) = MBoolean b"
| "cellValueToMutationValue (CInteger s) = MInteger s"
| "cellValueToMutationValue (CFloat x) = MFloat (num_to_string x)"
| "cellValueToMutationValue (CDecimal s) = MDecimal s"
| "cellValueToMutationValue (CText s) = MText s"
| "cellValueToMutationValue (CJson s) = MJson s"
| "cellValueToMutationValue (CBinary s) = MBinary s"
| "cellValueToMutationValue (CDateTime s) = MDateTime s"

section \<open>Integers and decimals\<close>

text \<open>\<open>BigInt(text)\<close> of a sign and digits.\<close>

definition big_int :: "js \<Rightarrow> int" where
  "big_int s = (case parse_sign s of (neg, t) \<Rightarrow>
     if neg then - int (digits_val t) else int (digits_val t))"

definition integerRx :: rx where
  "integerRx = Seq Bol (rx_seqs [sign_rx, rx_plus rx_digit, Eol])"

fun integer_bits :: "(string \<times> nat) list \<Rightarrow> js \<Rightarrow> nat option" where
  "integer_bits [] b = None"
| "integer_bits ((s, n) # ps) b = (if u s = b then Some n else integer_bits ps b)"

definition INTEGER_BITS :: "(string \<times> nat) list" where
  "INTEGER_BITS = [(''tinyint'', 8), (''smallint'', 16), (''mediumint'', 24), (''int'', 32),
     (''integer'', 32), (''bigint'', 64)]"

definition integerRangeError :: "js \<Rightarrow> js \<Rightarrow> bool \<Rightarrow> js option" where
  "integerRangeError v b unsgn =
     (if b = u ''year'' then
        (let year = big_int v in
         if year = 0 \<or> (year \<ge> 1901 \<and> year \<le> 2155) then None
         else Some (u ''YEAR '' @ [20165, 20801, 35768] @ u '' 0 '' @ [25110] @ u '' 1901'' @ [8211] @ u ''2155''))
      else case integer_bits INTEGER_BITS b of
             None \<Rightarrow> None
           | Some bits \<Rightarrow>
               (let integer = big_int v;
                    minimum = (if unsgn then 0 else - (2 ^ (bits - 1)));
                    maximum = (if unsgn then 2 ^ bits - 1 else 2 ^ (bits - 1) - 1)
                in if integer < minimum \<or> integer > maximum then
                     Some (([36229, 20986] @ u '' '') @ to_upper b @ (if unsgn then u '' UNSIGNED'' else [])
                       @ (u '' '' @ [33539, 22260]))
                   else None))"

text \<open>\<open>\(\s*(\d+)\s*,\s*(\d+)\s*\)\<close> and \<open>\(\s*(\d+)\s*\)\<close> after one of the given types.\<close>

definition pair_rx :: "string list \<Rightarrow> rx" where
  "pair_rx types = Seq Bol (rx_seqs [rx_alts (map rx_lit types), Star rx_ws, rx_chr 40, Star rx_ws,
     Grp 1 (rx_plus rx_digit), Star rx_ws, rx_chr COMMA, Star rx_ws, Grp 2 (rx_plus rx_digit),
     Star rx_ws, rx_chr 41])"

definition single_rx :: "string list \<Rightarrow> rx" where
  "single_rx types = Seq Bol (rx_seqs [rx_alts (map rx_lit types), Star rx_ws, rx_chr 40, Star rx_ws,
     Grp 1 (rx_plus rx_digit), Star rx_ws, rx_chr 41])"

definition group :: "(nat \<Rightarrow> js option) \<Rightarrow> nat \<Rightarrow> js" where
  "group g i = (case g i of None \<Rightarrow> [] | Some s \<Rightarrow> s)"

definition drop_sign :: "js \<Rightarrow> js" where
  "drop_sign s = snd (parse_sign s)"

text \<open>The part of the check after the declared \<open>M\<close> and \<open>D\<close> are known.\<close>

definition decimal_widths :: "js \<Rightarrow> nat \<Rightarrow> nat \<Rightarrow> js option" where
  "decimal_widths v totalDigits fractionDigits =
     (let parts = split_on 46 (drop_sign v);
          integerPart = parts ! 0;
          fractionPart = (case at parts 1 of None \<Rightarrow> [] | Some p \<Rightarrow> p);
          integerDigits = length (dropWhile (\<lambda>c. c = 48) integerPart)
      in if length fractionPart > fractionDigits
            \<or> int integerDigits > int totalDigits - int fractionDigits then
           Some (([36229, 20986] @ u '' DECIMAL('') @ dec totalDigits @ [COMMA] @ dec fractionDigits
             @ (u '') '' @ [33539, 22260, 25110, 23567, 25968, 20301, 25968]))
         else None)"

definition decimalRangeError :: "js \<Rightarrow> js \<Rightarrow> js option" where
  "decimalRangeError v dbType =
     (case rx_groups (pair_rx [''decimal'', ''numeric'']) dbType of
        None \<Rightarrow> None
      | Some g \<Rightarrow> decimal_widths v (digits_val (group g 1)) (digits_val (group g 2)))"

section \<open>Floating point\<close>

definition floatingScaleError :: "js \<Rightarrow> js \<Rightarrow> js option" where
  "floatingScaleError v dbType =
     (case rx_groups (pair_rx [''float'', ''double'', ''real'']) dbType of
        None \<Rightarrow> None
      | Some g \<Rightarrow>
          if \<not> rx_test decimalRx v then Some (u ''FLOAT/DOUBLE(M,D) '' @ [35831, 36755, 20837, 19981, 24102, 25351, 25968, 30340, 26222, 36890, 23567, 25968])
          else case decimalRangeError v (u ''decimal('' @ group g 1 @ [COMMA] @ group g 2 @ u '')'') of
                 None \<Rightarrow> None
               | Some _ \<Rightarrow> Some (([36229, 20986] @ u '' '') @ to_upper dbType @ (u '' '' @ [33539, 22260, 25110, 23567, 25968, 20301, 25968])))"

definition floatPrecisionRx :: rx where
  "floatPrecisionRx = Seq Bol (rx_seqs [rx_lit ''float'', Star rx_ws, rx_chr 40, Star rx_ws,
     Grp 1 (rx_plus rx_digit), Star rx_ws, rx_chr 41,
     rx_opt (Seq (rx_plus rx_ws) (rx_lit ''unsigned'')),
     rx_opt (Seq (rx_plus rx_ws) (rx_lit ''zerofill'')), Eol])"

definition usesSinglePrecisionFloat :: "js \<Rightarrow> js \<Rightarrow> bool" where
  "usesSinglePrecisionFloat dbType b =
     (if b \<noteq> u ''float'' then False
      else case rx_groups floatPrecisionRx dbType of
             None \<Rightarrow> True
           | Some g \<Rightarrow> (case g 1 of None \<Rightarrow> True | Some p \<Rightarrow> digits_val p \<le> 24))"

definition hasNonZeroMantissa :: "js \<Rightarrow> bool" where
  "hasNonZeroMantissa v = (\<exists>c \<in> set (takeWhile (\<lambda>c. c \<noteq> 101 \<and> c \<noteq> 69) v). 49 \<le> c \<and> c \<le> 57)"

definition numberToExactText :: "js_num \<Rightarrow> js" where
  "numberToExactText x = (if is_neg_zero x then u ''-0'' else num_to_string x)"

section \<open>Binary\<close>

definition base64_char :: "nat \<Rightarrow> bool" where
  "base64_char c \<longleftrightarrow> is_upper c \<or> is_lower c \<or> is_digit c \<or> c = 43 \<or> c = 47"

definition base64Rx :: rx where
  "base64Rx = Seq Bol (rx_seqs [Star (rx_rep 4 (Cls base64_char)),
     rx_opt (Alt (Seq (rx_rep 2 (Cls base64_char)) (Seq (rx_chr 61) (rx_chr 61)))
                 (Seq (rx_rep 3 (Cls base64_char)) (rx_chr 61))), Eol])"

definition isValidBase64 :: "js \<Rightarrow> bool" where
  "isValidBase64 v \<longleftrightarrow> v = [] \<or> rx_test base64Rx v"

definition base64_alphabet :: js where
  "base64_alphabet = u ''ABCDEFGHIJKLMNOPQRSTUVWXYZabcdefghijklmnopqrstuvwxyz0123456789+/''"

definition base64FirstByte :: "js \<Rightarrow> nat option" where
  "base64FirstByte v =
     (if length v < 2 then None
      else case (find_index (\<lambda>c. c = v ! 0) base64_alphabet, find_index (\<lambda>c. c = v ! 1) base64_alphabet) of
             (Some high, Some low) \<Rightarrow> Some (high * 4 + low div 16)
           | _ \<Rightarrow> None)"

definition BLOB_MAXIMUM :: "(string \<times> nat) list" where
  "BLOB_MAXIMUM = [(''tinyblob'', 255), (''blob'', 65535), (''mediumblob'', 16777215)]"

definition padding_of :: "js \<Rightarrow> nat" where
  "padding_of v = (if ends_with v (u ''=='') then 2 else if ends_with v (u ''='') then 1 else 0)"

text \<open>The declared length of BIT, BINARY and VARBINARY; the length is of a text of whole groups of four.\<close>

definition declaredBinaryError :: "js \<Rightarrow> js \<Rightarrow> js \<Rightarrow> nat \<Rightarrow> nat \<Rightarrow> js option" where
  "declaredBinaryError v dbType b byteLength bitLength =
     (let maximum = (if b = u ''bit'' then (bitLength + 7) div 8 else bitLength) in
      if b = u ''bit'' \<and> byteLength \<noteq> maximum then
        Some (u ''BIT('' @ dec bitLength @ (u '') '' @ [24517, 39035, 25552, 20379] @ u '' '') @ dec maximum @ (u '' '' @ [23383, 33410] @ u '' Base64 '' @ [25968, 25454]))
      else if byteLength > maximum then Some (([20108, 36827, 21046, 20869, 23481, 36229, 36807] @ u '' '') @ to_upper dbType @ (u '' '' @ [23481, 37327]))
      else if b = u ''bit'' \<and> byteLength = maximum \<and> bitLength mod 8 \<noteq> 0
              \<and> (case base64FirstByte v of None \<Rightarrow> False | Some f \<Rightarrow> f \<ge> 2 ^ (bitLength mod 8)) then
        Some (([20108, 36827, 21046, 20869, 23481, 36229, 20986] @ u '' BIT('') @ dec bitLength @ (u '') '' @ [20301, 33539, 22260]))
      else None)"

definition binaryLengthError :: "js \<Rightarrow> js \<Rightarrow> js \<Rightarrow> js option" where
  "binaryLengthError v dbType b =
     (let byteLength = length v div 4 * 3 - padding_of v;
          declared = (case rx_groups (single_rx [''bit'', ''binary'', ''varbinary'']) dbType of
              None \<Rightarrow> None
            | Some g \<Rightarrow> declaredBinaryError v dbType b byteLength (digits_val (group g 1)))
      in case declared of
           Some e \<Rightarrow> Some e
         | None \<Rightarrow>
             (case integer_bits BLOB_MAXIMUM b of
                Some m \<Rightarrow> if byteLength > m then Some (([20108, 36827, 21046, 20869, 23481, 36229, 36807] @ u '' '') @ to_upper b @ (u '' '' @ [23481, 37327]))
                          else None
              | None \<Rightarrow> None))"

section \<open>ENUM and SET\<close>

definition enum_escape :: "nat \<Rightarrow> nat" where
  "enum_escape c = (if c = 48 then 0 else if c = 98 then 8 else if c = 110 then 10
     else if c = 114 then 13 else if c = 116 then 9 else if c = 90 then 26 else c)"

text \<open>The rest of a member after its opening quote; \<open>None\<close> when it is not closed.\<close>

fun enum_member :: "js \<Rightarrow> js \<Rightarrow> (js \<times> js) option" where
  "enum_member member [] = None"
| "enum_member member [c] = (if c = QUOTE then Some (member, []) else None)"
| "enum_member member (c # d # cs) =
     (if c = QUOTE \<and> d = QUOTE then enum_member (member @ [QUOTE]) cs
      else if c = QUOTE then Some (member, d # cs)
      else if c = BACKSLASH then enum_member (member @ [enum_escape d]) cs
      else enum_member (member @ [c]) (d # cs))"

lemma enum_member_length: "enum_member m s = Some (v, r) \<Longrightarrow> length r < length s"
  by (induction m s rule: enum_member.induct) (auto split: if_splits)

function enum_members :: "js list \<Rightarrow> js \<Rightarrow> js list option" where
  "enum_members vals s =
     (case dropWhile is_ws s of
        [] \<Rightarrow> None
      | q # t \<Rightarrow>
          if q \<noteq> QUOTE then None
          else (case enum_member [] t of
                  None \<Rightarrow> None
                | Some (m, r) \<Rightarrow>
                    (case dropWhile is_ws r of
                       [] \<Rightarrow> None
                     | c # ds \<Rightarrow>
                         if c = COMMA then enum_members (vals @ [m]) ds
                         else if c = 41 \<and> trim ds = [] then Some (vals @ [m])
                         else None)))"
  by pat_completeness auto
termination
proof (relation "measure (\<lambda>(_, s). length s)", simp, clarsimp)
  fix s t m r ds
  assume s: "dropWhile is_ws s = QUOTE # t" and m: "enum_member [] t = Some (m, r)"
    and r: "dropWhile is_ws r = COMMA # ds"
  have "length t < length s" "length ds < length r"
    using length_dropWhile_le [of is_ws s] length_dropWhile_le [of is_ws r] s r by simp_all
  with enum_member_length [OF m] show "length ds < length s" by simp
qed

declare enum_members.simps [simp del]

definition parseEnumSetValues :: "js \<Rightarrow> string \<Rightarrow> js list option" where
  "parseEnumSetValues dbType b =
     (case rx_groups (Seq Bol (rx_seqs [rx_liti b, Star rx_ws, rx_chr 40])) dbType of
        None \<Rightarrow> None
      | Some g \<Rightarrow> enum_members [] (drop (length (group g 0)) dbType))"

section \<open>Text\<close>

text \<open>\<open>Array.from(s).length\<close> and the length of \<open>s\<close> in UTF-8, where a lone surrogate is U+FFFD.\<close>

fun code_points :: "js \<Rightarrow> nat" where
  "code_points (c # d # cs) =
     (if is_high c \<and> is_low d then Suc (code_points cs) else Suc (code_points (d # cs)))"
| "code_points [c] = 1"
| "code_points [] = 0"

definition utf8_unit :: "nat \<Rightarrow> nat" where
  "utf8_unit c = (if c < 128 then 1 else if c < 2048 then 2 else 3)"

fun utf8_length :: "js \<Rightarrow> nat" where
  "utf8_length (c # d # cs) =
     (if is_high c \<and> is_low d then 4 + utf8_length cs else utf8_unit c + utf8_length (d # cs))"
| "utf8_length [c] = utf8_unit c"
| "utf8_length [] = 0"

definition TEXT_MAXIMUM :: "(string \<times> nat) list" where
  "TEXT_MAXIMUM = [(''tinytext'', 255), (''text'', 65535), (''mediumtext'', 16777215)]"

definition textValueLengthError :: "js \<Rightarrow> js \<Rightarrow> js \<Rightarrow> js option" where
  "textValueLengthError v dbType b =
     (let tooLong = (case rx_groups (single_rx [''char'', ''varchar'']) dbType of
            None \<Rightarrow> False | Some g \<Rightarrow> code_points v > digits_val (group g 1))
      in if tooLong then Some (([20869, 23481, 36229, 36807] @ u '' '') @ to_upper dbType @ (u '' '' @ [23383, 31526, 38271, 24230]))
         else case integer_bits TEXT_MAXIMUM b of
                Some m \<Rightarrow> if utf8_length v > m then Some (([20869, 23481, 36229, 36807] @ u '' '') @ to_upper b @ (u '' '' @ [23481, 37327]))
                          else None
              | None \<Rightarrow> None)"

section \<open>Dates and times\<close>

definition d2 :: rx where "d2 = rx_rep 2 rx_digit"
definition date_rx :: rx where
  "date_rx = rx_seqs [Grp 1 (rx_rep 4 rx_digit), rx_chr 45, Grp 2 d2, rx_chr 45, Grp 3 d2]"

definition days_in_month :: "nat \<Rightarrow> nat \<Rightarrow> nat" where
  "days_in_month year month =
     (let leapYear = year mod 400 = 0 \<or> (year mod 4 = 0 \<and> year mod 100 \<noteq> 0) in
      [31, if leapYear then 29 else 28, 31, 30, 31, 30, 31, 31, 30, 31, 30, 31] ! (month - 1))"

definition valid_date :: "nat \<Rightarrow> nat \<Rightarrow> nat \<Rightarrow> bool" where
  "valid_date year month day =
     (if month = 0 \<or> day = 0 then month \<le> 12 \<and> day \<le> 31
      else if month > 12 then False
      else day \<le> days_in_month year month)"

definition isValidDateParts :: "js \<Rightarrow> bool" where
  "isValidDateParts v =
     (case rx_groups (Seq Bol (Seq date_rx Eol)) v of
        None \<Rightarrow> False
      | Some g \<Rightarrow> valid_date (digits_val (group g 1)) (digits_val (group g 2)) (digits_val (group g 3)))"

definition fspRx :: rx where
  "fspRx = rx_seqs [rx_chr 40, Star rx_ws, Grp 1 rx_digit, Star rx_ws, rx_chr 41]"

definition validFractionPrecision :: "js \<Rightarrow> js \<Rightarrow> bool" where
  "validFractionPrecision fraction dbType =
     (let maximum = (case rx_groups fspRx dbType of None \<Rightarrow> 0 | Some g \<Rightarrow> digits_val (group g 1))
      in length fraction \<le> maximum)"

definition fraction_rx :: "nat \<Rightarrow> rx" where
  "fraction_rx i = rx_opt (Seq (rx_chr 46) (Grp i (Seq rx_digit (rx_upto 5 rx_digit))))"

definition timeRx :: rx where
  "timeRx = Seq Bol (rx_seqs [rx_opt (rx_chr 45), Grp 1 (Seq rx_digit (rx_upto 2 rx_digit)),
     rx_chr 58, Grp 2 d2, rx_chr 58, Grp 3 d2, fraction_rx 4, Eol])"

definition datetimeRx :: rx where
  "datetimeRx = Seq Bol (rx_seqs
     [Grp 1 (rx_seqs [rx_rep 4 rx_digit, rx_chr 45, d2, rx_chr 45, d2]),
      Cls (\<lambda>c. c = 32 \<or> c = 84), Grp 2 d2, rx_chr 58, Grp 3 d2, rx_chr 58, Grp 4 d2,
      fraction_rx 5, Eol])"

definition isValidTemporal :: "js \<Rightarrow> js \<Rightarrow> js \<Rightarrow> bool" where
  "isValidTemporal v b dbType =
     (if b = u ''date'' then isValidDateParts v
      else if b = u ''time'' then
        (case rx_groups timeRx v of
           None \<Rightarrow> False
         | Some g \<Rightarrow> digits_val (group g 1) \<le> 838 \<and> digits_val (group g 2) \<le> 59
             \<and> digits_val (group g 3) \<le> 59 \<and> validFractionPrecision (group g 4) dbType)
      else case rx_groups datetimeRx v of
             None \<Rightarrow> False
           | Some g \<Rightarrow> isValidDateParts (group g 1) \<and> digits_val (group g 2) \<le> 23
               \<and> digits_val (group g 3) \<le> 59 \<and> digits_val (group g 4) \<le> 59
               \<and> validFractionPrecision (group g 5) dbType)"

section \<open>The bound value of an edited text\<close>

definition unsignedRx :: rx where
  "unsignedRx = rx_seqs [Bnd is_word, rx_lit ''unsigned'', Bnd is_word]"

definition INTEGER_TYPES :: "string list" where
  "INTEGER_TYPES = [''tinyint'', ''smallint'', ''mediumint'', ''int'', ''integer'', ''bigint'', ''year'']"

definition BINARY_TYPES :: "string list" where
  "BINARY_TYPES = [''bit'', ''binary'', ''varbinary'', ''tinyblob'', ''blob'', ''mediumblob'', ''longblob'']"

definition or_error :: "js option \<Rightarrow> TableMutationValue \<Rightarrow> js + TableMutationValue" where
  "or_error e v = (case e of Some m \<Rightarrow> Inl m | None \<Rightarrow> Inr v)"

definition floatValue :: "js \<Rightarrow> js \<Rightarrow> js \<Rightarrow> js + TableMutationValue" where
  "floatValue trimmed normalizedType b =
     (if \<not> rx_test numberRx trimmed then Inl ([35831, 36755, 20837, 26377, 25928, 28014, 28857, 25968])
      else let parsed = decimal_number trimmed in
        if \<not> is_finite parsed \<or> (is_zero parsed \<and> hasNonZeroMantissa trimmed) then
          Inl ([28014, 28857, 25968, 36229, 20986, 21487, 34920, 31034, 33539, 22260])
        else if rx_test unsignedRx normalizedType \<and> (is_negative parsed \<or> is_neg_zero parsed) then
          Inl (u ''UNSIGNED '' @ [28014, 28857, 25968, 19981, 33021, 20026, 36127, 25968])
        else case floatingScaleError trimmed normalizedType of
               Some e \<Rightarrow> Inl e
             | None \<Rightarrow>
                 (let normalized = (if usesSinglePrecisionFloat normalizedType b then fround parsed
                                    else parsed)
                  in if \<not> is_finite normalized \<or> (is_zero normalized \<and> \<not> is_zero parsed) then
                       Inl ([28014, 28857, 25968, 36229, 20986] @ u '' FLOAT '' @ [21487, 34920, 31034, 33539, 22260])
                     else Inr (MFloat (numberToExactText normalized))))"

definition enumSetValue :: "js \<Rightarrow> js \<Rightarrow> string \<Rightarrow> js + TableMutationValue" where
  "enumSetValue v typeDeclaration b =
     (case parseEnumSetValues typeDeclaration b of
        None \<Rightarrow> Inl (to_upper (u b) @ (u '' '' @ [23450, 20041, 26080, 27861, 23433, 20840, 35299, 26512, 65292, 35831, 20351, 29992, 26174, 24335] @ u '' SQL''))
      | Some allowedValues \<Rightarrow>
          if b = ''enum'' then
            if v \<in> set allowedValues then Inr (MText v) else Inl ([20540, 19981, 22312] @ u '' ENUM '' @ [23450, 20041, 20013])
          else
            (let selectedValues = (if v = [] then [] else split_on COMMA v) in
             if length (new_set selectedValues) \<noteq> length selectedValues
                \<or> (\<exists>item \<in> set selectedValues. item \<notin> set allowedValues)
             then Inl ([20540, 19981, 22312] @ u '' SET '' @ [23450, 20041, 20013, 25110, 21253, 21547, 37325, 22797, 39033])
             else Inr (MText v)))"

definition editableValueToMutationValue ::
  "EditableCellValue \<Rightarrow> TableColumnDefinition \<Rightarrow> js + TableMutationValue" where
  "editableValueToMutationValue editable column =
     (case editable of
        None \<Rightarrow> if nullable column then Inr MNull else Inl ([35813, 23383, 27573, 19981, 20801, 35768] @ u '' NULL'')
      | Some v \<Rightarrow>
          if generationExpression column \<noteq> [] then Inl ([29983, 25104, 21015, 19981, 33021, 25163, 21160, 36171, 20540])
          else
            (let typeDeclaration = trim (col_type column);
                 normalizedType = to_lower typeDeclaration;
                 letters = takeWhile is_lower normalizedType;
                 b = (if letters = [] then normalizedType else letters);
                 trimmed = trim v
             in if b \<in> set (map u INTEGER_TYPES) then
                  if \<not> rx_test integerRx trimmed then Inl ([35831, 36755, 20837, 26377, 25928, 25972, 25968])
                  else or_error (integerRangeError trimmed b (rx_test unsignedRx normalizedType))
                         (MInteger (dec_int (big_int trimmed)))
                else if b = u ''decimal'' \<or> b = u ''numeric'' then
                  if \<not> rx_test decimalRx trimmed then Inl ([35831, 36755, 20837, 26377, 25928, 31934, 30830, 23567, 25968])
                  else if rx_test unsignedRx normalizedType \<and> starts_with trimmed (u ''-'') then
                    Inl (u ''UNSIGNED '' @ [23567, 25968, 19981, 33021, 20026, 36127, 25968])
                  else or_error (decimalRangeError trimmed normalizedType) (MDecimal trimmed)
                else if b = u ''float'' \<or> b = u ''double'' \<or> b = u ''real'' then
                  floatValue trimmed normalizedType b
                else if b = u ''json'' then
                  if json_parse v \<noteq> None then Inr (MJson v) else Inl ([35831, 36755, 20837, 26377, 25928] @ u '' JSON'')
                else if b \<in> set (map u BINARY_TYPES) then
                  if \<not> isValidBase64 trimmed then Inl ([20108, 36827, 21046, 23383, 27573, 35831, 36755, 20837, 26631, 20934] @ u '' Base64'')
                  else or_error (binaryLengthError trimmed normalizedType b) (MBinary trimmed)
                else if b \<in> set (map u SPATIAL_TYPES) then
                  Inl ([31354, 38388, 23383, 27573, 26242, 19981, 20801, 35768, 21487, 35270, 21270, 20462, 25913, 65292, 35831, 20351, 29992, 26174, 24335, 31354, 38388, 20989, 25968])
                else if b = u ''enum'' then enumSetValue v typeDeclaration ''enum''
                else if b = u ''set'' then enumSetValue v typeDeclaration ''set''
                else if b = u ''date'' \<or> b = u ''time'' \<or> b = u ''datetime'' \<or> b = u ''timestamp'' then
                  if isValidTemporal trimmed b normalizedType then Inr (MDateTime trimmed)
                  else Inl ([26102, 38388, 26684, 24335, 26080, 25928])
                else or_error (textValueLengthError v normalizedType b) (MText v)))"

lemmas mutation_value_eval [js_eval] =
  cellValueToEditable_def big_int_def integerRx_def INTEGER_BITS_def integerRangeError_def
  pair_rx_def single_rx_def group_def drop_sign_def decimal_widths_def decimalRangeError_def
  floatingScaleError_def floatPrecisionRx_def usesSinglePrecisionFloat_def hasNonZeroMantissa_def
  numberToExactText_def base64_char_def base64Rx_def isValidBase64_def base64_alphabet_def
  base64FirstByte_def BLOB_MAXIMUM_def padding_of_def declaredBinaryError_def binaryLengthError_def
  enum_escape_def enum_members.simps parseEnumSetValues_def utf8_unit_def TEXT_MAXIMUM_def
  textValueLengthError_def d2_def date_rx_def days_in_month_def valid_date_def isValidDateParts_def
  fspRx_def validFractionPrecision_def fraction_rx_def timeRx_def datetimeRx_def isValidTemporal_def
  unsignedRx_def INTEGER_TYPES_def BINARY_TYPES_def or_error_def floatValue_def enumSetValue_def
  editableValueToMutationValue_def

section \<open>Integers stay in the range of their column\<close>





section \<open>The members of ENUM and SET\<close>

lemma enum_escape_back: "enum_escape BACKSLASH = BACKSLASH" "enum_escape QUOTE = QUOTE"
  by (simp_all add: enum_escape_def)

lemma enum_member_esc:
  "at rest 0 \<noteq> Some QUOTE \<Longrightarrow>
    enum_member m (concat (map esc_string v) @ QUOTE # rest) = Some (m @ v, rest)"
proof (induction v arbitrary: m)
  case Nil
  then show ?case by (cases rest) auto
next
  case (Cons c v)
  show ?case
  proof (cases "c = BACKSLASH \<or> c = QUOTE")
    case True
    with Cons show ?thesis by (auto simp: esc_string_def enum_escape_back)
  next
    case False
    obtain d ds where "concat (map esc_string v) @ QUOTE # rest = d # ds"
      by (cases "concat (map esc_string v) @ QUOTE # rest") auto
    moreover have "esc_string c = [c]" using False by (simp add: esc_string_def)
    ultimately show ?thesis using Cons False by simp
  qed
qed

definition read_member :: "js \<Rightarrow> (js \<times> js) option" where
  "read_member s = (case s of [] \<Rightarrow> None | q # t \<Rightarrow> if q = QUOTE then enum_member [] t else None)"

lemma read_member_literal:
  "at rest 0 \<noteq> Some QUOTE \<Longrightarrow> read_member (mysqlStringLiteral v @ rest) = Some (v, rest)"
  by (simp add: read_member_def mysqlStringLiteral_esc enum_member_esc)

interpretation member: text_codec mysqlStringLiteral read_member "\<lambda>r. at r 0 \<noteq> Some QUOTE"
  by unfold_locales (auto simp: read_member_literal)

lemma enum_members_join:
  "vs \<noteq> [] \<Longrightarrow> enum_members acc (join [COMMA] (map mysqlStringLiteral vs) @ [41]) = Some (acc @ vs)"
proof (induction vs arbitrary: acc)
  case (Cons v vs)
  have q: "\<not> is_ws QUOTE" "\<not> is_ws COMMA" "\<not> is_ws 41" by (simp_all add: is_ws_def)
  show ?case
  proof (cases "vs = []")
    case True
    then show ?thesis
      using enum_member_esc [of "[41]" "[]" v] by (simp add: enum_members.simps mysqlStringLiteral_esc q)
  next
    case False
    let ?t = "join [COMMA] (map mysqlStringLiteral vs) @ [41]"
    have "enum_members acc (mysqlStringLiteral v @ COMMA # ?t) = enum_members (acc @ [v]) ?t"
      using enum_member_esc [of "COMMA # ?t" "[]" v]
      by (subst enum_members.simps) (simp add: mysqlStringLiteral_esc q)
    with Cons False show ?thesis by (simp add: join_Cons)
  qed
qed simp

lemma parse_prefix:
  "b = ''enum'' \<or> b = ''set'' \<Longrightarrow> parseEnumSetValues (u b @ u ''('' @ s) b = enum_members [] s"
  by (elim disjE) (simp_all add: parseEnumSetValues_def rx_search rx_forms rxm_eval group_def u.simps char_class_defs)

lemma paren: "u '')'' = [41]"
  by (simp add: u.simps)

text \<open>C23: The members of an ENUM or SET declaration as MySQL writes it, quotes and backslashes
  doubled, are read back in order.\<close>

theorem enum_set_members:
  assumes "vs \<noteq> []" and "b = ''enum'' \<or> b = ''set''"
  shows "parseEnumSetValues (u b @ u ''('' @ join [COMMA] (map mysqlStringLiteral vs) @ u '')'') b = Some vs"
  using assms(1) enum_members_join [of vs "[]"]
  by (simp add: parse_prefix [OF assms(2)] paren)

theorem enum_set_members_witness:
  "parseEnumSetValues (u ''enum'' @ u ''('' @ join [COMMA] (map mysqlStringLiteral [[97, QUOTE], [BACKSLASH]])
     @ u '')'') ''enum'' = Some [[97, QUOTE], [BACKSLASH]]"
  by (rule enum_set_members) simp_all


end
