(* ===== verification/Table_Mutation.thy ===== *)
theory Table_Mutation
  imports Mutation_Values
begin

text \<open>
  Staged edits of a table (\<open>features/tables/tableSql.ts\<close>): the identity of a row, the plan of typed
  mutations (\<open>buildTableMutationPlan\<close>) and its SQL preview. A JavaScript \<open>Map\<close> is the list of its
  entries in insertion order, with distinct keys.
\<close>

section \<open>The identity of a row\<close>

fun cell_json :: "CellValue \<Rightarrow> json" where
  "cell_json CNull = JObj [(u ''kind'', JStr (u ''null''))]"
| "cell_json (CBoolean b) = JObj [(u ''kind'', JStr (u ''boolean'')), (u ''value'', JBool b)]"
| "cell_json (CInteger s) = JObj [(u ''kind'', JStr (u ''integer'')), (u ''value'', JStr s)]"
| "cell_json (CFloat x) = JObj [(u ''kind'', JStr (u ''float'')), (u ''value'', JNum x)]"
| "cell_json (CDecimal s) = JObj [(u ''kind'', JStr (u ''decimal'')), (u ''value'', JStr s)]"
| "cell_json (CText s) = JObj [(u ''kind'', JStr (u ''text'')), (u ''value'', JStr s)]"
| "cell_json (CJson s) = JObj [(u ''kind'', JStr (u ''json'')), (u ''value'', JStr s)]"
| "cell_json (CBinary s) = JObj [(u ''kind'', JStr (u ''binary'')), (u ''value'', JStr s)]"
| "cell_json (CDateTime s) = JObj [(u ''kind'', JStr (u ''date_time'')), (u ''value'', JStr s)]"

definition column_indexes :: "QueryColumn list \<Rightarrow> js \<Rightarrow> nat option" where
  "column_indexes queryColumns = new_map (zip (map qc_name queryColumns) [0..<length queryColumns])"

definition identity_part :: "CellValue list \<Rightarrow> (js \<Rightarrow> nat option) \<Rightarrow> js \<Rightarrow> json option" where
  "identity_part row indexes name =
     (case indexes name of
        None \<Rightarrow> None
      | Some i \<Rightarrow> Some (JArr [JStr name, cell_json (case at row i of None \<Rightarrow> CNull | Some c \<Rightarrow> c)]))"

definition tableRowIdentity :: "CellValue list \<Rightarrow> QueryColumn list \<Rightarrow> js list \<Rightarrow> js" where
  "tableRowIdentity row queryColumns primaryColumnNames =
     (if length primaryColumnNames = 0 then []
      else let identity = map (identity_part row (column_indexes queryColumns)) primaryColumnNames in
           if None \<in> set identity then [] else json_stringify (JArr (map the identity)))"

section \<open>Mutations and their preview\<close>

record TableMutationField =
  field_name :: js
  field_value :: TableMutationValue

datatype TableMutation =
  Update "TableMutationField list" "TableMutationField list"
| Delete "TableMutationField list"
| Insert "TableMutationField list"

fun mutationValueLiteral :: "TableMutationValue \<Rightarrow> js" where
  "mutationValueLiteral MNull = u ''NULL''"
| "mutationValueLiteral (MBoolean b) = (if b then u ''1'' else u ''0'')"
| "mutationValueLiteral (MInteger s) = s"
| "mutationValueLiteral (MFloat s) = s"
| "mutationValueLiteral (MDecimal s) = s"
| "mutationValueLiteral (MBinary s) = u ''FROM_BASE64('' @ mysqlStringLiteral s @ u '')''"
| "mutationValueLiteral (MText s) = mysqlStringLiteral s"
| "mutationValueLiteral (MJson s) = mysqlStringLiteral s"
| "mutationValueLiteral (MDateTime s) = mysqlStringLiteral s"

definition fieldPredicate :: "TableMutationField \<Rightarrow> js" where
  "fieldPredicate f =
     (if field_value f = MNull then quoteIdentifier (field_name f) @ u '' IS NULL''
      else quoteIdentifier (field_name f) @ u '' = '' @ mutationValueLiteral (field_value f))"

definition mutationPredicate :: "TableMutationField list \<Rightarrow> js" where
  "mutationPredicate fs = join (u '' AND '') (map fieldPredicate fs)"

definition assignment :: "TableMutationField \<Rightarrow> js" where
  "assignment f = quoteIdentifier (field_name f) @ u '' = '' @ mutationValueLiteral (field_value f)"

fun mutationPreview :: "js \<Rightarrow> TableMutation \<Rightarrow> js" where
  "mutationPreview target (Update key vals) =
     u ''UPDATE '' @ target @ u '' SET '' @ join (u '', '') (map assignment vals)
       @ u '' WHERE '' @ mutationPredicate key @ [SEMICOLON]"
| "mutationPreview target (Delete key) =
     u ''DELETE FROM '' @ target @ u '' WHERE '' @ mutationPredicate key @ [SEMICOLON]"
| "mutationPreview target (Insert vals) =
     (if length vals = 0 then u ''INSERT INTO '' @ target @ u '' () VALUES ();''
      else u ''INSERT INTO '' @ target @ u '' ('' @ join (u '', '') (map (\<lambda>f. quoteIdentifier (field_name f)) vals)
        @ u '') VALUES ('' @ join (u '', '') (map (\<lambda>f. mutationValueLiteral (field_value f)) vals) @ u '');'')"

section \<open>The plan\<close>

record StagedExistingRow =
  originalRow :: "CellValue list"
  staged_values :: "(js \<times> EditableCellValue) list"

record DmlSqlInput =
  dml_database :: js
  dml_table :: js
  queryColumns :: "QueryColumn list"
  dml_schema :: "TableColumnDefinition list"
  updatedRows :: "(js \<times> StagedExistingRow) list"
  deletedRows :: "(js \<times> CellValue list) list"
  insertedRows :: "(js \<times> EditableCellValue) list list"

record TableMutationPlan =
  mutations :: "TableMutation list"
  statements :: "js list"
  plan_errors :: "js list"

text \<open>The key of a row, or the error and no key; an absent cell is one past the end of the row.\<close>

fun originalKeyFields ::
  "CellValue list \<Rightarrow> TableColumnDefinition list \<Rightarrow> (js \<Rightarrow> nat option) \<Rightarrow> js list
    \<Rightarrow> js list \<times> TableMutationField list option" where
  "originalKeyFields row [] indexes errors = (errors, Some [])"
| "originalKeyFields row (column # cs) indexes errors =
     (case (case indexes (col_name column) of None \<Rightarrow> None | Some i \<Rightarrow> at row i) of
        None \<Rightarrow> (errors @ [([20027, 38190, 23383, 27573] @ u '' '') @ col_name column @ (u '' '' @ [19981, 22312, 24403, 21069, 32467, 26524, 38598, 20013])], None)
      | Some cell \<Rightarrow>
          (case originalKeyFields row cs indexes errors of
             (errors', rest) \<Rightarrow> (errors', map_option ((#) \<lparr> field_name = col_name column,
                                 field_value = cellValueToMutationValue cell \<rparr>) rest)))"

definition gone :: "js \<Rightarrow> js" where
  "gone columnName = ([23383, 27573] @ u '' '') @ columnName @ (u '' '' @ [24050, 19981, 22312, 24403, 21069, 34920, 32467, 26500, 20013])"

definition column_error :: "js \<Rightarrow> js \<Rightarrow> js" where
  "column_error columnName e = columnName @ ([65306]) @ e"

definition schema_by_name :: "TableColumnDefinition list \<Rightarrow> js \<Rightarrow> TableColumnDefinition option" where
  "schema_by_name schema = new_map (map (\<lambda>c. (col_name c, c)) schema)"

text \<open>One staged cell of an existing row, and one cell of a new row: the errors and fields so far.\<close>

definition update_cell ::
  "TableColumnDefinition list \<Rightarrow> (js \<Rightarrow> nat option) \<Rightarrow> CellValue list
    \<Rightarrow> js list \<times> TableMutationField list \<Rightarrow> js \<times> EditableCellValue
    \<Rightarrow> js list \<times> TableMutationField list" where
  "update_cell schema indexes row acc entry =
     (case (acc, entry) of ((errors, fs), (columnName, editableValue)) \<Rightarrow>
      (case (schema_by_name schema columnName, indexes columnName) of
         (Some column, Some columnIndex) \<Rightarrow>
           if cellValueToEditable (at row columnIndex) = editableValue then (errors, fs)
           else (case editableValueToMutationValue editableValue column of
                   Inl e \<Rightarrow> (errors @ [column_error columnName e], fs)
                 | Inr v \<Rightarrow> (errors, fs @ [\<lparr> field_name = columnName, field_value = v \<rparr>]))
       | _ \<Rightarrow> (errors @ [gone columnName], fs)))"

definition insert_cell ::
  "TableColumnDefinition list \<Rightarrow> js list \<times> TableMutationField list \<Rightarrow> js \<times> EditableCellValue
    \<Rightarrow> js list \<times> TableMutationField list" where
  "insert_cell schema acc entry =
     (case (acc, entry) of ((errors, fs), (columnName, editableValue)) \<Rightarrow>
      (case schema_by_name schema columnName of
         None \<Rightarrow> (errors @ [gone columnName], fs)
       | Some column \<Rightarrow>
           if generationExpression column \<noteq> [] then
             (errors @ [column_error columnName ([29983, 25104, 21015, 19981, 33021, 25163, 21160, 36171, 20540])], fs)
           else (case editableValueToMutationValue editableValue column of
                   Inl e \<Rightarrow> (errors @ [column_error columnName e], fs)
                 | Inr v \<Rightarrow> (errors, fs @ [\<lparr> field_name = columnName, field_value = v \<rparr>]))))"

text \<open>One row of each of the three loops: the errors and mutations so far.\<close>

definition update_row ::
  "DmlSqlInput \<Rightarrow> js list \<times> TableMutation list \<Rightarrow> js \<times> StagedExistingRow
    \<Rightarrow> js list \<times> TableMutation list" where
  "update_row input acc entry =
     (case (acc, entry) of ((errors, ms), (identity, stagedRow)) \<Rightarrow>
      (let primaryColumns = filter primary (dml_schema input);
           indexes = column_indexes (queryColumns input) in
       if identity \<in> fst ` set (deletedRows input) \<or> length primaryColumns = 0 then (errors, ms)
       else case originalKeyFields (originalRow stagedRow) primaryColumns indexes errors of
         (errors1, key) \<Rightarrow>
           (case foldl (update_cell (dml_schema input) indexes (originalRow stagedRow)) (errors1, [])
                   (staged_values stagedRow) of
              (errors2, fs) \<Rightarrow>
                (errors2, case key of
                   Some k \<Rightarrow> if length fs > 0 then ms @ [Update k fs] else ms
                 | None \<Rightarrow> ms))))"

definition delete_row ::
  "DmlSqlInput \<Rightarrow> js list \<times> TableMutation list \<Rightarrow> CellValue list \<Rightarrow> js list \<times> TableMutation list" where
  "delete_row input acc row =
     (case acc of (errors, ms) \<Rightarrow>
      (let primaryColumns = filter primary (dml_schema input);
           indexes = column_indexes (queryColumns input) in
       if length primaryColumns = 0 then (errors, ms)
       else case originalKeyFields row primaryColumns indexes errors of
              (errors1, Some key) \<Rightarrow> (errors1, ms @ [Delete key])
            | (errors1, None) \<Rightarrow> (errors1, ms)))"

definition insert_row ::
  "DmlSqlInput \<Rightarrow> js list \<times> TableMutation list \<Rightarrow> (js \<times> EditableCellValue) list
    \<Rightarrow> js list \<times> TableMutation list" where
  "insert_row input acc row =
     (case acc of (errors, ms) \<Rightarrow>
      (case foldl (insert_cell (dml_schema input)) (errors, []) row of
         (errors1, fs) \<Rightarrow> (errors1, ms @ [Insert fs])))"

definition buildTableMutationPlan :: "DmlSqlInput \<Rightarrow> TableMutationPlan" where
  "buildTableMutationPlan input =
     (let s1 = foldl (update_row input) ([], []) (updatedRows input);
          s2 = foldl (delete_row input) s1 (map snd (deletedRows input));
          (errors, ms) = foldl (insert_row input) s2 (insertedRows input);
          target = tableTarget (dml_database input) (dml_table input)
      in \<lparr> mutations = ms, statements = map (mutationPreview target) ms, plan_errors = new_set errors \<rparr>)"

definition buildDmlStatements :: "DmlSqlInput \<Rightarrow> js list" where
  "buildDmlStatements input = statements (buildTableMutationPlan input)"

lemmas mutation_eval [js_eval] =
  column_indexes_def identity_part_def tableRowIdentity_def fieldPredicate_def mutationPredicate_def
  assignment_def gone_def column_error_def schema_by_name_def update_cell_def insert_cell_def
  update_row_def delete_row_def insert_row_def buildTableMutationPlan_def buildDmlStatements_def

section \<open>An identity determines the key\<close>








section \<open>Every mutation is bound to the primary key\<close>

text \<open>A key names every primary-key column of the table, in order, with the value the row has there.\<close>

definition key_field :: "CellValue list \<Rightarrow> (js \<Rightarrow> nat option) \<Rightarrow> TableMutationField \<Rightarrow> TableColumnDefinition \<Rightarrow> bool" where
  "key_field row indexes f column \<longleftrightarrow>
     field_name f = col_name column \<and>
     (case indexes (col_name column) of
        None \<Rightarrow> False
      | Some i \<Rightarrow> map_option cellValueToMutationValue (at row i) = Some (field_value f))"

definition keyed :: "DmlSqlInput \<Rightarrow> CellValue list \<Rightarrow> TableMutationField list \<Rightarrow> bool" where
  "keyed input row key \<longleftrightarrow>
     key \<noteq> [] \<and> list_all2 (key_field row (column_indexes (queryColumns input))) key (filter primary (dml_schema input))"

text \<open>An UPDATE is for a staged row that is not staged for deletion, a DELETE for a row staged for deletion.\<close>

definition scoped :: "DmlSqlInput \<Rightarrow> TableMutation \<Rightarrow> bool" where
  "scoped input m =
     (case m of
        Update key fs \<Rightarrow> fs \<noteq> [] \<and>
          list_ex (\<lambda>(identity, row). identity \<notin> fst ` set (deletedRows input) \<and> keyed input (originalRow row) key)
            (updatedRows input)
      | Delete key \<Rightarrow> list_ex (\<lambda>(identity, row). keyed input row key) (deletedRows input)
      | Insert fs \<Rightarrow> True)"

lemma originalKeyFields_cells:
  "originalKeyFields row cs indexes errors = (errors', Some key) \<Longrightarrow>
    list_all2 (key_field row indexes) key cs"
proof (induction row cs indexes errors arbitrary: errors' key rule: originalKeyFields.induct)
  case (2 row column cs indexes errors)
  from 2(2) obtain i cell rest where c: "indexes (col_name column) = Some i" "at row i = Some cell"
    "originalKeyFields row cs indexes errors = (errors', Some rest)"
    "key = \<lparr> field_name = col_name column, field_value = cellValueToMutationValue cell \<rparr> # rest"
    by (auto split: option.splits prod.splits)
  with 2(1) [of cell errors' rest] show ?case by (simp add: key_field_def)
qed simp

lemma originalKeyFields_keyed:
  assumes "originalKeyFields row (filter primary (dml_schema input)) (column_indexes (queryColumns input)) errors = (errors', Some key)"
    and "filter primary (dml_schema input) \<noteq> []"
  shows "keyed input row key"
  using originalKeyFields_cells [OF assms(1)] assms(2) by (auto simp: keyed_def)

lemma update_row_scoped:
  assumes "x \<in> set (updatedRows input)" "\<forall>m \<in> set (snd acc). scoped input m"
  shows "\<forall>m \<in> set (snd (update_row input acc x)). scoped input m"
proof -
  obtain identity row where x: "x = (identity, row)" by (cases x)
  have new: "scoped input (Update k fs)"
    if "identity \<notin> fst ` set (deletedRows input)" "keyed input (originalRow row) k" "fs \<noteq> []" for k fs
    using that assms(1) unfolding x scoped_def list_ex_iff by (auto intro: bexI [of _ "(identity, row)"])
  show ?thesis
    using assms(2) by (auto simp: update_row_def x Let_def intro!: new dest: originalKeyFields_keyed
        split: prod.splits option.splits if_splits)
qed

lemma delete_row_scoped:
  assumes "row \<in> set (map snd (deletedRows input))" "\<forall>m \<in> set (snd acc). scoped input m"
  shows "\<forall>m \<in> set (snd (delete_row input acc row)). scoped input m"
proof -
  have new: "scoped input (Delete k)" if "keyed input row k" for k
    using that assms(1) by (auto simp: scoped_def list_ex_iff)
  show ?thesis
    using assms(2) by (auto simp: delete_row_def Let_def intro!: new dest: originalKeyFields_keyed
        split: prod.splits option.splits if_splits)
qed

lemma insert_row_scoped:
  "\<forall>m \<in> set (snd acc). scoped input m \<Longrightarrow> \<forall>m \<in> set (snd (insert_row input acc x)). scoped input m"
  by (auto simp: insert_row_def scoped_def split: prod.splits)

lemma plan_fold:
  "mutations (buildTableMutationPlan input) =
     snd (foldl (insert_row input) (foldl (delete_row input) (foldl (update_row input) ([], []) (updatedRows input))
       (map snd (deletedRows input))) (insertedRows input))"
  by (simp add: buildTableMutationPlan_def Let_def split: prod.splits)

text \<open>C25: No mutation of a plan touches more than the staged rows: every UPDATE is bound to all the primary-key
  columns of the table, in order, with the values of the original cells of one staged row that is not staged for deletion,
  and sets at least one column; every DELETE is bound in the same way to a row staged for deletion; a table without a
  primary key gets neither.\<close>

theorem plan_scoped:
  "list_all (scoped input) (mutations (buildTableMutationPlan input))"
  unfolding plan_fold list_all_iff
  by (intro foldl_keeps [where P = "\<lambda>acc. \<forall>m \<in> set (snd acc). scoped input m"]
      insert_row_scoped delete_row_scoped update_row_scoped) simp_all

section \<open>Every value went through its column\<close>

definition validated :: "DmlSqlInput \<Rightarrow> TableMutationField \<Rightarrow> bool" where
  "validated input f \<longleftrightarrow>
     (case schema_by_name (dml_schema input) (field_name f) of
        None \<Rightarrow> False
      | Some column \<Rightarrow>
          (case field_value f of
             MNull \<Rightarrow> nullable column
           | v \<Rightarrow> generationExpression column = [])
          \<and> Inr (field_value f) \<in> range (\<lambda>e. editableValueToMutationValue e column))"

definition fields_of :: "TableMutation \<Rightarrow> TableMutationField list" where
  "fields_of m = (case m of Update key fs \<Rightarrow> fs | Delete key \<Rightarrow> [] | Insert fs \<Rightarrow> fs)"

lemma or_error_not_null: "or_error e v = Inr w \<Longrightarrow> w = v"
  by (auto simp: or_error_def split: option.splits)

lemma editable_null:
  "editableValueToMutationValue e column = Inr MNull \<Longrightarrow> e = None \<and> nullable column"
  by (cases e) (auto simp: editableValueToMutationValue_def floatValue_def enumSetValue_def Let_def
      dest!: or_error_not_null split: if_splits option.splits)

lemma editable_not_null:
  "editableValueToMutationValue e column = Inr v \<Longrightarrow> v \<noteq> MNull \<Longrightarrow> generationExpression column = []"
  by (cases e) (auto simp: editableValueToMutationValue_def split: if_splits)

lemma validated_intro:
  assumes "schema_by_name (dml_schema input) name = Some column"
    and "editableValueToMutationValue e column = Inr v"
  shows "validated input \<lparr> field_name = name, field_value = v \<rparr>"
  using assms editable_null [of e column] editable_not_null [of e column v]
  by (cases v) (auto simp: validated_def image_iff intro: sym)

lemma update_cell_validated:
  "\<forall>f \<in> set (snd acc). validated input f \<Longrightarrow>
    \<forall>f \<in> set (snd (update_cell (dml_schema input) indexes row acc x)). validated input f"
  by (auto simp: update_cell_def intro: validated_intro split: prod.splits option.splits sum.splits if_splits)

lemma insert_cell_validated:
  "\<forall>f \<in> set (snd acc). validated input f \<Longrightarrow>
    \<forall>f \<in> set (snd (insert_cell (dml_schema input) acc x)). validated input f"
  by (auto simp: insert_cell_def intro: validated_intro split: prod.splits option.splits sum.splits if_splits)

abbreviation all_validated :: "DmlSqlInput \<Rightarrow> 'e \<times> TableMutation list \<Rightarrow> bool" where
  "all_validated input acc \<equiv> \<forall>m \<in> set (snd acc). \<forall>f \<in> set (fields_of m). validated input f"

lemma foldl_update_cells:
  "\<forall>f \<in> set (snd acc). validated input f \<Longrightarrow>
    \<forall>f \<in> set (snd (foldl (update_cell (dml_schema input) indexes row) acc vals)). validated input f"
  by (rule foldl_keeps [where P = "\<lambda>acc. \<forall>f \<in> set (snd acc). validated input f"], rule update_cell_validated)

lemma foldl_insert_cells:
  "\<forall>f \<in> set (snd acc). validated input f \<Longrightarrow>
    \<forall>f \<in> set (snd (foldl (insert_cell (dml_schema input)) acc vals)). validated input f"
  by (rule foldl_keeps [where P = "\<lambda>acc. \<forall>f \<in> set (snd acc). validated input f"], rule insert_cell_validated)

lemma update_row_validated: "all_validated input acc \<Longrightarrow> all_validated input (update_row input acc x)"
proof -
  assume a: "all_validated input acc"
  obtain errors ms identity row where ax: "acc = (errors, ms)" "x = (identity, row)" by force
  let ?indexes = "column_indexes (queryColumns input)"
  obtain e1 key where k: "originalKeyFields (originalRow row) (filter primary (dml_schema input)) ?indexes errors
      = (e1, key)" by force
  obtain e2 fs where f: "foldl (update_cell (dml_schema input) ?indexes (originalRow row)) (e1, [])
      (staged_values row) = (e2, fs)" by force
  have "\<forall>f \<in> set fs. validated input f" 
    using foldl_update_cells [of "(e1, [])" input ?indexes "originalRow row" "staged_values row"] f by simp
  with a show ?thesis unfolding ax
    by (cases key) (auto simp: update_row_def Let_def k f fields_of_def)
qed

lemma delete_row_validated: "all_validated input acc \<Longrightarrow> all_validated input (delete_row input acc x)"
  by (auto simp: delete_row_def fields_of_def Let_def split: prod.splits option.splits if_splits)

lemma insert_row_validated: "all_validated input acc \<Longrightarrow> all_validated input (insert_row input acc x)"
proof -
  assume a: "all_validated input acc"
  obtain errors ms where ax: "acc = (errors, ms)" by force
  obtain e1 fs where f: "foldl (insert_cell (dml_schema input)) (errors, []) x = (e1, fs)" by force
  have "\<forall>f \<in> set fs. validated input f" using foldl_insert_cells [of "(errors, [])" input x] f by simp
  with a show ?thesis unfolding ax by (auto simp: insert_row_def f fields_of_def)
qed

text \<open>C26: Every value a plan writes was validated against the column of that name: NULL only where the
  column allows it, anything else only where the column is not generated, and only values that the
  column's type accepts.\<close>

theorem plan_validated:
  "list_all (\<lambda>m. list_all (validated input) (fields_of m)) (mutations (buildTableMutationPlan input))"
  unfolding plan_fold list_all_iff
  by (intro foldl_keeps [where P = "all_validated input"]
      insert_row_validated delete_row_validated update_row_validated) simp_all

end
