(* ===== verification/Result_Export.thy ===== *)
theory Result_Export
  imports Mutation_Values
begin

text \<open>
  Copying and exporting results (\<open>features/query/resultExport.ts\<close>): cells as text, JSON and SQL
  literals, the serializers of a selection and of a whole result (TSV, CSV, JSON, Markdown, IN list,
  INSERT), the table name guessed from a script and the download. CSV fields are one more instance of
  the quoting contract \<open>text_codec\<close>. Row and column indexes are natural numbers.
\<close>

section \<open>Cells\<close>

record ResultSelectionRect =
  startRow :: nat
  startCol :: nat
  endRow :: nat
  endCol :: nat

fun cellValueToPlainText :: "CellValue option \<Rightarrow> js" where
  "cellValueToPlainText None = u ''NULL''"
| "cellValueToPlainText (Some CNull) = u ''NULL''"
| "cellValueToPlainText (Some (CBoolean b)) = (if b then u ''true'' else u ''false'')"
| "cellValueToPlainText (Some (CInteger s)) = s"
| "cellValueToPlainText (Some (CDecimal s)) = s"
| "cellValueToPlainText (Some (CText s)) = s"
| "cellValueToPlainText (Some (CDateTime s)) = s"
| "cellValueToPlainText (Some (CFloat x)) = num_to_string x"
| "cellValueToPlainText (Some (CJson s)) = s"
| "cellValueToPlainText (Some (CBinary s)) = u ''[Binary]''"

fun cellValueToJsonValue :: "CellValue option \<Rightarrow> json" where
  "cellValueToJsonValue None = JNull"
| "cellValueToJsonValue (Some CNull) = JNull"
| "cellValueToJsonValue (Some (CBoolean b)) = JBool b"
| "cellValueToJsonValue (Some (CFloat x)) = JNum x"
| "cellValueToJsonValue (Some (CJson s)) = JStr s"
| "cellValueToJsonValue (Some (CInteger s)) = JStr s"
| "cellValueToJsonValue (Some (CDecimal s)) = JStr s"
| "cellValueToJsonValue (Some (CText s)) = JStr s"
| "cellValueToJsonValue (Some (CDateTime s)) = JStr s"
| "cellValueToJsonValue (Some (CBinary s)) = JStr s"

text \<open>The loop of \<open>formatJsonText\<close>: the text so far, the depth, inside a string, after a backslash.\<close>

record json_layout =
  jl_result :: js
  jl_depth :: nat
  jl_inString :: bool
  jl_escaped :: bool

definition indent :: "nat \<Rightarrow> js" where
  "indent n = replicate (2 * n) 32"

definition format_step :: "json_layout \<Rightarrow> nat \<Rightarrow> json_layout" where
  "format_step st c =
     (if jl_inString st then
        (let st1 = st \<lparr> jl_result := jl_result st @ [c] \<rparr> in
         if jl_escaped st then st1 \<lparr> jl_escaped := False \<rparr>
         else if c = BACKSLASH then st1 \<lparr> jl_escaped := True \<rparr>
         else if c = DQUOTE then st1 \<lparr> jl_inString := False \<rparr>
         else st1)
      else if c = DQUOTE then st \<lparr> jl_inString := True, jl_result := jl_result st @ [c] \<rparr>
      else if c = 123 \<or> c = 91 then
        st \<lparr> jl_depth := jl_depth st + 1, jl_result := jl_result st @ [c, NEWLINE] @ indent (jl_depth st + 1) \<rparr>
      else if c = 125 \<or> c = 93 then
        st \<lparr> jl_depth := jl_depth st - 1,
             jl_result := trim_end (jl_result st) @ [NEWLINE] @ indent (jl_depth st - 1) @ [c] \<rparr>
      else if c = COMMA then st \<lparr> jl_result := jl_result st @ [COMMA, NEWLINE] @ indent (jl_depth st) \<rparr>
      else if c = 58 then st \<lparr> jl_result := jl_result st @ u '': '' \<rparr>
      else if \<not> is_ws c then st \<lparr> jl_result := jl_result st @ [c] \<rparr>
      else st)"

definition formatJsonText :: "js \<Rightarrow> js" where
  "formatJsonText v =
     jl_result (foldl format_step \<lparr> jl_result = [], jl_depth = 0, jl_inString = False, jl_escaped = False \<rparr> v)"

definition cellValueToViewerText :: "CellValue option \<Rightarrow> js" where
  "cellValueToViewerText cell =
     (case cell of
        Some (CJson s) \<Rightarrow> formatJsonText s
      | Some (CBinary s) \<Rightarrow> s
      | _ \<Rightarrow> cellValueToPlainText cell)"

section \<open>Fields\<close>

definition escapeCsvField :: "js \<Rightarrow> js" where
  "escapeCsvField v =
     (if \<not> (\<exists>c \<in> set v. c = DQUOTE \<or> c = COMMA \<or> c = NEWLINE \<or> c = CARRIAGE) then v
      else [DQUOTE] @ replace_char DQUOTE [DQUOTE, DQUOTE] v @ [DQUOTE])"

definition escapeMarkdownCell :: "js \<Rightarrow> js" where
  "escapeMarkdownCell v =
     rx_replace_all (Seq (rx_opt (rx_chr CARRIAGE)) (rx_chr NEWLINE)) [32]
       (replace_char 124 [BACKSLASH, 124] v)"

text \<open>The module's own copy of the string literal.\<close>

definition exportStringLiteral :: "js \<Rightarrow> js" where
  "exportStringLiteral v =
     [QUOTE] @ replace_char QUOTE [QUOTE, QUOTE] (replace_char BACKSLASH [BACKSLASH, BACKSLASH] v) @ [QUOTE]"

lemma exportStringLiteral_same: "exportStringLiteral = mysqlStringLiteral"
  by (simp add: fun_eq_iff exportStringLiteral_def mysqlStringLiteral_def)

definition d4 :: rx where "d4 = rx_rep 4 rx_digit"
definition plain_date_rx :: rx where "plain_date_rx = rx_seqs [d4, rx_chr 45, d2, rx_chr 45, d2]"
definition clock_rx :: rx where "clock_rx = rx_seqs [d2, rx_chr 58, d2, rx_chr 58, d2]"
definition micro_rx :: rx where
  "micro_rx = rx_opt (rx_seqs [rx_chr 46, rx_digit, rx_upto 5 rx_digit])"

definition isoPrefixRx :: rx where
  "isoPrefixRx = Seq Bol (rx_seqs [plain_date_rx, rx_chr 84, Ahead True clock_rx])"

definition temporalValueRx :: rx where
  "temporalValueRx = Seq Bol (Seq
     (Alt (Seq plain_date_rx (rx_opt (rx_seqs [rx_chr 32, clock_rx, micro_rx])))
          (rx_seqs [rx_opt (rx_chr 45), rx_digit, rx_upto 2 rx_digit, rx_chr 58, d2, rx_chr 58, d2, micro_rx]))
     Eol)"

definition mysqlTemporalLiteral :: "js \<Rightarrow> js" where
  "mysqlTemporalLiteral v =
     (let normalizedValue = (if rx_test isoPrefixRx v then take 10 v @ [32] @ drop 11 v else v)
      in if rx_test temporalValueRx normalizedValue then [QUOTE] @ normalizedValue @ [QUOTE]
         else exportStringLiteral v)"

definition FLOAT_LITERAL_TYPES :: "string list" where
  "FLOAT_LITERAL_TYPES = [''float'', ''double'', ''real'', ''decimal'', ''numeric'']"

definition NUMERIC_LITERAL_TYPES :: "string list" where
  "NUMERIC_LITERAL_TYPES = [''tinyint'', ''smallint'', ''mediumint'', ''int'', ''integer'', ''bigint'',
     ''decimal'', ''numeric'', ''float'', ''double'', ''real'', ''bit'']"

text \<open>\<open>^-?(?:\d+|\d*\.\d+)$\<close>\<close>

definition plainNumberRx :: rx where
  "plainNumberRx = Seq Bol (rx_seqs [rx_opt (rx_chr 45),
     Alt (rx_plus rx_digit) (rx_seqs [Star rx_digit, rx_chr 46, rx_plus rx_digit]), Eol])"

fun cellValueToSqlLiteral :: "CellValue option \<Rightarrow> js \<Rightarrow> js" where
  "cellValueToSqlLiteral None t = u ''NULL''"
| "cellValueToSqlLiteral (Some CNull) t = u ''NULL''"
| "cellValueToSqlLiteral (Some (CBoolean b)) t = (if b then u ''1'' else u ''0'')"
| "cellValueToSqlLiteral (Some (CInteger s)) t = s"
| "cellValueToSqlLiteral (Some (CDecimal s)) t = s"
| "cellValueToSqlLiteral (Some (CFloat x)) t =
     (if \<exists>p \<in> set FLOAT_LITERAL_TYPES. starts_with (to_lower t) (u p) then num_to_string x
      else exportStringLiteral (num_to_string x))"
| "cellValueToSqlLiteral (Some (CJson s)) t = exportStringLiteral s"
| "cellValueToSqlLiteral (Some (CBinary s)) t = u ''FROM_BASE64('' @ exportStringLiteral s @ u '')''"
| "cellValueToSqlLiteral (Some (CDateTime s)) t = mysqlTemporalLiteral s"
| "cellValueToSqlLiteral (Some (CText s)) t =
     (if (\<exists>p \<in> set NUMERIC_LITERAL_TYPES. starts_with (to_lower t) (u p)) \<and> rx_test plainNumberRx (trim s)
      then trim s else exportStringLiteral s)"

section \<open>Selections\<close>

definition normalizeSelection :: "ResultSelectionRect \<Rightarrow> ResultSelectionRect" where
  "normalizeSelection s =
     \<lparr> startRow = min (startRow s) (endRow s), startCol = min (startCol s) (endCol s),
       endRow = max (startRow s) (endRow s), endCol = max (startCol s) (endCol s) \<rparr>"

definition describeSelection :: "ResultSelectionRect option \<Rightarrow> bool \<Rightarrow> nat \<Rightarrow> nat \<Rightarrow> js option" where
  "describeSelection selection allSelected columnCount discreteRowCount =
     (if discreteRowCount > 0 then
        Some (if discreteRowCount = 1 then ([24050, 36873] @ u '' 1 '' @ [34892]) else ([24050, 36873] @ u '' '') @ dec discreteRowCount @ (u '' '' @ [34892]))
      else case selection of
        None \<Rightarrow> None
      | Some s \<Rightarrow>
          (let bounds = normalizeSelection s;
               rowCount = endRow bounds - startRow bounds + 1;
               selectedColumns = endCol bounds - startCol bounds + 1;
               cellCount = rowCount * selectedColumns
           in Some (
             if allSelected then ([24050, 36873, 20840, 37096] @ u '' '') @ dec rowCount @ (u '' '' @ [34892])
             else if selectedColumns = columnCount \<and> columnCount > 0 then
               if rowCount = 1 then ([24050, 36873] @ u '' 1 '' @ [34892]) else ([24050, 36873] @ u '' '') @ dec rowCount @ (u '' '' @ [34892])
             else if rowCount > 1 \<and> selectedColumns = 1 then
               ([24050, 36873] @ u '' '') @ dec rowCount @ (u '' '' @ [20010, 21333, 20803, 26684, 65288] @ u ''1 '' @ [21015, 65289])
             else if cellCount = 1 then ([24050, 36873] @ u '' 1 '' @ [20010, 21333, 20803, 26684])
             else ([24050, 36873] @ u '' '') @ dec cellCount @ (u '' '' @ [20010, 21333, 20803, 26684]))))"

definition primaryKeyColumnIndexes :: "QueryColumn list \<Rightarrow> nat list" where
  "primaryKeyColumnIndexes columns =
     filter (\<lambda>i. to_lower (qc_name (columns ! i)) = u ''id'') [0..<length columns]"

section \<open>Targets\<close>

definition strip_backticks :: "js \<Rightarrow> js" where
  "strip_backticks s = rev (dropWhile (\<lambda>c. c = BACKTICK) (rev (dropWhile (\<lambda>c. c = BACKTICK) s)))"

definition formatInsertTableTarget :: "js \<Rightarrow> js" where
  "formatInsertTableTarget tableName =
     (let parts = filter (\<lambda>p. length p > 0) (map (\<lambda>p. strip_backticks (trim p)) (split_on 46 tableName))
      in if length parts = 0 then quoteIdentifier (u ''your_table'')
         else join [46] (map quoteIdentifier parts))"

text \<open>A lazy loop \<open>[\s\S]*?\<close> before a literal is a loop over what does not start the literal.\<close>

definition block_comment_rx :: rx where
  "block_comment_rx = rx_seqs [rx_chr 47, rx_chr 42,
     Star (Seq (Ahead False (rx_lit ''*/'')) (Cls (\<lambda>_. True))), rx_lit ''*/'']"

definition dash_comment_rx :: rx where
  "dash_comment_rx = rx_seqs [rx_chr 45, rx_chr 45, Star (Cls (\<lambda>c. c \<noteq> NEWLINE))]"

definition hash_comment_rx :: rx where
  "hash_comment_rx = Seq (rx_chr 35) (Star (Cls (\<lambda>c. c \<noteq> NEWLINE)))"

definition name_rx :: rx where
  "name_rx = Alt (rx_seqs [rx_chr BACKTICK, rx_plus (Cls (\<lambda>c. c \<noteq> BACKTICK)), rx_chr BACKTICK])
     (Seq (Cls (\<lambda>c. letter_iu c \<or> c = 95)) (Star (Cls (\<lambda>c. word_iu c \<or> c = 36))))"

definition fromRx :: rx where
  "fromRx = rx_seqs [Bnd word_iu, rx_liti ''from'', rx_plus rx_ws, Grp 1 name_rx,
     rx_opt (rx_seqs [Star rx_ws, rx_chr 46, Star rx_ws, Grp 2 name_rx])]"

definition inferTableNameFromSql :: "js \<Rightarrow> js" where
  "inferTableNameFromSql sql =
     (let stripped = rx_replace_all hash_comment_rx [32]
            (rx_replace_all dash_comment_rx [32] (rx_replace_all block_comment_rx [32] sql))
      in case rx_groups fromRx stripped of
           None \<Rightarrow> u ''your_table''
         | Some g \<Rightarrow>
             (let left = replace_char BACKTICK [] (group g 1);
                  right = replace_char BACKTICK [] (group g 2)
              in if right \<noteq> [] then left @ [46] @ right else left))"

definition resolveExportTableName :: "js \<Rightarrow> js option \<Rightarrow> js" where
  "resolveExportTableName sql database =
     (let inferred = inferTableNameFromSql sql in
      if inferred = u ''your_table'' \<or> 46 \<in> set inferred then inferred
      else let schema = (case database of None \<Rightarrow> [] | Some d \<Rightarrow> trim d)
           in if schema \<noteq> [] then schema @ [46] @ inferred else inferred)"

section \<open>Serializers\<close>

definition cell_at :: "CellValue list list \<Rightarrow> nat \<Rightarrow> nat \<Rightarrow> CellValue option" where
  "cell_at rows r c = (case at rows r of None \<Rightarrow> None | Some row \<Rightarrow> at row c)"

definition name_at :: "QueryColumn list \<Rightarrow> nat \<Rightarrow> js" where
  "name_at columns i = (case at columns i of None \<Rightarrow> [] | Some c \<Rightarrow> qc_name c)"

definition type_at :: "QueryColumn list \<Rightarrow> nat \<Rightarrow> js" where
  "type_at columns i = (case at columns i of None \<Rightarrow> [] | Some c \<Rightarrow> databaseType c)"

definition sel_rows :: "ResultSelectionRect \<Rightarrow> nat list" where
  "sel_rows s = [startRow (normalizeSelection s)..<Suc (endRow (normalizeSelection s))]"

definition sel_cols :: "ResultSelectionRect \<Rightarrow> nat list" where
  "sel_cols s = [startCol (normalizeSelection s)..<Suc (endCol (normalizeSelection s))]"

definition tabless :: "js \<Rightarrow> js" where
  "tabless s = replace_char TAB [32] s"

definition serializeSelectionAsTsv ::
  "QueryColumn list \<Rightarrow> CellValue list list \<Rightarrow> ResultSelectionRect \<Rightarrow> bool \<Rightarrow> js" where
  "serializeSelectionAsTsv columns rows selection includeHeaders =
     join [NEWLINE]
       ((if includeHeaders then [join [TAB] (map (\<lambda>c. tabless (name_at columns c)) (sel_cols selection))]
         else [])
        @ map (\<lambda>r. join [TAB] (map (\<lambda>c. tabless (cellValueToPlainText (cell_at rows r c)))
                 (sel_cols selection))) (sel_rows selection))"

definition serializeSelectionAsCsv ::
  "QueryColumn list \<Rightarrow> CellValue list list \<Rightarrow> ResultSelectionRect \<Rightarrow> bool \<Rightarrow> js" where
  "serializeSelectionAsCsv columns rows selection includeHeaders =
     join [NEWLINE]
       ((if includeHeaders then [join [COMMA] (map (\<lambda>c. escapeCsvField (name_at columns c)) (sel_cols selection))]
         else [])
        @ map (\<lambda>r. join [COMMA] (map (\<lambda>c. escapeCsvField (cellValueToPlainText (cell_at rows r c)))
                 (sel_cols selection))) (sel_rows selection))"

definition cellValueToJsonLiteral :: "CellValue option \<Rightarrow> js" where
  "cellValueToJsonLiteral cell =
     (case cell of Some (CJson s) \<Rightarrow> s | _ \<Rightarrow> json_stringify (cellValueToJsonValue cell))"

definition json_object :: "QueryColumn list \<Rightarrow> CellValue list list \<Rightarrow> nat list \<Rightarrow> nat \<Rightarrow> js" where
  "json_object columns rows columnIndexes r =
     u ''{'' @ [NEWLINE] @ join [COMMA, NEWLINE] (map (\<lambda>c.
        u ''  '' @ json_quote (case at columns c of None \<Rightarrow> u ''column_'' @ dec c | Some q \<Rightarrow> qc_name q)
        @ u '': '' @ cellValueToJsonLiteral (cell_at rows r c)) columnIndexes) @ [NEWLINE] @ u ''}''"

definition serializeSelectionAsJson ::
  "QueryColumn list \<Rightarrow> CellValue list list \<Rightarrow> ResultSelectionRect \<Rightarrow> js" where
  "serializeSelectionAsJson columns rows selection =
     (let bounds = normalizeSelection selection;
          columnIndexes = sel_cols selection
      in if startRow bounds = endRow bounds \<and> length columnIndexes = 1 then
           cellValueToJsonLiteral (cell_at rows (startRow bounds) (columnIndexes ! 0))
         else let objects = map (json_object columns rows columnIndexes) (sel_rows selection) in
           if length objects = 1 then objects ! 0
           else u ''['' @ [NEWLINE] @ join [COMMA, NEWLINE] (map (\<lambda>ob.
                  join [NEWLINE] (map (\<lambda>line. u ''  '' @ line) (split_on NEWLINE ob))) objects)
                @ [NEWLINE] @ u '']'')"

definition markdown_row :: "js list \<Rightarrow> js" where
  "markdown_row cells = u ''| '' @ join (u '' | '') cells @ u '' |''"

definition serializeSelectionAsMarkdown ::
  "QueryColumn list \<Rightarrow> CellValue list list \<Rightarrow> ResultSelectionRect \<Rightarrow> js" where
  "serializeSelectionAsMarkdown columns rows selection =
     (let headers = map (\<lambda>c. escapeMarkdownCell (name_at columns c)) (sel_cols selection);
          separator = map (\<lambda>_. u ''---'') headers;
          body = map (\<lambda>r. markdown_row (map (\<lambda>c. escapeMarkdownCell (cellValueToPlainText (cell_at rows r c)))
                   (sel_cols selection))) (sel_rows selection)
      in join [NEWLINE] ([markdown_row headers, markdown_row separator] @ body))"

definition serializeSelectionAsInList ::
  "QueryColumn list \<Rightarrow> CellValue list list \<Rightarrow> ResultSelectionRect \<Rightarrow> js" where
  "serializeSelectionAsInList columns rows selection =
     u ''IN ('' @ join (u '', '') (foldl (\<lambda>literals literal. set_add literal literals) []
       (concat (map (\<lambda>r. map (\<lambda>c. cellValueToSqlLiteral (cell_at rows r c) (type_at columns c))
          (sel_cols selection)) (sel_rows selection)))) @ u '')''"

definition serializeSelectionColumnNames :: "QueryColumn list \<Rightarrow> ResultSelectionRect \<Rightarrow> js" where
  "serializeSelectionColumnNames columns selection =
     join [TAB] (map (name_at columns) (sel_cols selection))"

definition serializeResultAsTsv :: "QueryColumn list \<Rightarrow> CellValue list list \<Rightarrow> js" where
  "serializeResultAsTsv columns rows =
     join [NEWLINE] (join [TAB] (map qc_name columns)
       # map (\<lambda>row. join [TAB] (map (\<lambda>c. tabless (cellValueToPlainText (at row c))) [0..<length columns])) rows)"

definition serializeResultAsCsv :: "QueryColumn list \<Rightarrow> CellValue list list \<Rightarrow> js" where
  "serializeResultAsCsv columns rows =
     join [NEWLINE] (join [COMMA] (map (\<lambda>c. escapeCsvField (qc_name c)) columns)
       # map (\<lambda>row. join [COMMA] (map (\<lambda>c. escapeCsvField (cellValueToPlainText (at row c)))
                [0..<length columns])) rows)"

record SerializeRowsAsInsertOptions =
  ins_tableName :: js
  includePrimaryKey :: bool
  rowIndexes :: "nat list option"

definition serializeRowsAsInsert ::
  "QueryColumn list \<Rightarrow> CellValue list list \<Rightarrow> SerializeRowsAsInsertOptions \<Rightarrow> js" where
  "serializeRowsAsInsert columns rows options =
     (let pkIndexes = primaryKeyColumnIndexes columns;
          columnIndexes = filter (\<lambda>i. includePrimaryKey options \<or> i \<notin> set pkIndexes) [0..<length columns];
          target = formatInsertTableTarget (ins_tableName options);
          columnList = join (u '', '') (map (\<lambda>i. quoteIdentifier (name_at columns i)) columnIndexes);
          indexes = (case rowIndexes options of Some is \<Rightarrow> is | None \<Rightarrow> [0..<length rows]);
          valueTuples = map (\<lambda>r. u ''('' @ join (u '', '') (map (\<lambda>c.
              cellValueToSqlLiteral (cell_at rows r c) (type_at columns c)) columnIndexes) @ u '')'') indexes
      in if length columnIndexes = 0 then []
         else if length indexes = 0 then []
         else if length valueTuples = 1 then
           u ''INSERT INTO '' @ target @ u '' ('' @ columnList @ u '') VALUES '' @ valueTuples ! 0 @ [SEMICOLON]
         else u ''INSERT INTO '' @ target @ u '' ('' @ columnList @ u '') VALUES'' @ [NEWLINE]
           @ join [COMMA, NEWLINE] valueTuples @ [SEMICOLON])"

section \<open>Download\<close>

text \<open>
  What the host answers: whether the bridge module loads, whether it is the desktop shell, the dialog
  (\<open>None\<close>: it throws; \<open>Some None\<close>: no path), whether the write succeeds.
\<close>

record download_host =
  bridge_loads :: bool
  isTauri :: bool
  save_dialog :: "js option option"
  write_succeeds :: bool

datatype download_effect =
  OpenDialog js "(js \<times> js) option" | WriteFile js js | AnchorDownload js js js

datatype DownloadTextFileResult = Saved | Cancelled | Failed

definition file_extension :: "js \<Rightarrow> js" where
  "file_extension fileName = (if 46 \<in> set fileName then last (split_on 46 fileName) else [])"

definition downloadTextFile ::
  "download_host \<Rightarrow> js \<Rightarrow> js \<Rightarrow> js \<Rightarrow> download_effect list \<times> DownloadTextFileResult" where
  "downloadTextFile host content fileName mimeType =
     (if bridge_loads host \<and> isTauri host then
        (let extension = file_extension fileName;
             dialog = OpenDialog fileName (if extension \<noteq> [] then Some (to_upper extension, extension) else None)
         in case save_dialog host of
              None \<Rightarrow> ([dialog], Failed)
            | Some None \<Rightarrow> ([dialog], Cancelled)
            | Some (Some path) \<Rightarrow>
                if path = [] then ([dialog], Cancelled)
                else if write_succeeds host then ([dialog, WriteFile path content], Saved)
                else ([dialog, WriteFile path content], Failed))
      else ([AnchorDownload fileName mimeType content], Saved))"

definition downloadCsv :: "download_host \<Rightarrow> js \<Rightarrow> js \<Rightarrow> download_effect list \<times> DownloadTextFileResult" where
  "downloadCsv host csv fileName = downloadTextFile host csv fileName (u ''text/csv;charset=utf-8'')"

lemmas export_eval [js_eval] =
  indent_def format_step_def formatJsonText_def cellValueToViewerText_def escapeCsvField_def
  escapeMarkdownCell_def exportStringLiteral_def d4_def plain_date_rx_def clock_rx_def micro_rx_def
  isoPrefixRx_def temporalValueRx_def mysqlTemporalLiteral_def FLOAT_LITERAL_TYPES_def
  NUMERIC_LITERAL_TYPES_def plainNumberRx_def normalizeSelection_def describeSelection_def
  primaryKeyColumnIndexes_def strip_backticks_def formatInsertTableTarget_def block_comment_rx_def
  dash_comment_rx_def hash_comment_rx_def name_rx_def fromRx_def inferTableNameFromSql_def
  resolveExportTableName_def cell_at_def name_at_def type_at_def sel_rows_def sel_cols_def tabless_def
  serializeSelectionAsTsv_def serializeSelectionAsCsv_def cellValueToJsonLiteral_def json_object_def
  serializeSelectionAsJson_def markdown_row_def serializeSelectionAsMarkdown_def
  serializeSelectionAsInList_def serializeSelectionColumnNames_def serializeResultAsTsv_def
  serializeResultAsCsv_def serializeRowsAsInsert_def file_extension_def downloadTextFile_def downloadCsv_def

section \<open>CSV reads back\<close>

text \<open>A field of RFC 4180: in double quotes, or up to the next comma or line end.\<close>

definition read_csv_field :: "js \<Rightarrow> (js \<times> js) option" where
  "read_csv_field s =
     (if at s 0 = Some DQUOTE then read_body DQUOTE (drop 1 s)
      else Some (takeWhile (\<lambda>c. c \<noteq> COMMA \<and> c \<noteq> NEWLINE) s, dropWhile (\<lambda>c. c \<noteq> COMMA \<and> c \<noteq> NEWLINE) s))"

abbreviation csv_stop :: "js \<Rightarrow> bool" where
  "csv_stop r \<equiv> at r 0 \<in> {None, Some COMMA, Some NEWLINE}"

lemma read_csv_field_escape: "csv_stop rest \<Longrightarrow> read_csv_field (escapeCsvField v @ rest) = Some (v, rest)"
proof (cases "\<exists>c \<in> set v. c = DQUOTE \<or> c = COMMA \<or> c = NEWLINE \<or> c = CARRIAGE")
  case True
  assume "csv_stop rest"
  then have "at rest 0 \<noteq> Some DQUOTE" by auto
  with True show ?thesis by (simp add: escapeCsvField_def read_csv_field_def read_body_doubled)
next
  case False
  assume r: "csv_stop rest"
  let ?P = "\<lambda>c. c \<noteq> COMMA \<and> c \<noteq> NEWLINE"
  have "takeWhile ?P rest = []" "dropWhile ?P rest = rest" using r by (cases rest; auto)+
  moreover have "\<forall>c \<in> set v. ?P c" using False by auto
  moreover have "at (v @ rest) 0 \<noteq> Some DQUOTE" using False r by (cases v) auto
  ultimately show ?thesis using False
    by (auto simp: escapeCsvField_def read_csv_field_def takeWhile_append2 dropWhile_append2)
qed

interpretation csv: text_codec escapeCsvField read_csv_field csv_stop
  by unfold_locales (auto simp: read_csv_field_escape)

lemma read_body_length: "read_body q s = Some (v, r) \<Longrightarrow> length r \<le> length s"
  by (induction q s arbitrary: v r rule: read_body.induct) (fastforce split: if_splits)+

lemma read_csv_field_length: "read_csv_field s = Some (v, r) \<Longrightarrow> length r \<le> length s"
  using length_dropWhile_le [of "\<lambda>c. c \<noteq> COMMA \<and> c \<noteq> NEWLINE" s] read_body_length [of DQUOTE "drop 1 s" v r]
  by (auto simp: read_csv_field_def split: if_splits)

text \<open>A document: rows of fields.\<close>

function read_csv :: "js list \<Rightarrow> js \<Rightarrow> js list list option" where
  "read_csv row s =
     (case read_csv_field s of
        None \<Rightarrow> None
      | Some (f, r) \<Rightarrow>
          (case r of
             [] \<Rightarrow> Some [row @ [f]]
           | c # t \<Rightarrow>
               if c = COMMA then read_csv (row @ [f]) t
               else if c = NEWLINE then map_option ((#) (row @ [f])) (read_csv [] t)
               else None))"
  by pat_completeness auto
termination
  by (relation "measure (\<lambda>(_, s). length s)") (auto dest!: read_csv_field_length)

declare read_csv.simps [simp del]

lemma read_csv_row:
  "fs \<noteq> [] \<Longrightarrow> read_csv row (join [COMMA] (map escapeCsvField fs)) = Some [row @ fs]"
  "fs \<noteq> [] \<Longrightarrow> read_csv row (join [COMMA] (map escapeCsvField fs) @ NEWLINE # t)
     = map_option ((#) (row @ fs)) (read_csv [] t)"
proof (induction fs arbitrary: row)
  case (Cons f fs)
  {
    case 1
    show ?case
    proof (cases "fs = []")
      case True
      then show ?thesis using csv.reader_enc [of "[]" f] by (simp add: read_csv.simps)
    next
      case False
      then show ?thesis
        using csv.reader_enc [of "COMMA # join [COMMA] (map escapeCsvField fs)" f] Cons.IH(1) [of "row @ [f]"]
        by (subst read_csv.simps) (simp add: join_Cons)
    qed
  next
    case 2
    show ?case
    proof (cases "fs = []")
      case True
      then show ?thesis using csv.reader_enc [of "NEWLINE # t" f] by (subst read_csv.simps) simp
    next
      case False
      then show ?thesis
        using csv.reader_enc [of "COMMA # join [COMMA] (map escapeCsvField fs) @ NEWLINE # t" f]
          Cons.IH(2) [of "row @ [f]"]
        by (subst read_csv.simps) (simp add: join_Cons)
    qed
  }
qed simp_all

lemma read_csv_rows:
  "rows \<noteq> [] \<Longrightarrow> [] \<notin> set rows \<Longrightarrow>
    read_csv [] (join [NEWLINE] (map (\<lambda>fs. join [COMMA] (map escapeCsvField fs)) rows)) = Some rows"
proof (induction rows)
  case (Cons fs rows)
  show ?case
  proof (cases "rows = []")
    case False
    from Cons.prems(2) have "fs \<noteq> []" by auto
    with Cons False show ?thesis by (simp add: join_Cons read_csv_row(2))
  qed (use Cons in \<open>auto simp: read_csv_row(1)\<close>)
qed simp

definition plain_rows :: "QueryColumn list \<Rightarrow> CellValue list list \<Rightarrow> js list list" where
  "plain_rows columns rows = map (\<lambda>row. map (\<lambda>c. cellValueToPlainText (at row c)) [0..<length columns]) rows"

text \<open>C27: An exported CSV document reads back, under RFC 4180, as the header of column names and one
  record per row with the text of every cell, commas, quotes and line breaks included.\<close>

theorem csv_reads_back:
  assumes "columns \<noteq> []"
  shows "read_csv [] (serializeResultAsCsv columns rows) = Some (map qc_name columns # plain_rows columns rows)"
proof -
  have "serializeResultAsCsv columns rows
      = join [NEWLINE] (map (\<lambda>fs. join [COMMA] (map escapeCsvField fs)) (map qc_name columns # plain_rows columns rows))"
    by (simp add: serializeResultAsCsv_def plain_rows_def comp_def)
  moreover have "[] \<notin> set (map qc_name columns # plain_rows columns rows)"
    using assms by (auto simp: plain_rows_def)
  ultimately show ?thesis by (simp only: read_csv_rows list.distinct simp_thms)
qed

theorem csv_reads_back_witness:
  "read_csv [] (serializeResultAsCsv [\<lparr> qc_name = u ''a'', databaseType = u ''text'', qc_nullable = None \<rparr>]
     [[CText [COMMA, DQUOTE, NEWLINE]]]) = Some [[u ''a''], [[COMMA, DQUOTE, NEWLINE]]]"
  by (subst csv_reads_back) (simp_all add: plain_rows_def)

section \<open>The JSON viewer\<close>

text \<open>Specification: a text without the white space outside its strings, and where it ends.\<close>

fun squeeze :: "bool \<Rightarrow> bool \<Rightarrow> js \<Rightarrow> js" where
  "squeeze ins esc [] = []"
| "squeeze ins esc (c # cs) =
     (if ins then c # (if esc then squeeze True False cs
                       else if c = BACKSLASH then squeeze True True cs
                       else squeeze (c \<noteq> DQUOTE) False cs)
      else if is_ws c then squeeze False False cs
      else c # squeeze (c = DQUOTE) False cs)"

fun string_state :: "bool \<times> bool \<Rightarrow> js \<Rightarrow> bool \<times> bool" where
  "string_state st [] = st"
| "string_state (ins, esc) (c # cs) =
     string_state
       (if ins then if esc then (True, False) else if c = BACKSLASH then (True, True) else (c \<noteq> DQUOTE, False)
        else (c = DQUOTE, False)) cs"

lemma string_state_append [simp]: "string_state st (a @ b) = string_state (string_state st a) b"
  by (induction st a rule: string_state.induct) auto

lemma squeeze_append:
  "squeeze ins esc (a @ b) = squeeze ins esc a @ (case string_state (ins, esc) a of (i, e) \<Rightarrow> squeeze i e b)"
proof (induction ins esc a rule: squeeze.induct)
  case (2 ins esc c cs)
  have "is_ws c \<Longrightarrow> c \<noteq> DQUOTE" by (auto simp: is_ws_def)
  with 2 show ?case by (cases ins; cases esc; cases "c = BACKSLASH"; cases "is_ws c") auto
qed simp

lemma string_state_out: "string_state (False, False) s = (i, e) \<Longrightarrow> i \<or> \<not> e"
proof (induction s arbitrary: i e rule: rev_induct)
  case (snoc c s)
  obtain i' e' where "string_state (False, False) s = (i', e')" by force
  with snoc show ?case by (auto split: if_splits)
qed simp

lemma blank_outside:
  "\<forall>c \<in> set w. is_ws c \<Longrightarrow> squeeze False False w = [] \<and> string_state (False, False) w = (False, False)"
  by (induction w) (auto simp: is_ws_def)

lemma blank_suffix:
  "\<forall>c \<in> set w. is_ws c \<Longrightarrow> string_state (False, False) (a @ w) = (False, e) \<Longrightarrow>
    string_state (False, False) a = (False, False)"
proof (induction w arbitrary: e rule: rev_induct)
  case Nil
  then show ?case using string_state_out [of a] by auto
next
  case (snoc c w)
  obtain i e' where st: "string_state (False, False) (a @ w) = (i, e')" by force
  have "c \<noteq> DQUOTE" "c \<noteq> BACKSLASH" using snoc.prems(1) by (auto simp: is_ws_def)
  with snoc.prems(2) st have "\<not> i" by (auto split: if_splits)
  with snoc st show ?case by simp
qed

lemma trim_end_outside:
  assumes "string_state (False, False) s = (False, False)"
  shows "string_state (False, False) (trim_end s) = (False, False)"
    and "squeeze False False (trim_end s) = squeeze False False s"
proof -
  obtain w where w: "s = trim_end s @ w" "\<forall>c \<in> set w. is_ws c" using trim_end_split by blast
  show t: "string_state (False, False) (trim_end s) = (False, False)"
    using blank_suffix [OF w(2), of "trim_end s"] assms w(1) by metis
  have "squeeze False False s = squeeze False False (trim_end s) @ squeeze False False w"
    using squeeze_append [of False False "trim_end s" w] t w(1) by simp
  with blank_outside [OF w(2)] show "squeeze False False (trim_end s) = squeeze False False s" by simp
qed

definition layout_inv :: "json_layout \<Rightarrow> bool" where
  "layout_inv st \<longleftrightarrow> string_state (False, False) (jl_result st) = (jl_inString st, jl_escaped st)"

lemma indent_blank: "\<forall>c \<in> set (NEWLINE # indent n). is_ws c"
  by (simp add: indent_def is_ws_def)

lemma format_step_inv:
  assumes "layout_inv st"
  shows "layout_inv (format_step st c)
     \<and> squeeze False False (jl_result (format_step st c))
       = squeeze False False (jl_result st) @ squeeze (jl_inString st) (jl_escaped st) [c]
     \<and> (jl_inString (format_step st c), jl_escaped (format_step st c))
       = string_state (jl_inString st, jl_escaped st) [c]"
proof (cases "jl_inString st")
  case True
  with assms show ?thesis by (auto simp: layout_inv_def format_step_def Let_def squeeze_append)
next
  case False
  with assms have e: "\<not> jl_escaped st" and s: "string_state (False, False) (jl_result st) = (False, False)"
    using string_state_out [of "jl_result st"] by (auto simp: layout_inv_def)
  note t = trim_end_outside [OF s]
  have ws: "is_ws 10" "is_ws 32" "\<not> is_ws 123" "\<not> is_ws 91" "\<not> is_ws 125" "\<not> is_ws 93" "\<not> is_ws COMMA" "\<not> is_ws 58" "\<not> is_ws DQUOTE"
    by (simp_all add: is_ws_def)
  have b: "squeeze False False (indent n) = []" "string_state (False, False) (indent n) = (False, False)" for n
    using blank_outside [of "indent n"] indent_blank by auto
  show ?thesis
    using False e s t b ws
    by (auto simp: layout_inv_def format_step_def Let_def squeeze_append u.simps)
qed

lemma format_fold:
  "layout_inv st \<Longrightarrow> squeeze False False (jl_result (foldl format_step st v))
     = squeeze False False (jl_result st) @ squeeze (jl_inString st) (jl_escaped st) v"
proof (induction v arbitrary: st)
  case (Cons c v)
  note i = format_step_inv [OF Cons.prems, of c]
  have "squeeze (jl_inString st) (jl_escaped st) (c # v)
      = squeeze (jl_inString st) (jl_escaped st) [c]
        @ squeeze (jl_inString (format_step st c)) (jl_escaped (format_step st c)) v"
    using squeeze_append [of "jl_inString st" "jl_escaped st" "[c]" v] i by (auto split: prod.splits)
  with i Cons.IH show ?case by simp
qed simp

text \<open>The viewer's pretty printing changes nothing but layout: without the white space
  outside strings, the text shown and the stored text are the same, so no digit of a number and no
  character of a string is lost.\<close>

theorem viewer_keeps_tokens:
  "squeeze False False (formatJsonText v) = squeeze False False v"
  using format_fold [of "\<lparr> jl_result = [], jl_depth = 0, jl_inString = False, jl_escaped = False \<rparr>" v]
  by (simp add: formatJsonText_def layout_inv_def)

end
