(* ===== verification/Js_Sort.thy ===== *)
theory Js_Sort
  imports Js_Numbers "HOL-Library.Multiset"
begin

text \<open>
  \<open>Array.prototype.sort\<close>: stable, and determined by its comparator whenever the comparator is
  consistent on the elements (the locale \<open>comparator_on\<close>), which is what the language asks of it. On a
  comparator that is not, the language leaves the order open; the model inserts from the right.
  The second half is what the language does with numbers in a comparator: \<open>Number(text)\<close> of any text,
  and the sign of a difference.
\<close>

section \<open>Sorting\<close>

fun insert_by :: "('a \<Rightarrow> 'a \<Rightarrow> int) \<Rightarrow> 'a \<Rightarrow> 'a list \<Rightarrow> 'a list" where
  "insert_by cmp x [] = [x]"
| "insert_by cmp x (y # ys) = (if cmp x y \<le> 0 then x # y # ys else y # insert_by cmp x ys)"

definition js_sort :: "('a \<Rightarrow> 'a \<Rightarrow> int) \<Rightarrow> 'a list \<Rightarrow> 'a list" where
  "js_sort cmp xs = foldr (insert_by cmp) xs []"

lemma mset_insert_by [simp]: "mset (insert_by cmp x ys) = add_mset x (mset ys)"
  by (induction ys) auto

lemma mset_js_sort [simp]: "mset (js_sort cmp xs) = mset xs"
  by (induction xs) (auto simp: js_sort_def)

lemma set_js_sort [simp]: "set (js_sort cmp xs) = set xs"
  by (metis mset_js_sort set_mset_mset)

lemma length_js_sort [simp]: "length (js_sort cmp xs) = length xs"
  by (metis mset_js_sort size_mset)

lemma distinct_js_sort [simp]: "distinct (js_sort cmp xs) = distinct xs"
  by (metis mset_js_sort mset_eq_imp_distinct_iff)

lemma distinct_map_js_sort: "distinct (map f xs) \<Longrightarrow> distinct (map f (js_sort cmp xs))"
  by (metis mset_eq_imp_distinct_iff mset_js_sort mset_map)

text \<open>A list that is in order already is left alone.\<close>

lemma js_sort_sorted: "sorted_wrt (\<lambda>x y. cmp x y \<le> 0) xs \<Longrightarrow> js_sort cmp xs = xs"
proof (induction xs)
  case (Cons x xs)
  then show ?case by (cases xs) (auto simp: js_sort_def)
qed (simp add: js_sort_def)

locale comparator_on =
  fixes cmp :: "'a \<Rightarrow> 'a \<Rightarrow> int" and S :: "'a set"
  assumes total: "x \<in> S \<Longrightarrow> y \<in> S \<Longrightarrow> cmp x y \<le> 0 \<or> cmp y x \<le> 0"
    and trans: "x \<in> S \<Longrightarrow> y \<in> S \<Longrightarrow> z \<in> S \<Longrightarrow> cmp x y \<le> 0 \<Longrightarrow> cmp y z \<le> 0 \<Longrightarrow> cmp x z \<le> 0"
begin

abbreviation le :: "'a \<Rightarrow> 'a \<Rightarrow> bool" where "le x y \<equiv> cmp x y \<le> 0"

lemma insert_by_sorted:
  "x \<in> S \<Longrightarrow> set ys \<subseteq> S \<Longrightarrow> sorted_wrt le ys \<Longrightarrow> sorted_wrt le (insert_by cmp x ys)"
proof (induction ys)
  case (Cons y ys)
  show ?case
  proof (cases "le x y")
    case True
    have "le x z" if "z \<in> set ys" for z
      using that True Cons.prems by (intro trans [of x y z]) auto
    with True Cons.prems show ?thesis by simp
  next
    case False
    then have "le y x" using total [of x y] Cons.prems(1,2) by simp
    moreover have "set (insert_by cmp x ys) = insert x (set ys)"
      by (metis mset_insert_by set_mset_add_mset_insert set_mset_mset)
    ultimately show ?thesis using Cons.IH Cons.prems False by simp
  qed
qed simp

lemma sorted_js_sort: "set xs \<subseteq> S \<Longrightarrow> sorted_wrt le (js_sort cmp xs)"
proof (induction xs)
  case (Cons x xs)
  moreover have "set (foldr (insert_by cmp) xs []) = set xs"
    by (metis js_sort_def set_js_sort)
  ultimately show ?case using insert_by_sorted [of x "js_sort cmp xs"] by (simp add: js_sort_def)
qed (simp add: js_sort_def)

lemma insert_by_stable:
  "x \<in> S \<Longrightarrow> y \<in> S \<Longrightarrow> set ys \<subseteq> S \<Longrightarrow> sorted_wrt le ys \<Longrightarrow>
    filter (\<lambda>z. le z y \<and> le y z) (insert_by cmp x ys) = filter (\<lambda>z. le z y \<and> le y z) (x # ys)"
proof (induction ys)
  case (Cons z ys)
  show ?case
  proof (cases "le x z")
    case False
    have "\<not> (le x y \<and> le y x \<and> le z y \<and> le y z)"
      using False Cons.prems(1-3) trans [of x y z] by simp blast
    with Cons False show ?thesis by auto
  qed simp
qed simp

text \<open>Equal elements keep their order.\<close>

lemma js_sort_stable:
  "y \<in> S \<Longrightarrow> set xs \<subseteq> S \<Longrightarrow>
    filter (\<lambda>z. le z y \<and> le y z) (js_sort cmp xs) = filter (\<lambda>z. le z y \<and> le y z) xs"
proof (induction xs)
  case (Cons x xs)
  then have "filter (\<lambda>z. le z y \<and> le y z) (insert_by cmp x (js_sort cmp xs))
      = filter (\<lambda>z. le z y \<and> le y z) (x # js_sort cmp xs)"
    by (intro insert_by_stable sorted_js_sort) auto
  with Cons show ?case by (simp add: js_sort_def)
qed (simp add: js_sort_def)

end

section \<open>Numbers in a comparator\<close>

definition signed :: "bool \<Rightarrow> nat \<Rightarrow> int" where
  "signed neg m = (if neg then - int m else int m)"

text \<open>\<open>x - y\<close> of two finite numbers up to its sign, which is exact.\<close>

definition num_cmp :: "js_num \<Rightarrow> js_num \<Rightarrow> int" where
  "num_cmp x y =
     (case (x, y) of
        (Fin n m e, Fin n' m' e') \<Rightarrow>
          sgn (signed n m * 2 ^ nat (e - min e e') - signed n' m' * 2 ^ nat (e' - min e e'))
      | _ \<Rightarrow> 0)"

definition scaled :: "int \<Rightarrow> js_num \<Rightarrow> int" where
  "scaled k x = (case x of Fin n m e \<Rightarrow> signed n m * 2 ^ nat (e - k) | _ \<Rightarrow> 0)"

definition num_exp :: "js_num \<Rightarrow> int" where
  "num_exp x = (case x of Fin n m e \<Rightarrow> e | _ \<Rightarrow> 0)"

lemma scaled_down:
  assumes "k \<le> l" "l \<le> num_exp x" "is_finite x"
  shows "scaled k x = scaled l x * 2 ^ nat (l - k)"
proof -
  obtain n m e where x: "x = Fin n m e" using assms(3) by (cases x) (auto simp: is_finite_def)
  have "nat (e - k) = nat (e - l) + nat (l - k)" using assms x by (simp add: num_exp_def)
  then show ?thesis by (simp add: x scaled_def power_add)
qed

lemma num_cmp_scaled:
  assumes "is_finite x" "is_finite y" "k \<le> num_exp x" "k \<le> num_exp y"
  shows "num_cmp x y \<le> 0 \<longleftrightarrow> scaled k x \<le> scaled k y"
proof -
  let ?l = "min (num_exp x) (num_exp y)"
  have "num_cmp x y = sgn (scaled ?l x - scaled ?l y)"
    using assms(1,2) by (cases x; cases y) (auto simp: is_finite_def num_cmp_def scaled_def num_exp_def)
  then have "num_cmp x y \<le> 0 \<longleftrightarrow> scaled ?l x \<le> scaled ?l y" by (auto simp: sgn_if)
  moreover have "scaled k x = scaled ?l x * 2 ^ nat (?l - k)" "scaled k y = scaled ?l y * 2 ^ nat (?l - k)"
    using assms by (auto intro!: scaled_down)
  ultimately show ?thesis by simp
qed

lemma num_cmp_total: "is_finite x \<Longrightarrow> is_finite y \<Longrightarrow> num_cmp x y \<le> 0 \<or> num_cmp y x \<le> 0"
  using num_cmp_scaled [of x y "min (num_exp x) (num_exp y)"]
    num_cmp_scaled [of y x "min (num_exp x) (num_exp y)"] by auto

lemma num_cmp_trans:
  assumes "is_finite x" "is_finite y" "is_finite z" "num_cmp x y \<le> 0" "num_cmp y z \<le> 0"
  shows "num_cmp x z \<le> 0"
proof -
  let ?k = "min (num_exp x) (min (num_exp y) (num_exp z))"
  have k: "?k \<le> num_exp x" "?k \<le> num_exp y" "?k \<le> num_exp z" by linarith+
  have "scaled ?k x \<le> scaled ?k y" "scaled ?k y \<le> scaled ?k z"
    using assms(4,5) num_cmp_scaled [OF assms(1,2) k(1,2)] num_cmp_scaled [OF assms(2,3) k(2,3)] by blast+
  then show ?thesis using num_cmp_scaled [OF assms(1,3) k(1,3)] by linarith
qed

lemma num_cmp_swap: "num_cmp y x = - num_cmp x y"
  by (cases x; cases y) (auto simp: num_cmp_def min.commute sgn_if)

text \<open>\<open>Number(text)\<close>: white space around, nothing (zero), a radix prefix, \<open>Infinity\<close>, a decimal.\<close>

definition radix_digit :: "nat \<Rightarrow> nat \<Rightarrow> bool" where
  "radix_digit b c = (if b = 16 then is_digit c \<or> (97 \<le> c \<and> c \<le> 102) \<or> (65 \<le> c \<and> c \<le> 70)
     else 48 \<le> c \<and> c < 48 + b)"

definition radix_value :: "nat \<Rightarrow> js \<Rightarrow> nat" where
  "radix_value b s = foldl (\<lambda>n c. b * n + (if is_digit c then c - 48 else if c \<ge> 97 then c - 87 else c - 55)) 0 s"

definition radix_of :: "js \<Rightarrow> nat option" where
  "radix_of s =
     (if at s 0 = Some 48 then
        (case at s 1 of
           Some c \<Rightarrow> if c = 120 \<or> c = 88 then Some 16 else if c = 111 \<or> c = 79 then Some 8
                     else if c = 98 \<or> c = 66 then Some 2 else None
         | None \<Rightarrow> None)
      else None)"

definition number_rx :: rx where
  "number_rx = Seq Bol (rx_seqs [rx_opt (Cls (\<lambda>c. c = 43 \<or> c = 45)),
     Alt (Seq (rx_plus rx_digit) (rx_opt (Seq (rx_chr 46) (Star rx_digit))))
       (Seq (rx_chr 46) (rx_plus rx_digit)),
     rx_opt (rx_seqs [Cls (\<lambda>c. c = 101 \<or> c = 69), rx_opt (Cls (\<lambda>c. c = 43 \<or> c = 45)), rx_plus rx_digit]),
     Eol])"

definition js_Number :: "js \<Rightarrow> js_num" where
  "js_Number s =
     (let t = trim s in
      if t = [] then Fin False 0 (- 1074)
      else case radix_of t of
        Some b \<Rightarrow> (let d = drop 2 t in
          if d = [] \<or> \<not> (\<forall>c \<in> set d. radix_digit b c) then NaN else num_of_nat (radix_value b d))
      | None \<Rightarrow>
          (let (neg, r) = parse_sign t in
           if r = u ''Infinity'' then Inf neg
           else if rx_test number_rx t then decimal_number t else NaN))"

lemmas sort_eval [js_eval] =
  js_sort_def signed_def num_cmp_def radix_digit_def radix_value_def radix_of_def number_rx_def
  js_Number_def

end
