(* ===== verification/Result_View.thy ===== *)
theory Result_View
  imports Result_Export Js_Sort
begin

text \<open>
  The result grid's view (\<open>features/query/resultView.ts\<close>): search, sort and the sort cycle of a column
  header. The host's collation (\<open>Intl.Collator\<close>) and locale lower case are parameters.
\<close>

record locale_ops =
  collate :: "js \<Rightarrow> js \<Rightarrow> int"
  locale_lower :: "js \<Rightarrow> js"

datatype SortDirection = Asc | Desc

record ResultSortState =
  columnIndex :: nat
  direction :: SortDirection

record ResultViewRow =
  sourceIndex :: nat
  cells :: "CellValue list"

record ResultView =
  view_rows :: "ResultViewRow list"
  matchCount :: nat

definition is_null :: "CellValue option \<Rightarrow> bool" where
  "is_null c \<longleftrightarrow> c = None \<or> c = Some CNull"

definition compareCellValues :: "locale_ops \<Rightarrow> CellValue option \<Rightarrow> CellValue option \<Rightarrow> int" where
  "compareCellValues L left right =
     (if is_null left \<and> is_null right then 0
      else if is_null left then 1
      else if is_null right then - 1
      else
        (let leftText = cellValueToPlainText left;
             rightText = cellValueToPlainText right;
             leftNumber = js_Number leftText;
             rightNumber = js_Number rightText
         in if trim leftText \<noteq> [] \<and> trim rightText \<noteq> [] \<and> is_finite leftNumber \<and> is_finite rightNumber
            then num_cmp leftNumber rightNumber
            else collate L leftText rightText))"

definition cell_contains :: "locale_ops \<Rightarrow> js \<Rightarrow> CellValue option \<Rightarrow> bool" where
  "cell_contains L needle c = has_sub (locale_lower L (cellValueToPlainText c)) needle"

definition rowMatchesSearch :: "locale_ops \<Rightarrow> CellValue list \<Rightarrow> js \<Rightarrow> bool" where
  "rowMatchesSearch L cs normalizedSearch =
     (if normalizedSearch = [] then True else \<exists>c \<in> set cs. cell_contains L normalizedSearch (Some c))"

definition cellMatchesSearch :: "locale_ops \<Rightarrow> CellValue option \<Rightarrow> js \<Rightarrow> bool" where
  "cellMatchesSearch L c normalizedSearch =
     (if normalizedSearch = [] then False else cell_contains L normalizedSearch c)"

text \<open>The traversal of the rows: the view rows and the matching cells so far.\<close>

definition search_step ::
  "locale_ops \<Rightarrow> js \<Rightarrow> ResultViewRow list \<times> nat \<Rightarrow> nat \<times> CellValue list \<Rightarrow> ResultViewRow list \<times> nat" where
  "search_step L needle acc entry =
     (case (acc, entry) of ((viewRows, n), (i, cs)) \<Rightarrow>
      (let rowMatches = length (filter (\<lambda>c. cell_contains L needle (Some c)) cs) in
       if rowMatches > 0 then (viewRows @ [\<lparr> sourceIndex = i, cells = cs \<rparr>], n + rowMatches)
       else (viewRows, n)))"

definition view_row :: "nat \<times> CellValue list \<Rightarrow> ResultViewRow" where
  "view_row entry = \<lparr> sourceIndex = fst entry, cells = snd entry \<rparr>"

definition row_compare :: "locale_ops \<Rightarrow> ResultSortState \<Rightarrow> ResultViewRow \<Rightarrow> ResultViewRow \<Rightarrow> int" where
  "row_compare L s left right =
     (if direction s = Asc then 1 else - 1)
       * compareCellValues L (at (cells left) (columnIndex s)) (at (cells right) (columnIndex s))"

definition buildResultView ::
  "locale_ops \<Rightarrow> CellValue list list \<Rightarrow> js \<Rightarrow> ResultSortState option \<Rightarrow> ResultView" where
  "buildResultView L rows search srt =
     (let normalizedSearch = locale_lower L (trim search);
          entries = zip [0..<length rows] rows;
          (viewRows, n) = (if normalizedSearch \<noteq> [] then foldl (search_step L normalizedSearch) ([], 0) entries
                           else (map view_row entries, 0))
      in \<lparr> view_rows = (case srt of None \<Rightarrow> viewRows | Some s \<Rightarrow> js_sort (row_compare L s) viewRows),
           matchCount = n \<rparr>)"

definition cycleColumnSort :: "ResultSortState option \<Rightarrow> nat \<Rightarrow> ResultSortState option" where
  "cycleColumnSort current i =
     (case current of
        None \<Rightarrow> Some \<lparr> columnIndex = i, direction = Asc \<rparr>
      | Some c \<Rightarrow>
          if columnIndex c \<noteq> i then Some \<lparr> columnIndex = i, direction = Asc \<rparr>
          else if direction c = Asc then Some \<lparr> columnIndex = i, direction = Desc \<rparr>
          else None)"

section \<open>What the view shows\<close>

definition needle_of :: "locale_ops \<Rightarrow> js \<Rightarrow> js" where
  "needle_of L search = locale_lower L (trim search)"

definition shown :: "locale_ops \<Rightarrow> CellValue list list \<Rightarrow> js \<Rightarrow> ResultViewRow list" where
  "shown L rows search =
     map view_row (filter (\<lambda>(i, cs). rowMatchesSearch L cs (needle_of L search)) (zip [0..<length rows] rows))"

lemma search_fold:
  "needle \<noteq> [] \<Longrightarrow> foldl (search_step L needle) (vs, n) es =
    (vs @ map view_row (filter (\<lambda>(i, cs). rowMatchesSearch L cs needle) es),
     n + sum_list (map (\<lambda>(i, cs). length (filter (\<lambda>c. cell_contains L needle (Some c)) cs)) es))"
proof (induction es arbitrary: vs n)
  case (Cons e es)
  obtain i cs where e: "e = (i, cs)" by force
  have "rowMatchesSearch L cs needle \<longleftrightarrow> 0 < length (filter (\<lambda>c. cell_contains L needle (Some c)) cs)"
    using Cons.prems by (auto simp: rowMatchesSearch_def filter_empty_conv)
  with Cons e show ?case by (auto simp: search_step_def Let_def view_row_def)
qed simp

definition matching_cells :: "locale_ops \<Rightarrow> CellValue list list \<Rightarrow> js \<Rightarrow> nat" where
  "matching_cells L rows search =
     sum_list (map (\<lambda>cs. length (filter (\<lambda>c. cellMatchesSearch L (Some c) (needle_of L search)) cs)) rows)"

text \<open>C28: The view is a rearrangement of exactly the rows that match the search, each under the
  index it has in the result, and the counter is the number of cells the grid highlights.\<close>

theorem view_is_matching_rows:
  "mset (view_rows (buildResultView L rows search srt)) = mset (shown L rows search)
     \<and> matchCount (buildResultView L rows search srt) = matching_cells L rows search"
proof -
  have snds: "map (\<lambda>(i, cs). f cs) (zip [0..<length rows] rows) = map f rows" for f :: "CellValue list \<Rightarrow> nat"
  proof -
    have "map (\<lambda>(i, cs). f cs) (zip [0..<length rows] rows) = map f (map snd (zip [0..<length rows] rows))"
      by (simp add: case_prod_unfold del: map_snd_zip)
    then show ?thesis by simp
  qed
  show ?thesis
  proof (cases "needle_of L search = []")
    case True
    then show ?thesis
      by (auto simp: buildResultView_def Let_def needle_of_def shown_def rowMatchesSearch_def
          matching_cells_def cellMatchesSearch_def case_prod_unfold split: option.split)
  next
    case False
    then show ?thesis
      using snds by (auto simp: buildResultView_def Let_def needle_of_def search_fold shown_def
          matching_cells_def cellMatchesSearch_def split: option.split)
  qed
qed

section \<open>Sorted columns\<close>

text \<open>A column of NULLs and numbers, on which the comparison is consistent in both directions.\<close>

definition numeric_cell :: "CellValue option \<Rightarrow> bool" where
  "numeric_cell c \<longleftrightarrow> is_null c \<or>
     (trim (cellValueToPlainText c) \<noteq> [] \<and> is_finite (js_Number (cellValueToPlainText c)))"

definition numeric_row :: "ResultSortState \<Rightarrow> ResultViewRow \<Rightarrow> bool" where
  "numeric_row s r = numeric_cell (at (cells r) (columnIndex s))"

lemma compare_numeric:
  "numeric_cell c \<Longrightarrow> numeric_cell d \<Longrightarrow> \<not> is_null c \<Longrightarrow> \<not> is_null d \<Longrightarrow>
    compareCellValues L c d = num_cmp (js_Number (cellValueToPlainText c)) (js_Number (cellValueToPlainText d))"
  by (auto simp: compareCellValues_def numeric_cell_def Let_def)

lemma compare_null:
  "is_null c \<Longrightarrow> compareCellValues L c d = (if is_null d then 0 else 1)"
  "is_null d \<Longrightarrow> compareCellValues L c d = (if is_null c then 0 else - 1)"
  by (auto simp: compareCellValues_def)

lemma finite_of_numeric: "numeric_cell c \<Longrightarrow> \<not> is_null c \<Longrightarrow> is_finite (js_Number (cellValueToPlainText c))"
  by (auto simp: numeric_cell_def)

lemma compare_swap: "numeric_cell c \<Longrightarrow> numeric_cell d \<Longrightarrow> compareCellValues L d c = - compareCellValues L c d"
  by (cases "is_null c"; cases "is_null d") (auto simp: compare_null compare_numeric num_cmp_swap [of _ "js_Number (cellValueToPlainText c)"])

lemma compare_trans:
  assumes "numeric_cell a" "numeric_cell b" "numeric_cell c"
    and "compareCellValues L a b \<le> 0" "compareCellValues L b c \<le> 0"
  shows "compareCellValues L a c \<le> 0"
proof (cases "is_null a \<or> is_null b \<or> is_null c")
  case True
  with assms show ?thesis by (auto simp: compare_null split: if_splits)
next
  case False
  with assms show ?thesis
    using num_cmp_trans [of "js_Number (cellValueToPlainText a)" "js_Number (cellValueToPlainText b)"
        "js_Number (cellValueToPlainText c)"]
    by (simp add: compare_numeric finite_of_numeric)
qed

interpretation numeric_column: comparator_on "row_compare L s" "{r. numeric_row s r}"
proof unfold_locales
  fix x y assume "x \<in> {r. numeric_row s r}" "y \<in> {r. numeric_row s r}"
  then show "row_compare L s x y \<le> 0 \<or> row_compare L s y x \<le> 0"
    using compare_swap [of "at (cells x) (columnIndex s)" "at (cells y) (columnIndex s)" L]
    by (auto simp: row_compare_def numeric_row_def)
next
  fix x y z
  assume n: "x \<in> {r. numeric_row s r}" "y \<in> {r. numeric_row s r}" "z \<in> {r. numeric_row s r}"
    and le: "row_compare L s x y \<le> 0" "row_compare L s y z \<le> 0"
  let ?c = "\<lambda>r. at (cells r) (columnIndex s)"
  show "row_compare L s x z \<le> 0"
  proof (cases "direction s = Asc")
    case True
    with n le show ?thesis using compare_trans [of "?c x" "?c y" "?c z" L]
      by (simp add: row_compare_def numeric_row_def)
  next
    case False
    with n le have "compareCellValues L (?c z) (?c y) \<le> 0" "compareCellValues L (?c y) (?c x) \<le> 0"
      using compare_swap [of "?c x" "?c y" L] compare_swap [of "?c y" "?c z" L]
      by (simp_all add: row_compare_def numeric_row_def)
    with n have "compareCellValues L (?c z) (?c x) \<le> 0"
      using compare_trans [of "?c z" "?c y" "?c x" L] by (simp add: numeric_row_def)
    with n False show ?thesis
      using compare_swap [of "?c x" "?c z" L] by (simp add: row_compare_def numeric_row_def)
  qed
qed

text \<open>A column of numbers and NULLs is shown in numeric order of the chosen direction, and rows
  with equal values keep the order of the result.\<close>

theorem numeric_column_sorted:
  assumes "list_all (numeric_row s) (shown L rows search)"
  shows "sorted_wrt (\<lambda>x y. row_compare L s x y \<le> 0) (view_rows (buildResultView L rows search (Some s)))
     \<and> (numeric_row s r \<longrightarrow>
        filter (\<lambda>z. row_compare L s z r \<le> 0 \<and> row_compare L s r z \<le> 0) (view_rows (buildResultView L rows search (Some s)))
        = filter (\<lambda>z. row_compare L s z r \<le> 0 \<and> row_compare L s r z \<le> 0) (shown L rows search))"
proof -
  have v: "view_rows (buildResultView L rows search (Some s)) = js_sort (row_compare L s) (shown L rows search)"
    by (cases "needle_of L search = []")
      (auto simp: buildResultView_def Let_def needle_of_def shown_def search_fold rowMatchesSearch_def case_prod_unfold)
  have "set (shown L rows search) \<subseteq> {r. numeric_row s r}" using assms by (auto simp: list_all_iff)
  then show ?thesis unfolding v
    using numeric_column.sorted_js_sort numeric_column.js_sort_stable by auto
qed

theorem numeric_column_sorted_witness:
  "sorted_wrt (\<lambda>x y. row_compare \<lparr> collate = \<lambda>_ _. 0, locale_lower = \<lambda>s. s \<rparr> \<lparr> columnIndex = 0, direction = Asc \<rparr> x y \<le> 0)
     (view_rows (buildResultView \<lparr> collate = \<lambda>_ _. 0, locale_lower = \<lambda>s. s \<rparr>
        [[CInteger (u ''10'')], [CNull], [CInteger (u ''9'')]] [] (Some \<lparr> columnIndex = 0, direction = Asc \<rparr>)))"
proof -
  have d: "is_finite (js_Number [49, 48])" "is_finite (js_Number [57])"
    by (simp_all add: js_eval)
  have "list_all (numeric_row \<lparr> columnIndex = 0, direction = Asc \<rparr>)
      (shown \<lparr> collate = \<lambda>_ _. 0, locale_lower = \<lambda>s. s \<rparr> [[CInteger (u ''10'')], [CNull], [CInteger (u ''9'')]] [])"
    by (simp add: shown_def rowMatchesSearch_def needle_of_def view_row_def numeric_row_def numeric_cell_def
        is_null_def d trim_no_ws u.simps is_ws_def upt_rec)
  from numeric_column_sorted [OF this] show ?thesis by blast
qed

end
