(* ===== verification/App_Error.thy ===== *)
theory App_Error
  imports Js_Json
begin

text \<open>
  Errors at the IPC boundary: \<open>AppError\<close>, what a rejected call may carry, and the messages the
  connection dialogs and the query runners make of it (\<open>features/connections/connectionErrors.ts\<close>,
  \<open>toAppError\<close> of \<open>features/query/useQuerySession.ts\<close> and \<open>executeQueryOnce.ts\<close>).
\<close>

datatype AppErrorCode =
  E_validation | E_connection | E_authentication | E_permission | E_timeout | E_query | E_storage
| E_not_found | E_canceled | E_internal

record AppError =
  ae_code :: AppErrorCode
  message :: js
  technicalDetails :: "js option"
  retryable :: bool

text \<open>
  A rejection: an error of the backend, another object that has a message, or anything else.
\<close>

datatype rejection = RejError AppError | RejMessage js | RejOther

definition backendMessage :: "rejection \<Rightarrow> js option" where
  "backendMessage e =
     (case e of RejError a \<Rightarrow> Some (message a) | RejMessage m \<Rightarrow> Some m | RejOther \<Rightarrow> None)"

definition getConnectionDeletionError :: "rejection \<Rightarrow> js" where
  "getConnectionDeletionError e =
     (case backendMessage e of Some m \<Rightarrow> m
      | None \<Rightarrow> ([21024, 38500, 22833, 36133, 12290, 36830, 25509, 21644, 30456, 20851, 25968, 25454, 22343, 26410, 20174, 24403, 21069, 30028, 38754, 31227, 38500, 65292, 35831, 37325, 35797, 12290]))"

definition getConnectionActionError :: "rejection \<Rightarrow> js \<Rightarrow> js" where
  "getConnectionActionError e fallback = (case backendMessage e of Some m \<Rightarrow> m | None \<Rightarrow> fallback)"

definition toAppError :: "js \<Rightarrow> rejection \<Rightarrow> AppError" where
  "toAppError fallback e =
     (case e of RejError a \<Rightarrow> a
      | _ \<Rightarrow> \<lparr> ae_code = E_internal, message = fallback, technicalDetails = None, retryable = True \<rparr>)"

lemmas error_eval [js_eval] =
  backendMessage_def getConnectionDeletionError_def getConnectionActionError_def toAppError_def

end
