(* ===== verification/Query_Session.thy ===== *)
theory Query_Session
  imports Mutation_Values App_Error
begin

text \<open>
  Running queries (\<open>features/query/useQuerySession.ts\<close>, \<open>features/query/executeQueryOnce.ts\<close>): the
  reducer of a query workspace, the hook around it as a machine of steps (user commands, channel
  events, animation frames, IPC rejections) that emits calls to the backend, and the one-shot runner.
\<close>

section \<open>Events and the reducer\<close>

datatype QueryEvent =
  Started js
| Schema js "QueryColumn list"
| Batch js "CellValue list list"
| Completed js nat
| Canceled js
| Failed js AppError

fun ev_query :: "QueryEvent \<Rightarrow> js" where
  "ev_query (Started q) = q"
| "ev_query (Schema q cs) = q"
| "ev_query (Batch q rs) = q"
| "ev_query (Completed q n) = q"
| "ev_query (Canceled q) = q"
| "ev_query (Failed q e) = q"

record QuerySessionState =
  queryId :: "js option"
  connectionId :: "js option"
  session_sql :: js
  session_columns :: "QueryColumn list"
  session_rows :: "CellValue list list"
  running :: bool
  cancelRequested :: bool
  incomplete :: bool
  affectedRows :: "nat option"
  session_error :: "AppError option"

datatype QuerySessionAction =
  Begin js js js
| Event QueryEvent
| CancelRequested js
| StartFailed js AppError

definition createInitialQuerySessionState :: QuerySessionState where
  "createInitialQuerySessionState =
     \<lparr> queryId = None, connectionId = None, session_sql = [], session_columns = [], session_rows = [],
       running = False, cancelRequested = False, incomplete = False, affectedRows = None,
       session_error = None \<rparr>"

definition reduce_event :: "QuerySessionState \<Rightarrow> QueryEvent \<Rightarrow> QuerySessionState" where
  "reduce_event st event =
     (if Some (ev_query event) \<noteq> queryId st then st
      else case event of
        Started q \<Rightarrow> st \<lparr> running := True \<rparr>
      | Schema q cs \<Rightarrow> st \<lparr> session_columns := cs \<rparr>
      | Batch q rs \<Rightarrow> st \<lparr> session_rows := session_rows st @ rs \<rparr>
      | Completed q n \<Rightarrow> st \<lparr> running := False, cancelRequested := False, incomplete := False,
                            affectedRows := Some n \<rparr>
      | Canceled q \<Rightarrow> st \<lparr> running := False, cancelRequested := False, incomplete := True \<rparr>
      | Failed q e \<Rightarrow> st \<lparr> running := False, cancelRequested := False, session_error := Some e \<rparr>)"

fun querySessionReducer :: "QuerySessionState \<Rightarrow> QuerySessionAction \<Rightarrow> QuerySessionState" where
  "querySessionReducer st (Begin q c sql) =
     \<lparr> queryId = Some q, connectionId = Some c, session_sql = sql, session_columns = [], session_rows = [],
       running = True, cancelRequested = False, incomplete = False, affectedRows = None,
       session_error = None \<rparr>"
| "querySessionReducer st (CancelRequested q) =
     (if Some q = queryId st then st \<lparr> cancelRequested := True \<rparr> else st)"
| "querySessionReducer st (StartFailed q e) =
     (if Some q = queryId st then st \<lparr> running := False, cancelRequested := False, session_error := Some e \<rparr>
      else st)"
| "querySessionReducer st (Event event) = reduce_event st event"

section \<open>The hook\<close>

text \<open>
  The refs of the hook beside the reducer's state; \<open>flushHandle\<close> is whether a frame is scheduled. A
  label is what happens to the hook; \<open>LFrame\<close> is the scheduled frame, which runs only while one is
  scheduled, and \<open>LRejected\<close> the rejection of the run of that query. Every label carries the text or
  identifier the code would draw from its closure (\<open>crypto.randomUUID\<close> is the \<open>q\<close> of \<open>LRun\<close>; an event
  names the query and text of the channel that delivers it).
\<close>

record session =
  view :: QuerySessionState
  activeQueryId :: "js option"
  cancelRequestedRef :: bool
  historyRecordedQueryId :: "js option"
  pendingRows :: "(js \<times> CellValue list list) option"
  flushHandle :: bool

record session_config =
  cfg_connection :: js
  cfg_database :: "js option"
  recordHistoryEnabled :: bool

datatype label =
  LRun js js | LEvent js QueryEvent | LFrame | LRejected js rejection | LCancel | LUnmount

datatype call =
  RunQuery js js js "js option" | RecordHistory js js js | CancelQuery js

definition START_ERROR :: js where "START_ERROR = ([26080, 27861, 21551, 21160, 26597, 35810, 65292, 35831, 37325, 35797, 12290])"

definition init_session :: session where
  "init_session = \<lparr> view = createInitialQuerySessionState, activeQueryId = None, cancelRequestedRef = False,
     historyRecordedQueryId = None, pendingRows = None, flushHandle = False \<rparr>"

definition dispatch :: "QuerySessionAction \<Rightarrow> session \<Rightarrow> session" where
  "dispatch a s = s \<lparr> view := querySessionReducer (view s) a \<rparr>"

definition cancelScheduledFlush :: "session \<Rightarrow> session" where
  "cancelScheduledFlush s = s \<lparr> flushHandle := False \<rparr>"

definition flushPendingRows :: "session \<Rightarrow> session" where
  "flushPendingRows s =
     (let s1 = (cancelScheduledFlush s) \<lparr> pendingRows := None \<rparr> in
      case pendingRows s of
        None \<Rightarrow> s1
      | Some (q, rows) \<Rightarrow> if length rows = 0 then s1 else dispatch (Event (Batch q rows)) s1)"

definition run_step :: "session_config \<Rightarrow> js \<Rightarrow> js \<Rightarrow> session \<Rightarrow> session \<times> call list" where
  "run_step cfg q sql s =
     (if activeQueryId s \<noteq> None \<or> trim sql = [] then (s, [])
      else (dispatch (Begin q (cfg_connection cfg) sql)
              ((cancelScheduledFlush (s \<lparr> activeQueryId := Some q, cancelRequestedRef := False,
                 historyRecordedQueryId := None \<rparr>)) \<lparr> pendingRows := None \<rparr>),
            [RunQuery q (cfg_connection cfg) sql (cfg_database cfg)]))"

definition buffer_rows :: "js \<Rightarrow> CellValue list list \<Rightarrow> session \<Rightarrow> session" where
  "buffer_rows q rows s =
     s \<lparr> pendingRows := (case pendingRows s of
            Some (p, old) \<Rightarrow> if p = q then Some (p, old @ rows) else Some (q, rows)
          | None \<Rightarrow> Some (q, rows)),
         flushHandle := True \<rparr>"

definition terminal :: "QueryEvent \<Rightarrow> bool" where
  "terminal event = (case event of Completed _ _ \<Rightarrow> True | Canceled _ \<Rightarrow> True | Failed _ _ \<Rightarrow> True | _ \<Rightarrow> False)"

definition event_step :: "session_config \<Rightarrow> js \<Rightarrow> QueryEvent \<Rightarrow> session \<Rightarrow> session \<times> call list" where
  "event_step cfg sql event s =
     (case event of
        Batch q rows \<Rightarrow> (buffer_rows q rows s, [])
      | _ \<Rightarrow>
          (let s1 = dispatch (Event event) (flushPendingRows s);
               q = ev_query event;
               record = ((case event of Started _ \<Rightarrow> True | _ \<Rightarrow> False) \<and> activeQueryId s1 = Some q
                 \<and> historyRecordedQueryId s1 \<noteq> Some q \<and> recordHistoryEnabled cfg);
               s2 = (if record then s1 \<lparr> historyRecordedQueryId := Some q \<rparr> else s1);
               s3 = (if terminal event \<and> activeQueryId s2 = Some q
                     then s2 \<lparr> activeQueryId := None, cancelRequestedRef := False \<rparr> else s2)
           in (s3, if record then [RecordHistory q (cfg_connection cfg) sql] else [])))"

definition rejected_step :: "js \<Rightarrow> rejection \<Rightarrow> session \<Rightarrow> session" where
  "rejected_step q e s =
     (if activeQueryId s = Some q then
        dispatch (StartFailed q (toAppError START_ERROR e))
          (s \<lparr> activeQueryId := None, cancelRequestedRef := False \<rparr>)
      else s)"

definition cancel_step :: "session \<Rightarrow> session \<times> call list" where
  "cancel_step s =
     (case activeQueryId s of
        None \<Rightarrow> (s, [])
      | Some q \<Rightarrow>
          if cancelRequestedRef s then (s, [])
          else (dispatch (CancelRequested q) (flushPendingRows (s \<lparr> cancelRequestedRef := True \<rparr>)),
                [CancelQuery q]))"

fun session_step :: "session_config \<Rightarrow> label \<Rightarrow> session \<Rightarrow> session \<times> call list" where
  "session_step cfg (LRun q sql) s = run_step cfg q sql s"
| "session_step cfg (LEvent sql event) s = event_step cfg sql event s"
| "session_step cfg LFrame s =
     (if flushHandle s then (flushPendingRows (s \<lparr> flushHandle := False \<rparr>), []) else (s, []))"
| "session_step cfg (LRejected q e) s = (rejected_step q e s, [])"
| "session_step cfg LCancel s = cancel_step s"
| "session_step cfg LUnmount s = ((cancelScheduledFlush s) \<lparr> pendingRows := None \<rparr>, [])"

lemmas session_defs =
  dispatch_def cancelScheduledFlush_def flushPendingRows_def run_step_def buffer_rows_def event_step_def
  rejected_step_def cancel_step_def

section \<open>Coalescing loses no row\<close>

text \<open>
  Abstraction: the snapshot with the buffered rows already delivered. A step of the hook is, on the
  abstract side, the reducer applied to the action itself.
\<close>

definition delivered :: "session \<Rightarrow> QuerySessionState" where
  "delivered s = view (flushPendingRows s)"

fun spec_actions :: "session_config \<Rightarrow> label \<Rightarrow> session \<Rightarrow> QuerySessionAction list" where
  "spec_actions cfg (LRun q sql) s =
     (if activeQueryId s \<noteq> None \<or> trim sql = [] then [] else [Begin q (cfg_connection cfg) sql])"
| "spec_actions cfg (LEvent sql event) s = [Event event]"
| "spec_actions cfg LFrame s = []"
| "spec_actions cfg (LRejected q e) s =
     (if activeQueryId s = Some q then [StartFailed q (toAppError START_ERROR e)] else [])"
| "spec_actions cfg LCancel s =
     (case activeQueryId s of None \<Rightarrow> [] | Some q \<Rightarrow> if cancelRequestedRef s then [] else [CancelRequested q])"
| "spec_actions cfg LUnmount s = []"

text \<open>
  The rows buffered are those of the query shown, and a query that runs is the one shown. A label is
  current unless it is a batch of another query or the unmount, which drop rows.
\<close>

definition session_inv :: "session \<Rightarrow> bool" where
  "session_inv s \<longleftrightarrow>
     (case pendingRows s of None \<Rightarrow> True | Some (q, rows) \<Rightarrow> queryId (view s) = Some q)
     \<and> (case activeQueryId s of None \<Rightarrow> True | Some q \<Rightarrow> queryId (view s) = Some q)"

definition current :: "session \<Rightarrow> label \<Rightarrow> bool" where
  "current s l \<longleftrightarrow>
     (case l of LEvent sql (Batch q rows) \<Rightarrow> queryId (view s) = Some q | LUnmount \<Rightarrow> False | _ \<Rightarrow> True)"

lemma reduce_event_id [simp]: "queryId (reduce_event st event) = queryId st"
  by (cases event) (auto simp: reduce_event_def)

lemma delivered_eq:
  "delivered s = (case pendingRows s of None \<Rightarrow> view s
     | Some (q, rows) \<Rightarrow> reduce_event (view s) (Batch q rows))"
  by (auto simp: delivered_def session_defs Let_def reduce_event_def split: option.split)

lemma flush_simps [simp]:
  "pendingRows (flushPendingRows s) = None"
  "view (flushPendingRows s) = delivered s"
  "activeQueryId (flushPendingRows s) = activeQueryId s"
  "cancelRequestedRef (flushPendingRows s) = cancelRequestedRef s"
  "historyRecordedQueryId (flushPendingRows s) = historyRecordedQueryId s"
  by (auto simp: flushPendingRows_def dispatch_def cancelScheduledFlush_def Let_def delivered_def split: option.split)

lemma delivered_none [simp]: "pendingRows s = None \<Longrightarrow> delivered s = view s"
  by (simp add: delivered_eq)

lemma delivered_id [simp]: "queryId (delivered s) = queryId (view s)"
  by (auto simp: delivered_eq split: option.split)

lemma session_inv_step: "session_inv s \<Longrightarrow> current s l \<Longrightarrow> session_inv (fst (session_step cfg l s))"
  by (cases l)
    (auto simp: session_inv_def current_def run_step_def dispatch_def cancelScheduledFlush_def event_step_def
      buffer_rows_def rejected_step_def cancel_step_def terminal_def Let_def
      split: option.splits QueryEvent.splits if_splits)

lemma delivered_handle: "delivered (s \<lparr> flushHandle := b \<rparr>) = delivered s"
  by (simp add: delivered_eq split: option.split)

lemma delivered_buffer:
  assumes "session_inv s" "queryId (view s) = Some q"
  shows "delivered (buffer_rows q rows s) = reduce_event (delivered s) (Batch q rows)"
proof (cases "pendingRows s")
  case None
  then show ?thesis by (cases s) (simp add: buffer_rows_def delivered_eq)
next
  case (Some p)
  obtain old where "p = (q, old)" using assms Some by (cases p) (auto simp: session_inv_def)
  with Some assms(2) show ?thesis by (cases s) (simp add: buffer_rows_def delivered_eq reduce_event_def)
qed

lemma delivered_event:
  assumes "session_inv s" "current s (LEvent sql event)"
  shows "delivered (fst (event_step cfg sql event s)) = reduce_event (delivered s) event"
proof (cases "\<exists>q rows. event = Batch q rows")
  case True
  then obtain q rows where e: "event = Batch q rows" by blast
  with assms(2) have "queryId (view s) = Some q" by (simp add: current_def)
  with delivered_buffer [OF assms(1) this] e show ?thesis by (simp add: event_step_def)
next
  case False
  then have "pendingRows (fst (event_step cfg sql event s)) = None
      \<and> view (fst (event_step cfg sql event s)) = reduce_event (delivered s) event"
    by (cases event) (auto simp: event_step_def dispatch_def Let_def)
  then show ?thesis by simp
qed

lemma reducer_after_batch:
  "querySessionReducer (reduce_event st (Batch p rows)) (StartFailed q e)
    = reduce_event (querySessionReducer st (StartFailed q e)) (Batch p rows)"
  by (auto simp: reduce_event_def)

text \<open>C29: Buffering rows between animation frames changes no result: with the buffered rows
  delivered, every step of the hook is the reducer applied to the very action it stands for, so the
  snapshot is the one an unbuffered session would show, rows in channel order.\<close>

theorem coalescing_refines:
  assumes "session_inv s" and "current s l"
  shows "delivered (fst (session_step cfg l s)) = foldl querySessionReducer (delivered s) (spec_actions cfg l s)
     \<and> session_inv (fst (session_step cfg l s))"
proof
  show "session_inv (fst (session_step cfg l s))" using assms by (rule session_inv_step)
  show "delivered (fst (session_step cfg l s)) = foldl querySessionReducer (delivered s) (spec_actions cfg l s)"
  proof (cases l)
    case (LRun q sql)
    then show ?thesis by (auto simp: run_step_def dispatch_def cancelScheduledFlush_def)
  next
    case (LEvent sql event)
    with delivered_event [OF assms(1)] assms(2) show ?thesis by simp
  next
    case LFrame
    then show ?thesis by (simp add: delivered_handle)
  next
    case (LRejected q e)
    then show ?thesis
      by (auto simp: rejected_step_def dispatch_def delivered_eq reducer_after_batch
          simp del: querySessionReducer.simps split: option.split)
  next
    case LCancel
    then show ?thesis
      by (auto simp: cancel_step_def dispatch_def delivered_eq split: option.split)
  next
    case LUnmount
    with assms show ?thesis by (simp add: current_def)
  qed
qed

theorem coalescing_refines_witness:
  "delivered (fst (session_step \<lparr> cfg_connection = [99], cfg_database = None, recordHistoryEnabled = True \<rparr>
     (LEvent [49] (Batch [113] [[CNull]])) (fst (run_step \<lparr> cfg_connection = [99], cfg_database = None,
       recordHistoryEnabled = True \<rparr> [113] [49] init_session))))
    = foldl querySessionReducer (delivered (fst (run_step \<lparr> cfg_connection = [99], cfg_database = None,
       recordHistoryEnabled = True \<rparr> [113] [49] init_session))) [Event (Batch [113] [[CNull]])]"
proof -
  let ?cfg = "\<lparr> cfg_connection = [99], cfg_database = None, recordHistoryEnabled = True \<rparr>"
  let ?s = "fst (run_step ?cfg [113] [49] init_session)"
  have s: "session_inv ?s" "queryId (view ?s) = Some [113]"
    by (simp_all add: run_step_def session_inv_def init_session_def dispatch_def cancelScheduledFlush_def
        trim_def trim_start_def trim_end_def is_ws_def)
  then have "current ?s (LEvent [49] (Batch [113] [[CNull]]))" by (simp add: current_def)
  from coalescing_refines [OF s(1) this, of ?cfg] show ?thesis by simp
qed

section \<open>One cancellation and one history record per query\<close>

fun ran :: "call list \<Rightarrow> js list" where
  "ran [] = []"
| "ran (RunQuery q c sql d # cs) = q # ran cs"
| "ran (_ # cs) = ran cs"

fun canceled :: "call list \<Rightarrow> js list" where
  "canceled [] = []"
| "canceled (CancelQuery q # cs) = q # canceled cs"
| "canceled (_ # cs) = canceled cs"

fun recorded :: "call list \<Rightarrow> js list" where
  "recorded [] = []"
| "recorded (RecordHistory q c sql # cs) = q # recorded cs"
| "recorded (_ # cs) = recorded cs"

lemma trace_append [simp]:
  "ran (cs @ ds) = ran cs @ ran ds"
  "canceled (cs @ ds) = canceled cs @ canceled ds"
  "recorded (cs @ ds) = recorded cs @ recorded ds"
proof -
  show "ran (cs @ ds) = ran cs @ ran ds" by (induction cs rule: ran.induct) auto
  show "canceled (cs @ ds) = canceled cs @ canceled ds" by (induction cs rule: canceled.induct) auto
  show "recorded (cs @ ds) = recorded cs @ recorded ds" by (induction cs rule: recorded.induct) auto
qed

text \<open>A session and the calls it has made; the identifiers of runs are fresh.\<close>

inductive session_run :: "session_config \<Rightarrow> session \<Rightarrow> call list \<Rightarrow> bool" for cfg where
  start: "session_run cfg init_session []"
| step: "session_run cfg s cs \<Longrightarrow> (\<forall>q sql. l = LRun q sql \<longrightarrow> q \<notin> set (ran cs)) \<Longrightarrow>
    session_step cfg l s = (s', ds) \<Longrightarrow> session_run cfg s' (cs @ ds)"

definition call_inv :: "session \<Rightarrow> call list \<Rightarrow> bool" where
  "call_inv s cs \<longleftrightarrow> distinct (ran cs) \<and> distinct (canceled cs) \<and> distinct (recorded cs)
     \<and> set (canceled cs) \<subseteq> set (ran cs) \<and> set (recorded cs) \<subseteq> set (ran cs)
     \<and> (\<forall>q. activeQueryId s = Some q \<longrightarrow> q \<in> set (ran cs) \<and> (q \<in> set (canceled cs) \<longrightarrow> cancelRequestedRef s)
          \<and> (q \<in> set (recorded cs) \<longrightarrow> historyRecordedQueryId s = Some q))"

lemma call_inv_event:
  "call_inv s cs \<Longrightarrow> event_step cfg sql event s = (s', ds) \<Longrightarrow> call_inv s' (cs @ ds)"
  by (cases event; cases "activeQueryId s")
    (auto simp: call_inv_def event_step_def buffer_rows_def dispatch_def terminal_def Let_def split: if_splits)

lemma call_inv_run:
  "call_inv s cs \<Longrightarrow> q \<notin> set (ran cs) \<Longrightarrow> run_step cfg q sql s = (s', ds) \<Longrightarrow> call_inv s' (cs @ ds)"
  by (auto simp: call_inv_def run_step_def dispatch_def cancelScheduledFlush_def split: if_splits)

lemma call_inv_cancel:
  assumes "call_inv s cs" "cancel_step s = (s', ds)"
  shows "call_inv s' (cs @ ds)"
proof (cases "activeQueryId s = None \<or> cancelRequestedRef s")
  case True
  with assms show ?thesis by (cases "activeQueryId s") (auto simp: cancel_step_def)
next
  case False
  then obtain q where q: "activeQueryId s = Some q" "\<not> cancelRequestedRef s" by auto
  with assms(2) have s': "activeQueryId s' = Some q" "cancelRequestedRef s'"
    "historyRecordedQueryId s' = historyRecordedQueryId s" "ds = [CancelQuery q]"
    by (auto simp: cancel_step_def dispatch_def)
  from assms(1) q have "q \<in> set (ran cs)" "q \<notin> set (canceled cs)" by (auto simp: call_inv_def)
  with assms(1) q(1) s' show ?thesis by (simp add: call_inv_def)
qed

lemma call_inv_rejected: "call_inv s cs \<Longrightarrow> call_inv (rejected_step q e s) cs"
  by (auto simp: call_inv_def rejected_step_def dispatch_def)

lemma call_inv_step:
  assumes "call_inv s cs" "\<forall>q sql. l = LRun q sql \<longrightarrow> q \<notin> set (ran cs)" "session_step cfg l s = (s', ds)"
  shows "call_inv s' (cs @ ds)"
proof (cases l)
  case LFrame
  then have "ds = []" "activeQueryId s' = activeQueryId s" "cancelRequestedRef s' = cancelRequestedRef s"
    "historyRecordedQueryId s' = historyRecordedQueryId s"
    using assms(3) by (auto split: if_splits)
  with assms(1) show ?thesis by (simp add: call_inv_def)
next
  case LUnmount
  then have "ds = []" "activeQueryId s' = activeQueryId s" "cancelRequestedRef s' = cancelRequestedRef s"
    "historyRecordedQueryId s' = historyRecordedQueryId s"
    using assms(3) by (auto simp: cancelScheduledFlush_def)
  with assms(1) show ?thesis by (simp add: call_inv_def)
next
  case (LRejected q e)
  with assms call_inv_rejected show ?thesis by auto
next
  case (LRun q sql)
  with assms call_inv_run show ?thesis by auto
next
  case (LEvent sql event)
  with assms call_inv_event show ?thesis by auto
next
  case LCancel
  with assms call_inv_cancel show ?thesis by auto
qed

lemma session_run_inv: "session_run cfg s cs \<Longrightarrow> call_inv s cs"
proof (induction rule: session_run.induct)
  case start
  then show ?case by (simp add: call_inv_def init_session_def)
next
  case (step s cs l s' ds)
  then show ?case by (blast intro: call_inv_step)
qed

text \<open>C30: However commands, events, frames and rejections interleave, the backend is asked to cancel a
  query at most once and a query enters the history at most once, and only queries that were run.\<close>

theorem calls_once:
  assumes "session_run cfg s cs"
  shows "distinct (canceled cs) \<and> distinct (recorded cs) \<and> set (canceled cs @ recorded cs) \<subseteq> set (ran cs)"
  using session_run_inv [OF assms] by (simp add: call_inv_def)

theorem calls_once_witness:
  "\<exists>s cs. session_run \<lparr> cfg_connection = [99], cfg_database = None, recordHistoryEnabled = True \<rparr> s cs
     \<and> canceled cs = [[113]] \<and> distinct (canceled cs)"
proof -
  let ?cfg = "\<lparr> cfg_connection = [99], cfg_database = None, recordHistoryEnabled = True \<rparr>"
  obtain s1 ds1 where 1: "session_step ?cfg (LRun [113] [49]) init_session = (s1, ds1)" by force
  have r1: "session_run ?cfg s1 ([] @ ds1)"
    by (rule session_run.step [OF session_run.start _ 1]) simp
  obtain s2 ds2 where 2: "session_step ?cfg LCancel s1 = (s2, ds2)" by force
  have r2: "session_run ?cfg s2 (([] @ ds1) @ ds2)"
    by (rule session_run.step [OF r1 _ 2]) simp
  have "canceled (([] @ ds1) @ ds2) = [[113]]"
    using 1 2 by (auto simp: run_step_def cancel_step_def init_session_def dispatch_def cancelScheduledFlush_def
        trim_def trim_start_def trim_end_def is_ws_def)
  with calls_once [OF r2] r2 show ?thesis by blast
qed

section \<open>One-shot execution\<close>

text \<open>The promise of \<open>executeQueryOnce\<close>: the state of its closure, and the outcome once settled.\<close>

datatype outcome = Resolved "QueryColumn list" "CellValue list list" nat | Rejected AppError

record once =
  once_id :: js
  once_columns :: "QueryColumn list"
  once_rows :: "CellValue list list"
  settled :: "outcome option"

definition ONCE_ERROR :: js where "ONCE_ERROR = ([26080, 27861, 25191, 34892] @ u '' Redis '' @ [25805, 20316, 65292, 35831, 37325, 35797, 12290])"

definition CANCELED_ERROR :: AppError where
  "CANCELED_ERROR = \<lparr> ae_code = E_canceled, message = (u ''Redis '' @ [25805, 20316, 24050, 21462, 28040, 12290]), technicalDetails = None,
     retryable = True \<rparr>"

definition executeQueryOnce :: "js \<Rightarrow> js \<Rightarrow> js \<Rightarrow> js option \<Rightarrow> once \<times> call list" where
  "executeQueryOnce q c sql db =
     (\<lparr> once_id = q, once_columns = [], once_rows = [], settled = None \<rparr>, [RunQuery q c sql db])"

definition settle :: "outcome \<Rightarrow> once \<Rightarrow> once" where
  "settle r p = (if settled p \<noteq> None then p else p \<lparr> settled := Some r \<rparr>)"

definition once_event :: "once \<Rightarrow> QueryEvent \<Rightarrow> once" where
  "once_event p event =
     (if ev_query event \<noteq> once_id p \<or> settled p \<noteq> None then p
      else case event of
        Schema q cs \<Rightarrow> p \<lparr> once_columns := cs \<rparr>
      | Batch q rs \<Rightarrow> p \<lparr> once_rows := once_rows p @ rs \<rparr>
      | Completed q n \<Rightarrow> settle (Resolved (once_columns p) (once_rows p) n) p
      | Canceled q \<Rightarrow> settle (Rejected CANCELED_ERROR) p
      | Failed q e \<Rightarrow> settle (Rejected e) p
      | Started q \<Rightarrow> p)"

definition once_rejected :: "once \<Rightarrow> rejection \<Rightarrow> once" where
  "once_rejected p e = settle (Rejected (toAppError ONCE_ERROR e)) p"

text \<open>Specification: the columns and rows delivered before the first terminal event.\<close>

fun batch_rows :: "QueryEvent \<Rightarrow> CellValue list list" where
  "batch_rows (Batch q rs) = rs"
| "batch_rows _ = []"

fun last_schema :: "QueryColumn list \<Rightarrow> QueryEvent list \<Rightarrow> QueryColumn list" where
  "last_schema cs [] = cs"
| "last_schema cs (Schema q ds # es) = last_schema ds es"
| "last_schema cs (_ # es) = last_schema cs es"

fun outcome_of :: "QueryColumn list \<Rightarrow> CellValue list list \<Rightarrow> QueryEvent \<Rightarrow> outcome" where
  "outcome_of cs rs (Completed q n) = Resolved cs rs n"
| "outcome_of cs rs (Failed q e) = Rejected e"
| "outcome_of cs rs _ = Rejected CANCELED_ERROR"

lemma once_settled: "settled p \<noteq> None \<Longrightarrow> foldl once_event p es = p"
  by (induction es) (auto simp: once_event_def)

lemma once_prefix:
  "settled p = None \<Longrightarrow> \<forall>e \<in> set es. ev_query e = once_id p \<and> \<not> terminal e \<Longrightarrow>
    foldl once_event p es = p \<lparr> once_columns := last_schema (once_columns p) es,
      once_rows := once_rows p @ concat (map batch_rows es) \<rparr>"
proof (induction es arbitrary: p)
  case (Cons e es)
  then show ?case by (cases e) (auto simp: once_event_def terminal_def)
qed simp

text \<open>C31: A one-shot query settles with the first terminal event of its own channel, resolving with the
  last schema and all rows before it in order, and nothing that arrives later, event or rejection,
  changes the outcome.\<close>

theorem once_settles:
  assumes "list_all (\<lambda>e. ev_query e = q \<and> \<not> terminal e) before" and "ev_query t = q" and "terminal t"
  shows "settled (once_rejected (foldl once_event (fst (executeQueryOnce q c sql db)) (before @ t # after)) e)
     = Some (outcome_of (last_schema [] before) (concat (map batch_rows before)) t)"
proof -
  let ?p = "foldl once_event (fst (executeQueryOnce q c sql db)) before"
  have p: "?p = (fst (executeQueryOnce q c sql db)) \<lparr> once_columns := last_schema [] before,
      once_rows := concat (map batch_rows before) \<rparr>"
    using assms(1) by (subst once_prefix) (auto simp: executeQueryOnce_def list_all_iff)
  have s: "settled (once_event ?p t) = Some (outcome_of (last_schema [] before) (concat (map batch_rows before)) t)"
    unfolding p using assms(2,3)
    by (cases t) (auto simp: executeQueryOnce_def once_event_def settle_def terminal_def)
  then have "foldl once_event (once_event ?p t) after = once_event ?p t" by (intro once_settled) simp
  with s show ?thesis by (simp add: once_rejected_def settle_def)
qed

theorem once_settles_witness:
  "settled (once_rejected (foldl once_event (fst (executeQueryOnce [113] [99] [49] None))
     ([Batch [113] [[CNull]]] @ Completed [113] 0 # [Failed [113] CANCELED_ERROR])) RejOther)
   = Some (Resolved [] [[CNull]] 0)"
  by (subst once_settles) (simp_all add: terminal_def)

end
