(* ===== verification/Workspace_Persistence.thy ===== *)
theory Workspace_Persistence
  imports Js_Sort
begin

text \<open>
  Workspace persistence (\<open>features/query/useWorkspacePersistence.ts\<close>): the tabs of a window, their
  editing operations, and the machine that saves revisioned snapshots: a debounce timer, a queue of
  one, a single drain loop, the initial restore, and the discard of a detached window. A step is what
  happens to the hook between two awaits of the code, with the continuations of one settled promise
  (the loop of the drain and its \<open>finally\<close>) taken together. The collation of \<open>localeCompare\<close> is a
  parameter.
\<close>

section \<open>Tabs\<close>

record WorkspaceTab =
  tab_id :: js
  tab_connection :: js
  tab_title :: js
  sqlText :: js
  position :: int

text \<open>\<open>left.position - right.position || left.id.localeCompare(right.id)\<close>\<close>

definition tab_compare :: "(js \<Rightarrow> js \<Rightarrow> int) \<Rightarrow> WorkspaceTab \<Rightarrow> WorkspaceTab \<Rightarrow> int" where
  "tab_compare lc left right =
     (if position left \<noteq> position right then position left - position right
      else lc (tab_id left) (tab_id right))"

definition sanitizeWorkspaceTabs :: "(js \<Rightarrow> js \<Rightarrow> int) \<Rightarrow> WorkspaceTab list \<Rightarrow> WorkspaceTab list" where
  "sanitizeWorkspaceTabs lc tabs = js_sort (tab_compare lc) tabs"

definition renumber :: "WorkspaceTab list \<Rightarrow> WorkspaceTab list" where
  "renumber tabs = map (\<lambda>(i, tab). tab \<lparr> position := int i \<rparr>) (zip [0..<length tabs] tabs)"

section \<open>The state of the hook\<close>

datatype discard_state = NoDiscard | AwaitingDrain | SavingEmpty

text \<open>
  The React state (with the prefix \<open>ui\<close>), the refs, and what is under way: the save that the drain loop
  awaits, the load, the discard. \<open>stored\<close> is the snapshot the backend holds for the window.
\<close>

record workspace =
  ui_tabs :: "WorkspaceTab list"
  activeTabId :: "js option"
  loading :: bool
  loadError :: "js option"
  saveError :: "js option"
  recoveryBlocked :: bool
  tabsRef :: "WorkspaceTab list"
  latestRevision :: nat
  persistedRevision :: nat
  queuedSave :: "(nat \<times> WorkspaceTab list) option"
  inFlight :: "(nat \<times> WorkspaceTab list) option"
  drainActive :: bool
  discard :: discard_state
  discarding :: bool
  timer :: bool
  loadPending :: bool
  recoveryBlockedRef :: bool
  mounted :: bool
  stored :: "WorkspaceTab list option"

datatype backend_call = SaveWorkspace "WorkspaceTab list" | LoadWorkspace

definition SAVE_ERROR :: js where
  "SAVE_ERROR = ([26080, 27861, 20445, 23384, 24037, 20316, 21306, 12290, 32534, 36753, 20869, 23481, 20173, 20445, 30041, 22312, 26412, 26426, 20869, 23384, 20013, 65292, 35831, 37325, 35797, 12290])"

definition LOAD_ERROR :: js where
  "LOAD_ERROR = ([26080, 27861, 24674, 22797, 19978, 27425, 24037, 20316, 21306, 12290, 20026, 36991, 20813, 35206, 30422, 21407, 25968, 25454, 65292, 35831, 37325, 26032, 24674, 22797, 21518, 20877, 32534, 36753, 12290])"

text \<open>The hook mounts with its first load already requested.\<close>

definition init_workspace :: "WorkspaceTab list option \<Rightarrow> workspace" where
  "init_workspace st = \<lparr> ui_tabs = [], activeTabId = None, loading = True, loadError = None, saveError = None,
     recoveryBlocked = False, tabsRef = [], latestRevision = 0, persistedRevision = 0, queuedSave = None,
     inFlight = None, drainActive = False, discard = NoDiscard, discarding = False, timer = False,
     loadPending = True, recoveryBlockedRef = False, mounted = True, stored = st \<rparr>"

section \<open>Saving\<close>

text \<open>One turn of the drain loop up to its await, or its end.\<close>

definition drain_next :: "workspace \<Rightarrow> workspace \<times> backend_call list" where
  "drain_next s =
     (case queuedSave s of
        Some (r, snap) \<Rightarrow> (s \<lparr> queuedSave := None, inFlight := Some (r, snap), drainActive := True \<rparr>, [SaveWorkspace snap])
      | None \<Rightarrow>
          if discard s = AwaitingDrain
          then (s \<lparr> drainActive := False, discard := SavingEmpty \<rparr>, [SaveWorkspace []])
          else (s \<lparr> drainActive := False \<rparr>, []))"

definition beginSaveDrain :: "workspace \<Rightarrow> workspace \<times> backend_call list" where
  "beginSaveDrain s = (if drainActive s then (s, []) else drain_next s)"

definition flushWorkspace :: "(js \<Rightarrow> js \<Rightarrow> int) \<Rightarrow> workspace \<Rightarrow> workspace \<times> backend_call list" where
  "flushWorkspace lc s =
     (if discarding s then (s, [])
      else
        (let s1 = s \<lparr> timer := False \<rparr>;
             revision = latestRevision s1
         in if recoveryBlockedRef s1 then (s1, [])
            else if revision \<le> persistedRevision s1 \<or> map_option fst (inFlight s1) = Some revision then (s1, [])
            else beginSaveDrain (s1 \<lparr> queuedSave := Some (revision, sanitizeWorkspaceTabs lc (tabsRef s1)) \<rparr>)))"

text \<open>The awaited save settles: bookkeeping, then the loop goes on.\<close>

definition save_settled :: "bool \<Rightarrow> workspace \<Rightarrow> workspace \<times> backend_call list" where
  "save_settled ok s =
     (case inFlight s of
        None \<Rightarrow> (s, [])
      | Some (r, snap) \<Rightarrow>
          (let s1 = (if ok then s \<lparr> persistedRevision := max (persistedRevision s) r, stored := Some snap \<rparr> else s);
               s2 = (if r = latestRevision s1 \<and> mounted s1
                     then s1 \<lparr> saveError := (if ok then None else Some SAVE_ERROR) \<rparr> else s1)
           in drain_next (s2 \<lparr> inFlight := None \<rparr>)))"

section \<open>Restoring and discarding\<close>

definition restoreWorkspace :: "workspace \<Rightarrow> workspace \<times> backend_call list" where
  "restoreWorkspace s =
     (if loadPending s then (s, [])
      else (s \<lparr> loading := (if mounted s then True else loading s), loadPending := True \<rparr>, [LoadWorkspace]))"

definition load_settled ::
  "(js \<Rightarrow> js \<Rightarrow> int) \<Rightarrow> WorkspaceTab list option \<Rightarrow> workspace \<Rightarrow> workspace \<times> backend_call list" where
  "load_settled lc loaded s =
     (if \<not> loadPending s then (s, [])
      else
        (let s1 = (case loaded of
               Some restoredTabs \<Rightarrow>
                 (let safeTabs = sanitizeWorkspaceTabs lc restoredTabs;
                      s0 = s \<lparr> tabsRef := safeTabs, latestRevision := 0, persistedRevision := 0,
                               queuedSave := None, recoveryBlockedRef := False \<rparr>
                  in if mounted s0
                     then s0 \<lparr> ui_tabs := safeTabs, activeTabId := map_option tab_id (at safeTabs 0),
                               loadError := None, saveError := None, recoveryBlocked := False \<rparr>
                     else s0)
             | None \<Rightarrow>
                 (let s0 = s \<lparr> timer := False, queuedSave := None, recoveryBlockedRef := True \<rparr>
                  in if mounted s0 then s0 \<lparr> loadError := Some LOAD_ERROR, recoveryBlocked := True \<rparr> else s0))
         in (s1 \<lparr> loadPending := False, loading := (if mounted s1 then False else loading s1) \<rparr>, [])))"

definition discardWorkspace :: "workspace \<Rightarrow> workspace \<times> backend_call list" where
  "discardWorkspace s =
     (if discard s \<noteq> NoDiscard then (s, [])
      else
        (let s1 = s \<lparr> discarding := True, timer := False, queuedSave := None \<rparr> in
         if drainActive s1 then (s1 \<lparr> discard := AwaitingDrain \<rparr>, [])
         else (s1 \<lparr> discard := SavingEmpty \<rparr>, [SaveWorkspace []])))"

definition discard_settled :: "(js \<Rightarrow> js \<Rightarrow> int) \<Rightarrow> bool \<Rightarrow> workspace \<Rightarrow> workspace \<times> backend_call list" where
  "discard_settled lc ok s =
     (if discard s \<noteq> SavingEmpty then (s, [])
      else if ok then (s \<lparr> discard := NoDiscard, stored := Some [] \<rparr>, [])
      else
        (let s1 = s \<lparr> discarding := False, saveError := (if mounted s then Some SAVE_ERROR else saveError s) \<rparr>;
             (s2, calls) = flushWorkspace lc s1
         in (s2 \<lparr> discard := NoDiscard \<rparr>, calls)))"

section \<open>Editing\<close>

definition updateTabs :: "(js \<Rightarrow> js \<Rightarrow> int) \<Rightarrow> WorkspaceTab list \<Rightarrow> workspace \<Rightarrow> workspace" where
  "updateTabs lc nextTabs s =
     (if recoveryBlockedRef s \<or> discarding s then s
      else
        (let safeTabs = renumber (sanitizeWorkspaceTabs lc nextTabs) in
         s \<lparr> tabsRef := safeTabs, latestRevision := latestRevision s + 1, ui_tabs := safeTabs, timer := True \<rparr>))"

definition addTab ::
  "(js \<Rightarrow> js \<Rightarrow> int) \<Rightarrow> js \<Rightarrow> js \<Rightarrow> js \<Rightarrow> js \<Rightarrow> workspace \<Rightarrow> workspace \<times> WorkspaceTab option" where
  "addTab lc newId connection title initialText s =
     (if recoveryBlockedRef s then (s, None)
      else
        (let tab = \<lparr> tab_id = newId, tab_connection = connection, tab_title = title, sqlText = initialText,
                     position = int (length (tabsRef s)) \<rparr>
         in ((updateTabs lc (tabsRef s @ [tab]) s) \<lparr> activeTabId := Some newId \<rparr>, Some tab)))"

text \<open>\<open>nextTabs[i]?.id ?? nextTabs[i - 1]?.id ?? null\<close>\<close>

definition neighbour :: "WorkspaceTab list \<Rightarrow> nat \<Rightarrow> js option" where
  "neighbour tabs i =
     (case at tabs i of
        Some tab \<Rightarrow> Some (tab_id tab)
      | None \<Rightarrow> if i = 0 then None else map_option tab_id (at tabs (i - 1)))"

definition closeTab :: "(js \<Rightarrow> js \<Rightarrow> int) \<Rightarrow> js \<Rightarrow> workspace \<Rightarrow> workspace" where
  "closeTab lc tabId s =
     (if recoveryBlockedRef s then s
      else case find_index (\<lambda>tab. tab_id tab = tabId) (tabsRef s) of
        None \<Rightarrow> s
      | Some closingIndex \<Rightarrow>
          (let nextTabs = filter (\<lambda>tab. tab_id tab \<noteq> tabId) (tabsRef s);
               s1 = updateTabs lc nextTabs s
           in if activeTabId s1 = Some tabId then s1 \<lparr> activeTabId := neighbour nextTabs closingIndex \<rparr> else s1))"

definition closeTabsForConnection :: "(js \<Rightarrow> js \<Rightarrow> int) \<Rightarrow> js \<Rightarrow> workspace \<Rightarrow> workspace" where
  "closeTabsForConnection lc connection s =
     (if recoveryBlockedRef s then s
      else
        (let currentTabs = tabsRef s;
             nextTabs = filter (\<lambda>tab. tab_connection tab \<noteq> connection) currentTabs
         in if length nextTabs = length currentTabs then s
            else
              (let s1 = updateTabs lc nextTabs s in
               case find_index (\<lambda>tab. Some (tab_id tab) = activeTabId s1) currentTabs of
                 None \<Rightarrow> s1
               | Some i \<Rightarrow>
                   if tab_connection (currentTabs ! i) \<noteq> connection then s1
                   else s1 \<lparr> activeTabId :=
                     (if nextTabs = [] then None else map_option tab_id (at nextTabs (min i (length nextTabs - 1)))) \<rparr>)))"

definition title_prefix :: "js \<Rightarrow> js" where
  "title_prefix name = name @ (u '' '' @ [183] @ u '' '')"

definition rename_tab :: "js \<Rightarrow> js \<Rightarrow> js \<Rightarrow> WorkspaceTab \<Rightarrow> WorkspaceTab" where
  "rename_tab connection previousName nextName tab =
     (if tab_connection tab = connection \<and> starts_with (tab_title tab) (title_prefix previousName)
      then tab \<lparr> tab_title := title_prefix nextName @ drop (length (title_prefix previousName)) (tab_title tab) \<rparr>
      else tab)"

text \<open>The code compares tabs by reference: a renamed tab is a new object.\<close>

definition renameConnectionTabTitles ::
  "(js \<Rightarrow> js \<Rightarrow> int) \<Rightarrow> js \<Rightarrow> js \<Rightarrow> js \<Rightarrow> workspace \<Rightarrow> workspace" where
  "renameConnectionTabTitles lc connection previousName nextName s =
     (if recoveryBlockedRef s \<or> previousName = nextName then s
      else if \<exists>tab \<in> set (tabsRef s). tab_connection tab = connection
                \<and> starts_with (tab_title tab) (title_prefix previousName)
      then updateTabs lc (map (rename_tab connection previousName nextName) (tabsRef s)) s
      else s)"

definition move :: "nat \<Rightarrow> nat \<Rightarrow> 'a list \<Rightarrow> 'a list" where
  "move from to xs =
     (let rest = take from xs @ drop (Suc from) xs
      in if from < length xs then take to rest @ [xs ! from] @ drop to rest else xs)"

definition reorderTab :: "(js \<Rightarrow> js \<Rightarrow> int) \<Rightarrow> js \<Rightarrow> int \<Rightarrow> workspace \<Rightarrow> workspace" where
  "reorderTab lc tabId targetIndex s =
     (if recoveryBlockedRef s then s
      else case find_index (\<lambda>tab. tab_id tab = tabId) (tabsRef s) of
        None \<Rightarrow> s
      | Some fromIndex \<Rightarrow>
          (let toIndex = nat (min (max targetIndex 0) (int (length (tabsRef s)) - 1)) in
           if fromIndex = toIndex then s else updateTabs lc (move fromIndex toIndex (tabsRef s)) s))"

definition selectTab :: "js \<Rightarrow> workspace \<Rightarrow> workspace" where
  "selectTab tabId s = (if \<exists>tab \<in> set (tabsRef s). tab_id tab = tabId then s \<lparr> activeTabId := Some tabId \<rparr> else s)"

definition updateTabSql :: "(js \<Rightarrow> js \<Rightarrow> int) \<Rightarrow> js \<Rightarrow> js \<Rightarrow> workspace \<Rightarrow> workspace" where
  "updateTabSql lc tabId text s =
     (if recoveryBlockedRef s then s
      else updateTabs lc (map (\<lambda>tab. if tab_id tab = tabId then tab \<lparr> sqlText := text \<rparr> else tab) (tabsRef s)) s)"

definition activeTab :: "workspace \<Rightarrow> WorkspaceTab option" where
  "activeTab s = List.find (\<lambda>tab. Some (tab_id tab) = activeTabId s) (ui_tabs s)"

section \<open>Steps\<close>

datatype ws_label =
  AddTab js js js js | CloseTab js | CloseTabsForConnection js | RenameTitles js js js
| ReorderTab js int | SelectTab js | UpdateTabSql js js
| TimerFires | Flush | SaveSettled bool | Restore | LoadSettled "WorkspaceTab list option"
| Discard | DiscardSettled bool | Unmount

fun ws_step :: "(js \<Rightarrow> js \<Rightarrow> int) \<Rightarrow> ws_label \<Rightarrow> workspace \<Rightarrow> workspace \<times> backend_call list" where
  "ws_step lc (AddTab i c t x) s = (fst (addTab lc i c t x s), [])"
| "ws_step lc (CloseTab i) s = (closeTab lc i s, [])"
| "ws_step lc (CloseTabsForConnection c) s = (closeTabsForConnection lc c s, [])"
| "ws_step lc (RenameTitles c p n) s = (renameConnectionTabTitles lc c p n s, [])"
| "ws_step lc (ReorderTab i k) s = (reorderTab lc i k s, [])"
| "ws_step lc (SelectTab i) s = (selectTab i s, [])"
| "ws_step lc (UpdateTabSql i x) s = (updateTabSql lc i x s, [])"
| "ws_step lc TimerFires s = (if timer s then flushWorkspace lc (s \<lparr> timer := False \<rparr>) else (s, []))"
| "ws_step lc Flush s = flushWorkspace lc s"
| "ws_step lc (SaveSettled ok) s = save_settled ok s"
| "ws_step lc Restore s = restoreWorkspace s"
| "ws_step lc (LoadSettled loaded) s = load_settled lc loaded s"
| "ws_step lc Discard s = discardWorkspace s"
| "ws_step lc (DiscardSettled ok) s = discard_settled lc ok s"
| "ws_step lc Unmount s = flushWorkspace lc (s \<lparr> mounted := False \<rparr>)"

section \<open>The order of the tabs\<close>

interpretation by_position: comparator_on "tab_compare (\<lambda>_ _. 0)" UNIV
  by unfold_locales (auto simp: tab_compare_def split: if_splits)

lemma insert_by_cong: "(\<And>y. y \<in> set ys \<Longrightarrow> cmp x y = cmp' x y) \<Longrightarrow> insert_by cmp x ys = insert_by cmp' x ys"
  by (induction ys) auto

lemma sanitize_positions:
  "distinct (map position tabs) \<Longrightarrow> sanitizeWorkspaceTabs lc tabs = js_sort (tab_compare (\<lambda>_ _. 0)) tabs"
proof (induction tabs)
  case (Cons x tabs)
  then have "insert_by (tab_compare lc) x (js_sort (tab_compare (\<lambda>_ _. 0)) tabs)
      = insert_by (tab_compare (\<lambda>_ _. 0)) x (js_sort (tab_compare (\<lambda>_ _. 0)) tabs)"
    by (intro insert_by_cong) (auto simp: tab_compare_def)
  with Cons show ?case by (simp add: sanitizeWorkspaceTabs_def js_sort_def)
qed (simp add: sanitizeWorkspaceTabs_def js_sort_def)

text \<open>Sorting by position undoes any rearrangement of tabs in position order.\<close>

lemma sanitize_unique:
  assumes "sorted_wrt (<) (map position tabs)" "mset tabs' = mset tabs"
  shows "sanitizeWorkspaceTabs lc tabs' = tabs"
proof -
  have d: "distinct (map position tabs)" "sorted (map position tabs)"
    using assms(1) by (auto simp: strict_sorted_iff)
  have d': "distinct (map position tabs')"
    using d(1) assms(2) by (metis mset_eq_imp_distinct_iff mset_map)
  let ?r = "js_sort (tab_compare (\<lambda>_ _. 0)) tabs'"
  have "sorted_wrt (\<lambda>x y. tab_compare (\<lambda>_ _. 0) x y \<le> 0) ?r" by (rule by_position.sorted_js_sort) simp
  then have "sorted (map position ?r)"
    unfolding sorted_map by (rule sorted_wrt_mono_rel [rotated]) (auto simp: tab_compare_def split: if_splits)
  moreover have "distinct (map position ?r)" using d' by (rule distinct_map_js_sort)
  moreover have "set ?r = set tabs" using assms(2) by (metis set_js_sort set_mset_mset)
  moreover have "inj_on position (set ?r \<union> set tabs)"
    using d(1) \<open>set ?r = set tabs\<close> by (simp add: distinct_map)
  ultimately have "?r = tabs" using d by (intro map_sorted_distinct_set_unique [of position]) auto
  then show ?thesis using sanitize_positions [OF d'] by simp
qed

definition numbered :: "WorkspaceTab list \<Rightarrow> bool" where
  "numbered tabs \<longleftrightarrow> map position tabs = map int [0..<length tabs]"

lemma numbered_sorted: "numbered tabs \<Longrightarrow> sorted_wrt (<) (map position tabs)"
  by (simp add: numbered_def sorted_wrt_map sorted_wrt_upt)

lemma length_renumber [simp]: "length (renumber tabs) = length tabs"
  by (simp add: renumber_def)

lemma renumber_nth: "i < length tabs \<Longrightarrow> renumber tabs ! i = (tabs ! i) \<lparr> position := int i \<rparr>"
  by (simp add: renumber_def)

lemma numbered_renumber [simp]: "numbered (renumber tabs)"
  unfolding numbered_def by (intro nth_equalityI) (simp_all add: renumber_nth)

lemma renumber_numbered: "numbered tabs \<Longrightarrow> renumber tabs = tabs"
proof -
  assume n: "numbered tabs"
  have "position (tabs ! i) = int i" if "i < length tabs" for i
    using n that unfolding numbered_def by (metis length_map length_upt minus_nat.diff_0 nth_map nth_upt plus_nat.add_0)
  then show ?thesis by (intro nth_equalityI) (simp_all add: renumber_nth)
qed

lemma map_renumber: "(\<And>t p. f (t \<lparr> position := p \<rparr>) = f t) \<Longrightarrow> map f (renumber tabs) = map f tabs"
  by (intro nth_equalityI) (simp_all add: renumber_nth)

lemma sanitize_sorted: "sorted_wrt (<) (map position tabs) \<Longrightarrow> sanitizeWorkspaceTabs lc tabs = tabs"
  by (rule sanitize_unique) simp_all

lemma mset_move: "from < length xs \<Longrightarrow> mset (move from to xs) = mset xs"
proof -
  assume f: "from < length xs"
  let ?rest = "take from xs @ drop (Suc from) xs"
  have "mset (take to ?rest @ [xs ! from] @ drop to ?rest) = add_mset (xs ! from) (mset ?rest)"
    by (metis append_take_drop_id mset_append add_mset_add_single mset.simps(2) mset_single_iff_right union_assoc union_commute append.simps mset.simps(1) add_mset_commute union_mset_add_mset_right union_mset_add_mset_left empty_neutral(1))
  also have "\<dots> = mset xs"
    using f by (metis id_take_nth_drop mset_append mset.simps(2) union_mset_add_mset_right)
  finally show ?thesis using f by (simp add: move_def Let_def)
qed

text \<open>C35: Dragging a tab does not move it: the tabs are sorted by their old positions before they
  are renumbered, so a reorder leaves the tabs exactly as they were, although it schedules a save.\<close>

theorem reorder_has_no_effect:
  assumes "numbered (tabsRef s)"
  shows "tabsRef (reorderTab lc tabId targetIndex s) = tabsRef s"
proof (cases "find_index (\<lambda>tab. tab_id tab = tabId) (tabsRef s)")
  case (Some i)
  then have "i < length (tabsRef s)" by (rule find_index_Some [THEN conjunct1])
  then have "sanitizeWorkspaceTabs lc (move i k (tabsRef s)) = tabsRef s" for k
    using assms by (intro sanitize_unique numbered_sorted mset_move)
  then show ?thesis using Some assms by (simp add: reorderTab_def updateTabs_def Let_def renumber_numbered)
qed (simp add: reorderTab_def)

definition sample_tab :: "nat \<Rightarrow> WorkspaceTab" where
  "sample_tab i = \<lparr> tab_id = [i], tab_connection = [99], tab_title = [], sqlText = [], position = int i \<rparr>"

theorem reorder_has_no_effect_witness:
  "tabsRef (reorderTab (\<lambda>_ _. 0) [1] 0 ((init_workspace None) \<lparr> tabsRef := [sample_tab 0, sample_tab 1] \<rparr>))
    = [sample_tab 0, sample_tab 1]"
  by (subst reorder_has_no_effect) (simp_all add: numbered_def sample_tab_def)

text \<open>The other edits do what they say: a new tab comes last, closing a tab or a connection's
  tabs removes exactly those, editing a text changes that tab only, and the order of the rest stays.\<close>

theorem tabs_follow_edits:
  assumes "numbered (tabsRef s)" and "\<not> recoveryBlockedRef s" and "\<not> discarding s"
  shows "map tab_id (tabsRef (fst (addTab lc i c t x s))) = map tab_id (tabsRef s) @ [i]
     \<and> map tab_id (tabsRef (closeTab lc i s)) = filter (\<lambda>j. j \<noteq> i) (map tab_id (tabsRef s))
     \<and> map tab_id (tabsRef (closeTabsForConnection lc c s))
        = map tab_id (filter (\<lambda>tab. tab_connection tab \<noteq> c) (tabsRef s))
     \<and> map (\<lambda>tab. (tab_id tab, sqlText tab)) (tabsRef (updateTabSql lc i x s))
        = map (\<lambda>tab. (tab_id tab, if tab_id tab = i then x else sqlText tab)) (tabsRef s)"
proof -
  note n = numbered_sorted [OF assms(1)]
  have pos: "map position (map f tabs) = map position tabs" if "\<And>t. position (f t) = position t" for f tabs
    using that by simp
  have filt: "sorted_wrt (<) (map position (filter P (tabsRef s)))" for P
    using n by (simp add: sorted_wrt_map sorted_wrt_filter)
  have snoc: "sorted_wrt (<) (map position (tabsRef s @ [tab]))" if "position tab = int (length (tabsRef s))" for tab
    using n that assms(1) by (auto simp: sorted_wrt_append numbered_def)
  have upd: "map f (tabsRef (updateTabs lc tabs s)) = map f tabs"
    if "sorted_wrt (<) (map position tabs)" "\<And>t p. f (t \<lparr> position := p \<rparr>) = f t" for f :: "WorkspaceTab \<Rightarrow> 'b" and tabs
    using assms(2,3) sanitize_sorted [OF that(1)] map_renumber [of f, OF that(2)] by (simp add: updateTabs_def Let_def)
  have 1: "map tab_id (tabsRef (fst (addTab lc i c t x s))) = map tab_id (tabsRef s) @ [i]"
    using assms(2) by (simp add: addTab_def Let_def upd [OF snoc])
  have 2: "map tab_id (tabsRef (closeTab lc i s)) = filter (\<lambda>j. j \<noteq> i) (map tab_id (tabsRef s))"
  proof (cases "find_index (\<lambda>tab. tab_id tab = i) (tabsRef s)")
    case None
    then have "filter (\<lambda>j. j \<noteq> i) (map tab_id (tabsRef s)) = map tab_id (tabsRef s)"
      by (intro filter_True) (auto simp: find_index_None)
    with None show ?thesis by (simp add: closeTab_def)
  next
    case (Some k)
    then show ?thesis using assms(2) upd [OF filt, of tab_id "\<lambda>tab. tab_id tab \<noteq> i"]
      by (simp add: closeTab_def Let_def filter_map comp_def)
  qed
  have 3: "map tab_id (tabsRef (closeTabsForConnection lc c s))
      = map tab_id (filter (\<lambda>tab. tab_connection tab \<noteq> c) (tabsRef s))"
  proof (cases "length (filter (\<lambda>tab. tab_connection tab \<noteq> c) (tabsRef s)) = length (tabsRef s)")
    case True
    then have "filter (\<lambda>tab. tab_connection tab \<noteq> c) (tabsRef s) = tabsRef s"
      by (metis filter_True length_filter_less nless_le)
    with True show ?thesis using assms(2) by (simp add: closeTabsForConnection_def Let_def)
  next
    case False
    have "tabsRef (closeTabsForConnection lc c s)
        = tabsRef (updateTabs lc (filter (\<lambda>tab. tab_connection tab \<noteq> c) (tabsRef s)) s)"
      using False assms(2) by (simp add: closeTabsForConnection_def Let_def split: option.split)
    then show ?thesis using upd [OF filt, of tab_id] by simp
  qed
  have 4: "map (\<lambda>tab. (tab_id tab, sqlText tab)) (tabsRef (updateTabSql lc i x s))
      = map (\<lambda>tab. (tab_id tab, if tab_id tab = i then x else sqlText tab)) (tabsRef s)"
  proof -
    let ?tabs = "map (\<lambda>tab. if tab_id tab = i then tab \<lparr> sqlText := x \<rparr> else tab) (tabsRef s)"
    have "map position ?tabs = map position (tabsRef s)" by (intro pos) simp
    then have "sorted_wrt (<) (map position ?tabs)" using n by (simp only:)
    from upd [OF this, of "\<lambda>tab. (tab_id tab, sqlText tab)"] show ?thesis
      using assms(2) by (simp add: updateTabSql_def comp_def if_distrib cong: if_cong)
  qed
  from 1 2 3 4 show ?thesis by blast
qed

theorem tabs_follow_edits_witness:
  "map tab_id (tabsRef (closeTab (\<lambda>_ _. 0) [0] ((init_workspace None) \<lparr> tabsRef := [sample_tab 0, sample_tab 1] \<rparr>))) = [[1]]"
proof -
  let ?s = "(init_workspace None) \<lparr> tabsRef := [sample_tab 0, sample_tab 1] \<rparr>"
  have "numbered (tabsRef ?s)" "\<not> recoveryBlockedRef ?s" "\<not> discarding ?s"
    by (simp_all add: numbered_def sample_tab_def init_workspace_def)
  from tabs_follow_edits [OF this, of "\<lambda>_ _. 0" "[0]"] show ?thesis by (simp add: sample_tab_def)
qed

section \<open>Runs\<close>

text \<open>The workspaces reachable by labels that the environment \<open>ok\<close> allows.\<close>

inductive ws_run :: "(js \<Rightarrow> js \<Rightarrow> int) \<Rightarrow> (ws_label \<Rightarrow> workspace \<Rightarrow> bool) \<Rightarrow> workspace \<Rightarrow> bool" for lc ok where
  start: "ws_run lc ok (init_workspace st)"
| step: "ws_run lc ok s \<Longrightarrow> ok l s \<Longrightarrow> ws_run lc ok (fst (ws_step lc l s))"

text \<open>An edit changes the tabs, the selection and the timer, and nothing of the saving machinery.\<close>

definition same_saving :: "workspace \<Rightarrow> workspace \<Rightarrow> bool" where
  "same_saving s s' \<longleftrightarrow> queuedSave s' = queuedSave s \<and> inFlight s' = inFlight s \<and> drainActive s' = drainActive s
     \<and> discard s' = discard s \<and> discarding s' = discarding s \<and> recoveryBlockedRef s' = recoveryBlockedRef s
     \<and> mounted s' = mounted s \<and> stored s' = stored s \<and> persistedRevision s' = persistedRevision s
     \<and> saveError s' = saveError s \<and> loadPending s' = loadPending s"

definition edited :: "(js \<Rightarrow> js \<Rightarrow> int) \<Rightarrow> workspace \<Rightarrow> workspace \<Rightarrow> bool" where
  "edited lc s s' \<longleftrightarrow> same_saving s s' \<and>
     ((tabsRef s' = tabsRef s \<and> latestRevision s' = latestRevision s \<and> timer s' = timer s)
      \<or> (numbered (tabsRef s') \<and> latestRevision s' = latestRevision s + 1 \<and> timer s'
         \<and> \<not> recoveryBlockedRef s \<and> \<not> discarding s))"

lemma edited_refl: "edited lc s s"
  by (simp add: edited_def same_saving_def)

lemma edited_active: "edited lc s s' \<Longrightarrow> edited lc s (s' \<lparr> activeTabId := a \<rparr>)"
  by (simp add: edited_def same_saving_def)

lemma edited_update: "edited lc s (updateTabs lc tabs s)"
  by (simp add: edited_def same_saving_def updateTabs_def Let_def)

fun is_edit :: "ws_label \<Rightarrow> bool" where
  "is_edit (AddTab i c t x) = True"
| "is_edit (CloseTab i) = True"
| "is_edit (CloseTabsForConnection c) = True"
| "is_edit (RenameTitles c p n) = True"
| "is_edit (ReorderTab i k) = True"
| "is_edit (SelectTab i) = True"
| "is_edit (UpdateTabSql i x) = True"
| "is_edit _ = False"

lemma edited_step: "is_edit l \<Longrightarrow> edited lc s (fst (ws_step lc l s)) \<and> snd (ws_step lc l s) = []"
proof (cases l)
  case (AddTab i c t x)
  then show ?thesis by (simp add: addTab_def Let_def edited_refl edited_active edited_update)
next
  case (CloseTab i)
  then show ?thesis
    by (simp add: closeTab_def Let_def edited_refl edited_active edited_update split: option.split)
next
  case (CloseTabsForConnection c)
  then show ?thesis
    by (simp add: closeTabsForConnection_def Let_def edited_refl edited_active edited_update split: option.split)
next
  case (RenameTitles c p n)
  then show ?thesis by (simp add: renameConnectionTabTitles_def edited_refl edited_update)
next
  case (ReorderTab i k)
  then show ?thesis by (simp add: reorderTab_def Let_def edited_refl edited_update split: option.split)
next
  case (SelectTab i)
  then show ?thesis by (simp add: selectTab_def edited_refl edited_active)
next
  case (UpdateTabSql i x)
  then show ?thesis by (simp add: updateTabSql_def edited_refl edited_update)
qed simp_all

section \<open>One save at a time\<close>

definition outstanding :: "workspace \<Rightarrow> bool" where
  "outstanding s \<longleftrightarrow> inFlight s \<noteq> None \<or> discard s = SavingEmpty"

definition single_inv :: "workspace \<Rightarrow> bool" where
  "single_inv s \<longleftrightarrow> drainActive s = (inFlight s \<noteq> None)
     \<and> (discard s = SavingEmpty \<longrightarrow> inFlight s = None)
     \<and> (discard s = AwaitingDrain \<longrightarrow> inFlight s \<noteq> None)
     \<and> (discard s \<noteq> NoDiscard \<longrightarrow> discarding s)
     \<and> (discarding s \<longrightarrow> queuedSave s = None)
     \<and> (queuedSave s \<noteq> None \<longrightarrow> inFlight s \<noteq> None)
     \<and> (recoveryBlockedRef s \<longrightarrow> queuedSave s = None)"

lemma single_edited: "single_inv s \<Longrightarrow> edited lc s s' \<Longrightarrow> single_inv s'"
  by (auto simp: single_inv_def edited_def same_saving_def)

lemma single_flush:
  "single_inv s \<Longrightarrow> discard s = NoDiscard \<or> discarding s \<Longrightarrow> single_inv (fst (flushWorkspace lc s))"
  by (auto simp: single_inv_def flushWorkspace_def beginSaveDrain_def drain_next_def Let_def)

text \<open>The flush after a failed discard runs before the discard is forgotten.\<close>

lemma single_discard_settled: "single_inv s \<Longrightarrow> single_inv (fst (discard_settled lc ok s))"
  by (auto simp: single_inv_def discard_settled_def flushWorkspace_def beginSaveDrain_def drain_next_def Let_def)

lemma single_save_settled: "single_inv s \<Longrightarrow> single_inv (fst (save_settled ok s))"
  by (auto simp: single_inv_def save_settled_def drain_next_def Let_def split: option.split)

lemma single_load: "single_inv s \<Longrightarrow> single_inv (fst (load_settled lc loaded s))"
  by (cases loaded) (auto simp: single_inv_def load_settled_def Let_def)

lemma single_step: "single_inv s \<Longrightarrow> single_inv (fst (ws_step lc l s))"
proof (cases "is_edit l")
  case True
  assume "single_inv s"
  with edited_step [OF True, of lc s] show ?thesis using single_edited by blast
next
  case False
  assume i: "single_inv s"
  have fl: "discard s = NoDiscard \<or> discarding s" using i by (auto simp: single_inv_def)
  have t: "single_inv (s \<lparr> timer := False \<rparr>)" "single_inv (s \<lparr> mounted := False \<rparr>)"
    using i by (auto simp: single_inv_def)
  show ?thesis
  proof (cases l)
    case TimerFires
    with i fl t single_flush [of "s \<lparr> timer := False \<rparr>" lc] show ?thesis by simp
  next
    case Flush
    with i fl single_flush show ?thesis by simp
  next
    case Unmount
    with i fl t single_flush [of "s \<lparr> mounted := False \<rparr>" lc] show ?thesis by simp
  next
    case Restore
    with i show ?thesis by (auto simp: single_inv_def restoreWorkspace_def)
  next
    case Discard
    with i show ?thesis by (auto simp: single_inv_def discardWorkspace_def Let_def)
  qed (use i False single_save_settled single_load single_discard_settled in auto)
qed

lemma single_run: "ws_run lc ok s \<Longrightarrow> single_inv s"
proof (induction rule: ws_run.induct)
  case (start st)
  then show ?case by (simp add: single_inv_def init_workspace_def)
qed (rule single_step)

lemma flush_calls:
  "SaveWorkspace x \<in> set (snd (flushWorkspace lc s)) \<Longrightarrow>
    snd (flushWorkspace lc s) = [SaveWorkspace x] \<and> \<not> drainActive s \<and> \<not> recoveryBlockedRef s \<and> \<not> discarding s"
  by (auto simp: flushWorkspace_def beginSaveDrain_def drain_next_def Let_def split: if_splits)

text \<open>C33: Snapshots never race: in every reachable state at most one replacement of the stored
  workspace is under way, a step asks for at most one more, and only when none is under way or the one
  under way has just settled.\<close>

theorem one_save_at_a_time:
  assumes "ws_run lc ok s" and "SaveWorkspace x \<in> set (snd (ws_step lc l s))"
  shows "snd (ws_step lc l s) = [SaveWorkspace x]
     \<and> (outstanding s \<longrightarrow> (\<exists>r. l = SaveSettled r \<and> inFlight s \<noteq> None) \<or> (\<exists>r. l = DiscardSettled r \<and> discard s = SavingEmpty))
     \<and> \<not> (inFlight s \<noteq> None \<and> discard s = SavingEmpty)"
proof -
  note i = single_run [OF assms(1)]
  have e: "\<not> is_edit l" using assms(2) edited_step [of l lc s] by auto
  have fl: "snd (flushWorkspace lc s') = [SaveWorkspace x] \<and> \<not> outstanding s"
    if "SaveWorkspace x \<in> set (snd (flushWorkspace lc s'))" "drainActive s' = drainActive s"
      "discarding s' = discarding s" for s'
    using flush_calls [OF that(1)] that(2,3) i by (auto simp: outstanding_def single_inv_def)
  have "snd (ws_step lc l s) = [SaveWorkspace x]
     \<and> (outstanding s \<longrightarrow> (\<exists>r. l = SaveSettled r \<and> inFlight s \<noteq> None) \<or> (\<exists>r. l = DiscardSettled r \<and> discard s = SavingEmpty))"
  proof (cases l)
    case TimerFires
    with assms(2) fl [of "s \<lparr> timer := False \<rparr>"] show ?thesis by (auto split: if_splits)
  next
    case Flush
    with assms(2) fl [of s] show ?thesis by auto
  next
    case Unmount
    with assms(2) fl [of "s \<lparr> mounted := False \<rparr>"] show ?thesis by auto
  next
    case (SaveSettled r)
    with assms(2) i show ?thesis
      by (auto simp: save_settled_def drain_next_def Let_def single_inv_def split: option.splits if_splits)
  next
    case Discard
    with assms(2) i show ?thesis
      by (auto simp: discardWorkspace_def outstanding_def single_inv_def Let_def split: if_splits)
  next
    case (DiscardSettled r)
    with assms(2) show ?thesis
      using flush_calls [of x lc "s \<lparr> discarding := False, saveError := _ \<rparr>"]
      by (auto simp: discard_settled_def Let_def split: if_splits prod.splits) (metis snd_conv flush_calls)+
  qed (use assms(2) e in \<open>auto simp: restoreWorkspace_def load_settled_def Let_def split: if_splits\<close>)
  then show ?thesis using i by (auto simp: single_inv_def)
qed

theorem one_save_at_a_time_witness:
  "\<exists>s. ws_run (\<lambda>_ _. 0) (\<lambda>_ _. True) s \<and> snd (ws_step (\<lambda>_ _. 0) Flush s) = [SaveWorkspace [sample_tab 0]]
     \<and> \<not> outstanding s"
proof -
  let ?lc = "\<lambda>_ _. 0 :: int" and ?ok = "\<lambda>_ _. True"
  let ?s = "fst (ws_step ?lc (AddTab [0] [99] [] []) (init_workspace None))"
  have r: "ws_run ?lc ?ok ?s" by (intro ws_run.step ws_run.start) simp
  have c: "snd (ws_step ?lc Flush ?s) = [SaveWorkspace [sample_tab 0]]"
    by (simp add: init_workspace_def addTab_def updateTabs_def Let_def flushWorkspace_def beginSaveDrain_def
        drain_next_def sanitizeWorkspaceTabs_def js_sort_def renumber_def sample_tab_def)
  from one_save_at_a_time [OF r, of "[sample_tab 0]" Flush] c r show ?thesis by (auto simp: c)
qed

text \<open>C34: After a failed restore nothing overwrites the stored workspace: in a reachable state whose
  recovery is blocked the only replacement a step can ask for is the empty one of an explicit discard.\<close>

theorem blocked_never_saves:
  assumes "ws_run lc ok s" and "recoveryBlockedRef s" and "SaveWorkspace x \<in> set (snd (ws_step lc l s))"
  shows "x = [] \<and> (l = Discard \<or> discard s = AwaitingDrain)"
proof -
  note i = single_run [OF assms(1)]
  have e: "\<not> is_edit l" using assms(3) edited_step [of l lc s] by auto
  have fl: False if "SaveWorkspace x \<in> set (snd (flushWorkspace lc s'))" "recoveryBlockedRef s'" for s'
    using flush_calls [OF that(1)] that(2) by blast
  show ?thesis
  proof (cases l)
    case TimerFires
    with assms(2,3) fl [of "s \<lparr> timer := False \<rparr>"] show ?thesis by (auto split: if_splits)
  next
    case Flush
    with assms(2,3) fl [of s] show ?thesis by auto
  next
    case Unmount
    with assms(2,3) fl [of "s \<lparr> mounted := False \<rparr>"] show ?thesis by auto
  next
    case (SaveSettled r)
    with assms(2,3) i show ?thesis
      by (auto simp: save_settled_def drain_next_def Let_def single_inv_def split: option.splits if_splits)
  next
    case Discard
    with assms(3) show ?thesis by (auto simp: discardWorkspace_def Let_def split: if_splits)
  next
    case (DiscardSettled r)
    with assms(2,3) show ?thesis
      by (auto simp: discard_settled_def flushWorkspace_def Let_def split: if_splits)
  qed (use assms(3) e in \<open>auto simp: restoreWorkspace_def load_settled_def Let_def split: if_splits\<close>)
qed

theorem blocked_never_saves_witness:
  "\<exists>s. ws_run (\<lambda>_ _. 0) (\<lambda>_ _. True) s \<and> recoveryBlockedRef s
     \<and> snd (ws_step (\<lambda>_ _. 0) Discard s) = [SaveWorkspace []] \<and> (\<forall>x. SaveWorkspace x \<notin> set (snd (ws_step (\<lambda>_ _. 0) Flush s)))"
proof -
  let ?lc = "\<lambda>_ _. 0 :: int" and ?ok = "\<lambda>_ _. True"
  let ?s = "fst (ws_step ?lc (LoadSettled None) (init_workspace None))"
  have r: "ws_run ?lc ?ok ?s" by (intro ws_run.step ws_run.start) simp
  have b: "recoveryBlockedRef ?s" "discard ?s = NoDiscard" by (simp_all add: init_workspace_def load_settled_def Let_def)
  have c: "snd (ws_step ?lc Discard ?s) = [SaveWorkspace []]"
    by (simp add: init_workspace_def load_settled_def discardWorkspace_def Let_def)
  from blocked_never_saves [OF r b(1), of _ Flush] b c r show ?thesis by auto
qed

section \<open>Nothing stays unsaved\<close>

text \<open>
  The environment of the next result: a restore succeeds only while no save is under way, and a window
  that was discarded is not discarded again.
\<close>

definition calm :: "ws_label \<Rightarrow> workspace \<Rightarrow> bool" where
  "calm l s = (case l of LoadSettled (Some ts) \<Rightarrow> inFlight s = None | Discard \<Rightarrow> \<not> discarding s | _ \<Rightarrow> True)"

definition snap_ok :: "workspace \<Rightarrow> (nat \<times> WorkspaceTab list) option \<Rightarrow> bool" where
  "snap_ok s q \<longleftrightarrow> (\<forall>r snap. q = Some (r, snap) \<longrightarrow>
     persistedRevision s < r \<and> r \<le> latestRevision s \<and> (r = latestRevision s \<longrightarrow> snap = tabsRef s))"

definition gone_window :: "workspace \<Rightarrow> bool" where
  "gone_window s \<longleftrightarrow> discarding s \<and> discard s = NoDiscard"

definition base_inv :: "workspace \<Rightarrow> bool" where
  "base_inv s \<longleftrightarrow> persistedRevision s \<le> latestRevision s \<and> snap_ok s (inFlight s) \<and> snap_ok s (queuedSave s)
     \<and> (\<forall>r snap q snap'. inFlight s = Some (r, snap) \<longrightarrow> queuedSave s = Some (q, snap') \<longrightarrow> r < q)
     \<and> (0 < latestRevision s \<longrightarrow> numbered (tabsRef s))
     \<and> (0 < latestRevision s \<and> persistedRevision s = latestRevision s \<and> \<not> gone_window s \<longrightarrow> stored s = Some (tabsRef s))"

text \<open>An unsaved revision has a timer, a save under way or queued, or a visible error.\<close>

definition due :: "workspace \<Rightarrow> bool" where
  "due s \<longleftrightarrow> (mounted s \<and> \<not> recoveryBlockedRef s \<and> \<not> discarding s \<and> persistedRevision s < latestRevision s \<longrightarrow>
     timer s \<or> map_option fst (inFlight s) = Some (latestRevision s)
     \<or> map_option fst (queuedSave s) = Some (latestRevision s) \<or> saveError s \<noteq> None)"

lemma base_edited: "base_inv s \<Longrightarrow> edited lc s s' \<Longrightarrow> base_inv s'"
proof -
  assume b: "base_inv s" and e: "edited lc s s'"
  from e have same: "queuedSave s' = queuedSave s" "inFlight s' = inFlight s" "discard s' = discard s"
    "discarding s' = discarding s" "stored s' = stored s" "persistedRevision s' = persistedRevision s"
    by (simp_all add: edited_def same_saving_def)
  from e consider "tabsRef s' = tabsRef s" "latestRevision s' = latestRevision s"
    | "numbered (tabsRef s')" "latestRevision s' = latestRevision s + 1"
    unfolding edited_def by blast
  then show ?thesis
  proof cases
    case 1
    with b show ?thesis by (simp add: base_inv_def snap_ok_def gone_window_def same)
  next
    case 2
    from b have "snap_ok s (inFlight s)" "snap_ok s (queuedSave s)" by (simp_all add: base_inv_def)
    then have "snap_ok s' (inFlight s')" "snap_ok s' (queuedSave s')"
      using 2 by (simp_all add: snap_ok_def same) fastforce+
    with b 2 show ?thesis by (simp add: base_inv_def same)
  qed
qed

lemma due_edited: "due s \<Longrightarrow> edited lc s s' \<Longrightarrow> due s'"
  by (auto simp: due_def edited_def same_saving_def)

definition unsaved :: "workspace \<Rightarrow> bool" where
  "unsaved s \<longleftrightarrow> \<not> recoveryBlockedRef s \<and> persistedRevision s < latestRevision s
     \<and> map_option fst (inFlight s) \<noteq> Some (latestRevision s)"

lemma flush_result:
  assumes "base_inv s" "\<not> discarding s"
  shows "fst (flushWorkspace lc s) =
    (let s1 = s \<lparr> timer := False \<rparr>; snap = (latestRevision s, tabsRef s) in
     if \<not> unsaved s then s1
     else if drainActive s then s1 \<lparr> queuedSave := Some snap \<rparr>
     else s1 \<lparr> queuedSave := None, inFlight := Some snap, drainActive := True \<rparr>)"
proof -
  have "unsaved s \<Longrightarrow> sanitizeWorkspaceTabs lc (tabsRef s) = tabsRef s"
    using assms(1) by (intro sanitize_sorted numbered_sorted) (auto simp: base_inv_def unsaved_def)
  then show ?thesis using assms(2)
    by (auto simp: flushWorkspace_def beginSaveDrain_def drain_next_def Let_def unsaved_def)
qed

lemma base_queue:
  assumes "base_inv s" "unsaved s"
  shows "base_inv (s \<lparr> timer := False, queuedSave := Some (latestRevision s, tabsRef s) \<rparr>)"
proof -
  have "r < latestRevision s" if "inFlight s = Some (r, snap)" for r snap
    using assms that by (force simp: base_inv_def snap_ok_def unsaved_def)
  with assms show ?thesis by (auto simp: base_inv_def snap_ok_def unsaved_def gone_window_def)
qed

lemma base_launch:
  assumes "base_inv s" "unsaved s"
  shows "base_inv (s \<lparr> timer := False, queuedSave := None,
    inFlight := Some (latestRevision s, tabsRef s), drainActive := True \<rparr>)"
  using assms by (simp add: base_inv_def snap_ok_def unsaved_def gone_window_def)

lemma base_timer: "base_inv s \<Longrightarrow> base_inv (s \<lparr> timer := b \<rparr>)"
  by (simp add: base_inv_def snap_ok_def gone_window_def)

lemma base_flush: "base_inv s \<Longrightarrow> base_inv (fst (flushWorkspace lc s))"
proof (cases "discarding s")
  case False
  assume b: "base_inv s"
  show ?thesis unfolding flush_result [OF b False] Let_def
    using base_timer [OF b] base_queue [OF b] base_launch [OF b] by simp
qed (simp add: flushWorkspace_def)

lemma due_flush: "base_inv s \<Longrightarrow> \<not> discarding s \<Longrightarrow> due (fst (flushWorkspace lc s))"
  by (auto simp: flush_result Let_def due_def unsaved_def)

lemma base_next:
  assumes "base_inv s" "inFlight s = None"
  shows "base_inv (fst (drain_next s))"
proof (cases "queuedSave s")
  case None
  with assms show ?thesis by (auto simp: drain_next_def base_inv_def snap_ok_def gone_window_def)
next
  case (Some q)
  obtain r snap where q: "q = (r, snap)" by force
  with assms Some have "snap_ok s (Some (r, snap))" by (simp add: base_inv_def)
  with assms Some q show ?thesis by (simp add: drain_next_def base_inv_def snap_ok_def gone_window_def)
qed

lemma due_next: "due s \<Longrightarrow> inFlight s = None \<Longrightarrow> due (fst (drain_next s))"
  by (auto simp: drain_next_def due_def split: option.split)

lemma base_saved:
  assumes "base_inv s" "single_inv s" "inFlight s = Some (r, snap)"
  shows "base_inv (s \<lparr> persistedRevision := max (persistedRevision s) r, stored := Some snap, inFlight := None \<rparr>)"
proof -
  have r: "persistedRevision s < r" "r \<le> latestRevision s" "r = latestRevision s \<longrightarrow> snap = tabsRef s"
    using assms(1,3) by (auto simp: base_inv_def snap_ok_def)
  have q: "r < q" if "queuedSave s = Some (q, snap')" for q snap'
    using assms(1,3) that by (auto simp: base_inv_def)
  from assms(1) r q show ?thesis
    by (simp add: base_inv_def snap_ok_def gone_window_def max_def)
qed

lemma base_fields:
  "base_inv (s \<lparr> saveError := e \<rparr>) = base_inv s" "base_inv (s \<lparr> mounted := b \<rparr>) = base_inv s"
  by (simp_all add: base_inv_def snap_ok_def gone_window_def)

lemma save_settled_inv:
  assumes "base_inv s" "due s" "single_inv s"
  shows "base_inv (fst (save_settled ok s)) \<and> due (fst (save_settled ok s))"
proof (cases "inFlight s")
  case None
  with assms show ?thesis by (simp add: save_settled_def)
next
  case (Some p)
  obtain r snap where p: "inFlight s = Some (r, snap)" using Some by force
  have r: "persistedRevision s < r" "r \<le> latestRevision s" using assms(1) p by (auto simp: base_inv_def snap_ok_def)
  define s1 where "s1 = (if ok then s \<lparr> persistedRevision := max (persistedRevision s) r, stored := Some snap \<rparr> else s)"
  define s2 where "s2 = (if r = latestRevision s1 \<and> mounted s1
    then s1 \<lparr> saveError := (if ok then None else Some SAVE_ERROR) \<rparr> else s1) \<lparr> inFlight := None \<rparr>"
  have e: "fst (save_settled ok s) = fst (drain_next s2)"
    by (simp add: save_settled_def p Let_def s1_def s2_def)
  have "base_inv (s1 \<lparr> inFlight := None \<rparr>)"
  proof (cases ok)
    case True
    have "s1 \<lparr> inFlight := None \<rparr>
        = s \<lparr> persistedRevision := max (persistedRevision s) r, stored := Some snap, inFlight := None \<rparr>"
      using True by (simp add: s1_def)
    with base_saved [OF assms(1,3) p] show ?thesis by (simp only:)
  next
    case False
    with assms(1) p show ?thesis by (simp add: s1_def base_inv_def snap_ok_def gone_window_def)
  qed
  then have b: "base_inv s2"
    by (auto simp: s2_def base_inv_def snap_ok_def gone_window_def)
  have d: "due s2"
    using assms(2) p r by (auto simp: s2_def s1_def due_def split: if_splits)
  have n: "inFlight s2 = None" by (simp add: s2_def)
  from base_next [OF b n] due_next [OF d n] show ?thesis unfolding e by blast
qed

lemma load_settled_inv:
  assumes "base_inv s" "due s" "calm (LoadSettled loaded) s" "single_inv s"
  shows "base_inv (fst (load_settled lc loaded s)) \<and> due (fst (load_settled lc loaded s))"
  using assms by (cases loaded)
    (auto simp: load_settled_def Let_def base_inv_def due_def snap_ok_def gone_window_def calm_def)

lemma discard_settled_inv:
  assumes "base_inv s" "due s" "single_inv s"
  shows "base_inv (fst (discard_settled lc ok s)) \<and> due (fst (discard_settled lc ok s))"
proof (cases "discard s = SavingEmpty")
  case True
  show ?thesis
  proof (cases ok)
    case ok: True
    with True assms show ?thesis
      by (auto simp: discard_settled_def base_inv_def due_def snap_ok_def gone_window_def single_inv_def)
  next
    case False
    let ?s1 = "s \<lparr> discarding := False, saveError := (if mounted s then Some SAVE_ERROR else saveError s) \<rparr>"
    have b: "base_inv ?s1" using assms(1) True by (auto simp: base_inv_def snap_ok_def gone_window_def)
    have f: "fst (discard_settled lc ok s) = (fst (flushWorkspace lc ?s1)) \<lparr> discard := NoDiscard \<rparr>"
      using True False by (simp add: discard_settled_def Let_def split: prod.split)
    have "\<not> discarding (fst (flushWorkspace lc ?s1))"
      by (simp add: flush_result [OF b] Let_def)
    with base_flush [OF b] due_flush [OF b] show ?thesis unfolding f
      by (simp add: base_inv_def due_def snap_ok_def gone_window_def)
  qed
qed (use assms in \<open>simp add: discard_settled_def\<close>)

lemma discard_inv:
  assumes "base_inv s" "due s" "calm Discard s"
  shows "base_inv (fst (discardWorkspace s)) \<and> due (fst (discardWorkspace s))"
  using assms by (auto simp: discardWorkspace_def Let_def base_inv_def due_def snap_ok_def gone_window_def calm_def)

lemma calm_step:
  assumes "base_inv s" "due s" "single_inv s" "calm l s"
  shows "base_inv (fst (ws_step lc l s)) \<and> due (fst (ws_step lc l s))"
proof (cases "is_edit l")
  case True
  with edited_step [OF True, of lc s] assms base_edited due_edited show ?thesis by blast
next
  case False
  have fl: "base_inv (fst (flushWorkspace lc s')) \<and> due (fst (flushWorkspace lc s'))" if "base_inv s'"
    "discarding s' \<longrightarrow> due s'" for s'
  proof (cases "discarding s'")
    case True
    with that show ?thesis by (simp add: flushWorkspace_def)
  next
    case False
    with that base_flush due_flush show ?thesis by blast
  qed
  show ?thesis
  proof (cases l)
    case TimerFires
    then show ?thesis using assms fl [of "s \<lparr> timer := False \<rparr>"] base_timer by (auto simp: due_def)
  next
    case Flush
    with assms fl show ?thesis by simp
  next
    case Unmount
    then show ?thesis using assms fl [of "s \<lparr> mounted := False \<rparr>"] by (auto simp: due_def base_fields)
  next
    case Restore
    with assms show ?thesis
      by (auto simp: restoreWorkspace_def base_inv_def due_def snap_ok_def gone_window_def)
  next
    case (SaveSettled ok)
    with assms save_settled_inv show ?thesis by simp
  next
    case (LoadSettled loaded)
    with assms load_settled_inv show ?thesis by simp
  next
    case Discard
    with assms discard_inv show ?thesis by simp
  next
    case (DiscardSettled ok)
    with assms discard_settled_inv show ?thesis by simp
  qed (use False in simp_all)
qed

lemma calm_run: "ws_run lc calm s \<Longrightarrow> base_inv s \<and> due s"
proof (induction rule: ws_run.induct)
  case (start st)
  then show ?case by (simp add: base_inv_def due_def snap_ok_def init_workspace_def)
next
  case (step s l)
  with calm_step single_run show ?case by blast
qed

text \<open>C32: No edit is lost silently, as long as no restore succeeds while a save is under way (\<open>calm\<close>;
  \<open>App.tsx\<close> blocks edits until the workspace is loaded): when a mounted, usable workspace with edits is quiet (no timer,
  no save under way) and shows no error, the backend holds exactly the tabs of the window.\<close>

theorem quiet_means_saved:
  assumes "ws_run lc calm s" and "mounted s" and "\<not> recoveryBlockedRef s" and "\<not> discarding s"
    and "\<not> timer s" and "inFlight s = None" and "saveError s = None" and "0 < latestRevision s"
  shows "stored s = Some (tabsRef s) \<and> persistedRevision s = latestRevision s"
proof -
  have b: "base_inv s" "due s" using calm_run [OF assms(1)] by blast+
  have "queuedSave s = None" using single_run [OF assms(1)] assms(6) by (auto simp: single_inv_def)
  with b(2) assms have "\<not> persistedRevision s < latestRevision s" by (simp add: due_def)
  with b(1) have "persistedRevision s = latestRevision s" by (simp add: base_inv_def)
  with b(1) assms(4,8) show ?thesis by (simp add: base_inv_def gone_window_def)
qed

theorem quiet_means_saved_witness:
  "\<exists>s. ws_run (\<lambda>_ _. 0) calm s \<and> tabsRef s = [sample_tab 0] \<and> stored s = Some [sample_tab 0]"
proof -
  let ?lc = "\<lambda>_ _. 0 :: int"
  let ?s0 = "fst (ws_step ?lc (LoadSettled (Some [])) (init_workspace None))"
  let ?s1 = "fst (ws_step ?lc (AddTab [0] [99] [] []) ?s0)"
  let ?s2 = "fst (ws_step ?lc TimerFires ?s1)"
  let ?s3 = "fst (ws_step ?lc (SaveSettled True) ?s2)"
  note defs = init_workspace_def load_settled_def addTab_def updateTabs_def Let_def flushWorkspace_def
    beginSaveDrain_def drain_next_def sanitizeWorkspaceTabs_def js_sort_def renumber_def sample_tab_def
    save_settled_def
  have r: "ws_run ?lc calm ?s3"
    by (intro ws_run.step ws_run.start) (simp_all add: calm_def init_workspace_def)
  have f: "mounted ?s3" "\<not> recoveryBlockedRef ?s3" "\<not> discarding ?s3" "\<not> timer ?s3" "inFlight ?s3 = None"
    "saveError ?s3 = None" "0 < latestRevision ?s3" "tabsRef ?s3 = [sample_tab 0]"
    by (simp_all add: defs)
  from quiet_means_saved [OF r f(1-7)] f(8) r show ?thesis by auto
qed

section \<open>Editing before the restore\<close>

text \<open>The restore does not gate edits: while the first load is still pending a tab can be added,
  and its save replaces the stored workspace before it was ever read.\<close>

theorem write_before_restore:
  "\<exists>s calls. ws_run lc (\<lambda>_ _. True) s \<and> loadPending s \<and> \<not> recoveryBlockedRef s
     \<and> ws_step lc TimerFires s = (fst (ws_step lc TimerFires s), calls) \<and> calls = [SaveWorkspace (tabsRef s)]
     \<and> stored s = Some old"
proof -
  let ?s = "fst (ws_step lc (AddTab [0] [99] [] []) (init_workspace (Some old)))"
  have r: "ws_run lc (\<lambda>_ _. True) ?s" by (intro ws_run.step ws_run.start) simp
  have c: "snd (ws_step lc TimerFires ?s) = [SaveWorkspace (tabsRef ?s)]"
    by (simp add: init_workspace_def addTab_def updateTabs_def Let_def flushWorkspace_def beginSaveDrain_def
        drain_next_def sanitizeWorkspaceTabs_def js_sort_def renumber_def)
  have p: "loadPending ?s" "\<not> recoveryBlockedRef ?s" "stored ?s = Some old"
    by (simp_all add: init_workspace_def addTab_def updateTabs_def Let_def)
  show ?thesis using r c p by (metis surjective_pairing)
qed

end
