(* ===== verification/Local_Storage.thy ===== *)
theory Local_Storage
  imports Js_Json
begin

text \<open>
  The browser's \<open>localStorage\<close> as the preferences of the program use it: every access may throw
  (storage switched off, quota exceeded), and every caller catches. \<open>reads\<close> and \<open>writes\<close> say whether
  an access succeeds.

  The locale \<open>preference\<close> is the contract every persisted preference of the program keeps: it lives
  under one key, loading returns what was persisted, and persisting touches no other key.
\<close>

record local_storage =
  items :: "js \<Rightarrow> js option"
  reads :: bool
  writes :: bool

text \<open>\<open>None\<close> is a thrown error, \<open>Some None\<close> a missing item.\<close>

definition getItem :: "local_storage \<Rightarrow> js \<Rightarrow> js option option" where
  "getItem st k = (if reads st then Some (items st k) else None)"

definition setItem :: "js \<Rightarrow> js \<Rightarrow> local_storage \<Rightarrow> local_storage option" where
  "setItem k v st = (if writes st then Some (st \<lparr> items := (items st)(k \<mapsto> v) \<rparr>) else None)"

definition removeItem :: "js \<Rightarrow> local_storage \<Rightarrow> local_storage option" where
  "removeItem k st = (if writes st then Some (st \<lparr> items := (items st)(k := None) \<rparr>) else None)"

text \<open>\<open>try { setItem(k, v) } catch {}\<close>\<close>

definition try_set :: "js \<Rightarrow> js \<Rightarrow> local_storage \<Rightarrow> local_storage" where
  "try_set k v st = (case setItem k v st of None \<Rightarrow> st | Some st' \<Rightarrow> st')"

definition try_remove :: "js \<Rightarrow> local_storage \<Rightarrow> local_storage" where
  "try_remove k st = (case removeItem k st of None \<Rightarrow> st | Some st' \<Rightarrow> st')"

lemmas storage_defs [js_eval] = getItem_def setItem_def removeItem_def try_set_def try_remove_def

lemma try_set_flags [simp]: "reads (try_set k v st) = reads st" "writes (try_set k v st) = writes st"
  by (simp_all add: storage_defs)

lemma try_set_items: "items (try_set k v st) = (if writes st then (items st)(k \<mapsto> v) else items st)"
  by (simp add: storage_defs)

lemma getItem_try_set [simp]: "reads st \<Longrightarrow> writes st \<Longrightarrow> getItem (try_set k v st) k = Some (Some v)"
  by (simp add: storage_defs)

text \<open>The text of a value that \<open>JSON.parse\<close> reads back; a text that is not JSON throws.\<close>

definition parse_item :: "local_storage \<Rightarrow> js \<Rightarrow> json option option" where
  "parse_item st k =
     (case getItem st k of
        None \<Rightarrow> None
      | Some None \<Rightarrow> Some None
      | Some (Some t) \<Rightarrow> map_option Some (json_parse t))"

lemmas parse_item_eval [js_eval] = parse_item_def

lemma parse_item_try_set:
  "reads st \<Longrightarrow> writes st \<Longrightarrow> json_plain v \<Longrightarrow>
    parse_item (try_set k (json_stringify v) st) k = Some (Some v)"
  by (simp add: parse_item_def json_parse_stringify)

section \<open>The contract of a preference\<close>

locale preference =
  fixes key :: js
    and load :: "local_storage \<Rightarrow> 'a"
    and persist :: "'a \<Rightarrow> local_storage \<Rightarrow> local_storage"
    and valid :: "'a \<Rightarrow> bool"
  assumes load_persist: "reads st \<Longrightarrow> writes st \<Longrightarrow> valid a \<Longrightarrow> load (persist a st) = a"
    and persist_frame: "k \<noteq> key \<Longrightarrow> items (persist a st) k = items st k"
    and persist_flags: "reads (persist a st) = reads st" "writes (persist a st) = writes st"
    and load_frame: "items st key = items st' key \<Longrightarrow> reads st = reads st' \<Longrightarrow> load st = load st'"
begin

text \<open>The last of several writes wins.\<close>

lemma load_last:
  assumes "reads st" and "writes st" and "valid a"
  shows "load (foldl (\<lambda>s b. persist b s) st (bs @ [a])) = a"
proof -
  have "reads (foldl (\<lambda>s b. persist b s) st bs) \<and> writes (foldl (\<lambda>s b. persist b s) st bs)"
    by (rule foldl_keeps [where P = "\<lambda>s. reads s \<and> writes s"]) (use assms in \<open>simp_all add: persist_flags\<close>)
  then show ?thesis using assms(3) by (simp add: load_persist)
qed

text \<open>A write under another key is not seen.\<close>

lemma load_other:
  assumes "items st' key = items st key" and "reads st' = reads st"
  shows "load st' = load st"
  using assms load_frame by metis

end

text \<open>
  Preferences whose loaded value is always one that can be stored: loading is a fixed point.
\<close>

locale stable_preference = preference +
  assumes load_valid: "valid (load st)"
begin

lemma load_persist_load: "reads st \<Longrightarrow> writes st \<Longrightarrow> load (persist (load st) st) = load st"
  by (simp add: load_persist load_valid)

end

end
