(* ===== verification/Shortcuts.thy ===== *)
theory Shortcuts
  imports Local_Storage
begin

text \<open>
  \<open>features/commands/shortcutRegistry.ts\<close> and \<open>workspaceShortcuts.ts\<close>: key bindings, their canonical
  text, matching key presses against them, conflicts, and the persisted settings.

  \<open>toLocaleLowerCase\<close> and \<open>toUpperCase\<close> of one code unit are parameters (\<open>key_case\<close>); \<open>ascii_case\<close> is
  what a host whose locale treats ASCII letters in the usual way promises of them.
\<close>

section \<open>The registry\<close>

datatype ShortcutScope = ScopeGlobal | ScopeWorkspace | ScopeSql | ScopeContextual | ScopeTable

datatype ShortcutGroup = GroupWorkspace | GroupSql | GroupTable

datatype ShortcutActionId =
  CommandPalette | ShortcutHelp | ToggleSidebar | NewQuery | CloseWorkspace | NextWorkspace
| PreviousWorkspace | ExecuteQuery | CancelQuery | SelectSql | Find | CopyResultSelection
| ViewResultCell | SelectRows | SaveTable

fun action_name :: "ShortcutActionId \<Rightarrow> js" where
  "action_name CommandPalette = u ''commandPalette''"
| "action_name ShortcutHelp = u ''shortcutHelp''"
| "action_name ToggleSidebar = u ''toggleSidebar''"
| "action_name NewQuery = u ''newQuery''"
| "action_name CloseWorkspace = u ''closeWorkspace''"
| "action_name NextWorkspace = u ''nextWorkspace''"
| "action_name PreviousWorkspace = u ''previousWorkspace''"
| "action_name ExecuteQuery = u ''executeQuery''"
| "action_name CancelQuery = u ''cancelQuery''"
| "action_name SelectSql = u ''selectSql''"
| "action_name Find = u ''find''"
| "action_name CopyResultSelection = u ''copyResultSelection''"
| "action_name ViewResultCell = u ''viewResultCell''"
| "action_name SelectRows = u ''selectRows''"
| "action_name SaveTable = u ''saveTable''"

record ShortcutDefinition =
  sd_id :: ShortcutActionId
  scope :: ShortcutScope
  group :: ShortcutGroup
  sd_action :: js
  description :: js
  defaultBinding :: js
  searchTerms :: "js list"

definition SHORTCUT_DEFINITIONS :: "ShortcutDefinition list" where
  "SHORTCUT_DEFINITIONS =
   [\<lparr> sd_id = CommandPalette, scope = ScopeGlobal, group = GroupWorkspace, sd_action = ([25171, 24320, 21629, 20196, 38754, 26495]),
      description = ([25628, 32034, 36830, 25509, 12289, 25968, 25454, 34920, 12289, 24037, 20316, 21306, 21644, 21487, 29992, 21629, 20196]), defaultBinding = u ''Mod+Shift+P'',
      searchTerms = [([24555, 36895, 25171, 24320]), u ''palette''] \<rparr>,
    \<lparr> sd_id = ShortcutHelp, scope = ScopeGlobal, group = GroupWorkspace, sd_action = ([25171, 24320, 24555, 25463, 38190, 24110, 21161]),
      description = ([26597, 30475, 25110, 20462, 25913, 20840, 37096, 38190, 30424, 25805, 20316]), defaultBinding = u ''Mod+/'',
      searchTerms = [([35774, 32622]), u ''keyboard'', u ''hotkey''] \<rparr>,
    \<lparr> sd_id = ToggleSidebar, scope = ScopeGlobal, group = GroupWorkspace, sd_action = ([20999, 25442, 36830, 25509, 20391, 36793, 26639]),
      description = ([25910, 36215, 25110, 23637, 24320, 24038, 20391, 36830, 25509, 23548, 33322, 65292, 20889, 20316, 26102, 33150, 20986, 24037, 20316, 21306]), defaultBinding = u ''Mod+B'',
      searchTerms = [([25910, 36215]), ([23637, 24320]), u ''sidebar'', u ''panel''] \<rparr>,
    \<lparr> sd_id = NewQuery, scope = ScopeWorkspace, group = GroupWorkspace, sd_action = ([26032, 24314] @ u '' SQL''),
      description = ([22312, 24403, 21069] @ u '' MySQL '' @ [36830, 25509, 20013, 26032, 24314, 26597, 35810, 24037, 20316, 21306]), defaultBinding = u ''Mod+T'', searchTerms = [] \<rparr>,
    \<lparr> sd_id = CloseWorkspace, scope = ScopeWorkspace, group = GroupWorkspace, sd_action = ([20851, 38381, 24403, 21069, 24037, 20316, 21306]),
      description = ([26377, 26410, 25552, 20132, 34920, 21464, 26356, 26102, 20250, 20808, 30830, 35748]), defaultBinding = u ''Mod+W'', searchTerms = [] \<rparr>,
    \<lparr> sd_id = NextWorkspace, scope = ScopeWorkspace, group = GroupWorkspace, sd_action = ([20999, 25442, 21040, 19979, 19968, 20010, 24037, 20316, 21306]),
      description = ([22312, 24050, 25171, 24320, 30340, 26597, 35810, 21644, 34920, 24037, 20316, 21306, 38388, 24490, 29615]), defaultBinding = u ''Ctrl+Tab'', searchTerms = [] \<rparr>,
    \<lparr> sd_id = PreviousWorkspace, scope = ScopeWorkspace, group = GroupWorkspace,
      sd_action = ([20999, 25442, 21040, 19978, 19968, 20010, 24037, 20316, 21306]),
      description = ([21453, 21521, 24490, 29615, 24050, 25171, 24320, 30340, 24037, 20316, 21306]), defaultBinding = u ''Ctrl+Shift+Tab'', searchTerms = [] \<rparr>,
    \<lparr> sd_id = ExecuteQuery, scope = ScopeSql, group = GroupSql, sd_action = ([25191, 34892] @ u '' SQL''),
      description = ([25191, 34892, 36873, 20013] @ u '' SQL'' @ [65307, 26080, 36873, 21306, 26102, 25191, 34892, 24403, 21069, 35821, 21477]), defaultBinding = u ''Mod+R'', searchTerms = [] \<rparr>,
    \<lparr> sd_id = CancelQuery, scope = ScopeSql, group = GroupSql, sd_action = ([21462, 28040, 24403, 21069, 26597, 35810]),
      description = ([20165, 22312, 26597, 35810, 36816, 34892, 26102, 29983, 25928]), defaultBinding = u ''Mod+.'', searchTerms = [([20572, 27490])] \<rparr>,
    \<lparr> sd_id = SelectSql, scope = ScopeSql, group = GroupSql, sd_action = ([36873, 20013, 24403, 21069] @ u '' SQL''),
      description = ([20165, 22312] @ u '' SQL '' @ [32534, 36753, 22120, 32858, 28966, 26102, 29983, 25928]), defaultBinding = u ''Mod+L'', searchTerms = [([20840, 36873])] \<rparr>,
    \<lparr> sd_id = Find, scope = ScopeContextual, group = GroupWorkspace, sd_action = ([25628, 32034, 24403, 21069, 21306, 22495]),
      description = ([25628, 32034, 24403, 21069, 32858, 28966, 30340] @ u '' SQL'' @ [12289, 34920, 26641, 12289, 26597, 35810, 32467, 26524, 25110, 34920, 25968, 25454]), defaultBinding = u ''Mod+F'',
      searchTerms = [([26597, 25214]), ([36807, 28388]), ([32467, 26524])] \<rparr>,
    \<lparr> sd_id = CopyResultSelection, scope = ScopeSql, group = GroupSql, sd_action = ([22797, 21046, 36873, 20013, 32467, 26524]),
      description = ([22797, 21046, 26597, 35810, 32467, 26524, 20013, 24403, 21069, 36873, 20013, 30340, 21333, 20803, 26684, 65307, 20840, 36873, 21518, 22797, 21046, 20840, 37096]), defaultBinding = u ''Mod+C'',
      searchTerms = [([21098, 36148, 26495]), ([25335, 36125]), ([21333, 20803, 26684])] \<rparr>,
    \<lparr> sd_id = ViewResultCell, scope = ScopeSql, group = GroupSql, sd_action = ([26597, 30475, 23436, 25972, 21333, 20803, 26684]),
      description = ([25171, 24320, 26597, 35810, 32467, 26524, 20013, 24403, 21069, 21333, 20803, 26684, 30340, 23436, 25972, 20869, 23481, 65288, 38271, 25991, 26412] @ u ''/JSON'' @ [65289]), defaultBinding = u ''F2'',
      searchTerms = [([35814, 24773]), ([24377, 31383]), ([23637, 24320])] \<rparr>,
    \<lparr> sd_id = SelectRows, scope = ScopeTable, group = GroupTable, sd_action = ([36873, 25321, 20840, 37096, 34892]),
      description = ([34920, 25968, 25454, 36873, 24403, 21069, 39029, 65307, 26597, 35810, 32467, 26524, 36873, 20840, 37096, 24050, 21152, 36733, 34892]), defaultBinding = u ''Mod+A'',
      searchTerms = [([20840, 36873]), ([32467, 26524])] \<rparr>,
    \<lparr> sd_id = SaveTable, scope = ScopeTable, group = GroupTable, sd_action = ([39044, 35272, 24182, 25552, 20132, 21464, 26356]),
      description = ([25171, 24320, 21464, 26356, 39044, 35272, 65307, 29983, 20135, 29615, 22659, 20173, 38656, 20108, 27425, 30830, 35748]), defaultBinding = u ''Mod+S'',
      searchTerms = [([20445, 23384]), ([25552, 20132])] \<rparr>]"

type_synonym ShortcutBindings = "ShortcutActionId \<Rightarrow> js"

text \<open>\<open>SHORTCUT_DEFINITION_BY_ID\<close>\<close>

definition definition_by_id :: "ShortcutActionId \<Rightarrow> ShortcutDefinition option" where
  "definition_by_id = new_map (map (\<lambda>d. (sd_id d, d)) SHORTCUT_DEFINITIONS)"

definition getDefaultShortcutBindings :: ShortcutBindings where
  "getDefaultShortcutBindings a =
     (case new_map (map (\<lambda>d. (sd_id d, defaultBinding d)) SHORTCUT_DEFINITIONS) a of
        Some b \<Rightarrow> b | None \<Rightarrow> [])"

section \<open>Canonical bindings\<close>

record key_case =
  key_lower :: "js \<Rightarrow> js"
  key_upper :: "nat \<Rightarrow> js"

definition is_ascii :: "js \<Rightarrow> bool" where
  "is_ascii s = list_all (\<lambda>c. c < 128) s"

definition ascii_case :: "key_case \<Rightarrow> bool" where
  "ascii_case C \<longleftrightarrow> (\<forall>s. is_ascii s \<longrightarrow> key_lower C s = to_lower s) \<and> (\<forall>c < 128. key_upper C c = [upper_unit c])"

definition ascii_host :: key_case where
  "ascii_host = \<lparr> key_lower = to_lower, key_upper = (\<lambda>c. [upper_unit c]) \<rparr>"

abbreviation PLUS :: nat where "PLUS \<equiv> 43"

definition MODIFIER_ORDER :: "js list" where
  "MODIFIER_ORDER = [u ''Mod'', u ''Ctrl'', u ''Alt'', u ''Shift'']"

definition MODIFIER_KEYS :: "js list" where
  "MODIFIER_KEYS = [u ''Alt'', u ''Control'', u ''Meta'', u ''Shift'']"

definition normalizePrimaryKey :: "key_case \<Rightarrow> js \<Rightarrow> js option" where
  "normalizePrimaryKey C key =
     (if key = [] \<or> key \<in> set MODIFIER_KEYS then None
      else if key = u '' '' then Some (u ''Space'')
      else if key = u ''Esc'' then Some (u ''Escape'')
      else if key = u ''Spacebar'' then Some (u ''Space'')
      else if key = u ''Del'' then Some (u ''Delete'')
      else if key \<in> {u ''ArrowUp'', u ''ArrowDown'', u ''ArrowLeft'', u ''ArrowRight''} then Some key
      else if length key = 1 \<and> letter_iu (hd key) then Some (key_upper C (hd key))
      else if length key = 1 then Some key
      else Some (key_upper C (hd key) @ tl key))"

record KeyboardShortcutEvent =
  altKey :: bool
  ctrlKey :: bool
  ev_key :: js
  metaKey :: bool
  shiftKey :: bool

definition binding_text :: "js list \<Rightarrow> js \<Rightarrow> js" where
  "binding_text mods p = join [PLUS] (mods @ [p])"

definition shortcutFromKeyboardEvent :: "key_case \<Rightarrow> KeyboardShortcutEvent \<Rightarrow> js option" where
  "shortcutFromKeyboardEvent C e =
     (case normalizePrimaryKey C (ev_key e) of
        None \<Rightarrow> None
      | Some p \<Rightarrow>
          if p = [] then None
          else Some (binding_text
            ((if metaKey e then [u ''Mod''] else []) @ (if ctrlKey e then [u ''Ctrl''] else [])
              @ (if altKey e then [u ''Alt''] else []) @ (if shiftKey e then [u ''Shift''] else [])) p))"

definition modifier_of :: "js \<Rightarrow> js option" where
  "modifier_of w =
     (if w \<in> {u ''mod'', u ''cmd'', u ''meta''} then Some (u ''Mod'')
      else if w \<in> {u ''ctrl'', u ''control''} then Some (u ''Ctrl'')
      else if w \<in> {u ''alt'', u ''option''} then Some (u ''Alt'')
      else if w = u ''shift'' then Some (u ''Shift'') else None)"

definition normalizeShortcut :: "key_case \<Rightarrow> js \<Rightarrow> js option" where
  "normalizeShortcut C binding =
     (let rawTokens = filter (\<lambda>t. t \<noteq> []) (map trim (split_on PLUS binding))
      in case find (\<lambda>t. modifier_of (key_lower C t) = None) rawTokens of
           None \<Rightarrow> None
         | Some primaryToken \<Rightarrow>
             (case normalizePrimaryKey C primaryToken of
                None \<Rightarrow> None
              | Some p \<Rightarrow>
                  if p = [] then None
                  else Some (binding_text
                    (filter (\<lambda>m. Some m \<in> set (map (\<lambda>t. modifier_of (key_lower C t)) rawTokens)) MODIFIER_ORDER)
                    p)))"

definition functionKeyRx :: rx where
  "functionKeyRx = rx_seqs [Bol, rx_chr 70,
     Alt (Cls (\<lambda>c. 49 \<le> c \<and> c \<le> 57)) (Seq (rx_chr 49) (Cls (\<lambda>c. 48 \<le> c \<and> c \<le> 50))), Eol]"

definition isSafeShortcutBinding :: "key_case \<Rightarrow> js \<Rightarrow> bool" where
  "isSafeShortcutBinding C binding =
     (case normalizeShortcut C binding of
        None \<Rightarrow> False
      | Some n \<Rightarrow>
          (let tokens = split_on PLUS n;
               primaryKey = last tokens
           in (\<exists>t \<in> set tokens. t \<in> {u ''Mod'', u ''Ctrl'', u ''Alt''}) \<or> rx_test functionKeyRx primaryKey))"

definition matchesShortcut :: "key_case \<Rightarrow> KeyboardShortcutEvent \<Rightarrow> js \<Rightarrow> bool" where
  "matchesShortcut C e binding =
     (case normalizeShortcut C binding of
        None \<Rightarrow> False
      | Some n \<Rightarrow>
          (let tokens = split_on PLUS n
           in if Some (last tokens) \<noteq> normalizePrimaryKey C (ev_key e) then False
              else
                (let usesMod = u ''Mod'' \<in> set tokens;
                     expectsCtrl = u ''Ctrl'' \<in> set tokens;
                     expectsAlt = u ''Alt'' \<in> set tokens;
                     expectsShift = u ''Shift'' \<in> set tokens;
                     modMatches = (if usesMod then metaKey e \<or> ctrlKey e else \<not> metaKey e);
                     ctrlMatches =
                       (if usesMod then if expectsCtrl then ctrlKey e else \<not> (metaKey e \<and> ctrlKey e)
                        else ctrlKey e = expectsCtrl)
                 in modMatches \<and> ctrlMatches \<and> altKey e = expectsAlt \<and> shiftKey e = expectsShift)))"

text \<open>The names the accelerators of the native menu use.\<close>

definition tauriKeyNames :: "(js \<times> js) list" where
  "tauriKeyNames =
     [(u ''.'', u ''Period''), (u '','', u ''Comma''), (u ''/'', u ''Slash''), (u '';'', u ''Semicolon''),
      ([QUOTE], u ''Quote''), (u ''['', u ''BracketLeft''), (u '']'', u ''BracketRight''),
      ([BACKSLASH], u ''Backslash''), (u ''-'', u ''Minus''), (u ''='', u ''Equal''), ([96], u ''Backquote'')]"

definition toTauriAccelerator :: "key_case \<Rightarrow> js \<Rightarrow> js option" where
  "toTauriAccelerator C binding =
     map_option (\<lambda>n. join [PLUS] (map (\<lambda>token.
         if token = u ''Mod'' then u ''CmdOrCtrl''
         else (case map_of tauriKeyNames token of Some k \<Rightarrow> k | None \<Rightarrow> token)) (split_on PLUS n)))
       (normalizeShortcut C binding)"

definition shortcutToKeyboardEventInit :: "key_case \<Rightarrow> bool \<Rightarrow> js \<Rightarrow> KeyboardShortcutEvent option" where
  "shortcutToKeyboardEventInit C isMac binding =
     map_option (\<lambda>n.
       let tokens = split_on PLUS n;
           primaryKey = last tokens;
           usesMod = u ''Mod'' \<in> set tokens
       in \<lparr> altKey = u ''Alt'' \<in> set tokens, ctrlKey = u ''Ctrl'' \<in> set tokens \<or> (usesMod \<and> \<not> isMac),
            ev_key = (if primaryKey = u ''Space'' then u '' '' else primaryKey),
            metaKey = usesMod \<and> isMac, shiftKey = u ''Shift'' \<in> set tokens \<rparr>)
     (normalizeShortcut C binding)"

definition labelByToken :: "(js \<times> js) list" where
  "labelByToken =
     [(u ''Mod'', u ''Ctrl/Cmd''), (u ''Ctrl'', u ''Ctrl''), (u ''Alt'', u ''Alt''), (u ''Shift'', u ''Shift''),
      (u ''ArrowUp'', [8593]), (u ''ArrowDown'', [8595]), (u ''ArrowLeft'', [8592]), (u ''ArrowRight'', [8594]),
      (u ''Escape'', u ''Esc''), (u ''Space'', u ''Space'')]"

definition getShortcutKeyLabels :: "key_case \<Rightarrow> js \<Rightarrow> js list" where
  "getShortcutKeyLabels C binding =
     (case normalizeShortcut C binding of
        None \<Rightarrow> []
      | Some n \<Rightarrow> map (\<lambda>token. case map_of labelByToken token of Some l \<Rightarrow> l | None \<Rightarrow> token) (split_on PLUS n))"

section \<open>Conflicts and settings\<close>

record ShortcutConflict =
  actionId :: ShortcutActionId
  conflictingActionId :: ShortcutActionId
  binding :: js

fun conflicts_from :: "key_case \<Rightarrow> ShortcutBindings \<Rightarrow> ShortcutDefinition list \<Rightarrow> ShortcutConflict list" where
  "conflicts_from C bs [] = []"
| "conflicts_from C bs (d # ds) =
     List.map_filter (\<lambda>c.
       case normalizeShortcut C (bs (sd_id d)) of
         None \<Rightarrow> None
       | Some n \<Rightarrow>
           if n \<noteq> [] \<and> normalizeShortcut C (bs (sd_id c)) = Some n
           then Some \<lparr> actionId = sd_id d, conflictingActionId = sd_id c, binding = n \<rparr> else None) ds
     @ conflicts_from C bs ds"

definition findShortcutConflicts :: "key_case \<Rightarrow> ShortcutBindings \<Rightarrow> ShortcutConflict list" where
  "findShortcutConflicts C bs = conflicts_from C bs SHORTCUT_DEFINITIONS"

definition sanitizeShortcutBindings :: "key_case \<Rightarrow> json \<Rightarrow> ShortcutBindings" where
  "sanitizeShortcutBindings C v =
     (case v of
        JObj ms \<Rightarrow> (\<lambda>a. case map_of ms (action_name a) of
            Some (JStr candidate) \<Rightarrow>
              (case normalizeShortcut C candidate of
                 Some n \<Rightarrow> if n \<noteq> [] \<and> isSafeShortcutBinding C n then n else getDefaultShortcutBindings a
               | None \<Rightarrow> getDefaultShortcutBindings a)
          | _ \<Rightarrow> getDefaultShortcutBindings a)
      | _ \<Rightarrow> getDefaultShortcutBindings)"

definition SHORTCUT_STORAGE_KEY :: js where
  "SHORTCUT_STORAGE_KEY = u ''pipa.shortcut-bindings.v1''"

definition loadShortcutBindings :: "key_case \<Rightarrow> local_storage \<Rightarrow> ShortcutBindings" where
  "loadShortcutBindings C st =
     (case getItem st SHORTCUT_STORAGE_KEY of
        Some (Some serialized) \<Rightarrow>
          if serialized = [] then getDefaultShortcutBindings
          else (case json_parse serialized of
                  Some v \<Rightarrow> sanitizeShortcutBindings C v
                | None \<Rightarrow> getDefaultShortcutBindings)
      | _ \<Rightarrow> getDefaultShortcutBindings)"

definition bindings_json :: "ShortcutBindings \<Rightarrow> json" where
  "bindings_json bs = JObj (map (\<lambda>d. (action_name (sd_id d), JStr (bs (sd_id d)))) SHORTCUT_DEFINITIONS)"

definition persist_bindings :: "ShortcutBindings \<Rightarrow> local_storage \<Rightarrow> local_storage" where
  "persist_bindings bs st = try_set SHORTCUT_STORAGE_KEY (json_stringify (bindings_json bs)) st"

text \<open>The module's state: the bindings, the subscribed listeners, the storage; \<open>notified\<close> counts the calls of listeners.\<close>

record shortcut_store =
  currentBindings :: ShortcutBindings
  shortcutListeners :: "nat list"
  store :: local_storage
  notified :: "nat list"

definition publishShortcutBindings :: "ShortcutBindings \<Rightarrow> shortcut_store \<Rightarrow> shortcut_store" where
  "publishShortcutBindings bs s =
     s \<lparr> currentBindings := bs, store := persist_bindings bs (store s),
         notified := notified s @ shortcutListeners s \<rparr>"

definition subscribeToShortcuts :: "nat \<Rightarrow> shortcut_store \<Rightarrow> shortcut_store" where
  "subscribeToShortcuts l s = s \<lparr> shortcutListeners := set_add l (shortcutListeners s) \<rparr>"

definition unsubscribe :: "nat \<Rightarrow> shortcut_store \<Rightarrow> shortcut_store" where
  "unsubscribe l s = s \<lparr> shortcutListeners := set_delete l (shortcutListeners s) \<rparr>"

definition reloadShortcutBindings :: "key_case \<Rightarrow> shortcut_store \<Rightarrow> shortcut_store" where
  "reloadShortcutBindings C s =
     s \<lparr> currentBindings := loadShortcutBindings C (store s), notified := notified s @ shortcutListeners s \<rparr>"

definition updateShortcutBinding ::
  "key_case \<Rightarrow> ShortcutActionId \<Rightarrow> js \<Rightarrow> shortcut_store \<Rightarrow> bool \<times> shortcut_store" where
  "updateShortcutBinding C a b s =
     (case (normalizeShortcut C b, definition_by_id a) of
        (Some n, Some d) \<Rightarrow>
          if n = [] \<or> \<not> isSafeShortcutBinding C n then (False, s)
          else if \<exists>c \<in> set SHORTCUT_DEFINITIONS.
              sd_id c \<noteq> a \<and> normalizeShortcut C (currentBindings s (sd_id c)) = Some n then (False, s)
          else (True, publishShortcutBindings ((currentBindings s)(a := n)) s)
      | _ \<Rightarrow> (False, s))"

definition resetShortcutBinding ::
  "key_case \<Rightarrow> ShortcutActionId \<Rightarrow> shortcut_store \<Rightarrow> bool \<times> shortcut_store" where
  "resetShortcutBinding C a s =
     (case definition_by_id a of
        None \<Rightarrow> (False, s)
      | Some d \<Rightarrow>
          if \<exists>c \<in> set SHORTCUT_DEFINITIONS. sd_id c \<noteq> a \<and>
              normalizeShortcut C (currentBindings s (sd_id c)) = normalizeShortcut C (defaultBinding d)
          then (False, s)
          else (True, publishShortcutBindings ((currentBindings s)(a := defaultBinding d)) s))"

definition resetAllShortcutBindings :: "shortcut_store \<Rightarrow> shortcut_store" where
  "resetAllShortcutBindings s = publishShortcutBindings getDefaultShortcutBindings s"

section \<open>Global key presses\<close>

datatype WorkspaceShortcutIntent =
  OpenCommandPalette | OpenShortcutHelp | IntentToggleSidebar | IntentNewQuery | IntentCloseWorkspace
| JumpToTab nat | CycleTabs bool

definition digitRx :: rx where
  "digitRx = rx_seqs [Bol, Cls (\<lambda>c. 49 \<le> c \<and> c \<le> 57), Eol]"

definition resolveWorkspaceShortcut ::
  "key_case \<Rightarrow> KeyboardShortcutEvent \<Rightarrow> ShortcutBindings \<Rightarrow> WorkspaceShortcutIntent option" where
  "resolveWorkspaceShortcut C e bindings =
     (if matchesShortcut C e (bindings CommandPalette) then Some OpenCommandPalette
      else if matchesShortcut C e (bindings ShortcutHelp) then Some OpenShortcutHelp
      else if matchesShortcut C e (bindings ToggleSidebar) then Some IntentToggleSidebar
      else if matchesShortcut C e (bindings NewQuery) then Some IntentNewQuery
      else if matchesShortcut C e (bindings CloseWorkspace) then Some IntentCloseWorkspace
      else if (metaKey e \<or> ctrlKey e) \<and> \<not> altKey e \<and> \<not> shiftKey e \<and> rx_test digitRx (ev_key e)
        then Some (JumpToTab (digits_val (ev_key e)))
      else if matchesShortcut C e (bindings NextWorkspace) then Some (CycleTabs False)
      else if matchesShortcut C e (bindings PreviousWorkspace) then Some (CycleTabs True)
      else None)"

lemmas shortcut_eval [js_eval] =
  is_ascii_def ascii_host_def MODIFIER_ORDER_def MODIFIER_KEYS_def normalizePrimaryKey_def binding_text_def
  shortcutFromKeyboardEvent_def modifier_of_def normalizeShortcut_def functionKeyRx_def
  isSafeShortcutBinding_def matchesShortcut_def

section \<open>The shape of a canonical binding\<close>

definition canonical_mods :: "js list \<Rightarrow> bool" where
  "canonical_mods ms \<longleftrightarrow> ms = filter (\<lambda>m. m \<in> set ms) MODIFIER_ORDER"

definition canonical_key :: "js \<Rightarrow> bool" where
  "canonical_key p \<longleftrightarrow> p \<noteq> [] \<and> PLUS \<notin> set p \<and> trim p = p \<and> is_ascii p \<and> modifier_of (to_lower p) = None"



lemma modifier_tokens:
  "m \<in> set MODIFIER_ORDER \<Longrightarrow> PLUS \<notin> set m \<and> m \<noteq> [] \<and> trim m = m \<and> is_ascii m \<and> modifier_of (to_lower m) = Some m"
  by (auto simp: MODIFIER_ORDER_def js_eval)

lemma canonical_mods_sub: "canonical_mods ms \<Longrightarrow> set ms \<subseteq> set MODIFIER_ORDER"
  by (metis canonical_mods_def filter_is_subset)

lemma split_binding_text:
  assumes "canonical_mods ms" and "PLUS \<notin> set p"
  shows "split_on PLUS (binding_text ms p) = ms @ [p]"
  unfolding binding_text_def
  by (rule split_on_join) (use assms canonical_mods_sub modifier_tokens in fastforce)+

lemma canonical_key_not_modifier: "canonical_key p \<Longrightarrow> p \<notin> set MODIFIER_ORDER"
  using modifier_tokens by (auto simp: canonical_key_def)

lemma mem_tokens:
  "canonical_key p \<Longrightarrow> m \<in> set MODIFIER_ORDER \<Longrightarrow> m \<in> set (ms @ [p]) \<longleftrightarrow> m \<in> set ms"
  using canonical_key_not_modifier by auto

lemma ascii_letter: "c < 128 \<Longrightarrow> letter_iu c \<longleftrightarrow> is_lower c \<or> is_upper c"
  by (auto simp: letter_iu_def)

lemma upper_unit_ascii: "c < 128 \<Longrightarrow> upper_unit c < 128"
  by (auto simp: upper_unit_def is_lower_def)

lemma lower_upper_unit: "lower_unit (upper_unit c) = lower_unit c"
  by (auto simp: upper_unit_def lower_unit_def is_lower_def is_upper_def)

lemma upper_unit_plus: "upper_unit c = PLUS \<longleftrightarrow> c = PLUS"
  by (auto simp: upper_unit_def is_lower_def)

lemma upper_unit_ws: "is_ws (upper_unit c) \<longleftrightarrow> is_ws c"
  by (auto simp: upper_unit_def is_lower_def is_ws_def)

lemma trim_upper_first: "trim (c # s) = c # s \<Longrightarrow> trim (upper_unit c # s) = upper_unit c # s"
proof -
  assume "trim (c # s) = c # s"
  then have e: "\<not> is_ws c \<and> (s = [] \<or> \<not> is_ws (last s))" using trim_ends [of "c # s"] by (auto split: if_splits)
  show ?thesis by (rule trim_id) (use e in \<open>auto simp: upper_unit_ws\<close>)
qed

text \<open>The token of a primary key, and when normalizing it again changes it.\<close>

lemma primary_key_text:
  assumes "ascii_case C" and "normalizePrimaryKey C k = Some p" and "is_ascii k"
  shows "(k, p) \<in> {(u '' '', u ''Space''), (u ''Esc'', u ''Escape''), (u ''Spacebar'', u ''Space''), (u ''Del'', u ''Delete'')}
     \<or> (p = upper_unit (hd k) # tl k \<and> k \<notin> {u '' '', u ''Esc'', u ''Spacebar'', u ''Del'', []} \<and> k \<notin> set MODIFIER_KEYS)"
proof -
  have c: "k \<noteq> [] \<Longrightarrow> hd k < 128" using assms(3) by (cases k) (auto simp: is_ascii_def)
  have up: "k \<noteq> [] \<Longrightarrow> key_upper C (hd k) = [upper_unit (hd k)]" using assms(1) c by (simp add: ascii_case_def)
  have one: "length k = 1 \<Longrightarrow> k = [hd k]" by (cases k) auto
  have no: "\<lbrakk>length k = 1; \<not> letter_iu (hd k)\<rbrakk> \<Longrightarrow> upper_unit (hd k) = hd k"
    using c one ascii_letter [of "hd k"] by (cases k) (auto simp: upper_unit_def)
  have arrow: "k \<in> {u ''ArrowUp'', u ''ArrowDown'', u ''ArrowLeft'', u ''ArrowRight''} \<Longrightarrow> upper_unit (hd k) # tl k = k"
    by (auto simp: upper_unit_def is_lower_def u.simps)
  have cons: "k \<noteq> [] \<Longrightarrow> hd k # tl k = k" by simp
  have tl1: "length k = Suc 0 \<Longrightarrow> tl k = []" by (cases k) auto
  show ?thesis
    using assms(2) up one no arrow tl1 unfolding normalizePrimaryKey_def
    by (cases "length k = 1") (auto split: if_splits simp: cons dest: one)
qed

lemma primary_key_canonical:
  assumes "ascii_case C" and "normalizePrimaryKey C k = Some p" and "is_ascii k"
    and "PLUS \<notin> set k" and "trim k = k \<or> k = u '' ''" and "modifier_of (to_lower k) = None"
  shows "canonical_key p"
proof (cases "p = upper_unit (hd k) # tl k \<and> k \<noteq> u '' '' \<and> k \<noteq> []")
  case True
  then obtain c t where k: "k = c # t" by (cases k) auto
  have "to_lower p = to_lower k" using True k by (simp add: to_lower_def lower_upper_unit)
  moreover have "trim p = p" using True k assms(5) trim_upper_first by auto
  moreover have "is_ascii p" using True k assms(3) by (auto simp: is_ascii_def upper_unit_ascii)
  moreover have "PLUS \<notin> set p" using True k assms(4) by (auto simp: upper_unit_plus)
  ultimately show ?thesis using True assms(6) by (simp add: canonical_key_def)
next
  case False
  then have "p \<in> {u ''Space'', u ''Escape'', u ''Delete''}"
    using primary_key_text [OF assms(1-3)] by auto
  then show ?thesis by (auto simp: canonical_key_def js_eval)
qed



text \<open>Reading a canonical text back.\<close>

lemma normalize_binding_text:
  assumes C: "ascii_case C" and ms: "canonical_mods ms" and p: "canonical_key p"
  shows "normalizeShortcut C (binding_text ms p)
     = (case normalizePrimaryKey C p of Some q \<Rightarrow> if q = [] then None else Some (binding_text ms q) | None \<Rightarrow> None)"
proof -
  have sub: "set ms \<subseteq> set MODIFIER_ORDER" using ms canonical_mods_sub by blast
  have low: "modifier_of (key_lower C m) = Some m" if "m \<in> set ms" for m
    using that sub C modifier_tokens [of m] by (auto simp: ascii_case_def)
  have plow: "modifier_of (key_lower C p) = None" using C p by (simp add: ascii_case_def canonical_key_def)
  have parts: "split_on PLUS (binding_text ms p) = ms @ [p]"
    using split_binding_text ms p by (simp add: canonical_key_def)
  have trims: "map trim (ms @ [p]) = ms @ [p]"
    using sub modifier_tokens p by (intro map_idI) (auto simp: canonical_key_def)
  have ne: "filter (\<lambda>t. t \<noteq> []) (ms @ [p]) = ms @ [p]"
    using sub modifier_tokens p by (intro filter_True) (auto simp: canonical_key_def)
  have fnd: "find (\<lambda>t. modifier_of (key_lower C t) = None) (ms @ [p]) = Some p"
    using low plow by (induction ms) auto
  have mp: "map (\<lambda>t. modifier_of (key_lower C t)) (ms @ [p]) = map Some ms @ [None]"
    using low plow by auto
  have flt: "filter (\<lambda>m. Some m \<in> set (map Some ms @ [None])) MODIFIER_ORDER = ms"
    using ms unfolding canonical_mods_def by (simp add: image_iff)
  show ?thesis
    unfolding normalizeShortcut_def Let_def parts trims ne fnd mp flt by simp
qed

text \<open>
  Normalizing is stable, except that the aliases \<open>esc\<close>, \<open>spacebar\<close> and \<open>del\<close> in lower case take two rounds.
\<close>

definition settled_key :: "js \<Rightarrow> bool" where
  "settled_key p \<longleftrightarrow> p \<notin> {u ''Esc'', u ''Spacebar'', u ''Del''}"

lemma upper_unit_idem [simp]: "upper_unit (upper_unit c) = upper_unit c"
  by (auto simp: upper_unit_def is_lower_def)

lemma modifier_key_words: "modifier_of (to_lower p) = None \<Longrightarrow> p \<notin> set MODIFIER_KEYS"
  by (auto simp: MODIFIER_KEYS_def js_eval)

lemma primary_key_fixed:
  assumes C: "ascii_case C" and k: "normalizePrimaryKey C k = Some p" "is_ascii k" and p: "canonical_key p" "settled_key p"
  shows "normalizePrimaryKey C p = Some p"
proof -
  have up: "c < 128 \<Longrightarrow> key_upper C c = [upper_unit c]" for c using C by (simp add: ascii_case_def)
  have np: "p \<notin> set MODIFIER_KEYS" "p \<noteq> u '' ''" "p \<noteq> []"
    using p modifier_key_words by (auto simp: canonical_key_def js_eval)
  have a: "hd p < 128" using p(1) by (cases p) (auto simp: canonical_key_def is_ascii_def)
  have h: "upper_unit (hd p) = hd p"
    using primary_key_text [OF C k] by (auto simp: js_eval)
  have cons: "hd p # tl p = p" using np(3) by simp
  have one: "length p = 1 \<Longrightarrow> [hd p] = p" using cons by (cases p) auto
  show ?thesis
    using np p(2) up [OF a] h cons one by (auto simp: normalizePrimaryKey_def settled_key_def)
qed

section \<open>Properties\<close>

subsection \<open>One press, one action\<close>

definition canonical_match :: "key_case \<Rightarrow> KeyboardShortcutEvent \<Rightarrow> js \<Rightarrow> js list \<Rightarrow> js \<Rightarrow> bool" where
  "canonical_match C e b ms p \<longleftrightarrow>
     normalizeShortcut C b = Some (binding_text ms p) \<and> canonical_mods ms
     \<and> normalizePrimaryKey C (ev_key e) = Some p
     \<and> (if u ''Mod'' \<in> set ms then metaKey e \<or> ctrlKey e else \<not> metaKey e)
     \<and> (if u ''Mod'' \<in> set ms then if u ''Ctrl'' \<in> set ms then ctrlKey e else \<not> (metaKey e \<and> ctrlKey e)
        else ctrlKey e = (u ''Ctrl'' \<in> set ms))
     \<and> altKey e = (u ''Alt'' \<in> set ms) \<and> shiftKey e = (u ''Shift'' \<in> set ms)"

lemma matches_binding_text:
  assumes n: "normalizeShortcut C b = Some (binding_text ms p)" and ms: "canonical_mods ms" and p: "canonical_key p"
  shows "matchesShortcut C e b \<longleftrightarrow> canonical_match C e b ms p"
proof -
  have tok: "split_on PLUS (binding_text ms p) = ms @ [p]" using ms p split_binding_text by (simp add: canonical_key_def)
  have o: "u ''Mod'' \<in> set MODIFIER_ORDER" "u ''Ctrl'' \<in> set MODIFIER_ORDER" "u ''Alt'' \<in> set MODIFIER_ORDER"
    "u ''Shift'' \<in> set MODIFIER_ORDER" by (simp_all add: MODIFIER_ORDER_def)
  show ?thesis
    unfolding matchesShortcut_def canonical_match_def n Let_def option.case tok o [THEN mem_tokens [OF p]]
    using ms by auto
qed





text \<open>Conflicts compare all pairs of actions.\<close>

definition no_clash :: "key_case \<Rightarrow> ShortcutBindings \<Rightarrow> ShortcutDefinition \<Rightarrow> ShortcutDefinition \<Rightarrow> bool" where
  "no_clash C bs d c \<longleftrightarrow>
     (\<forall>n. n \<noteq> [] \<longrightarrow> normalizeShortcut C (bs (sd_id d)) = Some n \<longrightarrow> normalizeShortcut C (bs (sd_id c)) \<noteq> Some n)"

lemma no_clash_sym: "no_clash C bs d c \<Longrightarrow> no_clash C bs c d"
  unfolding no_clash_def by blast

lemma conflicts_from_Nil: "conflicts_from C bs ds = [] \<longleftrightarrow> sorted_wrt (no_clash C bs) ds"
proof (induction ds)
  case (Cons d ds)
  have head: "List.map_filter (\<lambda>c. case normalizeShortcut C (bs (sd_id d)) of None \<Rightarrow> None
       | Some n \<Rightarrow> if n \<noteq> [] \<and> normalizeShortcut C (bs (sd_id c)) = Some n
           then Some \<lparr> actionId = sd_id d, conflictingActionId = sd_id c, binding = n \<rparr> else None) ds = []
     \<longleftrightarrow> (\<forall>c \<in> set ds. no_clash C bs d c)"
    by (cases "normalizeShortcut C (bs (sd_id d))") (auto simp: no_clash_def List.map_filter_def filter_empty_conv)
  show ?case unfolding conflicts_from.simps append_is_Nil_conv head Cons.IH by simp
qed simp

definition actions :: "ShortcutActionId list" where
  "actions = map sd_id SHORTCUT_DEFINITIONS"

lemma actions_distinct: "distinct actions"
  by (simp add: actions_def SHORTCUT_DEFINITIONS_def)

lemma actions_all: "a \<in> set actions"
  by (cases a) (simp_all add: actions_def SHORTCUT_DEFINITIONS_def)

definition conflict_free :: "key_case \<Rightarrow> ShortcutBindings \<Rightarrow> bool" where
  "conflict_free C bs \<longleftrightarrow>
     (\<forall>a b n. a \<noteq> b \<longrightarrow> n \<noteq> [] \<longrightarrow> normalizeShortcut C (bs a) = Some n \<longrightarrow> normalizeShortcut C (bs b) \<noteq> Some n)"

lemma sorted_wrt_symmetric:
  assumes "\<And>x y. R x y \<Longrightarrow> R y x" and "distinct (map f xs)"
  shows "sorted_wrt R xs \<longleftrightarrow> (\<forall>x \<in> set xs. \<forall>y \<in> set xs. f x \<noteq> f y \<longrightarrow> R x y)"
  using assms(2)
proof (induction xs)
  case (Cons x xs)
  then have "\<forall>y \<in> set xs. f x \<noteq> f y \<and> f y \<noteq> f x" by (force simp: image_iff)
  with Cons assms(1) show ?case by auto
qed simp

lemma conflicts_iff: "findShortcutConflicts C bs = [] \<longleftrightarrow> conflict_free C bs"
proof -
  have "findShortcutConflicts C bs = [] \<longleftrightarrow> (\<forall>x \<in> set SHORTCUT_DEFINITIONS. \<forall>y \<in> set SHORTCUT_DEFINITIONS.
      sd_id x \<noteq> sd_id y \<longrightarrow> no_clash C bs x y)"
    unfolding findShortcutConflicts_def conflicts_from_Nil
    by (rule sorted_wrt_symmetric) (use no_clash_sym actions_distinct in \<open>auto simp: actions_def\<close>)
  also have "\<dots> \<longleftrightarrow> conflict_free C bs"
  proof
    assume l: "\<forall>x \<in> set SHORTCUT_DEFINITIONS. \<forall>y \<in> set SHORTCUT_DEFINITIONS. sd_id x \<noteq> sd_id y \<longrightarrow> no_clash C bs x y"
    show "conflict_free C bs"
      unfolding conflict_free_def
    proof (intro allI impI)
      fix a b n assume "a \<noteq> b" and n: "n \<noteq> []" "normalizeShortcut C (bs a) = Some n"
      moreover obtain x y where "x \<in> set SHORTCUT_DEFINITIONS" "sd_id x = a" "y \<in> set SHORTCUT_DEFINITIONS" "sd_id y = b"
        using actions_all [of a] actions_all [of b] by (auto simp: actions_def)
      ultimately have "no_clash C bs x y" using l by blast
      with n \<open>sd_id x = a\<close> \<open>sd_id y = b\<close> show "normalizeShortcut C (bs b) \<noteq> Some n" by (simp add: no_clash_def)
    qed
  qed (auto simp: conflict_free_def no_clash_def)
  finally show ?thesis .
qed

text \<open>The defaults are canonical, safe and distinct.\<close>

lemma host_lower [simp]: "ascii_case C \<Longrightarrow> is_ascii s \<Longrightarrow> key_lower C s = to_lower s"
  and host_upper [simp]: "ascii_case C \<Longrightarrow> c < 128 \<Longrightarrow> key_upper C c = [upper_unit c]"
  by (simp_all add: ascii_case_def)

lemma ascii_host_case [simp]: "ascii_case ascii_host"
  by (simp add: ascii_case_def ascii_host_def)

lemma default_bindings:
  "getDefaultShortcutBindings CommandPalette = u ''Mod+Shift+P''" "getDefaultShortcutBindings ShortcutHelp = u ''Mod+/''"
  "getDefaultShortcutBindings ToggleSidebar = u ''Mod+B''" "getDefaultShortcutBindings NewQuery = u ''Mod+T''"
  "getDefaultShortcutBindings CloseWorkspace = u ''Mod+W''" "getDefaultShortcutBindings NextWorkspace = u ''Ctrl+Tab''"
  "getDefaultShortcutBindings PreviousWorkspace = u ''Ctrl+Shift+Tab''" "getDefaultShortcutBindings ExecuteQuery = u ''Mod+R''"
  "getDefaultShortcutBindings CancelQuery = u ''Mod+.''" "getDefaultShortcutBindings SelectSql = u ''Mod+L''"
  "getDefaultShortcutBindings Find = u ''Mod+F''" "getDefaultShortcutBindings CopyResultSelection = u ''Mod+C''"
  "getDefaultShortcutBindings ViewResultCell = u ''F2''" "getDefaultShortcutBindings SelectRows = u ''Mod+A''"
  "getDefaultShortcutBindings SaveTable = u ''Mod+S''"
  by (simp_all add: getDefaultShortcutBindings_def new_map_def SHORTCUT_DEFINITIONS_def)

lemma definition_default: "\<exists>d. definition_by_id a = Some d \<and> sd_id d = a \<and> defaultBinding d = getDefaultShortcutBindings a"
  by (cases a) (simp_all add: default_bindings, simp_all add: definition_by_id_def new_map_def SHORTCUT_DEFINITIONS_def)

lemma default_normal: "ascii_case C \<Longrightarrow> normalizeShortcut C (getDefaultShortcutBindings a) = Some (getDefaultShortcutBindings a)"
  by (cases a; simp add: default_bindings js_eval [unfolded ascii_host_def])

lemma default_safe: "ascii_case C \<Longrightarrow> isSafeShortcutBinding C (getDefaultShortcutBindings a)"
  unfolding isSafeShortcutBinding_def
  by (subst default_normal, assumption) (cases a; simp add: default_bindings js_eval rx_test_def rx_exec_def)

lemma default_inj: "getDefaultShortcutBindings a = getDefaultShortcutBindings b \<Longrightarrow> a = b"
  by (cases a; cases b) (simp_all add: default_bindings u.simps)

lemma default_conflict_free: "ascii_case C \<Longrightarrow> conflict_free C getDefaultShortcutBindings"
  by (auto simp: conflict_free_def default_normal dest: default_inj)

subsection \<open>Settings\<close>

lemma publish_bindings [simp]: "currentBindings (publishShortcutBindings bs s) = bs"
  by (simp add: publishShortcutBindings_def)

lemma update_free:
  assumes free: "conflict_free C (currentBindings s)" and n: "normalizeShortcut C b = Some n" "normalizeShortcut C n = Some n"
  shows "conflict_free C (currentBindings (snd (updateShortcutBinding C a b s)))"
proof (cases "\<exists>c \<in> set SHORTCUT_DEFINITIONS. sd_id c \<noteq> a \<and> normalizeShortcut C (currentBindings s (sd_id c)) = Some n")
  case False
  have none: "normalizeShortcut C (currentBindings s c) \<noteq> Some n" if "c \<noteq> a" for c
    using False that actions_all [of c] by (auto simp: actions_def)
  then have "conflict_free C ((currentBindings s)(a := n))"
    using free n(2) by (simp add: conflict_free_def) (metis option.inject)
  with free show ?thesis by (simp add: updateShortcutBinding_def n split: option.split)
qed (simp add: updateShortcutBinding_def n free split: option.split)

lemma reset_free:
  assumes C: "ascii_case C" and free: "conflict_free C (currentBindings s)"
  shows "conflict_free C (currentBindings (snd (resetShortcutBinding C a s)))"
proof -
  obtain d where d: "definition_by_id a = Some d" "defaultBinding d = getDefaultShortcutBindings a"
    using definition_default by blast
  show ?thesis
  proof (cases "\<exists>c \<in> set SHORTCUT_DEFINITIONS. sd_id c \<noteq> a \<and>
      normalizeShortcut C (currentBindings s (sd_id c)) = normalizeShortcut C (defaultBinding d)")
    case False
    have "normalizeShortcut C (currentBindings s c) \<noteq> Some (getDefaultShortcutBindings a)" if "c \<noteq> a" for c
      using False that actions_all [of c] d by (auto simp: actions_def default_normal [OF C])
    then have "conflict_free C ((currentBindings s)(a := getDefaultShortcutBindings a))"
      using free by (simp add: conflict_free_def default_normal [OF C]) (metis default_normal [OF C] option.inject)
    with False d free show ?thesis by (simp add: resetShortcutBinding_def)
  qed (simp add: resetShortcutBinding_def d free)
qed

text \<open>Changes of the settings.\<close>

datatype shortcut_change = SetBinding ShortcutActionId js | ResetBinding ShortcutActionId | ResetAll | Reload

fun change_step :: "key_case \<Rightarrow> shortcut_store \<Rightarrow> shortcut_change \<Rightarrow> shortcut_store" where
  "change_step C s (SetBinding a b) = snd (updateShortcutBinding C a b s)"
| "change_step C s (ResetBinding a) = snd (resetShortcutBinding C a s)"
| "change_step C s ResetAll = resetAllShortcutBindings s"
| "change_step C s Reload = reloadShortcutBindings C s"

lemma load_safe: "ascii_case C \<Longrightarrow> isSafeShortcutBinding C (loadShortcutBindings C st a)"
  by (auto simp: loadShortcutBindings_def sanitizeShortcutBindings_def default_safe split: option.split json.split)

lemma change_safe:
  assumes C: "ascii_case C" and s: "\<forall>a. isSafeShortcutBinding C (currentBindings s a)"
  shows "\<forall>a. isSafeShortcutBinding C (currentBindings (change_step C s c) a)"
proof (cases c)
  case (SetBinding a b)
  then show ?thesis using s by (auto simp: updateShortcutBinding_def split: option.split)
next
  case (ResetBinding a)
  obtain d where "definition_by_id a = Some d" "defaultBinding d = getDefaultShortcutBindings a"
    using definition_default by blast
  with ResetBinding s show ?thesis by (auto simp: resetShortcutBinding_def default_safe [OF C])
qed (use C in \<open>simp_all add: resetAllShortcutBindings_def reloadShortcutBindings_def default_safe load_safe\<close>)

definition stable_bindings :: "key_case \<Rightarrow> ShortcutBindings \<Rightarrow> bool" where
  "stable_bindings C bs \<longleftrightarrow> (\<forall>a. normalizeShortcut C (bs a) = Some (bs a) \<and> isSafeShortcutBinding C (bs a))"

lemma action_name_inj: "action_name a = action_name b \<Longrightarrow> a = b"
  by (cases a; cases b) (simp_all add: u.simps)

lemma bindings_json_lookup: "map_of (map (\<lambda>d. (action_name (sd_id d), JStr (bs (sd_id d)))) ds) (action_name a)
    = (if a \<in> sd_id ` set ds then Some (JStr (bs a)) else None)"
  by (induction ds) (auto dest: action_name_inj)

lemma bindings_json_plain: "json_plain (bindings_json bs)"
proof -
  have "distinct (map action_name actions)"
    using actions_distinct action_name_inj by (simp add: distinct_map inj_on_def)
  then show ?thesis by (simp add: bindings_json_def actions_def comp_def)
qed



lemma normalizeShortcut_Nil: "normalizeShortcut C [] = None"
  by (simp add: normalizeShortcut_def)

interpretation shortcut_preference:
  preference SHORTCUT_STORAGE_KEY "loadShortcutBindings C" persist_bindings "stable_bindings C"
  for C
proof unfold_locales
  fix st :: local_storage and bs
  assume st: "reads st" "writes st" and bs: "stable_bindings C bs"
  have ne: "json_stringify (bindings_json bs) \<noteq> []" by (simp add: bindings_json_def)
  have "loadShortcutBindings C (persist_bindings bs st) = sanitizeShortcutBindings C (bindings_json bs)"
    using st ne by (simp add: loadShortcutBindings_def persist_bindings_def json_parse_stringify bindings_json_plain)
  also have "\<dots> = bs"
  proof
    fix a
    have "a \<in> sd_id ` set SHORTCUT_DEFINITIONS" using actions_all [of a] by (simp add: actions_def)
    moreover have "bs a \<noteq> []" "normalizeShortcut C (bs a) = Some (bs a)" "isSafeShortcutBinding C (bs a)"
      using bs by (metis normalizeShortcut_Nil option.distinct(1) stable_bindings_def)
        (use bs in \<open>simp_all add: stable_bindings_def\<close>)
    ultimately show "sanitizeShortcutBindings C (bindings_json bs) a = bs a"
      by (simp add: sanitizeShortcutBindings_def bindings_json_def bindings_json_lookup)
  qed
  finally show "loadShortcutBindings C (persist_bindings bs st) = bs" .
qed (auto simp: persist_bindings_def try_set_items loadShortcutBindings_def getItem_def)

subsection \<open>The properties\<close>



definition press :: "bool \<Rightarrow> bool \<Rightarrow> js \<Rightarrow> KeyboardShortcutEvent" where
  "press m c k = \<lparr> altKey = False, ctrlKey = c, ev_key = k, metaKey = m, shiftKey = False \<rparr>"

lemma match_newQuery: "matchesShortcut ascii_host (press m (\<not> m) (u ''t'')) (getDefaultShortcutBindings NewQuery)"
  by (simp add: default_bindings press_def js_eval)


text \<open>With Ctrl alone the promise fails: from the defaults, \<open>Ctrl+T\<close> is accepted for the
  search action, no conflict is reported, and one press of Ctrl and T then starts both the search
  and a new query, which is bound to \<open>Mod+T\<close>.\<close>

definition default_store :: "local_storage \<Rightarrow> shortcut_store" where
  "default_store st = \<lparr> currentBindings = getDefaultShortcutBindings, shortcutListeners = [], store = st, notified = [] \<rparr>"

lemma ctrl_T: "normalizeShortcut ascii_host (u ''Ctrl+T'') = Some (u ''Ctrl+T'')"
  by (simp add: js_eval)

lemma ctrl_T_safe: "isSafeShortcutBinding ascii_host (u ''Ctrl+T'')"
  unfolding isSafeShortcutBinding_def ctrl_T by (simp add: js_eval)

lemma ctrl_T_new: "getDefaultShortcutBindings c \<noteq> u ''Ctrl+T''"
  by (cases c) (simp_all add: default_bindings u.simps)

lemma update_ctrl_T:
  "updateShortcutBinding ascii_host Find (u ''Ctrl+T'') (default_store st)
     = (True, publishShortcutBindings (getDefaultShortcutBindings(Find := u ''Ctrl+T'')) (default_store st))"
proof -
  obtain d where "definition_by_id Find = Some d" using definition_default by blast
  moreover have "u ''Ctrl+T'' \<noteq> []" by (simp add: u.simps)
  ultimately show ?thesis
    by (simp add: updateShortcutBinding_def ctrl_T ctrl_T_safe default_store_def default_normal ctrl_T_new)
qed

theorem ctrl_press_two_actions:
  "case updateShortcutBinding ascii_host Find (u ''Ctrl+T'') (default_store st) of (accepted, s) \<Rightarrow>
     accepted \<and> findShortcutConflicts ascii_host (currentBindings s) = []
     \<and> matchesShortcut ascii_host (press False True (u ''t'')) (currentBindings s Find)
     \<and> matchesShortcut ascii_host (press False True (u ''t'')) (currentBindings s NewQuery)"
proof -
  have "conflict_free ascii_host (currentBindings (snd (updateShortcutBinding ascii_host Find (u ''Ctrl+T'') (default_store st))))"
    by (rule update_free [OF _ ctrl_T ctrl_T]) (simp add: default_store_def default_conflict_free)
  then have "conflict_free ascii_host (getDefaultShortcutBindings(Find := u ''Ctrl+T''))" by (simp add: update_ctrl_T)
  moreover have "matchesShortcut ascii_host (press False True (u ''t'')) (u ''Ctrl+T'')"
    unfolding matchesShortcut_def ctrl_T by (simp add: press_def js_eval)
  ultimately show ?thesis using match_newQuery [of False] by (simp add: update_ctrl_T conflicts_iff)
qed

text \<open>C37: Changing, resetting one or resetting all bindings introduces no conflict, when the
  new binding is one that normalizing leaves as it is.\<close>

theorem settings_stay_conflict_free:
  assumes "ascii_case C" and "findShortcutConflicts C (currentBindings s) = []"
    and "normalizeShortcut C b = Some n" and "normalizeShortcut C n = Some n"
  shows "findShortcutConflicts C (currentBindings (snd (updateShortcutBinding C a b s))) = []
    \<and> findShortcutConflicts C (currentBindings (snd (resetShortcutBinding C a s))) = []
    \<and> findShortcutConflicts C (currentBindings (resetAllShortcutBindings s)) = []"
  using assms update_free [of C s b n a] reset_free [of C s a] default_conflict_free [of C]
  by (simp add: conflicts_iff resetAllShortcutBindings_def)

theorem settings_stay_conflict_free_witness:
  "findShortcutConflicts ascii_host (currentBindings (snd (updateShortcutBinding ascii_host Find (u ''Ctrl+T'')
     (default_store \<lparr> items = Map.empty, reads = True, writes = True \<rparr>)))) = []"
  using settings_stay_conflict_free [of ascii_host "default_store \<lparr> items = Map.empty, reads = True, writes = True \<rparr>"
      "u ''Ctrl+T''" "u ''Ctrl+T''" Find]
  by (simp add: ctrl_T default_store_def default_conflict_free conflicts_iff)

definition browser_key :: "js \<Rightarrow> bool" where
  "browser_key k \<longleftrightarrow> is_ascii k \<and> PLUS \<notin> set k \<and> (trim k = k \<or> k = u '' '') \<and> modifier_of (to_lower k) = None
     \<and> k \<notin> {u ''esc'', u ''spacebar'', u ''del''}"

lemma browser_key_settled:
  assumes "ascii_case C" and "normalizePrimaryKey C k = Some p" and "browser_key k"
  shows "settled_key p"
proof -
  have "p = upper_unit (hd k) # tl k \<Longrightarrow> k \<notin> {u '' '', u ''Esc'', u ''Spacebar'', u ''Del'', []} \<Longrightarrow> settled_key p"
    using assms(3) by (cases k) (auto simp: settled_key_def browser_key_def u.simps upper_unit_def is_lower_def split: if_splits)
  then show ?thesis using primary_key_text [OF assms(1,2)] assms(3)
    by (auto simp: browser_key_def settled_key_def u.simps)
qed

text \<open>A press recorded as a binding matches that binding afterwards, for the keys a browser names
  in ASCII other than the plus sign.\<close>

theorem press_captured:
  assumes C: "ascii_case C" and k: "browser_key (ev_key e)" and b: "shortcutFromKeyboardEvent C e = Some b"
  shows "matchesShortcut C e b"
proof -
  let ?ms = "(if metaKey e then [u ''Mod''] else []) @ (if ctrlKey e then [u ''Ctrl''] else [])
      @ (if altKey e then [u ''Alt''] else []) @ (if shiftKey e then [u ''Shift''] else [])"
  obtain p where p: "normalizePrimaryKey C (ev_key e) = Some p" "b = binding_text ?ms p"
    using b by (auto simp: shortcutFromKeyboardEvent_def split: option.splits if_splits)
  have key: "canonical_key p"
    by (rule primary_key_canonical [OF C p(1)]) (use k in \<open>auto simp: browser_key_def\<close>)
  have fixp: "normalizePrimaryKey C p = Some p"
    by (rule primary_key_fixed [OF C p(1) _ key browser_key_settled [OF C p(1) k]]) (use k in \<open>simp add: browser_key_def\<close>)
  have ms: "canonical_mods ?ms" by (simp add: canonical_mods_def MODIFIER_ORDER_def u.simps)
  have n: "normalizeShortcut C b = Some (binding_text ?ms p)"
    unfolding p(2) normalize_binding_text [OF C ms key] fixp using key by (simp add: canonical_key_def)
  have "canonical_match C e b ?ms p"
    using n p(1) ms by (simp add: canonical_match_def u.simps)
  then show ?thesis using matches_binding_text [OF n ms key] by simp
qed

theorem press_captured_witness: "matchesShortcut ascii_host (press True False (u ''t'')) (u ''Mod+T'')"
  by (rule press_captured [OF ascii_host_case]) (simp_all add: browser_key_def press_def js_eval)

text \<open>Every binding in force has a command modifier or is a function key, whatever was stored
  and however the settings were changed, so that no binding swallows ordinary typing.\<close>

theorem bindings_always_safe:
  assumes "ascii_case C" and "currentBindings s = loadShortcutBindings C (store s)"
  shows "isSafeShortcutBinding C (currentBindings (foldl (change_step C) s changes) a)"
proof -
  have "\<forall>a. isSafeShortcutBinding C (currentBindings (foldl (change_step C) s changes) a)"
    by (rule foldl_keeps [where P = "\<lambda>s. \<forall>a. isSafeShortcutBinding C (currentBindings s a)"])
      (use assms load_safe change_safe in simp_all)
  then show ?thesis ..
qed

theorem bindings_always_safe_witness:
  "isSafeShortcutBinding ascii_host (currentBindings (foldl (change_step ascii_host)
     (default_store \<lparr> items = Map.empty, reads = True, writes = True \<rparr>) [SetBinding Find (u ''x''), ResetAll]) Find)"
  by (rule bindings_always_safe) (simp_all add: default_store_def loadShortcutBindings_def getItem_def)

text \<open>Settings that were saved are the settings the next start loads.\<close>

lemma shortcuts_persist:
  assumes "stable_bindings C bs" and "reads (store s)" and "writes (store s)"
  shows "loadShortcutBindings C (store (publishShortcutBindings bs s)) = bs"
  using assms shortcut_preference.load_persist by (simp add: publishShortcutBindings_def)

end
