(* ===== verification/Connections.thy ===== *)
theory Connections
  imports Query_Session Table_Ddl Js_Sort
begin

text \<open>
  Saved connections and their schemas: labels and search (\<open>features/connections/connectionLabels.ts\<close>), the
  config export (\<open>connectionErrors.ts\<close>), the profile list (\<open>useConnections.ts\<close>), the add-connection flow
  (\<open>useConnectionFormFlow.ts\<close>), the schema list (\<open>mysqlDatabases.ts\<close>) and the create and drop flows
  (\<open>useDatabaseOperations.ts\<close>).

  Hooks are records of their React state; an awaited call is a field that holds what the continuation
  needs, and the step that settles it runs the continuation. Between two steps the component renders, so
  a handler sees the state the previous step left.
\<close>

section \<open>Profiles\<close>

datatype Engine = MySql | PostgreSql | MongoDb | RedisEngine

datatype Environment = Production | Development | Unspecified

datatype TlsMode = TlsDisabled | TlsPreferred | TlsRequired

record ConnectionProfile =
  cp_id :: js
  cp_name :: js
  engine :: Engine
  environment :: Environment
  host :: js
  port :: nat
  username :: js
  cp_database :: "js option"
  tlsMode :: TlsMode

definition ENGINE_GROUPS :: "(Engine \<times> js) list" where
  "ENGINE_GROUPS = [(MySql, u ''MySQL''), (PostgreSql, u ''PostgreSQL''), (MongoDb, u ''MongoDB''), (RedisEngine, u ''Redis'')]"

fun engineLabel :: "Engine \<Rightarrow> js" where
  "engineLabel MySql = u ''MySQL''"
| "engineLabel PostgreSql = u ''PostgreSQL''"
| "engineLabel MongoDb = u ''MongoDB''"
| "engineLabel RedisEngine = u ''Redis''"

fun environmentLabel :: "Environment \<Rightarrow> js" where
  "environmentLabel Production = ([29983, 20135])"
| "environmentLabel Development = ([24320, 21457])"
| "environmentLabel Unspecified = ([26410, 25351, 23450])"

definition opt_text :: "js option \<Rightarrow> js" where
  "opt_text v = (case v of None \<Rightarrow> [] | Some s \<Rightarrow> s)"

definition connectionIdentityMatches :: "(js \<Rightarrow> js) \<Rightarrow> ConnectionProfile \<Rightarrow> js \<Rightarrow> bool" where
  "connectionIdentityMatches lower profile normalizedQuery =
     (if normalizedQuery = [] then True
      else has_sub (lower (join (u '' '') [cp_name profile, host profile, dec (port profile),
             opt_text (cp_database profile)])) normalizedQuery)"

text \<open>The values of the unions as they cross the IPC boundary.\<close>

fun engine_text :: "Engine \<Rightarrow> js" where
  "engine_text MySql = u ''my_sql''"
| "engine_text PostgreSql = u ''postgre_sql''"
| "engine_text MongoDb = u ''mongo_db''"
| "engine_text RedisEngine = u ''redis''"

fun environment_text :: "Environment \<Rightarrow> js" where
  "environment_text Production = u ''production''"
| "environment_text Development = u ''development''"
| "environment_text Unspecified = u ''unspecified''"

fun tls_text :: "TlsMode \<Rightarrow> js" where
  "tls_text TlsDisabled = u ''disabled''"
| "tls_text TlsPreferred = u ''preferred''"
| "tls_text TlsRequired = u ''required''"

text \<open>\<open>JSON.stringify(object, null, 2)\<close> of an object without nested values.\<close>

definition stringify_flat :: "(js \<times> json) list \<Rightarrow> js" where
  "stringify_flat ms =
     u ''{'' @ [NEWLINE] @ join [COMMA, NEWLINE] (map (\<lambda>(k, v). u ''  '' @ json_quote k @ u '': '' @ json_stringify v) ms)
       @ [NEWLINE] @ u ''}''"

definition config_fields :: "ConnectionProfile \<Rightarrow> (js \<times> json) list" where
  "config_fields p =
     [(u ''engine'', JStr (engine_text (engine p))), (u ''name'', JStr (cp_name p)),
      (u ''environment'', JStr (environment_text (environment p))), (u ''host'', JStr (host p)),
      (u ''port'', JNum (num_of_nat (port p))), (u ''username'', JStr (username p)),
      (u ''database'', (case cp_database p of None \<Rightarrow> JNull | Some d \<Rightarrow> JStr d)),
      (u ''tlsMode'', JStr (tls_text (tlsMode p)))]"

definition formatConnectionConfigExport :: "ConnectionProfile \<Rightarrow> js" where
  "formatConnectionConfigExport p = stringify_flat (config_fields p)"

section \<open>The profile list\<close>

text \<open>\<open>pendingLoads\<close> counts the list requests under way.\<close>

record connections =
  profiles :: "ConnectionProfile list"
  selectedConnectionId :: "js option"
  c_loading :: bool
  c_error :: "js option"
  pendingLoads :: nat

definition LOAD_CONNECTIONS_ERROR :: js where
  "LOAD_CONNECTIONS_ERROR = ([26080, 27861, 21152, 36733, 36830, 25509, 12290, 35831, 26816, 26597, 26412, 22320, 20973, 25454, 23384, 20648, 65292, 28982, 21518, 37325, 35797, 12290])"

definition init_connections :: connections where
  "init_connections = \<lparr> profiles = [], selectedConnectionId = None, c_loading = True, c_error = None, pendingLoads = 0 \<rparr>"

definition reload :: "connections \<Rightarrow> connections" where
  "reload s = s \<lparr> c_loading := True, c_error := None, pendingLoads := pendingLoads s + 1 \<rparr>"

definition reload_settled :: "ConnectionProfile list option \<Rightarrow> connections \<Rightarrow> connections" where
  "reload_settled answer s =
     (if pendingLoads s = 0 then s
      else (case answer of
              Some ps \<Rightarrow> s \<lparr> profiles := ps \<rparr>
            | None \<Rightarrow> s \<lparr> c_error := Some LOAD_CONNECTIONS_ERROR \<rparr>)
           \<lparr> c_loading := False, pendingLoads := pendingLoads s - 1 \<rparr>)"

definition selectConnection :: "js \<Rightarrow> connections \<Rightarrow> connections" where
  "selectConnection i s = s \<lparr> selectedConnectionId := Some i \<rparr>"

definition addProfile :: "ConnectionProfile \<Rightarrow> connections \<Rightarrow> connections" where
  "addProfile p s =
     s \<lparr> profiles := (if find_index (\<lambda>x. cp_id x = cp_id p) (profiles s) = None then profiles s @ [p]
                      else map (\<lambda>x. if cp_id x = cp_id p then p else x) (profiles s)),
         selectedConnectionId := Some (cp_id p) \<rparr>"

definition nearest :: "ConnectionProfile list \<Rightarrow> nat \<Rightarrow> js option" where
  "nearest ps i =
     (case at ps i of
        Some p \<Rightarrow> Some (cp_id p)
      | None \<Rightarrow> if i = 0 then None else map_option cp_id (at ps (i - 1)))"

definition removeProfile :: "js \<Rightarrow> connections \<Rightarrow> connections" where
  "removeProfile i s =
     (case find_index (\<lambda>p. cp_id p = i) (profiles s) of
        None \<Rightarrow> s
      | Some removedIndex \<Rightarrow>
          (let nextProfiles = filter (\<lambda>p. cp_id p \<noteq> i) (profiles s)
           in s \<lparr> profiles := nextProfiles,
                  selectedConnectionId := (if selectedConnectionId s = Some i then nearest nextProfiles removedIndex
                                           else selectedConnectionId s) \<rparr>))"

section \<open>The add-connection flow\<close>

record form_flow =
  flow_open :: bool
  flow_engine :: "Engine option"

definition init_flow :: form_flow where
  "init_flow = \<lparr> flow_open = False, flow_engine = None \<rparr>"

datatype flow_action = FlowStart bool | FlowSelect Engine | FlowBack | FlowClose

fun flow_step :: "form_flow \<Rightarrow> flow_action \<Rightarrow> form_flow" where
  "flow_step s (FlowStart canStart) = (if \<not> canStart then s else \<lparr> flow_open = True, flow_engine = None \<rparr>)"
| "flow_step s (FlowSelect e) = s \<lparr> flow_engine := Some e \<rparr>"
| "flow_step s FlowBack = s \<lparr> flow_engine := None \<rparr>"
| "flow_step s FlowClose = \<lparr> flow_open = False, flow_engine = None \<rparr>"

section \<open>Schemas\<close>

record MySqlDatabaseInfo =
  db_name :: js
  charset :: js
  collation :: js
  system :: bool

definition SYSTEM_DATABASES :: "js list" where
  "SYSTEM_DATABASES = [u ''information_schema'', u ''mysql'', u ''performance_schema'', u ''sys'']"

definition isSystemDatabase :: "js \<Rightarrow> bool" where
  "isSystemDatabase name = (to_lower name \<in> set SYSTEM_DATABASES)"

definition cellText :: "CellValue option \<Rightarrow> js" where
  "cellText cell =
     (case cell of
        None \<Rightarrow> []
      | Some CNull \<Rightarrow> []
      | Some (CBoolean b) \<Rightarrow> (if b then u ''true'' else u ''false'')
      | Some (CBinary b) \<Rightarrow> []
      | Some (CFloat x) \<Rightarrow> num_to_string x
      | Some (CInteger t) \<Rightarrow> t
      | Some (CDecimal t) \<Rightarrow> t
      | Some (CText t) \<Rightarrow> t
      | Some (CJson t) \<Rightarrow> t
      | Some (CDateTime t) \<Rightarrow> t)"

definition LIST_DATABASES_SQL :: js where
  "LIST_DATABASES_SQL =
     u ''SELECT SCHEMA_NAME, DEFAULT_CHARACTER_SET_NAME, DEFAULT_COLLATION_NAME'' @ [NEWLINE]
     @ u ''FROM INFORMATION_SCHEMA.SCHEMATA'' @ [NEWLINE] @ u ''ORDER BY SCHEMA_NAME;''"

definition database_row :: "CellValue list \<Rightarrow> MySqlDatabaseInfo" where
  "database_row row =
     (let name = cellText (at row 0)
      in \<lparr> db_name = name, charset = cellText (at row 1), collation = cellText (at row 2),
           system = isSystemDatabase name \<rparr>)"

definition database_compare :: "(js \<Rightarrow> js \<Rightarrow> int) \<Rightarrow> MySqlDatabaseInfo \<Rightarrow> MySqlDatabaseInfo \<Rightarrow> int" where
  "database_compare lc left right =
     (let d = (of_bool (system left) :: int) - of_bool (system right)
      in if d \<noteq> 0 then d else lc (db_name left) (db_name right))"

text \<open>The list made of the rows the query returned.\<close>

definition listMySqlDatabases :: "(js \<Rightarrow> js \<Rightarrow> int) \<Rightarrow> CellValue list list \<Rightarrow> MySqlDatabaseInfo list" where
  "listMySqlDatabases lc rows =
     js_sort (database_compare lc) (filter (\<lambda>d. length (db_name d) > 0) (map database_row rows))"

definition countTablesSql :: "js \<Rightarrow> js" where
  "countTablesSql database =
     u ''SELECT COUNT(*) FROM INFORMATION_SCHEMA.TABLES'' @ [NEWLINE]
     @ u ''WHERE TABLE_SCHEMA = '' @ mysqlStringLiteral database @ u '';''"

definition countDatabaseTables :: "CellValue list list \<Rightarrow> js_num" where
  "countDatabaseTables rows =
     (let count = js_Number (cellText (case at rows 0 of None \<Rightarrow> None | Some row \<Rightarrow> at row 0))
      in if is_finite count then count else num_of_nat 0)"

definition buildShowTablesStatement :: "js \<Rightarrow> js" where
  "buildShowTablesStatement database = u ''SHOW FULL TABLES FROM '' @ quoteIdentifier database @ u '';''"

section \<open>Creating and dropping schemas\<close>

record CreateDatabaseRequest =
  cdr_name :: js
  cdr_charset :: js
  cdr_collation :: js

record CreateDatabasePlan =
  plan_statement :: js
  plan_error :: "js option"

text \<open>What \<open>confirmCreate\<close> awaits: the plan from the backend, or the statement's outcome.\<close>

datatype create_flight = AwaitPlan js js js | AwaitCreate js js js

record db_ops =
  pendingCreate :: "js option"
  creating :: bool
  createError :: "js option"
  pendingDrop :: "(js \<times> js) option"
  dropping :: bool
  dropError :: "js option"
  createFlight :: "create_flight option"
  dropFlight :: "(js \<times> js) option"

definition init_db_ops :: db_ops where
  "init_db_ops = \<lparr> pendingCreate = None, creating = False, createError = None, pendingDrop = None, dropping = False,
     dropError = None, createFlight = None, dropFlight = None \<rparr>"

datatype db_effect =
  SelectConnection js | ClearError | ShowNotice js | DatabaseCreated js | DatabaseDropped js js
| AskPlan js "js option" "js option" | ExecuteOnce js js

definition requestCreate :: "ConnectionProfile \<Rightarrow> db_ops \<Rightarrow> db_ops \<times> db_effect list" where
  "requestCreate p s =
     (if engine p \<noteq> MySql then (s, [])
      else (s \<lparr> createError := None, pendingCreate := Some (cp_id p) \<rparr>, [SelectConnection (cp_id p), ClearError]))"

definition cancelCreate :: "db_ops \<Rightarrow> db_ops \<times> db_effect list" where
  "cancelCreate s = (if creating s then (s, []) else (s \<lparr> pendingCreate := None, createError := None \<rparr>, []))"

definition falsy_null :: "js \<Rightarrow> js option" where
  "falsy_null t = (if t = [] then None else Some t)"

definition confirmCreate ::
  "(js \<Rightarrow> ConnectionProfile option) \<Rightarrow> CreateDatabaseRequest \<Rightarrow> db_ops \<Rightarrow> db_ops \<times> db_effect list" where
  "confirmCreate findProfile request s =
     (case pendingCreate s of
        None \<Rightarrow> (s, [])
      | Some c \<Rightarrow>
          if creating s then (s, [])
          else (case findProfile c of
                  None \<Rightarrow> (s, [])
                | Some profile \<Rightarrow>
                    (case databaseNameValidationError (cdr_name request) of
                       Some e \<Rightarrow> (s \<lparr> createError := Some e \<rparr>, [])
                     | None \<Rightarrow>
                         (let databaseName = trim (cdr_name request)
                          in (s \<lparr> creating := True, createError := None,
                                  createFlight := Some (AwaitPlan c (cp_name profile) databaseName) \<rparr>,
                              [AskPlan databaseName (falsy_null (cdr_charset request))
                                 (falsy_null (cdr_collation request))])))))"

definition CREATE_FALLBACK :: js where "CREATE_FALLBACK = ([21019, 24314, 25968, 25454, 24211, 22833, 36133, 65292, 35831, 37325, 35797, 12290])"
definition DROP_FALLBACK :: js where "DROP_FALLBACK = ([21024, 38500, 25968, 25454, 24211, 22833, 36133, 65292, 35831, 37325, 35797, 12290])"

definition create_failed :: "rejection \<Rightarrow> db_ops \<Rightarrow> db_ops" where
  "create_failed e s =
     s \<lparr> createError := Some (getConnectionActionError e CREATE_FALLBACK), creating := False, createFlight := None \<rparr>"

definition plan_settled :: "rejection + CreateDatabasePlan \<Rightarrow> db_ops \<Rightarrow> db_ops \<times> db_effect list" where
  "plan_settled answer s =
     (case createFlight s of
        Some (AwaitPlan c name databaseName) \<Rightarrow>
          (case answer of
             Inl e \<Rightarrow> (create_failed e s, [])
           | Inr plan \<Rightarrow>
               (case plan_error plan of
                  Some e \<Rightarrow> (s \<lparr> createError := Some e, creating := False, createFlight := None \<rparr>, [])
                | None \<Rightarrow> (s \<lparr> createFlight := Some (AwaitCreate c name databaseName) \<rparr>,
                           [ExecuteOnce c (plan_statement plan)])))
      | _ \<Rightarrow> (s, []))"

definition create_settled :: "rejection option \<Rightarrow> db_ops \<Rightarrow> db_ops \<times> db_effect list" where
  "create_settled answer s =
     (case createFlight s of
        Some (AwaitCreate c name databaseName) \<Rightarrow>
          (case answer of
             Some e \<Rightarrow> (create_failed e s, [])
           | None \<Rightarrow>
               (s \<lparr> pendingCreate := None, creating := False, createFlight := None \<rparr>,
                [DatabaseCreated c, ShowNotice (([24050, 22312, 36830, 25509, 8220]) @ name @ ([8221, 20013, 21019, 24314, 25968, 25454, 24211, 8220]) @ databaseName
                   @ ([8221, 12290, 35201, 27983, 35272, 23427, 65292, 35831, 25226, 36830, 25509, 30340, 40664, 35748, 25968, 25454, 24211, 25913, 20026, 35813, 24211, 12290]))]))
      | _ \<Rightarrow> (s, []))"

definition requestDrop :: "ConnectionProfile \<Rightarrow> js \<Rightarrow> db_ops \<Rightarrow> db_ops \<times> db_effect list" where
  "requestDrop p database s = (s \<lparr> dropError := None, pendingDrop := Some (cp_id p, database) \<rparr>, [])"

definition cancelDrop :: "db_ops \<Rightarrow> db_ops \<times> db_effect list" where
  "cancelDrop s = (if dropping s then (s, []) else (s \<lparr> pendingDrop := None, dropError := None \<rparr>, []))"

definition dropStatement :: "js \<Rightarrow> js" where
  "dropStatement database = u ''DROP DATABASE '' @ quoteIdentifier database @ u '';''"

definition confirmDrop ::
  "(js \<Rightarrow> ConnectionProfile option) \<Rightarrow> db_ops \<Rightarrow> db_ops \<times> db_effect list" where
  "confirmDrop findProfile s =
     (case pendingDrop s of
        None \<Rightarrow> (s, [])
      | Some (c, database) \<Rightarrow>
          if dropping s \<or> findProfile c = None then (s, [])
          else (s \<lparr> dropping := True, dropError := None, dropFlight := Some (c, database) \<rparr>,
                [ExecuteOnce c (dropStatement database)]))"

definition drop_settled :: "rejection option \<Rightarrow> db_ops \<Rightarrow> db_ops \<times> db_effect list" where
  "drop_settled answer s =
     (case dropFlight s of
        None \<Rightarrow> (s, [])
      | Some (c, database) \<Rightarrow>
          (case answer of
             Some e \<Rightarrow> (s \<lparr> dropError := Some (getConnectionActionError e DROP_FALLBACK), dropping := False,
                            dropFlight := None \<rparr>, [])
           | None \<Rightarrow> (s \<lparr> pendingDrop := None, dropping := False, dropFlight := None \<rparr>,
                      [DatabaseDropped c database, ShowNotice (([24050, 21024, 38500, 25968, 25454, 24211, 8220]) @ database @ ([8221, 12290]))])))"

datatype db_label =
  RequestCreate ConnectionProfile | CancelCreate | ConfirmCreate CreateDatabaseRequest
| PlanSettled "rejection + CreateDatabasePlan" | CreateSettled "rejection option"
| RequestDrop ConnectionProfile js | CancelDrop | ConfirmDrop | DropSettled "rejection option"

fun db_step :: "(js \<Rightarrow> ConnectionProfile option) \<Rightarrow> db_label \<Rightarrow> db_ops \<Rightarrow> db_ops \<times> db_effect list" where
  "db_step f (RequestCreate p) s = requestCreate p s"
| "db_step f CancelCreate s = cancelCreate s"
| "db_step f (ConfirmCreate r) s = confirmCreate f r s"
| "db_step f (PlanSettled a) s = plan_settled a s"
| "db_step f (CreateSettled a) s = create_settled a s"
| "db_step f (RequestDrop p d) s = requestDrop p d s"
| "db_step f CancelDrop s = cancelDrop s"
| "db_step f ConfirmDrop s = confirmDrop f s"
| "db_step f (DropSettled a) s = drop_settled a s"

lemmas db_step_defs =
  requestCreate_def cancelCreate_def confirmCreate_def plan_settled_def create_settled_def create_failed_def
  requestDrop_def cancelDrop_def confirmDrop_def drop_settled_def

section \<open>The flows\<close>

inductive db_reachable :: "(js \<Rightarrow> ConnectionProfile option) \<Rightarrow> db_ops \<Rightarrow> bool" for f where
  start: "db_reachable f init_db_ops"
| step: "db_reachable f s \<Longrightarrow> db_reachable f (fst (db_step f l s))"

fun flight_name :: "create_flight \<Rightarrow> js" where
  "flight_name (AwaitPlan c n d) = d"
| "flight_name (AwaitCreate c n d) = d"

definition db_inv :: "db_ops \<Rightarrow> bool" where
  "db_inv s \<longleftrightarrow> (creating s \<longleftrightarrow> createFlight s \<noteq> None) \<and> (dropping s \<longleftrightarrow> dropFlight s \<noteq> None)
     \<and> (\<forall>fl. createFlight s = Some fl \<longrightarrow> databaseNameValidationError (flight_name fl) = None)"

lemma validation_trim [simp]: "databaseNameValidationError (trim d) = databaseNameValidationError d"
  by (simp add: databaseNameValidationError_def)

lemma db_inv_step: "db_inv s \<Longrightarrow> db_inv (fst (db_step f l s))"
proof (cases l)
  case (ConfirmCreate r)
  then show "db_inv s \<Longrightarrow> ?thesis"
    by (auto simp: db_inv_def confirmCreate_def Let_def split: option.split)
next
  case (PlanSettled a)
  then show "db_inv s \<Longrightarrow> ?thesis"
    by (auto simp: db_inv_def plan_settled_def create_failed_def split: option.split sum.split create_flight.split)
next
  case (CreateSettled a)
  then show "db_inv s \<Longrightarrow> ?thesis"
    by (auto simp: db_inv_def create_settled_def create_failed_def split: option.split create_flight.split)
next
  case (DropSettled a)
  then show "db_inv s \<Longrightarrow> ?thesis"
    by (auto simp: db_inv_def drop_settled_def split: option.split)
next
  case ConfirmDrop
  then show "db_inv s \<Longrightarrow> ?thesis"
    by (auto simp: db_inv_def confirmDrop_def split: option.split)
qed (auto simp: db_inv_def requestCreate_def cancelCreate_def requestDrop_def cancelDrop_def)

lemma db_reachable_inv: "db_reachable f s \<Longrightarrow> db_inv s"
  by (induction rule: db_reachable.induct) (simp_all add: db_inv_step, simp add: db_inv_def init_db_ops_def)


definition sample_profile :: ConnectionProfile where
  "sample_profile = \<lparr> cp_id = [99], cp_name = [110], engine = MySql, environment = Production, host = [104], port = 3306,
     username = [117], cp_database = None, tlsMode = TlsRequired \<rparr>"

abbreviation sample_find :: "js \<Rightarrow> ConnectionProfile option" where
  "sample_find \<equiv> (\<lambda>i. if i = [99] then Some sample_profile else None)"


text \<open>C39: No flow hangs, whether or not the other one runs: whatever the backend answers, a
  creation under way is over once its plan and its statement were answered and a drop under way once its statement was, and
  then either the dialog is closed or it shows an error.\<close>

theorem database_operation_settles:
  assumes "db_reachable f s"
  shows "(creating s \<longrightarrow>
           (let s' = fst (db_step f (CreateSettled answer) (fst (db_step f (PlanSettled plan) s)))
            in \<not> creating s' \<and> createFlight s' = None \<and> (pendingCreate s' = None \<or> createError s' \<noteq> None)))
       \<and> (dropping s \<longrightarrow>
           (let s' = fst (db_step f (DropSettled answer) s)
            in \<not> dropping s' \<and> dropFlight s' = None \<and> (pendingDrop s' = None \<or> dropError s' \<noteq> None)))"
proof -
  have inv: "creating s \<longrightarrow> createFlight s \<noteq> None" "dropping s \<longrightarrow> dropFlight s \<noteq> None"
    using db_reachable_inv [OF assms] by (simp_all add: db_inv_def)
  then show ?thesis
    by (auto simp: Let_def plan_settled_def create_settled_def create_failed_def drop_settled_def
        split: option.split sum.split create_flight.split)
qed

text \<open>A creation alone, whose plan the backend refuses, and a drop alone.\<close>

definition only_creating :: db_ops where
  "only_creating = foldl (\<lambda>s l. fst (db_step sample_find l s)) init_db_ops
     [RequestCreate sample_profile, ConfirmCreate \<lparr> cdr_name = [100], cdr_charset = [], cdr_collation = [] \<rparr>]"

definition only_dropping :: db_ops where
  "only_dropping = foldl (\<lambda>s l. fst (db_step sample_find l s)) init_db_ops [RequestDrop sample_profile [101], ConfirmDrop]"

theorem database_operation_settles_witness:
  "creating only_creating \<and> \<not> dropping only_creating \<and>
     \<not> creating (fst (db_step sample_find (CreateSettled None)
         (fst (db_step sample_find (PlanSettled (Inl RejOther)) only_creating)))) \<and>
   dropping only_dropping \<and> \<not> creating only_dropping \<and>
     \<not> dropping (fst (db_step sample_find (DropSettled None) only_dropping))"
proof -
  have "db_reachable sample_find only_creating" "db_reachable sample_find only_dropping"
    unfolding only_creating_def only_dropping_def
    by (rule foldl_keeps [where P = "db_reachable sample_find"]; rule db_reachable.step db_reachable.start; assumption?)+
  moreover have "creating only_creating \<and> \<not> dropping only_creating" "dropping only_dropping \<and> \<not> creating only_dropping"
    by (simp_all add: only_creating_def only_dropping_def db_step_defs init_db_ops_def sample_profile_def js_eval
        MAX_DATABASE_NAME_LENGTH_def Let_def)
  ultimately show ?thesis
    using database_operation_settles [of sample_find only_creating None "Inl RejOther"]
      database_operation_settles [of sample_find only_dropping None "Inl RejOther"] by (simp add: Let_def)
qed

section \<open>The schema list\<close>

lemma database_comparator:
  assumes lc: "comparator_on lc UNIV"
  shows "comparator_on (database_compare lc) UNIV"
proof
  fix x y z :: MySqlDatabaseInfo
  show "database_compare lc x y \<le> 0 \<or> database_compare lc y x \<le> 0"
    using comparator_on.total [OF lc, of "db_name x" "db_name y"] by (auto simp: database_compare_def Let_def of_bool_def)
  assume "database_compare lc x y \<le> 0" "database_compare lc y z \<le> 0"
  then show "database_compare lc x z \<le> 0"
    using comparator_on.trans [OF lc, of "db_name x" "db_name y" "db_name z"]
    by (auto simp: database_compare_def Let_def of_bool_def split: if_splits)
qed

text \<open>The schema list holds exactly the named schemas of the answer, the user's own before the
  server's, each group in the order of the names.\<close>

theorem databases_listed:
  assumes "comparator_on lc UNIV"
  shows "mset (listMySqlDatabases lc rows) = mset (filter (\<lambda>d. db_name d \<noteq> []) (map database_row rows))
    \<and> sorted_wrt (\<lambda>x y. (system x \<longrightarrow> system y) \<and> (system x = system y \<longrightarrow> lc (db_name x) (db_name y) \<le> 0))
        (listMySqlDatabases lc rows)"
proof -
  have "sorted_wrt (\<lambda>x y. database_compare lc x y \<le> 0) (listMySqlDatabases lc rows)"
    unfolding listMySqlDatabases_def by (rule comparator_on.sorted_js_sort [OF database_comparator [OF assms]]) simp
  then show ?thesis
    by (auto simp: listMySqlDatabases_def database_compare_def Let_def of_bool_def
        intro: sorted_wrt_mono_rel [rotated] split: if_splits)
qed

theorem databases_listed_witness:
  "mset (listMySqlDatabases (\<lambda>_ _. 0) [[CText [115, 121, 115]], [CText [98]]])
     = mset (filter (\<lambda>d. db_name d \<noteq> []) (map database_row [[CText [115, 121, 115]], [CText [98]]]))"
  using databases_listed [of "\<lambda>_ _. 0"] by (simp add: comparator_on_def)

section \<open>The profile list\<close>

lemma nearest_member: "nearest ps i = Some k \<Longrightarrow> k \<in> cp_id ` set ps"
  by (auto simp: nearest_def split: option.splits if_splits)

lemma nearest_None: "i \<le> length ps \<Longrightarrow> nearest ps i = None \<longleftrightarrow> ps = []"
  by (auto simp: nearest_def at_def split: option.splits if_splits)

lemma filter_ids_shorter:
  "find_index (\<lambda>p. cp_id p = i) ps = Some j \<Longrightarrow> distinct (map cp_id ps) \<Longrightarrow> j \<le> length (filter (\<lambda>p. cp_id p \<noteq> i) ps)"
proof (induction ps arbitrary: j)
  case (Cons p ps)
  have "cp_id p = i \<Longrightarrow> filter (\<lambda>p. cp_id p \<noteq> i) ps = ps" using Cons.prems(2) by (fastforce simp: filter_id_conv image_iff)
  with Cons show ?case by (auto split: if_splits)
qed simp

text \<open>Identifiers stay unique: saving a profile replaces the one with its identifier in place or
  appends it, and selects it; deleting removes exactly it, and a deleted selection moves to a surviving
  neighbour as long as there is one.\<close>

theorem profiles_follow_edits:
  assumes "distinct (map cp_id (profiles s))"
  shows "(let a = addProfile p s in
        distinct (map cp_id (profiles a)) \<and> p \<in> set (profiles a) \<and> selectedConnectionId a = Some (cp_id p)
        \<and> filter (\<lambda>q. cp_id q \<noteq> cp_id p) (profiles a) = filter (\<lambda>q. cp_id q \<noteq> cp_id p) (profiles s))
    \<and> (let r = removeProfile i s in
        profiles r = filter (\<lambda>q. cp_id q \<noteq> i) (profiles s) \<and> distinct (map cp_id (profiles r))
        \<and> (selectedConnectionId s \<noteq> Some i \<longrightarrow> selectedConnectionId r = selectedConnectionId s)
        \<and> (selectedConnectionId s = Some i \<and> i \<in> cp_id ` set (profiles s) \<longrightarrow>
            (case selectedConnectionId r of None \<Rightarrow> profiles r = [] | Some k \<Rightarrow> k \<in> cp_id ` set (profiles r))))"
proof (intro conjI, goal_cases)
  case 1
  let ?new = "find_index (\<lambda>x. cp_id x = cp_id p) (profiles s) = None"
  have ids: "map cp_id (map (\<lambda>x. if cp_id x = cp_id p then p else x) ps) = map cp_id ps" for ps
    by (induction ps) auto
  have others: "filter (\<lambda>q. cp_id q \<noteq> cp_id p) (map (\<lambda>x. if cp_id x = cp_id p then p else x) ps)
      = filter (\<lambda>q. cp_id q \<noteq> cp_id p) ps" for ps
    by (induction ps) auto
  show ?case
  proof (cases ?new)
    case True
    then show ?thesis using assms by (auto simp: addProfile_def find_index_None Let_def)
  next
    case False
    then have "\<exists>q \<in> set (profiles s). cp_id q = cp_id p" by (auto simp: find_index_None)
    with False show ?thesis using assms ids others
      by (simp add: addProfile_def Let_def del: map_map filter_map) (force simp: image_iff)
  qed
next
  case 2
  show ?case
  proof (cases "find_index (\<lambda>q. cp_id q = i) (profiles s)")
    case None
    then have "\<forall>q \<in> set (profiles s). cp_id q \<noteq> i" by (simp add: find_index_None)
    with None show ?thesis using assms by (auto simp: removeProfile_def Let_def)
  next
    case (Some j)
    let ?rest = "filter (\<lambda>q. cp_id q \<noteq> i) (profiles s)"
    have j: "j \<le> length ?rest" using filter_ids_shorter [OF Some assms] .
    have d: "distinct (map cp_id ?rest)" using assms by (simp add: distinct_map_filter)
    have "case nearest ?rest j of None \<Rightarrow> ?rest = [] | Some k \<Rightarrow> k \<in> cp_id ` set ?rest"
      using nearest_None [OF j] nearest_member [of ?rest j] by (cases "nearest ?rest j") (simp_all del: set_filter)
    with Some d show ?thesis by (cases "nearest ?rest j") (auto simp: removeProfile_def Let_def)
  qed
qed

theorem profiles_follow_edits_witness:
  "profiles (removeProfile [99] (addProfile sample_profile init_connections)) = []"
  using profiles_follow_edits [of "addProfile sample_profile init_connections" sample_profile "[99]"]
  by (simp add: Let_def addProfile_def init_connections_def sample_profile_def)

end
