(* ===== verification/Url_Params.thy ===== *)
theory Url_Params
  imports Js_Json
begin

text \<open>
  \<open>URLSearchParams\<close>: the \<open>application/x-www-form-urlencoded\<close> serializer and parser over UTF-8, which the
  launch URL of a detached window goes through. The decoder follows the encoding standard on malformed
  input too (every maximal invalid part becomes U+FFFD).

  \<open>form_parse_serialize\<close>: pairs of well-formed strings come back as they were.
\<close>

section \<open>UTF-16 and code points\<close>

definition scalar :: "nat \<Rightarrow> bool" where
  "scalar c \<longleftrightarrow> c < 1114112 \<and> \<not> (55296 \<le> c \<and> c \<le> 57343)"

fun code_points :: "js \<Rightarrow> nat list" where
  "code_points [] = []"
| "code_points [c] = [if is_high c \<or> is_low c then 65533 else c]"
| "code_points (c # d # cs) =
     (if is_high c \<and> is_low d then (65536 + (c - 55296) * 1024 + (d - 56320)) # code_points cs
      else (if is_high c \<or> is_low c then 65533 else c) # code_points (d # cs))"

definition units :: "nat \<Rightarrow> js" where
  "units p = (if p < 65536 then [p] else [55296 + (p - 65536) div 1024, 56320 + (p - 65536) mod 1024])"

fun well_formed :: "js \<Rightarrow> bool" where
  "well_formed [] = True"
| "well_formed [c] = (c < 65536 \<and> \<not> is_high c \<and> \<not> is_low c)"
| "well_formed (c # d # cs) =
     (if is_high c then is_low d \<and> well_formed cs else c < 65536 \<and> \<not> is_low c \<and> well_formed (d # cs))"

lemma units_pair:
  assumes "is_high c" and "is_low d"
  shows "units (65536 + (c - 55296) * 1024 + (d - 56320)) = [c, d]"
proof -
  have "c = 55296 + (c - 55296)" "d = 56320 + (d - 56320)" "d - 56320 < 1024"
    using assms by (auto simp: is_high_def is_low_def)
  then obtain a b where "c = 55296 + a" "d = 56320 + b" "b < 1024" by blast
  then show ?thesis by (simp add: units_def)
qed

lemma units_code_points: "well_formed s \<Longrightarrow> concat (map units (code_points s)) = s"
proof (induction s rule: code_points.induct)
  case (3 c d cs)
  show ?case
  proof (cases "is_high c")
    case True
    with 3(3) have "is_low d" "well_formed cs" by simp_all
    with True 3(1) show ?thesis by (simp only: code_points.simps if_True simp_thms list.map concat.simps units_pair append.simps)
  next
    case False
    with 3(3) have c: "c < 65536" "\<not> is_low c" "well_formed (d # cs)" by simp_all
    then have "concat (map units (code_points (d # cs))) = d # cs" using False 3(2) by simp
    moreover have "units c = [c]" using c(1) by (simp add: units_def)
    ultimately show ?thesis using False c(2)
      by (simp only: code_points.simps(3) if_False simp_thms list.map concat.simps append.simps)
  qed
qed (auto simp: units_def)

lemma scalar_pair: "is_high c \<Longrightarrow> is_low d \<Longrightarrow> scalar (65536 + (c - 55296) * 1024 + (d - 56320))"
proof -
  assume "is_high c" "is_low d"
  then have "c - 55296 \<le> 1023" "d - 56320 \<le> 1023" by (auto simp: is_high_def is_low_def)
  then have "(c - 55296) * 1024 + (d - 56320) \<le> 1048575" by linarith
  then show ?thesis by (simp add: scalar_def)
qed

lemma scalar_code_points: "well_formed s \<Longrightarrow> \<forall>p \<in> set (code_points s). scalar p"
proof (induction s rule: code_points.induct)
  case (3 c d cs)
  show ?case
  proof (cases "is_high c")
    case True
    with 3(3) have "is_low d" "well_formed cs" by simp_all
    with True 3(1) show ?thesis by (simp add: scalar_pair)
  next
    case False
    with 3(3) have c: "c < 65536" "\<not> is_low c" "well_formed (d # cs)" by simp_all
    then have "scalar c" using False by (auto simp: scalar_def is_high_def is_low_def)
    with False c 3(2) show ?thesis by simp
  qed
qed (auto simp: scalar_def is_high_def is_low_def)

lemma code_points_ascii: "\<forall>c \<in> set s. c < 128 \<Longrightarrow> code_points s = s"
  by (induction s rule: code_points.induct) (auto simp: is_high_def is_low_def)

section \<open>UTF-8\<close>

definition utf8_encode :: "nat \<Rightarrow> nat list" where
  "utf8_encode p =
     (if p < 128 then [p]
      else if p < 2048 then [192 + p div 64, 128 + p mod 64]
      else if p < 65536 then [224 + p div 4096, 128 + p div 64 mod 64, 128 + p mod 64]
      else [240 + p div 262144, 128 + p div 4096 mod 64, 128 + p div 64 mod 64, 128 + p mod 64])"

definition trail :: "nat \<Rightarrow> bool" where "trail c \<longleftrightarrow> 128 \<le> c \<and> c \<le> 191"

definition second3 :: "nat \<Rightarrow> nat \<Rightarrow> bool" where
  "second3 b c \<longleftrightarrow> (if b = 224 then 160 else 128) \<le> c \<and> c \<le> (if b = 237 then 159 else 191)"

definition second4 :: "nat \<Rightarrow> nat \<Rightarrow> bool" where
  "second4 b c \<longleftrightarrow> (if b = 240 then 144 else 128) \<le> c \<and> c \<le> (if b = 244 then 143 else 191)"

abbreviation REPLACEMENT :: nat where "REPLACEMENT \<equiv> 65533"

fun utf8_decode :: "nat list \<Rightarrow> nat list" where
  "utf8_decode [] = []"
| "utf8_decode (b # bs) =
     (if b < 128 then b # utf8_decode bs
      else if 194 \<le> b \<and> b \<le> 223 then
        (case bs of
           c # cs \<Rightarrow> if trail c then ((b - 192) * 64 + (c - 128)) # utf8_decode cs else REPLACEMENT # utf8_decode bs
         | [] \<Rightarrow> [REPLACEMENT])
      else if 224 \<le> b \<and> b \<le> 239 then
        (case bs of
           c # cs \<Rightarrow>
             if second3 b c then
               (case cs of
                  d # ds \<Rightarrow>
                    if trail d then ((b - 224) * 4096 + (c - 128) * 64 + (d - 128)) # utf8_decode ds
                    else REPLACEMENT # utf8_decode cs
                | [] \<Rightarrow> [REPLACEMENT])
             else REPLACEMENT # utf8_decode bs
         | [] \<Rightarrow> [REPLACEMENT])
      else if 240 \<le> b \<and> b \<le> 244 then
        (case bs of
           c # cs \<Rightarrow>
             if second4 b c then
               (case cs of
                  d # ds \<Rightarrow>
                    if trail d then
                      (case ds of
                         e # es \<Rightarrow>
                           if trail e then
                             ((b - 240) * 262144 + (c - 128) * 4096 + (d - 128) * 64 + (e - 128)) # utf8_decode es
                           else REPLACEMENT # utf8_decode ds
                       | [] \<Rightarrow> [REPLACEMENT])
                    else REPLACEMENT # utf8_decode cs
                | [] \<Rightarrow> [REPLACEMENT])
             else REPLACEMENT # utf8_decode bs
         | [] \<Rightarrow> [REPLACEMENT])
      else REPLACEMENT # utf8_decode bs)"

lemma split64: "(p::nat) = p div 64 * 64 + p mod 64"
  by (simp add: div_mult_mod_eq)

lemma decode2: "2 \<le> a \<Longrightarrow> a < 32 \<Longrightarrow> b < 64 \<Longrightarrow>
    utf8_decode ([192 + a, 128 + b] @ r) = (a * 64 + b) # utf8_decode r"
  by (simp add: trail_def)

lemma decode3: "a < 16 \<Longrightarrow> second3 (224 + a) (128 + b) \<Longrightarrow> b < 64 \<Longrightarrow> c < 64 \<Longrightarrow>
    utf8_decode ([224 + a, 128 + b, 128 + c] @ r) = (a * 4096 + b * 64 + c) # utf8_decode r"
  by (simp add: trail_def)

lemma decode4: "a < 5 \<Longrightarrow> second4 (240 + a) (128 + b) \<Longrightarrow> b < 64 \<Longrightarrow> c < 64 \<Longrightarrow> d < 64 \<Longrightarrow>
    utf8_decode ([240 + a, 128 + b, 128 + c, 128 + d] @ r) = (a * 262144 + b * 4096 + c * 64 + d) # utf8_decode r"
  by (simp add: trail_def)

lemma second4_ok: "n = y * 64 + x \<Longrightarrow> 16 \<le> n \<Longrightarrow> n < 272 \<Longrightarrow> x < 64 \<Longrightarrow> second4 (240 + y) (128 + x)"
  by (auto simp: second4_def)

lemma decode_encode:
  assumes "scalar p"
  shows "utf8_decode (utf8_encode p @ r) = p # utf8_decode r"
proof -
  have m: "p mod 64 < 64" "p div 64 mod 64 < 64" "p div 4096 mod 64 < 64" by simp_all
  have d1: "p div 64 div 64 = p div 4096" "p div 4096 div 64 = p div 262144" by (simp_all add: div_mult2_eq [symmetric])
  have e1: "p div 64 = p div 4096 * 64 + p div 64 mod 64" using d1 split64 [of "p div 64"] by simp
  have e2: "p div 4096 = p div 262144 * 64 + p div 4096 mod 64" using d1 split64 [of "p div 4096"] by simp
  have e0: "p = p div 64 * 64 + p mod 64" using split64 .
  consider "p < 128" | "128 \<le> p" "p < 2048" | "2048 \<le> p" "p < 65536" | "65536 \<le> p" by linarith
  then show ?thesis
  proof cases
    case 2
    then have "2 \<le> p div 64" "p div 64 < 32" by auto
    then have "utf8_decode ([192 + p div 64, 128 + p mod 64] @ r) = (p div 64 * 64 + p mod 64) # utf8_decode r"
      using m(1) by (rule decode2)
    moreover have "utf8_encode p = [192 + p div 64, 128 + p mod 64]" using 2 by (simp add: utf8_encode_def)
    ultimately show ?thesis using e0 by simp
  next
    case 3
    have b: "p div 4096 < 16" using 3 by auto
    have s: "second3 (224 + p div 4096) (128 + p div 64 mod 64)"
      using 3 m e0 e1 assms by (auto simp: second3_def scalar_def)
    have "p div 4096 * 4096 + (p div 64 mod 64) * 64 + p mod 64 = p" using e0 e1 by linarith
    moreover have "utf8_encode p = [224 + p div 4096, 128 + p div 64 mod 64, 128 + p mod 64]"
      using 3 by (simp add: utf8_encode_def)
    ultimately show ?thesis using decode3 [OF b s m(2,1), of r] by simp
  next
    case 4
    have b: "p div 262144 < 5" using assms by (auto simp: scalar_def)
    have s: "second4 (240 + p div 262144) (128 + p div 4096 mod 64)"
      by (rule second4_ok [OF e2 _ _ m(3)]) (use 4 assms in \<open>auto simp: scalar_def\<close>)
    have "p div 262144 * 262144 + (p div 4096 mod 64) * 4096 + (p div 64 mod 64) * 64 + p mod 64 = p"
      using e0 e1 e2 by linarith
    moreover have "utf8_encode p = [240 + p div 262144, 128 + p div 4096 mod 64, 128 + p div 64 mod 64, 128 + p mod 64]"
      using 4 by (simp add: utf8_encode_def)
    ultimately show ?thesis using decode4 [OF b s m(3,2,1), of r] by simp
  qed (simp add: utf8_encode_def)
qed

lemma encode_bytes: "scalar p \<Longrightarrow> \<forall>b \<in> set (utf8_encode p). b < 256"
  by (auto simp: utf8_encode_def scalar_def)

definition utf8_bytes :: "js \<Rightarrow> nat list" where
  "utf8_bytes s = concat (map utf8_encode (code_points s))"

definition utf8_text :: "nat list \<Rightarrow> js" where
  "utf8_text bs = concat (map units (utf8_decode bs))"

lemma decode_encode_all: "\<forall>p \<in> set ps. scalar p \<Longrightarrow> utf8_decode (concat (map utf8_encode ps)) = ps"
  by (induction ps) (simp_all add: decode_encode del: utf8_decode.simps(2))

lemma utf8_text_bytes: "well_formed s \<Longrightarrow> utf8_text (utf8_bytes s) = s"
  by (simp add: utf8_text_def utf8_bytes_def decode_encode_all scalar_code_points units_code_points)

lemma utf8_bytes_byte: "well_formed s \<Longrightarrow> \<forall>b \<in> set (utf8_bytes s). b < 256"
  using scalar_code_points encode_bytes by (fastforce simp: utf8_bytes_def)

lemma utf8_bytes_ascii: "\<forall>c \<in> set s. c < 128 \<Longrightarrow> utf8_bytes s = s"
  by (simp add: utf8_bytes_def code_points_ascii) (induction s; simp add: utf8_encode_def)

section \<open>Percent encoding\<close>

definition form_safe :: "nat \<Rightarrow> bool" where
  "form_safe b \<longleftrightarrow> is_lower b \<or> is_upper b \<or> is_digit b \<or> b \<in> {42, 45, 46, 95}"

definition HEX :: "nat \<Rightarrow> nat" where
  "HEX d = (if d < 10 then 48 + d else 55 + d)"

definition form_byte :: "nat \<Rightarrow> js" where
  "form_byte b = (if form_safe b then [b] else if b = 32 then [43] else [37, HEX (b div 16), HEX (b mod 16)])"

definition form_encode :: "js \<Rightarrow> js" where
  "form_encode s = concat (map form_byte (utf8_bytes s))"

fun form_decode_bytes :: "nat list \<Rightarrow> nat list" where
  "form_decode_bytes [] = []"
| "form_decode_bytes (c # cs) =
     (if c = 43 then 32 # form_decode_bytes cs
      else if c = 37 then
        (case cs of
           h # l # r \<Rightarrow>
             (case (hex_value h, hex_value l) of
                (Some a, Some b) \<Rightarrow> (16 * a + b) # form_decode_bytes r
              | _ \<Rightarrow> 37 # form_decode_bytes cs)
         | _ \<Rightarrow> 37 # form_decode_bytes cs)
      else c # form_decode_bytes cs)"

definition form_decode :: "nat list \<Rightarrow> js" where
  "form_decode bs = utf8_text (form_decode_bytes bs)"

lemma hex_HEX: "d < 16 \<Longrightarrow> hex_value (HEX d) = Some d"
  by (auto simp: hex_value_def HEX_def is_digit_def)

lemma form_safe_plain: "form_safe b \<Longrightarrow> b \<noteq> 43 \<and> b \<noteq> 37 \<and> b \<noteq> 38 \<and> b \<noteq> 61 \<and> b < 128"
  by (auto simp: form_safe_def is_lower_def is_upper_def is_digit_def)

lemma decode_form_byte: "b < 256 \<Longrightarrow> form_decode_bytes (form_byte b @ r) = b # form_decode_bytes r"
  using form_safe_plain [of b] by (auto simp: form_byte_def hex_HEX)

lemma decode_form_bytes: "\<forall>b \<in> set bs. b < 256 \<Longrightarrow> form_decode_bytes (concat (map form_byte bs)) = bs"
  by (induction bs) (simp_all add: decode_form_byte del: form_decode_bytes.simps(2))

lemma form_decode_encode: "well_formed s \<Longrightarrow> form_decode (form_encode s) = s"
  by (simp add: form_decode_def form_encode_def decode_form_bytes utf8_bytes_byte utf8_text_bytes)

lemma HEX_plain: "d < 16 \<Longrightarrow> HEX d \<noteq> 38 \<and> HEX d \<noteq> 61 \<and> HEX d < 128"
  by (auto simp: HEX_def)

lemma form_byte_plain: "b < 256 \<Longrightarrow> c \<in> set (form_byte b) \<Longrightarrow> c \<noteq> 38 \<and> c \<noteq> 61 \<and> c < 128"
proof -
  assume b: "b < 256" and c: "c \<in> set (form_byte b)"
  have "b div 16 < 16" using b by simp
  then show ?thesis
    using c form_safe_plain [of b] HEX_plain [of "b div 16"] HEX_plain [of "b mod 16"]
    by (auto simp: form_byte_def split: if_splits)
qed

lemma form_encode_plain: "well_formed s \<Longrightarrow> c \<in> set (form_encode s) \<Longrightarrow> c \<noteq> 38 \<and> c \<noteq> 61 \<and> c < 128"
  using utf8_bytes_byte form_byte_plain by (fastforce simp: form_encode_def)

section \<open>Parameters\<close>

type_synonym params = "(js \<times> js) list"

definition form_serialize :: "params \<Rightarrow> js" where
  "form_serialize ps = join [38] (map (\<lambda>(k, v). form_encode k @ 61 # form_encode v) ps)"

definition form_pair :: "nat list \<Rightarrow> js \<times> js" where
  "form_pair bs = (form_decode (takeWhile (\<lambda>c. c \<noteq> 61) bs), form_decode (tl (dropWhile (\<lambda>c. c \<noteq> 61) bs)))"

definition form_parse :: "js \<Rightarrow> params" where
  "form_parse s =
     (let t = (case s of c # cs \<Rightarrow> if c = 63 then cs else s | [] \<Rightarrow> [])
      in map form_pair (filter (\<lambda>p. p \<noteq> []) (split_on 38 (utf8_bytes t))))"

definition param_get :: "params \<Rightarrow> js \<Rightarrow> js option" where
  "param_get ps k = map_of ps k"

text \<open>\<open>set\<close>: the first pair of the name gets the value, others of it go.\<close>

definition param_set :: "js \<Rightarrow> js \<Rightarrow> params \<Rightarrow> params" where
  "param_set k v ps =
     (case find_index (\<lambda>p. fst p = k) ps of
        None \<Rightarrow> ps @ [(k, v)]
      | Some i \<Rightarrow> take i ps @ (k, v) # filter (\<lambda>p. fst p \<noteq> k) (drop (Suc i) ps))"

lemma form_pair_encode:
  assumes "well_formed k" and "well_formed v"
  shows "form_pair (form_encode k @ 61 # form_encode v) = (k, v)"
proof -
  have "\<forall>c \<in> set (form_encode k). c \<noteq> 61" using form_encode_plain [OF assms(1)] by blast
  then have "takeWhile (\<lambda>c. c \<noteq> 61) (form_encode k @ 61 # form_encode v) = form_encode k"
    and "dropWhile (\<lambda>c. c \<noteq> 61) (form_encode k @ 61 # form_encode v) = 61 # form_encode v"
    by (simp_all add: takeWhile_append2 dropWhile_append2)
  with assms show ?thesis by (simp add: form_pair_def form_decode_encode)
qed

lemma form_parse_serialize:
  assumes "\<forall>(k, v) \<in> set ps. well_formed k \<and> well_formed v" and "ps \<noteq> []"
  shows "form_parse (63 # form_serialize ps) = ps"
proof -
  let ?piece = "\<lambda>(k, v). form_encode k @ 61 # form_encode v"
  have plain: "c \<noteq> 38 \<and> c < 128" if p: "p \<in> set ps" and c: "c \<in> set (?piece p)" for p c
  proof -
    obtain k v where kv: "p = (k, v)" "well_formed k" "well_formed v" using p assms(1) by (cases p) auto
    with c have "c = 61 \<or> c \<in> set (form_encode k) \<or> c \<in> set (form_encode v)" by auto
    then show ?thesis using form_encode_plain [OF kv(2), of c] form_encode_plain [OF kv(3), of c] by auto
  qed
  have "\<forall>c \<in> set (form_serialize ps). c < 128"
  proof
    fix c assume "c \<in> set (form_serialize ps)"
    then have "c \<in> set [38] \<union> (\<Union>q \<in> set (map ?piece ps). set q)"
      unfolding form_serialize_def using set_join by blast
    then have "c = 38 \<or> (\<exists>p \<in> set ps. c \<in> set (?piece p))" unfolding set_map by fastforce
    then show "c < 128" using plain by (elim disjE bexE) (simp, blast)
  qed
  then have "utf8_bytes (form_serialize ps) = form_serialize ps" by (rule utf8_bytes_ascii)
  moreover have "\<forall>q \<in> set (map ?piece ps). 38 \<notin> set q" unfolding set_map using plain by blast
  then have "split_on 38 (form_serialize ps) = map ?piece ps"
    unfolding form_serialize_def using assms(2) by (intro split_on_join) simp_all
  moreover have "filter (\<lambda>p. p \<noteq> []) (map ?piece ps) = map ?piece ps"
    by (rule filter_True) auto
  moreover have "map form_pair (map ?piece ps) = ps"
    using assms(1) form_pair_encode by (auto intro!: map_idI)
  ultimately show ?thesis by (simp add: form_parse_def)
qed

lemmas params_eval [js_eval] =
  units_def utf8_encode_def trail_def second3_def second4_def utf8_bytes_def utf8_text_def form_safe_def HEX_def
  form_byte_def form_encode_def form_decode_def form_serialize_def form_pair_def form_parse_def param_get_def
  param_set_def

end
