(* ===== verification/Workspace_Navigation.thy ===== *)
theory Workspace_Navigation
  imports Url_Params Sql_Text
begin

text \<open>
  Tabs and windows: the shared tab strip (\<open>features/workspace/workspaceNavigation.ts\<close>), detached windows
  and their launch URLs (\<open>features/workspace/detachedWorkspace.ts\<close>), and the titles of Redis key
  workspaces (\<open>features/redis/redisKeyWorkspace.ts\<close>).
\<close>

section \<open>The tab strip\<close>

datatype WorkspaceTabType = QueryTab | TableTab | UtilityTab

record WorkspaceTabRef =
  ref_id :: js
  ref_type :: WorkspaceTabType

record WorkspaceTabCollections =
  queryTabIds :: "js list"
  tableTabIds :: "js list"
  utilityTabIds :: "js list"

definition orderWorkspaceTabs :: "WorkspaceTabCollections \<Rightarrow> WorkspaceTabRef list" where
  "orderWorkspaceTabs c =
     map (\<lambda>i. \<lparr> ref_id = i, ref_type = QueryTab \<rparr>) (queryTabIds c)
     @ map (\<lambda>i. \<lparr> ref_id = i, ref_type = TableTab \<rparr>) (tableTabIds c)
     @ map (\<lambda>i. \<lparr> ref_id = i, ref_type = UtilityTab \<rparr>) (utilityTabIds c)"

definition resolveWorkspaceTabJump :: "WorkspaceTabRef list \<Rightarrow> nat \<Rightarrow> WorkspaceTabRef option" where
  "resolveWorkspaceTabJump orderedTabs p =
     (if length orderedTabs = 0 then None
      else if p \<ge> 9 then at orderedTabs (length orderedTabs - 1)
      else if p = 0 then None else at orderedTabs (p - 1))"

definition resolveWorkspaceTabCycle :: "WorkspaceTabRef list \<Rightarrow> js option \<Rightarrow> bool \<Rightarrow> WorkspaceTabRef option" where
  "resolveWorkspaceTabCycle orderedTabs currentId reverse =
     (if length orderedTabs < 2 then None
      else
        (let currentIndex = (case find_index (\<lambda>t. Some (ref_id t) = currentId) orderedTabs of Some i \<Rightarrow> int i | None \<Rightarrow> 0);
             delta = (if reverse then - 1 else 1);
             nextIndex = (currentIndex + delta + int (length orderedTabs)) mod int (length orderedTabs)
         in at orderedTabs (nat nextIndex)))"

section \<open>Detached windows\<close>

text \<open>Screen coordinates are integers; \<open>None\<close> is a coordinate that is not finite.\<close>

record ScreenPoint =
  px :: "int option"
  py :: "int option"

record WindowScreenBounds =
  b_height :: int
  b_left :: int
  b_top :: int
  b_width :: int

definition isScreenPointOutsideWindow :: "ScreenPoint \<Rightarrow> WindowScreenBounds \<Rightarrow> bool" where
  "isScreenPointOutsideWindow point bounds =
     (case (px point, py point) of
        (Some x, Some y) \<Rightarrow>
          x < b_left bounds \<or> y < b_top bounds \<or> x > b_left bounds + b_width bounds \<or> y > b_top bounds + b_height bounds
      | _ \<Rightarrow> False)"

datatype DetachedWorkspaceLaunch =
  LaunchQuery (launch_id: js) (launch_title: js)
| LaunchTable (launch_id: js) js js js (launch_title: js)

abbreviation PARAM_KIND :: js where "PARAM_KIND \<equiv> u ''workspaceKind''"
abbreviation PARAM_ID :: js where "PARAM_ID \<equiv> u ''workspaceId''"
abbreviation PARAM_TITLE :: js where "PARAM_TITLE \<equiv> u ''workspaceTitle''"
abbreviation PARAM_CONNECTION :: js where "PARAM_CONNECTION \<equiv> u ''connectionId''"
abbreviation PARAM_DATABASE :: js where "PARAM_DATABASE \<equiv> u ''database''"
abbreviation PARAM_TABLE :: js where "PARAM_TABLE \<equiv> u ''tableName''"

definition given :: "js option \<Rightarrow> js option" where
  "given v = (case v of Some [] \<Rightarrow> None | _ \<Rightarrow> v)"

definition launch_of_params :: "params \<Rightarrow> DetachedWorkspaceLaunch option" where
  "launch_of_params params =
     (let kind = param_get params PARAM_KIND
      in case (given (param_get params PARAM_ID), given (param_get params PARAM_TITLE)) of
           (Some i, Some title) \<Rightarrow>
             if kind = Some (u ''query'') then Some (LaunchQuery i title)
             else if kind = Some (u ''table'') then
               (case (given (param_get params PARAM_CONNECTION), given (param_get params PARAM_DATABASE),
                      given (param_get params PARAM_TABLE)) of
                  (Some c, Some d, Some t) \<Rightarrow> Some (LaunchTable i c d t title)
                | _ \<Rightarrow> None)
             else None
         | _ \<Rightarrow> None)"

definition readDetachedWorkspaceLaunch :: "js \<Rightarrow> DetachedWorkspaceLaunch option" where
  "readDetachedWorkspaceLaunch search = launch_of_params (form_parse search)"

definition MAIN_WORKSPACE_WINDOW_LABEL :: js where
  "MAIN_WORKSPACE_WINDOW_LABEL = u ''main''"

text \<open>The label of the current window, when the host is Tauri.\<close>

definition readWorkspaceWindowContext :: "js option \<Rightarrow> js \<Rightarrow> DetachedWorkspaceLaunch option \<times> js" where
  "readWorkspaceWindowContext tauriLabel search =
     (readDetachedWorkspaceLaunch search, case tauriLabel of Some l \<Rightarrow> l | None \<Rightarrow> MAIN_WORKSPACE_WINDOW_LABEL)"

fun launch_params :: "DetachedWorkspaceLaunch \<Rightarrow> params" where
  "launch_params (LaunchQuery i title) =
     [(PARAM_KIND, u ''query''), (PARAM_ID, i), (PARAM_TITLE, title)]"
| "launch_params (LaunchTable i c d t title) =
     param_set PARAM_TABLE t (param_set PARAM_DATABASE d (param_set PARAM_CONNECTION c
       [(PARAM_KIND, u ''table''), (PARAM_ID, i), (PARAM_TITLE, title)]))"

definition launch_search :: "DetachedWorkspaceLaunch \<Rightarrow> js" where
  "launch_search w = 63 # form_serialize (launch_params w)"

definition detachedWorkspaceUrl :: "DetachedWorkspaceLaunch \<Rightarrow> js" where
  "detachedWorkspaceUrl w = 47 # launch_search w"

record window_options =
  w_label :: js
  w_url :: js
  w_title :: js
  w_size :: "nat \<times> nat"
  w_minSize :: "nat \<times> nat"
  w_position :: "(int \<times> int) option"

text \<open>Outside Tauri the call throws.\<close>

definition createDetachedWorkspaceWindow ::
  "bool \<Rightarrow> DetachedWorkspaceLaunch \<Rightarrow> int \<times> int \<Rightarrow> js \<Rightarrow> window_options option" where
  "createDetachedWorkspaceWindow tauri workspace point label =
     (if \<not> tauri then None
      else Some \<lparr> w_label = label, w_url = detachedWorkspaceUrl workspace,
                  w_title = launch_title workspace @ (u '' '' @ [183] @ u '' Pipa''), w_size = (1100, 720), w_minSize = (800, 560),
                  w_position = Some (fst point - 80, snd point - 24) \<rparr>)"

text \<open>A window that exists is left alone; \<open>labels\<close> are the labels of the open windows.\<close>

definition restoreDetachedQueryWindow :: "bool \<Rightarrow> js list \<Rightarrow> js \<Rightarrow> window_options option" where
  "restoreDetachedQueryWindow tauri labels label =
     (if \<not> tauri \<or> label \<in> set labels then None
      else Some \<lparr> w_label = label,
                  w_url = (u ''/?workspaceKind=query&workspaceId=restored&workspaceTitle='' @ [26597, 35810, 24037, 20316, 21306]),
                  w_title = ([26597, 35810, 24037, 20316, 21306] @ u '' '' @ [183] @ u '' Pipa''), w_size = (1100, 720), w_minSize = (800, 560),
                  w_position = None \<rparr>)"

subsection \<open>Closing\<close>

text \<open>
  The close handler: \<open>closing\<close> is its flag, \<open>stage\<close> what it awaits. \<open>snapshot\<close> says whether the window's
  recovery snapshot is still stored, as far as the handler's own discard goes.
\<close>

datatype close_stage = Idle | Discarding | Destroying | Destroyed

record close_handler =
  closing :: bool
  stage :: close_stage
  snapshot :: bool

definition init_close :: close_handler where
  "init_close = \<lparr> closing = False, stage = Idle, snapshot = True \<rparr>"

datatype close_label = CloseRequested | DiscardSettled bool | DestroySettled bool

datatype close_effect = PreventDefault | DiscardWorkspace | DestroyWindow | OnFailure

fun close_step :: "close_label \<Rightarrow> close_handler \<Rightarrow> close_handler \<times> close_effect list" where
  "close_step CloseRequested h =
     (if closing h then (h, [PreventDefault])
      else (h \<lparr> closing := True, stage := Discarding \<rparr>, [PreventDefault, DiscardWorkspace]))"
| "close_step (DiscardSettled ok) h =
     (if stage h \<noteq> Discarding then (h, [])
      else if ok then (h \<lparr> stage := Destroying, snapshot := False \<rparr>, [DestroyWindow])
      else (h \<lparr> closing := False, stage := Idle \<rparr>, [OnFailure]))"
| "close_step (DestroySettled ok) h =
     (if stage h \<noteq> Destroying then (h, [])
      else if ok then (h \<lparr> stage := Destroyed \<rparr>, [])
      else (h \<lparr> closing := False, stage := Idle \<rparr>, [OnFailure]))"

section \<open>Redis key workspaces\<close>

definition redisKeyWorkspaceTitle :: "js \<Rightarrow> js \<Rightarrow> js \<Rightarrow> js" where
  "redisKeyWorkspaceTitle connectionName database keyName =
     connectionName @ (u '' '' @ [183] @ u '' DB '') @ database @ (u '' '' @ [183] @ u '' '') @ keyName"

definition redisKeyInspectionCommands :: "js \<Rightarrow> js" where
  "redisKeyInspectionCommands keyName =
     (let key = quoteRedisArgument keyName
      in u ''TYPE '' @ key @ u '';'' @ [NEWLINE] @ u ''TTL '' @ key @ u '';'' @ [NEWLINE]
         @ u ''MEMORY USAGE '' @ key @ u '';'')"

definition titleRx :: rx where
  "titleRx = rx_seqs (map rx_chr [32, 183, 32, 68, 66, 32] @ [Grp 1 (rx_plus rx_digit)] @ map rx_chr [32, 183, 32])"

definition redisDatabaseFromWorkspaceTitle :: "js \<Rightarrow> js option" where
  "redisDatabaseFromWorkspaceTitle title =
     (case rx_groups titleRx title of None \<Rightarrow> None | Some g \<Rightarrow> g 1)"

section \<open>Properties\<close>

text \<open>Cycling stays within the strip and undoes itself: from a tab of the strip, the next tab's
  previous tab and the previous tab's next tab are the tab itself, and the jump shortcuts reach exactly
  the first eight tabs and, with nine, the last.\<close>

lemma tab_cycle_round:
  assumes "distinct (map ref_id tabs)" and "t \<in> set tabs" and "length tabs \<ge> 2"
  shows "(\<exists>n \<in> set tabs. resolveWorkspaceTabCycle tabs (Some (ref_id t)) r = Some n
        \<and> resolveWorkspaceTabCycle tabs (Some (ref_id n)) (\<not> r) = Some t)
     \<and> (\<forall>p \<in> {1..8}. resolveWorkspaceTabJump tabs p = at tabs (p - 1))
     \<and> resolveWorkspaceTabJump tabs 9 = Some (last tabs)"
proof -
  let ?n = "int (length tabs)"
  obtain i where i: "i < length tabs" "tabs ! i = t" using assms(2) by (metis in_set_conv_nth)
  have idx: "find_index (\<lambda>x. Some (ref_id x) = Some (ref_id (tabs ! j))) tabs = Some j" if "j < length tabs" for j
  proof -
    have "find_index (\<lambda>x. Some (ref_id x) = Some (ref_id (tabs ! j))) tabs \<noteq> None"
      using that by (auto simp: find_index_None)
    then obtain k where k: "find_index (\<lambda>x. Some (ref_id x) = Some (ref_id (tabs ! j))) tabs = Some k" by blast
    then have "k < length tabs" "ref_id (tabs ! k) = ref_id (tabs ! j)" using find_index_Some [OF k] by auto
    then have "k = j" using assms(1) that by (metis length_map nth_eq_iff_index_eq nth_map)
    with k show ?thesis by simp
  qed
  let ?d = "if r then - 1 else 1 :: int"
  let ?j = "nat ((int i + ?d + ?n) mod ?n)"
  have n: "?n > 0" using assms(3) by linarith
  have j: "?j < length tabs" using n by (simp add: nat_less_iff)
  have jn: "int ?j = (int i + ?d + ?n) mod ?n" using n by simp
  have "(int ?j + - ?d + ?n) mod ?n = (int i + ?d + ?n + (- ?d) + ?n) mod ?n"
    unfolding jn by (simp add: mod_simps)
  also have "\<dots> = (int i + 2 * ?n) mod ?n" by (simp add: algebra_simps)
  also have "\<dots> = int i" using i(1) by simp
  finally have ret: "(int ?j + - ?d + ?n) mod ?n = int i" .
  have go: "resolveWorkspaceTabCycle tabs (Some (ref_id (tabs ! k))) q
      = at tabs (nat ((int k + (if q then - 1 else 1) + ?n) mod ?n))" if "k < length tabs" for k q
    using idx [OF that] assms(3) by (simp add: resolveWorkspaceTabCycle_def Let_def)
  have "resolveWorkspaceTabCycle tabs (Some (ref_id t)) r = Some (tabs ! ?j)"
    using go [OF i(1), of r] i j by (simp add: at_def)
  moreover have "(if \<not> r then - 1 else 1 :: int) = - ?d" by simp
  then have "resolveWorkspaceTabCycle tabs (Some (ref_id (tabs ! ?j))) (\<not> r) = Some t"
    unfolding go [OF j] using ret i by (simp add: at_def)
  moreover have "tabs ! ?j \<in> set tabs" using j by simp
  moreover have "\<forall>p \<in> {1..8}. resolveWorkspaceTabJump tabs p = at tabs (p - 1)"
    using assms(3) by (auto simp: resolveWorkspaceTabJump_def)
  moreover have "resolveWorkspaceTabJump tabs 9 = Some (last tabs)"
    using assms(3) by (cases "tabs = []") (simp_all add: resolveWorkspaceTabJump_def at_def last_conv_nth)
  ultimately show ?thesis by blast
qed

definition launchable :: "DetachedWorkspaceLaunch \<Rightarrow> bool" where
  "launchable w \<longleftrightarrow> (\<forall>s \<in> (case w of LaunchQuery i t \<Rightarrow> {i, t} | LaunchTable i c d n t \<Rightarrow> {i, c, d, n, t}).
     s \<noteq> [] \<and> well_formed s)"

lemma given_text: "s \<noteq> [] \<Longrightarrow> given (Some s) = Some s"
  by (cases s) (simp_all add: given_def)

lemma literals_well_formed:
  "well_formed PARAM_KIND" "well_formed PARAM_ID" "well_formed PARAM_TITLE" "well_formed PARAM_CONNECTION"
  "well_formed PARAM_DATABASE" "well_formed PARAM_TABLE" "well_formed (u ''query'')" "well_formed (u ''table'')"
  by (simp_all add: u.simps is_high_def is_low_def)

lemma table_launch_params:
  "launch_params (LaunchTable i c d t title) =
     [(PARAM_KIND, u ''table''), (PARAM_ID, i), (PARAM_TITLE, title), (PARAM_CONNECTION, c), (PARAM_DATABASE, d),
      (PARAM_TABLE, t)]"
  by (simp add: param_set_def u.simps)

lemma launch_params_well_formed: "launchable w \<Longrightarrow> \<forall>(k, v) \<in> set (launch_params w). well_formed k \<and> well_formed v"
  by (cases w) (simp_all add: launchable_def literals_well_formed table_launch_params del: launch_params.simps(2))

lemma launch_of_launch_params: "launchable w \<Longrightarrow> launch_of_params (launch_params w) = Some w"
proof (cases w)
  case (LaunchTable i c d t title)
  then show "launchable w \<Longrightarrow> ?thesis"
    by (simp add: table_launch_params launchable_def launch_of_params_def param_get_def given_text u.simps Let_def
        del: launch_params.simps(2))
qed (simp add: launchable_def launch_of_params_def param_get_def given_text u.simps Let_def)

text \<open>C40: The launch URL of a detached window carries its descriptor: the window reads back exactly the
  workspace it was opened for, whatever characters its names hold, provided none is empty.\<close>

theorem launch_reads_back:
  assumes "launchable w"
  shows "detachedWorkspaceUrl w = 47 # launch_search w \<and> readDetachedWorkspaceLaunch (launch_search w) = Some w"
proof -
  have "launch_params w \<noteq> []" by (cases w) (simp_all add: table_launch_params del: launch_params.simps(2))
  then show ?thesis
    using form_parse_serialize [OF launch_params_well_formed [OF assms]] launch_of_launch_params [OF assms]
    by (simp add: detachedWorkspaceUrl_def readDetachedWorkspaceLaunch_def launch_search_def)
qed

theorem launch_reads_back_witness:
  "readDetachedWorkspaceLaunch (launch_search (LaunchTable [99, 0, 38] [99] [61, 37] [26597, 55357, 56832] [32, 43]))
     = Some (LaunchTable [99, 0, 38] [99] [61, 37] [26597, 55357, 56832] [32, 43])"
  using launch_reads_back [of "LaunchTable [99, 0, 38] [99] [61, 37] [26597, 55357, 56832] [32, 43]"]
  by (simp add: launchable_def is_high_def is_low_def)

definition close_inv :: "close_handler \<Rightarrow> bool" where
  "close_inv h \<longleftrightarrow> (closing h \<longleftrightarrow> stage h \<noteq> Idle) \<and> (stage h \<in> {Destroying, Destroyed} \<longrightarrow> \<not> snapshot h)"

lemma close_inv_step: "close_inv h \<Longrightarrow> close_inv (fst (close_step l h))"
  by (cases l) (auto simp: close_inv_def)

lemma close_inv_run: "close_inv (foldl (\<lambda>h l. fst (close_step l h)) init_close ls)"
  by (rule foldl_keeps [where P = close_inv]) (simp_all add: close_inv_step, simp add: close_inv_def init_close_def)

text \<open>A detached window is destroyed only after its snapshot was discarded in the same attempt,
  never twice at once, and a failure leaves it open and ready for another attempt.\<close>

theorem window_closes_clean:
  fixes ls l
  defines "h \<equiv> foldl (\<lambda>h l. fst (close_step l h)) init_close ls"
  shows "(DestroyWindow \<in> set (snd (close_step l h)) \<longrightarrow> l = DiscardSettled True \<and> stage h = Discarding
        \<and> \<not> snapshot (fst (close_step l h)))
    \<and> (DiscardWorkspace \<in> set (snd (close_step l h)) \<longrightarrow> stage h = Idle)
    \<and> (OnFailure \<in> set (snd (close_step l h)) \<longrightarrow>
        DiscardWorkspace \<in> set (snd (close_step CloseRequested (fst (close_step l h)))))
    \<and> (l = CloseRequested \<longrightarrow> PreventDefault \<in> set (snd (close_step l h)))"
  using close_inv_run [of ls, folded h_def] by (cases l) (auto simp: close_inv_def)

lemma window_closes_clean_witness:
  "DestroyWindow \<in> set (snd (close_step (DiscardSettled True) (foldl (\<lambda>h l. fst (close_step l h)) init_close [CloseRequested])))
   \<and> stage (foldl (\<lambda>h l. fst (close_step l h)) init_close [CloseRequested]) = Discarding
   \<and> DiscardWorkspace \<in> set (snd (close_step CloseRequested (foldl (\<lambda>h l. fst (close_step l h)) init_close
        [CloseRequested, DiscardSettled True, DestroySettled False])))"
  using window_closes_clean [of "DiscardSettled True" "[CloseRequested]"]
    window_closes_clean [of "DestroySettled False" "[CloseRequested, DiscardSettled True]"]
  by (simp add: init_close_def)

subsection \<open>Redis titles\<close>

abbreviation MARK :: js where "MARK \<equiv> [32, 183, 32, 68, 66, 32]"

lemma rxm_chr_Seq:
  "rxm (Seq (rx_chr c) r) (pre, t, caps) \<noteq> [] \<Longrightarrow> \<exists>t1. t = c # t1 \<and> rxm r (c # pre, t1, caps) \<noteq> []"
  by (cases t) (auto simp: rx_chr_def split: if_splits)

lemma rxm_chars:
  "rxm (rx_seqs (map rx_chr w @ r # rs)) (pre, t, caps) \<noteq> [] \<Longrightarrow> \<exists>t'. t = w @ t' \<and> rxm (rx_seqs (r # rs)) (rev w @ pre, t', caps) \<noteq> []"
proof (induction w arbitrary: pre t)
  case (Cons c w)
  have "rx_seqs (map rx_chr (c # w) @ r # rs) = Seq (rx_chr c) (rx_seqs (map rx_chr w @ r # rs))" by simp
  then obtain t1 where "t = c # t1" "rxm (rx_seqs (map rx_chr w @ r # rs)) (c # pre, t1, caps) \<noteq> []"
    using rxm_chr_Seq [of c "rx_seqs (map rx_chr w @ r # rs)" pre t caps] Cons.prems by auto
  with Cons.IH [of "c # pre" t1] show ?case by simp
qed simp

lemma rxf_chars:
  "rxf (rx_seqs (map rx_chr w @ r # rs)) (pre, w @ t, caps) = rxf (rx_seqs (r # rs)) (rev w @ pre, t, caps)"
proof (induction w arbitrary: pre)
  case (Cons c w)
  have "rxm (rx_seqs (map rx_chr (c # w) @ r # rs)) (pre, (c # w) @ t, caps)
      = rxm (rx_seqs (map rx_chr w @ r # rs)) (c # pre, w @ t, caps)"
    by (simp add: rx_chr_def)
  then show ?case using Cons [of "c # pre"] by (simp add: rxf_def)
qed simp

lemma rx_from_skip:
  "(\<And>s1 s2. s = s1 @ s2 \<Longrightarrow> s2 \<noteq> [] \<Longrightarrow> rxm r (rev s1 @ pre, s2 @ t, []) = []) \<Longrightarrow>
    rx_from r pre (s @ t) = rx_from r (rev s @ pre) t"
proof (induction s arbitrary: pre)
  case (Cons c s)
  have "rxm r (pre, (c # s) @ t, []) = []" using Cons.prems [of "[]" "c # s"] by simp
  then have "rx_from r pre ((c # s) @ t) = rx_from r (c # pre) (s @ t)"
    by (subst rx_from.simps) (simp add: rxf_def)
  also have "\<dots> = rx_from r (rev s @ c # pre) t"
  proof (rule Cons.IH)
    fix s1 s2 assume "s = s1 @ s2" "s2 \<noteq> []"
    then show "rxm r (rev s1 @ c # pre, s2 @ t, []) = []" using Cons.prems [of "c # s1" s2] by simp
  qed
  finally show ?case by simp
qed simp

abbreviation title_tail :: "rx list" where "title_tail \<equiv> map rx_chr [32, 183] @ [rx_chr 32]"

lemma titleRx_seqs: "titleRx = rx_seqs (map rx_chr MARK @ Grp 1 (rx_plus rx_digit) # title_tail)"
  by (simp add: titleRx_def)

lemma titleRx_start: "rxm titleRx (pre, t, caps) \<noteq> [] \<Longrightarrow> \<exists>d r. t = MARK @ d # r \<and> is_digit d"
proof -
  assume "rxm titleRx (pre, t, caps) \<noteq> []"
  then obtain t' where t: "t = MARK @ t'"
      and m: "rxm (rx_seqs (Grp 1 (rx_plus rx_digit) # title_tail)) (rev MARK @ pre, t', caps) \<noteq> []"
    unfolding titleRx_seqs using rxm_chars by blast
  have "\<exists>d r. t' = d # r \<and> is_digit d"
    using m by (cases t') (auto simp: rx_plus_def rx_digit_def split: if_splits)
  with t show ?thesis by blast
qed

lemma title_no_match:
  assumes "\<not> has_sub name MARK" and "name = s1 @ s2" and "s2 \<noteq> []"
  shows "rxm titleRx (pre, s2 @ MARK @ rest, caps) = []"
proof (rule ccontr)
  assume "rxm titleRx (pre, s2 @ MARK @ rest, caps) \<noteq> []"
  then obtain d r where e: "s2 @ MARK @ rest = MARK @ d # r" and d: "is_digit d" using titleRx_start by blast
  show False
  proof (cases "length s2 \<ge> 6")
    case True
    have "take 6 s2 = MARK" using arg_cong [OF e, of "take 6"] True by simp
    then have "s2 = MARK @ drop 6 s2" by (metis append_take_drop_id)
    then have "name = s1 @ MARK @ drop 6 s2" using assms(2) by simp
    then have "has_sub name MARK" using has_sub_append by metis
    with assms(1) show False ..
  next
    case False
    then obtain us where us: "s2 @ us = MARK" "MARK @ rest = us @ d # r"
      using e by (auto simp: append_eq_append_conv2 simp del: append.simps)
    then show False using assms(3) d False
      by (auto simp: append_eq_Cons_conv Cons_eq_append_conv is_digit_def)
  qed
qed

lemma title_recovered:
  assumes "\<not> has_sub connectionName MARK" and "database \<noteq> []" and "\<forall>c \<in> set database. is_digit c"
  shows "redisDatabaseFromWorkspaceTitle (redisKeyWorkspaceTitle connectionName database keyName) = Some database"
proof -
  let ?rest = "database @ [32, 183, 32] @ keyName"
  let ?pre = "rev MARK @ rev connectionName"
  have grp: "rxf (Grp 1 (rx_plus rx_digit)) (?pre, ?rest, []) = Some (rev database @ ?pre, [32, 183, 32] @ keyName, [(1, database)])"
    using rxf_plus_cls [of database is_digit "[32, 183, 32] @ keyName" ?pre "[]"] assms(2,3)
    by (subst rxf_Grp) (auto simp: rx_digit_def is_digit_def)
  have tail: "rxf (rx_seqs title_tail) (p, [32, 183, 32] @ keyName, caps) = Some ([32, 183, 32] @ p, keyName, caps)" for p caps
    using rxf_chars [of "[32, 183]" "rx_chr 32" "[]" p "32 # keyName" caps] by (simp add: rx_chr_def)
  have "rxf titleRx (rev connectionName, MARK @ ?rest, [])
      = rxf (rx_seqs (Grp 1 (rx_plus rx_digit) # title_tail)) (?pre, ?rest, [])"
    unfolding titleRx_seqs by (rule rxf_chars)
  also have "\<dots> = Some ([32, 183, 32] @ rev database @ ?pre, keyName, [(1, database)])"
    using rxf_Seq [OF grp tail] by simp
  finally have m: "rxf titleRx (rev connectionName, MARK @ ?rest, [])
      = Some ([32, 183, 32] @ rev database @ ?pre, keyName, [(1, database)])" .
  have "rx_exec titleRx (connectionName @ MARK @ ?rest) = rx_from titleRx (rev connectionName) (MARK @ ?rest)"
    unfolding rx_exec_def using rx_from_skip [of connectionName titleRx "[]" "MARK @ ?rest"]
      title_no_match [OF assms(1)] by simp
  also have "\<dots> = Some (rev connectionName, [32, 183, 32] @ rev database @ ?pre, keyName, [(1, database)])"
    by (subst rx_from.simps) (simp only: m option.case)
  finally have ex: "rx_exec titleRx (connectionName @ MARK @ ?rest)
      = Some (rev connectionName, [32, 183, 32] @ rev database @ ?pre, keyName, [(1, database)])" .
  have "redisKeyWorkspaceTitle connectionName database keyName = connectionName @ MARK @ ?rest"
    by (simp add: redisKeyWorkspaceTitle_def u.simps)
  then show ?thesis using ex by (simp add: redisDatabaseFromWorkspaceTitle_def rx_groups_def)
qed

text \<open>The logical database of a Redis key workspace is recovered from its title, for every
  key and every connection name that does not contain the title's own separator.\<close>

theorem title_database_recovered:
  assumes "\<not> has_sub connectionName MARK" and "database \<noteq> []" and "\<forall>c \<in> set database. is_digit c"
  shows "redisDatabaseFromWorkspaceTitle (redisKeyWorkspaceTitle connectionName database keyName) = Some database"
  using assms by (rule title_recovered)

theorem title_database_recovered_witness:
  "redisDatabaseFromWorkspaceTitle (redisKeyWorkspaceTitle [112] [49, 53] [107]) = Some [49, 53]"
  by (rule title_database_recovered) (simp_all add: has_sub_def index_of_def index_from.simps is_digit_def)

text \<open>A connection whose name contains such a separator gives its workspaces another
  database: the leftmost separator of the title wins, so the key of database 0 is inspected in database 7.\<close>

lemma title_database_confused:
  "redisDatabaseFromWorkspaceTitle (redisKeyWorkspaceTitle (u ''cache '' @ [183] @ u '' DB 7 '' @ [183] @ u '' eu'') [48] keyName) = Some [55]"
proof -
  have "redisKeyWorkspaceTitle (u ''cache '' @ [183] @ u '' DB 7 '' @ [183] @ u '' eu'') [48] keyName
      = redisKeyWorkspaceTitle (u ''cache'') [55] ((u ''eu '' @ [183] @ u '' DB 0 '' @ [183] @ u '' '') @ keyName)"
    by (simp add: redisKeyWorkspaceTitle_def u.simps)
  moreover have "\<not> has_sub (u ''cache'') MARK"
    by (simp add: has_sub_def index_of_def index_from.simps u.simps)
  ultimately show ?thesis by (simp add: title_recovered is_digit_def)
qed

end
