(* ===== verification/Table_Actions.thy ===== *)
theory Table_Actions
  imports Result_Export Connections Workspace_Navigation Local_Storage
begin

text \<open>
  The actions of the table menu: statements, export files, pins and the cached catalog
  (\<open>features/tables/tableActions.ts\<close>, \<open>features/preferences/pinnedTables.ts\<close>, the identities of
  \<open>features/tables/TableActionMenu.tsx\<close>), and the hook that runs the reading actions
  (\<open>features/tables/useTableUtilityActions.ts\<close>).

  A catalog is a plain object of plain objects; names inherited from \<open>Object.prototype\<close> (a schema called
  \<open>constructor\<close>) are outside the model.
\<close>

section \<open>Statements and names\<close>

definition tableTargetKey :: "js \<Rightarrow> js \<Rightarrow> js \<Rightarrow> js" where
  "tableTargetKey conn database tableName = conn @ [0] @ database @ [0] @ tableName"

definition tableTabId :: "js \<Rightarrow> js \<Rightarrow> js \<Rightarrow> js" where
  "tableTabId conn database tableName = conn @ [0] @ database @ [0] @ tableName"

definition qualifiedTable :: "js \<Rightarrow> js \<Rightarrow> js" where
  "qualifiedTable database tableName = quoteIdentifier database @ u ''.'' @ quoteIdentifier tableName"

definition buildShowCreateTableStatement :: "js \<Rightarrow> js \<Rightarrow> js" where
  "buildShowCreateTableStatement database tableName =
     u ''SHOW CREATE TABLE '' @ qualifiedTable database tableName @ u '';''"

definition buildSelectAllStatement :: "js \<Rightarrow> js \<Rightarrow> js" where
  "buildSelectAllStatement database tableName = u ''SELECT * FROM '' @ qualifiedTable database tableName @ u '';''"

type_synonym TableQueryResult = "QueryColumn list \<times> CellValue list list"

definition extractCreateTableSql :: "TableQueryResult \<Rightarrow> js" where
  "extractCreateTableSql result =
     (let row = at (snd result) 0;
          cell = (\<lambda>i. case row of None \<Rightarrow> None | Some r \<Rightarrow> at r i)
      in cellValueToPlainText (case cell 1 of Some c \<Rightarrow> Some c | None \<Rightarrow> cell 0))"

definition is_cjk :: "nat \<Rightarrow> bool" where
  "is_cjk c \<longleftrightarrow> 19968 \<le> c \<and> c \<le> 40959"

definition file_char :: "nat \<Rightarrow> bool" where
  "file_char c \<longleftrightarrow> is_word c \<or> is_cjk c \<or> c = 46 \<or> c = 45"

definition unsafeRunRx :: rx where
  "unsafeRunRx = rx_plus (Cls (\<lambda>c. \<not> file_char c))"

definition tableExportFileBase :: "js \<Rightarrow> js \<Rightarrow> js" where
  "tableExportFileBase database tableName =
     (let sanitized = slice (rx_replace_all unsafeRunRx [95] (database @ [45] @ tableName)) 0 80
      in if \<exists>c \<in> set sanitized. is_word c \<or> is_cjk c then sanitized else u ''table'')"

datatype TableExportAction = ExportCsv | ExportJson | ExportSql

record TableExportFile =
  content :: js
  fileName :: js
  mimeType :: js
  file_label :: js

definition buildTableExportFile :: "TableExportAction \<Rightarrow> js \<Rightarrow> js \<Rightarrow> TableQueryResult \<Rightarrow> TableExportFile" where
  "buildTableExportFile action database tableName result =
     (let fileBase = tableExportFileBase database tableName; columns = fst result; rows = snd result
      in case action of
           ExportCsv \<Rightarrow>
             \<lparr> content = serializeResultAsCsv columns rows, fileName = fileBase @ u ''.csv'',
               mimeType = u ''text/csv;charset=utf-8'', file_label = u ''CSV'' \<rparr>
         | ExportJson \<Rightarrow>
             \<lparr> content = (if length rows > 0 \<and> length columns > 0
                  then serializeSelectionAsJson columns rows
                    \<lparr> startRow = 0, startCol = 0, endRow = length rows - 1, endCol = length columns - 1 \<rparr>
                  else u ''[]''),
               fileName = fileBase @ u ''.json'', mimeType = u ''application/json;charset=utf-8'', file_label = u ''JSON'' \<rparr>
         | ExportSql \<Rightarrow>
             (let inserts = serializeRowsAsInsert columns rows
                \<lparr> ins_tableName = database @ u ''.'' @ tableName, includePrimaryKey = True, rowIndexes = None \<rparr>
              in \<lparr> content = (if inserts \<noteq> [] then inserts
                     else u ''-- '' @ database @ u ''.'' @ tableName @ (u '' '' @ [26242, 26080, 21487, 23548, 20986, 30340, 25968, 25454]) @ [NEWLINE]),
                   fileName = fileBase @ u ''.sql'', mimeType = u ''application/sql;charset=utf-8'',
                   file_label = u ''SQL INSERT'' \<rparr>))"

definition buildDetachedTableDescriptor :: "ConnectionProfile \<Rightarrow> js \<Rightarrow> js \<Rightarrow> DetachedWorkspaceLaunch" where
  "buildDetachedTableDescriptor profile database tableName =
     LaunchTable (tableTabId (cp_id profile) database tableName) (cp_id profile) database tableName
       (cp_name profile @ (u '' '' @ [183] @ u '' '') @ database @ u ''.'' @ tableName)"

datatype TableDestructiveAction = DropTable | TruncateTable

definition buildDestructiveTableStatement :: "TableDestructiveAction \<Rightarrow> js \<Rightarrow> js \<Rightarrow> js" where
  "buildDestructiveTableStatement action database tableName =
     (case action of
        DropTable \<Rightarrow> u ''DROP TABLE '' @ qualifiedTable database tableName @ u '';''
      | TruncateTable \<Rightarrow> u ''TRUNCATE TABLE '' @ qualifiedTable database tableName @ u '';'')"

datatype table_name_action = RenameTable | DuplicateTable

record TableNameActionStatements =
  primary_statement :: js
  copyRows :: "js option"

definition buildTableNameActionStatements ::
  "table_name_action \<Rightarrow> js \<Rightarrow> js \<Rightarrow> js \<Rightarrow> bool \<Rightarrow> TableNameActionStatements" where
  "buildTableNameActionStatements action database tableName nextTableName copyData =
     (let source = qualifiedTable database tableName; destination = qualifiedTable database nextTableName
      in case action of
           RenameTable \<Rightarrow>
             \<lparr> primary_statement = u ''RENAME TABLE '' @ source @ u '' TO '' @ destination @ u '';'', copyRows = None \<rparr>
         | DuplicateTable \<Rightarrow>
             \<lparr> primary_statement = u ''CREATE TABLE '' @ destination @ u '' LIKE '' @ source @ u '';'',
               copyRows = (if copyData then Some (u ''INSERT INTO '' @ destination @ u '' SELECT * FROM '' @ source @ u '';'')
                           else None) \<rparr>)"

definition tableNameActionValidationError :: "table_name_action \<Rightarrow> js \<Rightarrow> js \<Rightarrow> bool \<Rightarrow> js option" where
  "tableNameActionValidationError action tableName nextTableName hasDirtyWorkspace =
     (if nextTableName = [] \<or> length nextTableName > 64 then Some ([34920, 21517, 19981, 33021, 20026, 31354, 65292, 19988, 19981, 33021, 36229, 36807] @ u '' 64 '' @ [20010, 23383, 31526, 12290])
      else if nextTableName = tableName then
        Some (if action = RenameTable then ([35831, 36755, 20837, 19981, 21516, 30340, 26032, 34920, 21517, 12290]) else ([22797, 21046, 34920, 19981, 33021, 19982, 21407, 34920, 21516, 21517, 12290]))
      else if action = RenameTable \<and> hasDirtyWorkspace then Some ([35831, 20808, 25552, 20132, 25110, 25764, 38144, 35813, 34920, 30340, 26412, 22320, 20462, 25913, 65292, 20877, 37325, 21629, 21517, 12290])
      else None)"

section \<open>Pins\<close>

definition togglePinnedTableKey :: "js list \<Rightarrow> js \<Rightarrow> js list \<times> bool" where
  "togglePinnedTableKey pins key =
     (if key \<in> set pins then (set_delete key pins, False) else (set_add key pins, True))"

definition removePinnedTableKey :: "js list \<Rightarrow> js \<Rightarrow> js list \<times> bool" where
  "removePinnedTableKey pins key =
     (if key \<notin> set pins then (pins, False) else (set_delete key pins, True))"

definition renamePinnedTableKey :: "js list \<Rightarrow> js \<Rightarrow> js \<Rightarrow> js list \<times> bool" where
  "renamePinnedTableKey pins previousKey nextKey =
     (if previousKey \<notin> set pins then (pins, False)
      else (set_add nextKey (set_delete previousKey pins), True))"

definition PINNED_TABLES_STORAGE_KEY :: js where
  "PINNED_TABLES_STORAGE_KEY = u ''pipa:pinned-tables''"

definition string_items :: "json list \<Rightarrow> js list" where
  "string_items vs = List.map_filter (\<lambda>v. case v of JStr s \<Rightarrow> Some s | _ \<Rightarrow> None) vs"

definition loadPinnedTables :: "local_storage \<Rightarrow> js list" where
  "loadPinnedTables st =
     (case parse_item st PINNED_TABLES_STORAGE_KEY of
        Some (Some (JArr vs)) \<Rightarrow> new_set (string_items vs)
      | _ \<Rightarrow> [])"

definition persistPinnedTables :: "js list \<Rightarrow> local_storage \<Rightarrow> local_storage" where
  "persistPinnedTables pinned st = try_set PINNED_TABLES_STORAGE_KEY (json_stringify (JArr (map JStr pinned))) st"

section \<open>The cached catalog\<close>

type_synonym TableCatalog = "js \<Rightarrow> (js \<Rightarrow> js list option) option"

definition cached :: "TableCatalog \<Rightarrow> js \<Rightarrow> js \<Rightarrow> js list option" where
  "cached catalog conn database =
     (case catalog conn of None \<Rightarrow> None | Some schemas \<Rightarrow> schemas database)"

definition with_tables :: "TableCatalog \<Rightarrow> js \<Rightarrow> js \<Rightarrow> js list \<Rightarrow> TableCatalog" where
  "with_tables catalog conn database tables =
     catalog(conn \<mapsto>
       (case catalog conn of None \<Rightarrow> Map.empty | Some schemas \<Rightarrow> schemas)(database \<mapsto> tables))"

definition removeTableFromCatalog :: "TableCatalog \<Rightarrow> js \<Rightarrow> js \<Rightarrow> js \<Rightarrow> TableCatalog" where
  "removeTableFromCatalog catalog conn database tableName =
     (case cached catalog conn database of
        None \<Rightarrow> catalog
      | Some names \<Rightarrow>
          if tableName \<notin> set names then catalog
          else with_tables catalog conn database (filter (\<lambda>n. n \<noteq> tableName) names))"

definition renameTableInCatalog :: "TableCatalog \<Rightarrow> js \<Rightarrow> js \<Rightarrow> js \<Rightarrow> js \<Rightarrow> TableCatalog" where
  "renameTableInCatalog catalog conn database tableName nextTableName =
     (case cached catalog conn database of
        None \<Rightarrow> catalog
      | Some names \<Rightarrow>
          if tableName \<notin> set names then catalog
          else with_tables catalog conn database
                 (map (\<lambda>n. if n = tableName then nextTableName else n) names))"

definition addTableToCatalog :: "TableCatalog \<Rightarrow> js \<Rightarrow> js \<Rightarrow> js \<Rightarrow> TableCatalog" where
  "addTableToCatalog catalog conn database tableName =
     (let names = (case cached catalog conn database of None \<Rightarrow> [] | Some ns \<Rightarrow> ns)
      in if tableName \<in> set names then catalog
         else with_tables catalog conn database (names @ [tableName]))"

section \<open>The reading actions\<close>

record TableDdlPreviewState =
  pv_connectionId :: js
  pv_tableName :: js
  pv_loading :: bool
  pv_sql :: js
  pv_error :: "js option"

text \<open>
  What a pending call was started for: the query of an export, of the preview or of a copy, or a
  clipboard write with its message, which for a copied statement also ends the action.
\<close>

datatype utility_flight =
  FlightExport TableExportAction js js js
| FlightShow js js js
| FlightCopy js js js
| FlightClipboard js bool
| FlightWindow js

record utility =
  running :: bool
  ddlPreview :: "TableDdlPreviewState option"
  flights :: "utility_flight list"

datatype utility_effect =
  RunOnce js js | WriteText js | UtilNotice js | UtilError js | UtilClearError | OpenHere js js js
| OpenWindow window_options | Download "download_effect list"

datatype utility_answer = Rejected_call rejection | Rows TableQueryResult download_host | Done

datatype utility_label =
  ExportTable ConnectionProfile js js TableExportAction
| ShowCreateTable ConnectionProfile js js
| CopyCreateTable ConnectionProfile js js
| CopyText js js
| OpenInNewWindow ConnectionProfile js js bool "int \<times> int" js
| CloseDdlPreview
| Settled nat utility_answer

definition init_utility :: utility where
  "init_utility = \<lparr> running = False, ddlPreview = None, flights = [] \<rparr>"

definition EXPORT_FALLBACK :: js where "EXPORT_FALLBACK = ([26080, 27861, 35835, 21462, 25110, 23548, 20986, 35813, 34920, 65292, 35831, 37325, 35797, 12290])"
definition DDL_FALLBACK :: js where "DDL_FALLBACK = ([26080, 27861, 35835, 21462] @ u '' CREATE TABLE '' @ [35821, 27861, 12290])"
definition CLIPBOARD_FALLBACK :: js where "CLIPBOARD_FALLBACK = ([22797, 21046, 22833, 36133, 65292, 35831, 26816, 26597, 31995, 32479, 21098, 36148, 26495, 26435, 38480, 12290])"
definition WINDOW_FALLBACK :: js where "WINDOW_FALLBACK = ([26080, 27861, 25171, 24320, 29420, 31435, 34920, 31383, 21475, 65292, 35831, 37325, 35797, 12290])"

definition exportTable ::
  "ConnectionProfile \<Rightarrow> js \<Rightarrow> js \<Rightarrow> TableExportAction \<Rightarrow> utility \<Rightarrow> utility \<times> utility_effect list" where
  "exportTable profile database tableName action s =
     (if database = [] \<or> running s then (s, [])
      else (s \<lparr> running := True, flights := flights s @ [FlightExport action (cp_id profile) database tableName] \<rparr>,
            [UtilClearError, UtilNotice (([27491, 22312, 23548, 20986, 34920, 8220]) @ tableName @ ([8221, 8230])),
             RunOnce (cp_id profile) (buildSelectAllStatement database tableName)]))"

definition showCreateTable :: "ConnectionProfile \<Rightarrow> js \<Rightarrow> js \<Rightarrow> utility \<Rightarrow> utility \<times> utility_effect list" where
  "showCreateTable profile database tableName s =
     (if database = [] then (s, [])
      else (s \<lparr> ddlPreview := Some \<lparr> pv_connectionId = cp_id profile, pv_tableName = tableName, pv_loading = True,
                  pv_sql = [], pv_error = None \<rparr>,
                flights := flights s @ [FlightShow (cp_id profile) database tableName] \<rparr>,
            [RunOnce (cp_id profile) (buildShowCreateTableStatement database tableName)]))"

definition copyCreateTable :: "ConnectionProfile \<Rightarrow> js \<Rightarrow> js \<Rightarrow> utility \<Rightarrow> utility \<times> utility_effect list" where
  "copyCreateTable profile database tableName s =
     (if database = [] \<or> running s then (s, [])
      else (s \<lparr> running := True, flights := flights s @ [FlightCopy (cp_id profile) database tableName] \<rparr>,
            [RunOnce (cp_id profile) (buildShowCreateTableStatement database tableName)]))"

definition copyText :: "js \<Rightarrow> js \<Rightarrow> bool \<Rightarrow> utility \<Rightarrow> utility \<times> utility_effect list" where
  "copyText t successMessage ends s =
     (s \<lparr> flights := flights s @ [FlightClipboard successMessage ends] \<rparr>, [WriteText t])"

definition openInNewWindow ::
  "ConnectionProfile \<Rightarrow> js \<Rightarrow> js \<Rightarrow> bool \<Rightarrow> int \<times> int \<Rightarrow> js \<Rightarrow> utility \<Rightarrow> utility \<times> utility_effect list" where
  "openInNewWindow profile database tableName tauri screen label s =
     (case createDetachedWorkspaceWindow tauri (buildDetachedTableDescriptor profile database tableName)
             (fst screen + 140, snd screen + 90) label of
        None \<Rightarrow> (s, [OpenHere (cp_id profile) database tableName,
                     UtilNotice ([24403, 21069, 29615, 22659, 19981, 25903, 25345, 29420, 31435, 31383, 21475, 65292, 24050, 22312, 24403, 21069, 31383, 21475, 25171, 24320, 34920, 12290])])
      | Some w \<Rightarrow> (s \<lparr> flights := flights s @ [FlightWindow tableName] \<rparr>, [OpenWindow w]))"

text \<open>\<open>setDdlPreview(current => current matches ? f(current) : current)\<close>\<close>

definition update_preview ::
  "js \<Rightarrow> js \<Rightarrow> (TableDdlPreviewState \<Rightarrow> TableDdlPreviewState) \<Rightarrow> utility \<Rightarrow> utility" where
  "update_preview conn tableName f s =
     s \<lparr> ddlPreview := map_option (\<lambda>p. if pv_connectionId p = conn \<and> pv_tableName p = tableName then f p else p)
                          (ddlPreview s) \<rparr>"

definition export_settled ::
  "TableExportAction \<Rightarrow> js \<Rightarrow> js \<Rightarrow> utility_answer \<Rightarrow> utility \<Rightarrow> utility \<times> utility_effect list" where
  "export_settled action database tableName answer s =
     (case answer of
        Rows result dh \<Rightarrow>
          (let file = buildTableExportFile action database tableName result;
               (effects, outcome) = downloadTextFile dh (content file) (fileName file) (mimeType file)
           in (s \<lparr> running := False \<rparr>, [Download effects, UtilNotice
                (case outcome of
                   Saved \<Rightarrow> ([24050, 23548, 20986] @ u '' '') @ file_label file @ (u '' '' @ [183] @ u '' '') @ dec (length (snd result)) @ (u '' '' @ [34892, 12290])
                 | Cancelled \<Rightarrow> ([24050, 21462, 28040, 23548, 20986, 12290])
                 | DownloadTextFileResult.Failed \<Rightarrow> ([23548, 20986, 22833, 36133, 65292, 35831, 37325, 35797, 12290]))]))
      | Rejected_call e \<Rightarrow> (s \<lparr> running := False \<rparr>, [UtilError (getConnectionActionError e EXPORT_FALLBACK)])
      | Done \<Rightarrow> (s, []))"

definition show_settled :: "js \<Rightarrow> js \<Rightarrow> utility_answer \<Rightarrow> utility \<Rightarrow> utility \<times> utility_effect list" where
  "show_settled conn tableName answer s =
     (case answer of
        Rows result dh \<Rightarrow>
          (update_preview conn tableName
             (\<lambda>p. p \<lparr> pv_loading := False, pv_sql := extractCreateTableSql result \<rparr>) s, [])
      | Rejected_call e \<Rightarrow>
          (update_preview conn tableName
             (\<lambda>p. p \<lparr> pv_loading := False, pv_error := Some (getConnectionActionError e DDL_FALLBACK) \<rparr>) s, [])
      | Done \<Rightarrow> (s, []))"

definition copy_settled :: "js \<Rightarrow> utility_answer \<Rightarrow> utility \<Rightarrow> utility \<times> utility_effect list" where
  "copy_settled tableName answer s =
     (case answer of
        Rows result dh \<Rightarrow>
          copyText (extractCreateTableSql result) (([24050, 22797, 21046, 34920, 8220]) @ tableName @ ([8221, 30340] @ u '' CREATE TABLE '' @ [35821, 27861, 12290])) True s
      | Rejected_call e \<Rightarrow> (s \<lparr> running := False \<rparr>, [UtilError (getConnectionActionError e DDL_FALLBACK)])
      | Done \<Rightarrow> (s, []))"

definition clipboard_settled :: "js \<Rightarrow> bool \<Rightarrow> utility_answer \<Rightarrow> utility \<Rightarrow> utility \<times> utility_effect list" where
  "clipboard_settled successMessage ends answer s =
     (s \<lparr> running := (if ends then False else running s) \<rparr>,
      [case answer of Rejected_call e \<Rightarrow> UtilError (getConnectionActionError e CLIPBOARD_FALLBACK)
       | _ \<Rightarrow> UtilNotice successMessage])"

definition window_settled :: "js \<Rightarrow> utility_answer \<Rightarrow> utility \<Rightarrow> utility \<times> utility_effect list" where
  "window_settled tableName answer s =
     (s, [case answer of Rejected_call e \<Rightarrow> UtilError (getConnectionActionError e WINDOW_FALLBACK)
          | _ \<Rightarrow> UtilNotice (([24050, 22312, 26032, 31383, 21475, 20013, 25171, 24320, 34920, 8220]) @ tableName @ ([8221, 12290]))])"

text \<open>A query is answered by rows or a rejection, another call by its end or a rejection.\<close>

fun fits :: "utility_flight \<Rightarrow> utility_answer \<Rightarrow> bool" where
  "fits f (Rejected_call e) = True"
| "fits (FlightClipboard m b) a = (a = Done)"
| "fits (FlightWindow m) a = (a = Done)"
| "fits f a = (a \<noteq> Done)"

definition without :: "nat \<Rightarrow> 'a list \<Rightarrow> 'a list" where
  "without i xs = take i xs @ drop (Suc i) xs"

fun utility_step :: "utility_label \<Rightarrow> utility \<Rightarrow> utility \<times> utility_effect list" where
  "utility_step (ExportTable p d t a) s = exportTable p d t a s"
| "utility_step (ShowCreateTable p d t) s = showCreateTable p d t s"
| "utility_step (CopyCreateTable p d t) s = copyCreateTable p d t s"
| "utility_step (CopyText t m) s = copyText t m False s"
| "utility_step (OpenInNewWindow p d t tauri xy l) s = openInNewWindow p d t tauri xy l s"
| "utility_step CloseDdlPreview s = (s \<lparr> ddlPreview := None \<rparr>, [])"
| "utility_step (Settled i a) s =
     (case at (flights s) i of
        None \<Rightarrow> (s, [])
      | Some f \<Rightarrow>
          if \<not> fits f a then (s, [])
          else (let s1 = s \<lparr> flights := without i (flights s) \<rparr>
                in case f of
                     FlightExport act c d t \<Rightarrow> export_settled act d t a s1
                   | FlightShow c d t \<Rightarrow> show_settled c t a s1
                   | FlightCopy c d t \<Rightarrow> copy_settled t a s1
                   | FlightClipboard m b \<Rightarrow> clipboard_settled m b a s1
                   | FlightWindow t \<Rightarrow> window_settled t a s1))"

section \<open>Identities, files, pins and the catalog\<close>

text \<open>Tables of different schemas or connections have different identities.\<close>

lemma split_at_nul: "0 \<notin> set a \<Longrightarrow> 0 \<notin> set b \<Longrightarrow> a @ (0::nat) # x = b @ 0 # y \<Longrightarrow> a = b \<and> x = y"
proof (induction a arbitrary: b)
  case Nil
  then show ?case by (cases b) auto
next
  case (Cons c a)
  then show ?case by (cases b) auto
qed

lemma tableTabId_inject:
  assumes "0 \<notin> set c" "0 \<notin> set d" "0 \<notin> set c'" "0 \<notin> set d'" and "tableTabId c d t = tableTabId c' d' t'"
  shows "c = c' \<and> d = d' \<and> t = t'"
proof -
  have "c @ 0 # (d @ 0 # t) = c' @ 0 # (d' @ 0 # t')" using assms(5) by (simp add: tableTabId_def)
  then have "c = c'" "d @ 0 # t = d' @ 0 # t'" using split_at_nul assms(1,3) by blast+
  with split_at_nul assms(2,4) show ?thesis by blast
qed

text \<open>Replacing runs of a class leaves no character of the class.\<close>

lemma rxf_plus_cls_None: "rxf (rx_plus (Cls p)) (pre, c # cs, []) = None \<Longrightarrow> \<not> p c"
  by (auto simp: rxf_None rx_plus_def rxm_Star)

lemma rxf_plus_cls_suffix: "rxf (rx_plus (Cls p)) (pre, s, []) = Some (pre', s', caps) \<Longrightarrow> set s' \<subseteq> set s"
  using rxf_consumes [of "\<lambda>_. True" "rx_plus (Cls p)" "(pre, s, [])" "(pre', s', caps)"]
  by (auto simp: consumes_def rx_plus_def)

lemma rx_replace_class: "set (rx_replace (rx_plus (Cls p)) t pre s) \<subseteq> set t \<union> {c \<in> set s. \<not> p c}"
proof (induction "rx_plus (Cls p)" t pre s rule: rx_replace.induct)
  case (1 t pre post)
  show ?case
  proof (cases "rxf (rx_plus (Cls p)) (pre, post, [])")
    case None
    show ?thesis
    proof (cases post)
      case (Cons c cs)
      then show ?thesis using None 1(1) [OF None Cons] rxf_plus_cls_None [of p pre c cs]
        by (subst rx_replace.simps) auto
    qed (use None in \<open>subst rx_replace.simps, auto\<close>)
  next
    case (Some st)
    obtain pre' post' caps where st: "st = (pre', post', caps)" by (cases st)
    have m: "post \<noteq> []" "length post' < length post"
      using Some st rxm_min [OF rxf_Some_in [OF Some]] by (cases post; auto simp: rx_plus_def)+
    have "set post' \<subseteq> set post" using rxf_plus_cls_suffix Some st by blast
    moreover have "set (rx_replace (rx_plus (Cls p)) t pre' post') \<subseteq> set t \<union> {c \<in> set post'. \<not> p c}"
      using 1 Some st m by blast
    ultimately show ?thesis using Some st m by (subst rx_replace.simps) auto
  qed
qed

text \<open>An export file name is not empty, at most 80 units long and made of letters, digits, CJK, dots, hyphens and underscores.\<close>

lemma tableExportFileBase_safe:
  "tableExportFileBase d t \<noteq> [] \<and> length (tableExportFileBase d t) \<le> 80 \<and> (\<forall>c \<in> set (tableExportFileBase d t). file_char c)
   \<and> (\<exists>c \<in> set (tableExportFileBase d t). is_word c \<or> is_cjk c)"
proof -
  let ?s = "take 80 (rx_replace_all unsafeRunRx [95] (d @ [45] @ t))"
  have "\<forall>c \<in> set (rx_replace_all unsafeRunRx [95] (d @ [45] @ t)). file_char c"
    using rx_replace_class [of "\<lambda>c. \<not> file_char c" "[95]" "[]" "d @ [45] @ t"]
    by (auto simp: rx_replace_all_def unsafeRunRx_def file_char_def is_word_def)
  then have "\<forall>c \<in> set ?s. file_char c" by (meson in_set_takeD)
  moreover have "\<exists>c \<in> set (u ''table''). is_word c" "\<forall>c \<in> set (u ''table''). file_char c"
    by (simp_all add: u.simps file_char_def js_eval)
  ultimately show ?thesis by (auto simp: tableExportFileBase_def Let_def slice_def)
qed

interpretation pins: stable_preference PINNED_TABLES_STORAGE_KEY loadPinnedTables persistPinnedTables distinct
proof unfold_locales
  fix st :: local_storage and a :: "js list"
  assume "reads st" "writes st" "distinct a"
  moreover have "string_items (map JStr xs) = xs" for xs
    by (induction xs) (simp_all add: string_items_def List.map_filter_simps)
  moreover have "json_plain (JArr (map JStr a))" by simp
  ultimately show "loadPinnedTables (persistPinnedTables a st) = a"
    using parse_item_try_set [of st "JArr (map JStr a)" PINNED_TABLES_STORAGE_KEY]
    by (simp add: loadPinnedTables_def persistPinnedTables_def new_set_def distinct_remdups_id del: json_stringify.simps)
qed (auto simp: persistPinnedTables_def try_set_items loadPinnedTables_def parse_item_def getItem_def
      split: option.splits json.splits)

lemma cached_with_tables:
  "cached (with_tables cat c d ts) c' d' = (if c' = c \<and> d' = d then Some ts else cached cat c' d')"
  by (auto simp: cached_def with_tables_def split: option.splits)

text \<open>The cached catalog follows the statements; the lists of other schemas are not touched.\<close>

lemma catalog_follows:
  "cached (removeTableFromCatalog cat c d t) c' d'
     = (if c' = c \<and> d' = d then map_option (filter (\<lambda>n. n \<noteq> t)) (cached cat c d) else cached cat c' d')"
  "cached (renameTableInCatalog cat c d t t') c' d'
     = (if c' = c \<and> d' = d then map_option (map (\<lambda>n. if n = t then t' else n)) (cached cat c d) else cached cat c' d')"
  "distinct ns \<Longrightarrow> cached cat c d = Some ns \<Longrightarrow>
     \<exists>ns'. cached (addTableToCatalog cat c d t) c d = Some ns' \<and> distinct ns' \<and> set ns' = insert t (set ns)"
proof -
  have "filter (\<lambda>n. n \<noteq> t) ns = ns" "map (\<lambda>n. if n = t then t' else n) ns = ns" if "t \<notin> set ns" for ns
    using that by (induction ns) auto
  then show "cached (removeTableFromCatalog cat c d t) c' d'
     = (if c' = c \<and> d' = d then map_option (filter (\<lambda>n. n \<noteq> t)) (cached cat c d) else cached cat c' d')"
    and "cached (renameTableInCatalog cat c d t t') c' d'
     = (if c' = c \<and> d' = d then map_option (map (\<lambda>n. if n = t then t' else n)) (cached cat c d) else cached cat c' d')"
    by (auto simp: removeTableFromCatalog_def renameTableInCatalog_def cached_with_tables split: option.split)
  show "distinct ns \<Longrightarrow> cached cat c d = Some ns \<Longrightarrow>
     \<exists>ns'. cached (addTableToCatalog cat c d t) c d = Some ns' \<and> distinct ns' \<and> set ns' = insert t (set ns)"
    by (auto simp: addTableToCatalog_def cached_with_tables)
qed

section \<open>One long action at a time\<close>

fun exclusive :: "utility_flight \<Rightarrow> bool" where
  "exclusive (FlightExport a c d t) = True"
| "exclusive (FlightCopy c d t) = True"
| "exclusive (FlightClipboard m b) = b"
| "exclusive f = False"

definition util_inv :: "utility \<Rightarrow> bool" where
  "util_inv s \<longleftrightarrow> length (filter exclusive (flights s)) = of_bool (running s)"

lemma filter_without:
  "i < length xs \<Longrightarrow> length (filter p xs) = length (filter p (without i xs)) + of_bool (p (xs ! i))"
proof -
  assume "i < length xs"
  then have "xs = take i xs @ xs ! i # drop (Suc i) xs" by (rule id_take_nth_drop)
  then have "length (filter p xs) = length (filter p (take i xs @ xs ! i # drop (Suc i) xs))" by simp
  then show ?thesis by (simp add: without_def)
qed

lemma util_inv_step:
  assumes "util_inv s"
  shows "util_inv (fst (utility_step l s))"
proof (cases l)
  case (Settled i a)
  show ?thesis
  proof (cases "at (flights s) i")
    case (Some f)
    then have i: "i < length (flights s)" "flights s ! i = f" by auto
    note w = filter_without [OF i(1), of exclusive, unfolded i(2)]
    show ?thesis
    proof (cases "fits f a")
      case True
      show ?thesis
        using assms w Some True Settled
        by (cases f; cases a) (auto simp: util_inv_def export_settled_def show_settled_def copy_settled_def copyText_def
            clipboard_settled_def window_settled_def update_preview_def Let_def of_bool_def split: prod.split if_splits)
    qed (use Some Settled assms in simp)
  qed (use Settled assms in simp)
qed (use assms in \<open>auto simp: util_inv_def exportTable_def showCreateTable_def copyCreateTable_def copyText_def openInNewWindow_def
      split: option.split\<close>)

definition utility_run :: "utility_label list \<Rightarrow> utility" where
  "utility_run ls = foldl (\<lambda>s l. fst (utility_step l s)) init_utility ls"

lemma util_inv_run: "util_inv (utility_run ls)"
  unfolding utility_run_def
  by (rule foldl_keeps [where P = util_inv]) (simp_all add: util_inv_step, simp add: util_inv_def init_utility_def)

text \<open>Exports and copies exclude each other: in every reachable state the action flag is set exactly
  while one of them is pending, a second one is not started meanwhile, and whatever the answer, a pending
  export ends, and a pending copy ends or goes on to the clipboard write that ends it.\<close>

theorem one_long_action:
  fixes ls
  defines "s \<equiv> utility_run ls"
  shows "length (filter exclusive (flights s)) = of_bool (running s)
    \<and> (running s \<longrightarrow> utility_step (ExportTable p d t a) s = (s, []) \<and> utility_step (CopyCreateTable p d t) s = (s, []))
    \<and> (at (flights s) i = Some (FlightExport a c d t) \<longrightarrow> answer \<noteq> Done \<longrightarrow>
        \<not> running (fst (utility_step (Settled i answer) s)))
    \<and> (at (flights s) i = Some (FlightClipboard m True) \<longrightarrow> fits (FlightClipboard m True) answer \<longrightarrow>
        \<not> running (fst (utility_step (Settled i answer) s)))
    \<and> (at (flights s) i = Some (FlightCopy c d t) \<longrightarrow> answer \<noteq> Done \<longrightarrow>
        (let s' = fst (utility_step (Settled i answer) s)
         in \<not> running s' \<or> (\<exists>m. last (flights s') = FlightClipboard m True)))"
proof -
  have inv: "length (filter exclusive (flights s)) = of_bool (running s)"
    using util_inv_run [of ls] by (simp add: s_def util_inv_def)
  show ?thesis
    using inv by (cases answer) (auto simp: exportTable_def copyCreateTable_def export_settled_def clipboard_settled_def
        copy_settled_def copyText_def Let_def split: prod.split)
qed

lemma one_long_action_witness:
  "utility_step (CopyCreateTable sample_profile [100] [116]) (utility_run [ExportTable sample_profile [100] [116] ExportCsv])
     = (utility_run [ExportTable sample_profile [100] [116] ExportCsv], [])
   \<and> \<not> running (fst (utility_step (Settled 0 (Rejected_call RejOther)) (utility_run [ExportTable sample_profile [100] [116] ExportCsv])))"
  using one_long_action [where ls = "[ExportTable sample_profile [100] [116] ExportCsv]" and p = sample_profile
      and d = "[100]" and t = "[116]" and a = ExportCsv and i = 0 and c = "cp_id sample_profile"
      and answer = "Rejected_call RejOther"]
  by (simp add: utility_run_def exportTable_def init_utility_def)

text \<open>
  The preview's guard compares the connection and the table but not the schema: when two schemas have a
  table of the same name, the answer for the one requested first can end up in the preview of the other.
  Below, both orders of the answers: the second leaves the wrong statement there for good.
\<close>

text \<open>The CREATE TABLE preview can show another schema's table: after requests for the table in two
  schemas, an answer to the first request is shown in the preview opened for the second, and when the
  answers arrive in the other order it stays there.\<close>

theorem ddl_preview_mixes:
  assumes "cp_id p = c" and "da \<noteq> []" and "db \<noteq> []"
  shows "map_option pv_sql (ddlPreview (utility_run [ShowCreateTable p da t, ShowCreateTable p db t,
        Settled 1 (Rows ([], [[CText t, CText sql2]]) h2), Settled 0 (Rows ([], [[CText t, CText sql1]]) h1)])) = Some sql1
    \<and> map_option pv_loading (ddlPreview (utility_run [ShowCreateTable p da t, ShowCreateTable p db t,
        Settled 0 (Rows ([], [[CText t, CText sql1]]) h1)])) = Some False"
  using assms by (simp add: utility_run_def init_utility_def showCreateTable_def show_settled_def update_preview_def
      extractCreateTableSql_def without_def at_def)

theorem ddl_preview_mixes_witness:
  "map_option pv_loading (ddlPreview (utility_run [ShowCreateTable sample_profile [100] [116], ShowCreateTable sample_profile [101] [116],
     Settled 0 (Rows ([], [[CText [116], CText [49]]]) \<lparr> bridge_loads = True, isTauri = True, save_dialog = None, write_succeeds = True \<rparr>)]))
   = Some False"
  using ddl_preview_mixes [of sample_profile "[99]" "[100]" "[101]"] by (simp add: sample_profile_def)

end
