(* ===== verification/Preferences.thy ===== *)
theory Preferences
  imports Local_Storage Connections Complex_Main
begin

text \<open>
  The stored preferences (\<open>features/preferences/sidebarLayout.ts\<close>, \<open>paneLayout.ts\<close>, \<open>workspaceFocus.ts\<close>,
  \<open>theme.ts\<close>, \<open>features/mcp/mcpPanelLayout.ts\<close>), the sidebar hook (\<open>useSidebarLayout.ts\<close>) and the theme hook.

  A width or ratio is a number that is not finite (\<open>None\<close>) or the rational a double is. An object used as a
  map is its list of entries in order. Every preference is an interpretation of the contract of
  Local\_Storage, which says that it survives a restart and leaves the others alone.
\<close>

section \<open>Bounded numbers\<close>

definition clamp_number :: "int \<Rightarrow> int \<Rightarrow> int \<Rightarrow> rat option \<Rightarrow> int" where
  "clamp_number lo hi dflt x =
     (case x of None \<Rightarrow> dflt | Some q \<Rightarrow> \<lfloor>min (of_int hi) (max (of_int lo) q) + 1 / 2\<rfloor>)"

text \<open>
  \<open>Number.parseInt(s, 10)\<close>: white space, a sign, the digits that follow. Numbers from \<open>2^1024 - 2^970\<close> on are
  read as an infinity; below that only the rounding of the double is left out, which no clamped value can see.
\<close>

datatype parsed = NotANumber | Number "rat option"

definition parseInt :: "js \<Rightarrow> parsed" where
  "parseInt s =
     (let (neg, t) = parse_sign (trim_start s);
          ds = takeWhile is_digit t;
          n = digits_val ds
      in if ds = [] then NotANumber
         else if n \<ge> 2 ^ 1024 - 2 ^ 970 then Number None
         else Number (Some (if neg then - of_nat n else of_nat n)))"

definition load_number :: "js \<Rightarrow> int \<Rightarrow> int \<Rightarrow> int \<Rightarrow> local_storage \<Rightarrow> int" where
  "load_number key lo hi dflt st =
     (case getItem st key of
        Some (Some serialized) \<Rightarrow>
          if serialized = [] then dflt
          else (case parseInt serialized of NotANumber \<Rightarrow> dflt | Number x \<Rightarrow> clamp_number lo hi dflt x)
      | _ \<Rightarrow> dflt)"

definition SIDEBAR_WIDTH_STORAGE_KEY :: js where "SIDEBAR_WIDTH_STORAGE_KEY = u ''pipa.sidebar-width.v1''"
definition SIDEBAR_WIDTH_DEFAULT :: int where "SIDEBAR_WIDTH_DEFAULT = 316"
definition SIDEBAR_WIDTH_MIN :: int where "SIDEBAR_WIDTH_MIN = 220"
definition SIDEBAR_WIDTH_MAX :: int where "SIDEBAR_WIDTH_MAX = 560"

definition clampSidebarWidth :: "rat option \<Rightarrow> int" where
  "clampSidebarWidth = clamp_number SIDEBAR_WIDTH_MIN SIDEBAR_WIDTH_MAX SIDEBAR_WIDTH_DEFAULT"

definition loadSidebarWidth :: "local_storage \<Rightarrow> int" where
  "loadSidebarWidth = load_number SIDEBAR_WIDTH_STORAGE_KEY SIDEBAR_WIDTH_MIN SIDEBAR_WIDTH_MAX SIDEBAR_WIDTH_DEFAULT"

definition persistSidebarWidth :: "rat option \<Rightarrow> local_storage \<Rightarrow> local_storage" where
  "persistSidebarWidth width st = try_set SIDEBAR_WIDTH_STORAGE_KEY (dec_int (clampSidebarWidth width)) st"

definition EDITOR_SPLIT_STORAGE_KEY :: js where "EDITOR_SPLIT_STORAGE_KEY = u ''pipa.query-editor-split.v1''"
definition EDITOR_SPLIT_DEFAULT :: int where "EDITOR_SPLIT_DEFAULT = 44"
definition EDITOR_SPLIT_MIN :: int where "EDITOR_SPLIT_MIN = 20"
definition EDITOR_SPLIT_MAX :: int where "EDITOR_SPLIT_MAX = 80"

definition clampEditorSplit :: "rat option \<Rightarrow> int" where
  "clampEditorSplit = clamp_number EDITOR_SPLIT_MIN EDITOR_SPLIT_MAX EDITOR_SPLIT_DEFAULT"

definition loadEditorSplit :: "local_storage \<Rightarrow> int" where
  "loadEditorSplit = load_number EDITOR_SPLIT_STORAGE_KEY EDITOR_SPLIT_MIN EDITOR_SPLIT_MAX EDITOR_SPLIT_DEFAULT"

definition persistEditorSplit :: "rat option \<Rightarrow> local_storage \<Rightarrow> local_storage" where
  "persistEditorSplit ratio st = try_set EDITOR_SPLIT_STORAGE_KEY (dec_int (clampEditorSplit ratio)) st"

section \<open>Flags\<close>

definition flag_text :: "bool \<Rightarrow> js" where "flag_text b = (if b then u ''1'' else u ''0'')"

definition load_flag :: "js \<Rightarrow> local_storage \<Rightarrow> bool" where
  "load_flag key st = (getItem st key = Some (Some (u ''1'')))"

definition SIDEBAR_COLLAPSED_STORAGE_KEY :: js where "SIDEBAR_COLLAPSED_STORAGE_KEY = u ''pipa.sidebar-collapsed.v1''"

definition loadSidebarCollapsed :: "local_storage \<Rightarrow> bool" where
  "loadSidebarCollapsed = load_flag SIDEBAR_COLLAPSED_STORAGE_KEY"

definition persistSidebarCollapsed :: "bool \<Rightarrow> local_storage \<Rightarrow> local_storage" where
  "persistSidebarCollapsed collapsed st = try_set SIDEBAR_COLLAPSED_STORAGE_KEY (flag_text collapsed) st"

definition MCP_PANEL_WIDE_STORAGE_KEY :: js where "MCP_PANEL_WIDE_STORAGE_KEY = u ''pipa.mcp-panel-wide.v1''"

definition loadMcpPanelWide :: "local_storage \<Rightarrow> bool" where
  "loadMcpPanelWide = load_flag MCP_PANEL_WIDE_STORAGE_KEY"

definition persistMcpPanelWide :: "bool \<Rightarrow> local_storage \<Rightarrow> local_storage" where
  "persistMcpPanelWide wide st = try_set MCP_PANEL_WIDE_STORAGE_KEY (flag_text wide) st"

section \<open>Sections and drawers of the sidebar\<close>

definition ENGINE_SECTION_COLLAPSE_STORAGE_KEY :: js where
  "ENGINE_SECTION_COLLAPSE_STORAGE_KEY = u ''pipa.engine-section-collapse.v1''"

definition KNOWN_ENGINES :: "Engine list" where
  "KNOWN_ENGINES = [MySql, PostgreSql, MongoDb, RedisEngine]"

text \<open>An array is an object too; it has no property named like an engine.\<close>

definition engine_overrides :: "(js \<times> json) list \<Rightarrow> (Engine \<times> bool) list" where
  "engine_overrides ms =
     List.map_filter (\<lambda>e. case map_of ms (engine_text e) of Some (JBool b) \<Rightarrow> Some (e, b) | _ \<Rightarrow> None) KNOWN_ENGINES"

definition loadEngineSectionCollapseOverrides :: "local_storage \<Rightarrow> (Engine \<times> bool) list" where
  "loadEngineSectionCollapseOverrides st =
     (case parse_item st ENGINE_SECTION_COLLAPSE_STORAGE_KEY of Some (Some (JObj ms)) \<Rightarrow> engine_overrides ms | _ \<Rightarrow> [])"

definition overrides_json :: "(Engine \<times> bool) list \<Rightarrow> json" where
  "overrides_json os = JObj (map (\<lambda>(e, b). (engine_text e, JBool b)) os)"

definition persistEngineSectionCollapseOverrides :: "(Engine \<times> bool) list \<Rightarrow> local_storage \<Rightarrow> local_storage" where
  "persistEngineSectionCollapseOverrides overrides st =
     try_set ENGINE_SECTION_COLLAPSE_STORAGE_KEY (json_stringify (overrides_json overrides)) st"

definition EXPANDED_CONNECTIONS_STORAGE_KEY :: js where
  "EXPANDED_CONNECTIONS_STORAGE_KEY = u ''pipa.expanded-connections.v1''"

definition MAX_PERSISTED_EXPANDED_CONNECTIONS :: nat where "MAX_PERSISTED_EXPANDED_CONNECTIONS = 50"

definition texts :: "json list \<Rightarrow> js list" where
  "texts vs = List.map_filter (\<lambda>v. case v of JStr s \<Rightarrow> if s \<noteq> [] then Some s else None | _ \<Rightarrow> None) vs"

definition loadExpandedConnectionIds :: "local_storage \<Rightarrow> js list" where
  "loadExpandedConnectionIds st =
     (case parse_item st EXPANDED_CONNECTIONS_STORAGE_KEY of Some (Some (JArr vs)) \<Rightarrow> new_set (texts vs) | _ \<Rightarrow> [])"

definition persistExpandedConnectionIds :: "js list \<Rightarrow> local_storage \<Rightarrow> local_storage" where
  "persistExpandedConnectionIds connectionIds st =
     try_set EXPANDED_CONNECTIONS_STORAGE_KEY
       (json_stringify (JArr (map JStr (take MAX_PERSISTED_EXPANDED_CONNECTIONS connectionIds)))) st"

section \<open>The focus of the workspace\<close>

definition FOCUSED_CONNECTION_STORAGE_KEY :: js where
  "FOCUSED_CONNECTION_STORAGE_KEY = u ''pipa.focused-connection.v1''"

definition loadFocusedConnectionId :: "local_storage \<Rightarrow> js option" where
  "loadFocusedConnectionId st =
     (case getItem st FOCUSED_CONNECTION_STORAGE_KEY of
        Some (Some stored) \<Rightarrow> if stored \<noteq> [] then Some stored else None
      | _ \<Rightarrow> None)"

definition persistFocusedConnectionId :: "js option \<Rightarrow> local_storage \<Rightarrow> local_storage" where
  "persistFocusedConnectionId c st =
     (case c of
        Some i \<Rightarrow> if i \<noteq> [] then try_set FOCUSED_CONNECTION_STORAGE_KEY i st else try_remove FOCUSED_CONNECTION_STORAGE_KEY st
      | None \<Rightarrow> try_remove FOCUSED_CONNECTION_STORAGE_KEY st)"

definition FOCUSED_DATABASES_STORAGE_KEY :: js where
  "FOCUSED_DATABASES_STORAGE_KEY = u ''pipa.focused-databases.v1''"

definition MAX_PERSISTED_FOCUSED_DATABASES :: nat where "MAX_PERSISTED_FOCUSED_DATABASES = 100"

definition text_entries :: "(js \<times> json) list \<Rightarrow> (js \<times> js) list" where
  "text_entries ms =
     List.map_filter (\<lambda>(k, v). case v of JStr s \<Rightarrow> if k \<noteq> [] \<and> s \<noteq> [] then Some (k, s) else None | _ \<Rightarrow> None) ms"

definition loadFocusedDatabases :: "local_storage \<Rightarrow> (js \<times> js) list" where
  "loadFocusedDatabases st =
     (case parse_item st FOCUSED_DATABASES_STORAGE_KEY of Some (Some (JObj ms)) \<Rightarrow> text_entries ms | _ \<Rightarrow> [])"

definition persistFocusedDatabases :: "(js \<times> js) list \<Rightarrow> local_storage \<Rightarrow> local_storage" where
  "persistFocusedDatabases databases st =
     try_set FOCUSED_DATABASES_STORAGE_KEY
       (json_stringify (JObj (map (\<lambda>(k, v). (k, JStr v)) (take MAX_PERSISTED_FOCUSED_DATABASES databases)))) st"

section \<open>The sidebar\<close>

record sidebar =
  collapsed :: bool
  collapsedRef :: bool
  width :: "rat option"
  sb_store :: local_storage
  focus_moves :: nat

definition init_sidebar :: "local_storage \<Rightarrow> sidebar" where
  "init_sidebar st =
     \<lparr> collapsed = loadSidebarCollapsed st, collapsedRef = loadSidebarCollapsed st,
       width = Some (of_int (loadSidebarWidth st)), sb_store = st, focus_moves = 0 \<rparr>"

text \<open>\<open>inside\<close>: the focused element is inside the panel.\<close>

definition toggle_sidebar :: "bool \<Rightarrow> bool option \<Rightarrow> sidebar \<Rightarrow> sidebar" where
  "toggle_sidebar inside nextCollapsed s =
     (let nxt = (case nextCollapsed of Some b \<Rightarrow> b | None \<Rightarrow> \<not> collapsedRef s)
      in s \<lparr> collapsedRef := nxt, collapsed := nxt, sb_store := persistSidebarCollapsed nxt (sb_store s),
             focus_moves := (if nxt \<and> inside then focus_moves s + 1 else focus_moves s) \<rparr>)"

definition ensureExpanded :: "bool \<Rightarrow> sidebar \<Rightarrow> sidebar" where
  "ensureExpanded inside s = (if collapsedRef s then toggle_sidebar inside (Some False) s else s)"

definition setWidth :: "rat option \<Rightarrow> sidebar \<Rightarrow> sidebar" where
  "setWidth w s = s \<lparr> width := w \<rparr>"

definition commitWidth :: "rat option \<Rightarrow> sidebar \<Rightarrow> sidebar" where
  "commitWidth w s = s \<lparr> sb_store := persistSidebarWidth w (sb_store s) \<rparr>"

section \<open>The theme\<close>

datatype ThemePreference = SystemTheme | LightTheme | DarkTheme

datatype ResolvedTheme = Light | Dark

fun theme_text :: "ThemePreference \<Rightarrow> js" where
  "theme_text SystemTheme = u ''system''"
| "theme_text LightTheme = u ''light''"
| "theme_text DarkTheme = u ''dark''"

definition THEME_STORAGE_KEY :: js where "THEME_STORAGE_KEY = u ''pipa.theme-preference''"

definition theme_of_text :: "js \<Rightarrow> ThemePreference option" where
  "theme_of_text v =
     (if v = u ''system'' then Some SystemTheme else if v = u ''light'' then Some LightTheme
      else if v = u ''dark'' then Some DarkTheme else None)"

definition readThemePreference :: "local_storage \<Rightarrow> ThemePreference" where
  "readThemePreference st =
     (case getItem st THEME_STORAGE_KEY of
        Some (Some v) \<Rightarrow> (case theme_of_text v of Some p \<Rightarrow> p | None \<Rightarrow> SystemTheme)
      | _ \<Rightarrow> SystemTheme)"

definition persistThemePreference :: "ThemePreference \<Rightarrow> local_storage \<Rightarrow> local_storage" where
  "persistThemePreference pref st = try_set THEME_STORAGE_KEY (theme_text pref) st"

definition resolveTheme :: "ThemePreference \<Rightarrow> bool \<Rightarrow> ResolvedTheme" where
  "resolveTheme pref systemPrefersDark =
     (case pref of SystemTheme \<Rightarrow> (if systemPrefersDark then Dark else Light) | LightTheme \<Rightarrow> Light | DarkTheme \<Rightarrow> Dark)"

text \<open>
  The hook: the document's theme, whether the system prefers dark (\<open>None\<close> without media queries), and
  whether the effect subscribed to its changes.
\<close>

record theme_state =
  theme_preference :: ThemePreference
  resolvedTheme :: ResolvedTheme
  document_theme :: ResolvedTheme
  systemDark :: "bool option"
  subscribed :: bool
  th_store :: local_storage

definition system_dark :: "theme_state \<Rightarrow> bool" where
  "system_dark s = (systemDark s = Some True)"

definition applyThemePreference :: "ThemePreference \<Rightarrow> theme_state \<Rightarrow> theme_state" where
  "applyThemePreference pref s =
     (let r = resolveTheme pref (system_dark s) in s \<lparr> resolvedTheme := r, document_theme := r \<rparr>)"

definition theme_effect :: "theme_state \<Rightarrow> theme_state" where
  "theme_effect s =
     (let s1 = applyThemePreference (theme_preference s)
                 (s \<lparr> th_store := persistThemePreference (theme_preference s) (th_store s) \<rparr>)
      in s1 \<lparr> subscribed := (theme_preference s = SystemTheme \<and> systemDark s \<noteq> None) \<rparr>)"

definition init_theme :: "bool option \<Rightarrow> local_storage \<Rightarrow> theme_state" where
  "init_theme dark st =
     (let p = readThemePreference st; r = resolveTheme p (dark = Some True)
      in theme_effect \<lparr> theme_preference = p, resolvedTheme = r, document_theme = r, systemDark = dark,
           subscribed = False, th_store = st \<rparr>)"

datatype theme_label = SetPreference ThemePreference | SystemChanges bool

fun theme_step :: "theme_state \<Rightarrow> theme_label \<Rightarrow> theme_state" where
  "theme_step s (SetPreference p) =
     (if p = theme_preference s then s else theme_effect (s \<lparr> theme_preference := p \<rparr>))"
| "theme_step s (SystemChanges dark) =
     (case systemDark s of
        None \<Rightarrow> s
      | Some d \<Rightarrow>
          (let s1 = s \<lparr> systemDark := Some dark \<rparr>
           in if subscribed s then applyThemePreference (theme_preference s) s1 else s1))"

section \<open>The contracts\<close>

lemma clamp_number_bounds:
  assumes "lo \<le> dflt" "dflt \<le> hi"
  shows "lo \<le> clamp_number lo hi dflt x \<and> clamp_number lo hi dflt x \<le> hi"
proof (cases x)
  case (Some q)
  let ?y = "min (of_int hi) (max (of_int lo) q) :: rat"
  have "of_int lo \<le> ?y" "?y \<le> of_int hi" using assms by auto
  then show ?thesis using Some by (auto simp: clamp_number_def le_floor_iff floor_le_iff)
qed (use assms in \<open>simp add: clamp_number_def\<close>)

lemma clamp_number_id: "lo \<le> a \<Longrightarrow> a \<le> hi \<Longrightarrow> clamp_number lo hi dflt (Some (of_int a)) = a"
  by (simp add: clamp_number_def max_def min_def floor_eq_iff)

lemma clamp_number_mono: "q \<le> r \<Longrightarrow> clamp_number lo hi dflt (Some q) \<le> clamp_number lo hi dflt (Some r)"
  by (auto simp: clamp_number_def intro!: floor_mono)

lemma parseInt_dec: "n < 1000 \<Longrightarrow> parseInt (dec n) = Number (Some (of_nat n))"
proof -
  assume n: "n < 1000"
  obtain c cs where c: "dec n = c # cs" by (cases "dec n") auto
  have d: "\<forall>x \<in> set (dec n). is_digit x" by (rule dec_digits)
  then have "is_digit c" using c by simp
  then have "trim_start (dec n) = dec n" "parse_sign (dec n) = (False, dec n)"
    using c by (auto simp: trim_start_def parse_sign_def is_digit_def is_ws_def)
  moreover have "takeWhile is_digit (dec n) = dec n" using d by simp
  moreover have "\<not> (2 ^ 1024 - 2 ^ 970 \<le> n)" using n by simp
  ultimately show ?thesis unfolding parseInt_def by (simp only: Let_def prod.case dec_not_Nil if_False digits_val_dec)
qed

lemma load_number_persist:
  assumes "reads st" "writes st" and "0 \<le> lo" "lo \<le> a" "a \<le> hi" "hi < 1000"
  shows "load_number key lo hi dflt (try_set key (dec_int a) st) = a"
proof -
  have "dec_int a = dec (nat a)" using assms by (simp add: dec_int_def)
  moreover have "parseInt (dec (nat a)) = Number (Some (of_int a))"
    using parseInt_dec [of "nat a"] assms by simp
  ultimately show ?thesis using assms by (simp add: load_number_def clamp_number_id)
qed

lemma load_number_bounds:
  "lo \<le> dflt \<Longrightarrow> dflt \<le> hi \<Longrightarrow> lo \<le> load_number key lo hi dflt st \<and> load_number key lo hi dflt st \<le> hi"
  using clamp_number_bounds by (auto simp: load_number_def split: option.split parsed.split)

lemma load_number_frame:
  "items st key = items st' key \<Longrightarrow> reads st = reads st' \<Longrightarrow> load_number key lo hi d st = load_number key lo hi d st'"
  by (simp add: load_number_def getItem_def)

interpretation sidebar_width: stable_preference SIDEBAR_WIDTH_STORAGE_KEY loadSidebarWidth
  "\<lambda>a. persistSidebarWidth (Some (of_int a))" "\<lambda>a. SIDEBAR_WIDTH_MIN \<le> a \<and> a \<le> SIDEBAR_WIDTH_MAX"
  by unfold_locales
    (auto simp: loadSidebarWidth_def persistSidebarWidth_def clampSidebarWidth_def clamp_number_id try_set_items
      SIDEBAR_WIDTH_MIN_def SIDEBAR_WIDTH_MAX_def SIDEBAR_WIDTH_DEFAULT_def load_number_persist load_number_bounds
      intro: load_number_frame)

interpretation editor_split: stable_preference EDITOR_SPLIT_STORAGE_KEY loadEditorSplit
  "\<lambda>a. persistEditorSplit (Some (of_int a))" "\<lambda>a. EDITOR_SPLIT_MIN \<le> a \<and> a \<le> EDITOR_SPLIT_MAX"
  by unfold_locales
    (auto simp: loadEditorSplit_def persistEditorSplit_def clampEditorSplit_def clamp_number_id try_set_items
      EDITOR_SPLIT_MIN_def EDITOR_SPLIT_MAX_def EDITOR_SPLIT_DEFAULT_def load_number_persist load_number_bounds
      intro: load_number_frame)

lemma load_flag_set [simp]: "reads st \<Longrightarrow> writes st \<Longrightarrow> load_flag key (try_set key (flag_text b) st) = b"
  by (simp add: load_flag_def flag_text_def u.simps)

interpretation sidebar_collapsed: stable_preference SIDEBAR_COLLAPSED_STORAGE_KEY loadSidebarCollapsed
  persistSidebarCollapsed "\<lambda>_. True"
  by unfold_locales
    (simp_all add: loadSidebarCollapsed_def persistSidebarCollapsed_def try_set_items, simp add: load_flag_def getItem_def)

interpretation mcp_wide: stable_preference MCP_PANEL_WIDE_STORAGE_KEY loadMcpPanelWide persistMcpPanelWide "\<lambda>_. True"
  by unfold_locales
    (simp_all add: loadMcpPanelWide_def persistMcpPanelWide_def try_set_items, simp add: load_flag_def getItem_def)

interpretation theme: stable_preference THEME_STORAGE_KEY readThemePreference persistThemePreference "\<lambda>_. True"
proof unfold_locales
  fix st :: local_storage and a
  assume "reads st" "writes st"
  then show "readThemePreference (persistThemePreference a st) = a"
    by (cases a) (simp_all add: readThemePreference_def persistThemePreference_def theme_of_text_def u.simps)
qed (simp_all add: persistThemePreference_def try_set_items readThemePreference_def getItem_def)

lemma json_texts: "\<forall>s \<in> set xs. s \<noteq> [] \<Longrightarrow> texts (map JStr xs) = xs"
  by (induction xs) (simp_all add: texts_def List.map_filter_simps)

lemma parse_item_frame:
  "items st key = items st' key \<Longrightarrow> reads st = reads st' \<Longrightarrow> parse_item st key = parse_item st' key"
  by (simp add: parse_item_def getItem_def)

interpretation expanded_connections: preference EXPANDED_CONNECTIONS_STORAGE_KEY loadExpandedConnectionIds
  persistExpandedConnectionIds "\<lambda>xs. distinct xs \<and> (\<forall>s \<in> set xs. s \<noteq> []) \<and> length xs \<le> MAX_PERSISTED_EXPANDED_CONNECTIONS"
proof unfold_locales
  fix st :: local_storage and a :: "js list"
  assume "reads st" "writes st"
    and v: "distinct a \<and> (\<forall>s \<in> set a. s \<noteq> []) \<and> length a \<le> MAX_PERSISTED_EXPANDED_CONNECTIONS"
  then have "parse_item (persistExpandedConnectionIds a st) EXPANDED_CONNECTIONS_STORAGE_KEY = Some (Some (JArr (map JStr a)))"
    using parse_item_try_set [of st "JArr (map JStr a)" EXPANDED_CONNECTIONS_STORAGE_KEY]
    by (simp add: persistExpandedConnectionIds_def del: json_stringify.simps)
  with v show "loadExpandedConnectionIds (persistExpandedConnectionIds a st) = a"
    by (simp add: loadExpandedConnectionIds_def json_texts new_set_def distinct_remdups_id)
qed (simp_all add: persistExpandedConnectionIds_def try_set_items loadExpandedConnectionIds_def,
    metis parse_item_frame)

lemma engine_text_inject [simp]: "engine_text a = engine_text b \<longleftrightarrow> a = b"
  by (cases a; cases b) (simp_all add: u.simps)

lemma map_of_chosen:
  "distinct es \<Longrightarrow> map_of (List.map_filter (\<lambda>e. map_option (Pair e) (f e)) es) e = (if e \<in> set es then f e else None)"
  by (induction es) (auto simp: List.map_filter_simps split: option.split)

lemma override_entries:
  "engine_overrides (map (\<lambda>(e, b). (engine_text e, JBool b)) os)
     = List.map_filter (\<lambda>e. map_option (Pair e) (map_of os e)) KNOWN_ENGINES"
proof -
  have "map_of (map (\<lambda>(e, b). (engine_text e, JBool b)) os) (engine_text e) = map_option JBool (map_of os e)" for e
    by (induction os) auto
  then have "(case map_of (map (\<lambda>(e, b). (engine_text e, JBool b)) os) (engine_text e) of Some (JBool b) \<Rightarrow> Some (e, b) | _ \<Rightarrow> None)
      = map_option (Pair e) (map_of os e)" for e
    by (simp split: option.split)
  then show ?thesis by (simp add: engine_overrides_def)
qed

definition engine_order :: "(Engine \<times> bool) list \<Rightarrow> bool" where
  "engine_order os \<longleftrightarrow> List.map_filter (\<lambda>e. map_option (Pair e) (map_of os e)) KNOWN_ENGINES = os"

lemma engine_order_distinct: "engine_order os \<Longrightarrow> distinct (map fst os)"
proof -
  assume "engine_order os"
  moreover have "map fst (List.map_filter (\<lambda>e. map_option (Pair e) (f e)) es) = filter (\<lambda>e. f e \<noteq> None) es" for f and es :: "Engine list"
    by (induction es) (auto simp: List.map_filter_simps split: option.split)
  moreover have "distinct KNOWN_ENGINES" by (simp add: KNOWN_ENGINES_def)
  ultimately show ?thesis unfolding engine_order_def by (metis distinct_filter)
qed

interpretation engine_sections: stable_preference ENGINE_SECTION_COLLAPSE_STORAGE_KEY loadEngineSectionCollapseOverrides
  persistEngineSectionCollapseOverrides engine_order
proof unfold_locales
  fix st :: local_storage and a
  assume rw: "reads st" "writes st" and v: "engine_order a"
  have "distinct (map engine_text (map fst a))"
    using engine_order_distinct [OF v] by (subst distinct_map) (auto simp: inj_on_def)
  then have "json_plain (overrides_json a)" by (simp add: overrides_json_def comp_def split_beta)
  with rw have "parse_item (persistEngineSectionCollapseOverrides a st) ENGINE_SECTION_COLLAPSE_STORAGE_KEY
      = Some (Some (overrides_json a))"
    by (simp add: persistEngineSectionCollapseOverrides_def parse_item_try_set)
  with v show "loadEngineSectionCollapseOverrides (persistEngineSectionCollapseOverrides a st) = a"
    by (simp add: loadEngineSectionCollapseOverrides_def overrides_json_def override_entries engine_order_def)
next
  fix st :: local_storage
  have "engine_order (engine_overrides ms)" for ms
  proof -
    let ?f = "\<lambda>e. case map_of ms (engine_text e) of Some (JBool b) \<Rightarrow> Some b | _ \<Rightarrow> None"
    have o: "engine_overrides ms = List.map_filter (\<lambda>e. map_option (Pair e) (?f e)) KNOWN_ENGINES"
      unfolding engine_overrides_def by (rule arg_cong [where f = "\<lambda>g. List.map_filter g KNOWN_ENGINES"])
        (auto simp: fun_eq_iff split: option.split json.split)
    have "distinct KNOWN_ENGINES" "set KNOWN_ENGINES = UNIV"
      using Engine.exhaust by (auto simp: KNOWN_ENGINES_def)
    then have "map_of (engine_overrides ms) = ?f" unfolding o by (auto simp: map_of_chosen)
    then show ?thesis unfolding engine_order_def using o by simp
  qed
  moreover have "engine_order []" by (simp add: engine_order_def KNOWN_ENGINES_def List.map_filter_simps)
  ultimately show "engine_order (loadEngineSectionCollapseOverrides st)"
    by (auto simp: loadEngineSectionCollapseOverrides_def split: option.split json.split)
qed (simp_all add: persistEngineSectionCollapseOverrides_def try_set_items loadEngineSectionCollapseOverrides_def,
    metis parse_item_frame)

interpretation focused_connection: stable_preference FOCUSED_CONNECTION_STORAGE_KEY loadFocusedConnectionId
  persistFocusedConnectionId "\<lambda>c. c \<noteq> Some []"
  by unfold_locales
    (auto simp: persistFocusedConnectionId_def loadFocusedConnectionId_def storage_defs split: option.split)

lemma text_entries_map: "\<forall>(k, v) \<in> set xs. k \<noteq> [] \<and> v \<noteq> [] \<Longrightarrow> text_entries (map (\<lambda>(k, v). (k, JStr v)) xs) = xs"
  by (induction xs) (auto simp: text_entries_def List.map_filter_simps)

interpretation focused_databases: preference FOCUSED_DATABASES_STORAGE_KEY loadFocusedDatabases persistFocusedDatabases
  "\<lambda>xs. distinct (map fst xs) \<and> (\<forall>(k, v) \<in> set xs. k \<noteq> [] \<and> v \<noteq> []) \<and> length xs \<le> MAX_PERSISTED_FOCUSED_DATABASES"
proof unfold_locales
  fix st :: local_storage and a :: "(js \<times> js) list"
  let ?j = "JObj (map (\<lambda>(k, v). (k, JStr v)) a)"
  assume rw: "reads st" "writes st"
    and v: "distinct (map fst a) \<and> (\<forall>(k, v) \<in> set a. k \<noteq> [] \<and> v \<noteq> []) \<and> length a \<le> MAX_PERSISTED_FOCUSED_DATABASES"
  then have "json_plain ?j" by (auto simp: comp_def split_beta)
  with rw v have "parse_item (persistFocusedDatabases a st) FOCUSED_DATABASES_STORAGE_KEY = Some (Some ?j)"
    using parse_item_try_set [of st ?j FOCUSED_DATABASES_STORAGE_KEY]
    by (simp add: persistFocusedDatabases_def del: json_stringify.simps)
  with v show "loadFocusedDatabases (persistFocusedDatabases a st) = a"
    by (simp add: loadFocusedDatabases_def text_entries_map)
qed (simp_all add: persistFocusedDatabases_def try_set_items loadFocusedDatabases_def, metis parse_item_frame)

section \<open>Properties\<close>

text \<open>Whatever is stored and whatever a drag reports, the sidebar width and the editor split stay
  within their bounds, and a width within the bounds is saved and restored exactly, also when other
  preferences are written in between.\<close>

theorem layout_in_bounds:
  "SIDEBAR_WIDTH_MIN \<le> loadSidebarWidth st \<and> loadSidebarWidth st \<le> SIDEBAR_WIDTH_MAX
   \<and> EDITOR_SPLIT_MIN \<le> loadEditorSplit st \<and> loadEditorSplit st \<le> EDITOR_SPLIT_MAX
   \<and> SIDEBAR_WIDTH_MIN \<le> clampSidebarWidth w \<and> clampSidebarWidth w \<le> SIDEBAR_WIDTH_MAX
   \<and> (reads st \<longrightarrow> writes st \<longrightarrow>
        loadSidebarWidth (persistEditorSplit r (persistSidebarCollapsed c (persistSidebarWidth w st))) = clampSidebarWidth w)"
proof -
  have b: "SIDEBAR_WIDTH_MIN \<le> clampSidebarWidth w \<and> clampSidebarWidth w \<le> SIDEBAR_WIDTH_MAX"
    unfolding clampSidebarWidth_def
    by (rule clamp_number_bounds) (simp_all add: SIDEBAR_WIDTH_MIN_def SIDEBAR_WIDTH_MAX_def SIDEBAR_WIDTH_DEFAULT_def)
  have same: "persistSidebarWidth (Some (of_int (clampSidebarWidth w))) st = persistSidebarWidth w st"
    using b by (simp add: persistSidebarWidth_def clampSidebarWidth_def clamp_number_id)
  have keys: "SIDEBAR_WIDTH_STORAGE_KEY \<noteq> EDITOR_SPLIT_STORAGE_KEY" "SIDEBAR_WIDTH_STORAGE_KEY \<noteq> SIDEBAR_COLLAPSED_STORAGE_KEY"
    by (simp_all add: SIDEBAR_WIDTH_STORAGE_KEY_def EDITOR_SPLIT_STORAGE_KEY_def SIDEBAR_COLLAPSED_STORAGE_KEY_def u.simps)
  have "loadSidebarWidth (persistEditorSplit r (persistSidebarCollapsed c (persistSidebarWidth w st)))
      = loadSidebarWidth (persistSidebarWidth w st)"
    by (rule sidebar_width.load_other)
      (use keys in \<open>simp_all add: persistEditorSplit_def persistSidebarCollapsed_def try_set_items\<close>)
  then show ?thesis
    using b sidebar_width.load_valid [of st] editor_split.load_valid [of st]
      sidebar_width.load_persist [of st "clampSidebarWidth w"] same by simp
qed

text \<open>The theme follows the preference and, in system mode, the system.\<close>

definition theme_inv :: "theme_state \<Rightarrow> bool" where
  "theme_inv s \<longleftrightarrow> resolvedTheme s = resolveTheme (theme_preference s) (system_dark s) \<and> document_theme s = resolvedTheme s
     \<and> (subscribed s \<longleftrightarrow> theme_preference s = SystemTheme \<and> systemDark s \<noteq> None)"

lemma theme_effect_inv: "theme_inv (theme_effect s)"
  by (simp add: theme_inv_def theme_effect_def applyThemePreference_def system_dark_def Let_def)

lemma theme_step_inv: "theme_inv s \<Longrightarrow> theme_inv (theme_step s l)"
proof (cases l)
  case (SystemChanges dark)
  then show "theme_inv s \<Longrightarrow> ?thesis"
    by (cases "theme_preference s")
      (auto simp: theme_inv_def applyThemePreference_def system_dark_def resolveTheme_def Let_def split: option.split)
qed (simp_all add: theme_effect_inv)

lemma theme_follows: "theme_inv (foldl theme_step (init_theme dark st) ls)"
  by (rule foldl_keeps [where P = theme_inv]) (simp_all add: theme_step_inv init_theme_def theme_effect_inv Let_def)

lemma sidebar_refs_agree:
  "collapsed s = collapsedRef s \<Longrightarrow> collapsed (toggle_sidebar i b s) = collapsedRef (toggle_sidebar i b s)
    \<and> (reads (sb_store s) \<longrightarrow> writes (sb_store s) \<longrightarrow>
        loadSidebarCollapsed (sb_store (toggle_sidebar i b s)) = collapsed (toggle_sidebar i b s))"
  by (simp add: toggle_sidebar_def Let_def sidebar_collapsed.load_persist)

end
