(* ===== verification/Interaction.thy ===== *)
theory Interaction
  imports Shortcuts
begin

text \<open>
  Small interaction helpers: the self-clearing messages of the shell (\<open>app/useAppToast.ts\<close>), dismissing a
  dialog with Escape (\<open>features/dialogs/useDialogDismiss.ts\<close>) and scoped select-all
  (\<open>features/commands/scopedSelectAll.ts\<close>). Of the document, the questions the code asks of an element are
  the fields of a record.
\<close>

section \<open>Toasts\<close>

definition NOTICE_TIMEOUT_MS :: nat where "NOTICE_TIMEOUT_MS = 3200"
definition ERROR_TIMEOUT_MS :: nat where "ERROR_TIMEOUT_MS = 5000"

text \<open>\<open>toast_timer\<close>: the milliseconds until the message goes.\<close>

record toast =
  toast_message :: "js option"
  toast_timer :: "nat option"

text \<open>The effect runs when the message changed; an empty message starts no timer.\<close>

definition set_message :: "nat \<Rightarrow> js option \<Rightarrow> toast \<Rightarrow> toast" where
  "set_message timeoutMs m s =
     (if m = toast_message s then s
      else \<lparr> toast_message = m, toast_timer = (case m of None \<Rightarrow> None | Some [] \<Rightarrow> None | Some _ \<Rightarrow> Some timeoutMs) \<rparr>)"

definition toast_show :: "nat \<Rightarrow> js \<Rightarrow> toast \<Rightarrow> toast" where
  "toast_show timeoutMs m s = set_message timeoutMs (Some m) s"

definition toast_clear :: "nat \<Rightarrow> toast \<Rightarrow> toast" where
  "toast_clear timeoutMs s = set_message timeoutMs None s"

definition toast_elapse :: "nat \<Rightarrow> toast \<Rightarrow> toast" where
  "toast_elapse d s =
     (case toast_timer s of
        None \<Rightarrow> s
      | Some t \<Rightarrow> if t \<le> d then \<lparr> toast_message = None, toast_timer = None \<rparr> else s \<lparr> toast_timer := Some (t - d) \<rparr>)"

record app_toasts =
  notice :: toast
  error_toast :: toast

definition no_toast :: toast where "no_toast = \<lparr> toast_message = None, toast_timer = None \<rparr>"

definition useAppToasts :: app_toasts where
  "useAppToasts = \<lparr> notice = no_toast, error_toast = no_toast \<rparr>"

datatype toast_label = ShowNoticeToast js | ShowErrorToast js | ClearNoticeToast | ClearErrorToast | Elapse nat

fun toasts_step :: "toast_label \<Rightarrow> app_toasts \<Rightarrow> app_toasts" where
  "toasts_step (ShowNoticeToast m) s = s \<lparr> notice := toast_show NOTICE_TIMEOUT_MS m (notice s) \<rparr>"
| "toasts_step (ShowErrorToast m) s = s \<lparr> error_toast := toast_show ERROR_TIMEOUT_MS m (error_toast s) \<rparr>"
| "toasts_step ClearNoticeToast s = s \<lparr> notice := toast_clear NOTICE_TIMEOUT_MS (notice s) \<rparr>"
| "toasts_step ClearErrorToast s = s \<lparr> error_toast := toast_clear ERROR_TIMEOUT_MS (error_toast s) \<rparr>"
| "toasts_step (Elapse d) s = s \<lparr> notice := toast_elapse d (notice s), error_toast := toast_elapse d (error_toast s) \<rparr>"

definition toast_inv :: "nat \<Rightarrow> toast \<Rightarrow> bool" where
  "toast_inv T s \<longleftrightarrow>
     (case toast_message s of
        None \<Rightarrow> toast_timer s = None
      | Some m \<Rightarrow> if m = [] then toast_timer s = None else (\<exists>t. toast_timer s = Some t \<and> t \<le> T))"

lemma toast_inv_show: "toast_inv T s \<Longrightarrow> toast_inv T (set_message T m s)"
  by (auto simp: toast_inv_def set_message_def split: option.splits list.splits)

lemma toast_inv_elapse: "toast_inv T s \<Longrightarrow> toast_inv T (toast_elapse d s)"
  by (auto simp: toast_inv_def toast_elapse_def split: option.splits if_splits)

text \<open>Every message that is not empty is gone after its timeout.\<close>

lemma toast_gone: "toast_inv T s \<Longrightarrow> toast_message s \<noteq> Some [] \<Longrightarrow> toast_message (toast_elapse T s) = None"
  by (auto simp: toast_inv_def toast_elapse_def split: option.splits if_splits)

lemma toasts_run_inv:
  "toast_inv NOTICE_TIMEOUT_MS (notice (foldl (\<lambda>s l. toasts_step l s) useAppToasts ls))
   \<and> toast_inv ERROR_TIMEOUT_MS (error_toast (foldl (\<lambda>s l. toasts_step l s) useAppToasts ls))"
proof (rule foldl_keeps [where P = "\<lambda>s :: app_toasts. toast_inv NOTICE_TIMEOUT_MS (notice s) \<and> toast_inv ERROR_TIMEOUT_MS (error_toast s)"])
  fix s :: app_toasts and l
  assume "toast_inv NOTICE_TIMEOUT_MS (notice s) \<and> toast_inv ERROR_TIMEOUT_MS (error_toast s)"
  then show "toast_inv NOTICE_TIMEOUT_MS (notice (toasts_step l s)) \<and> toast_inv ERROR_TIMEOUT_MS (error_toast (toasts_step l s))"
    by (cases l) (simp_all add: toast_show_def toast_clear_def toast_inv_show toast_inv_elapse)
qed (simp add: useAppToasts_def no_toast_def toast_inv_def)

text \<open>Showing the same message again does not restart its timer.\<close>

lemma toast_not_restarted: "toast_message s = Some m \<Longrightarrow> toast_show T m s = s"
  by (simp add: toast_show_def set_message_def)

section \<open>Dialogs\<close>

text \<open>Whether a key press calls \<open>onDismiss\<close>.\<close>

definition useDialogDismiss :: "bool \<Rightarrow> bool \<Rightarrow> js \<Rightarrow> bool" where
  "useDialogDismiss opened busy key = (if \<not> opened \<or> busy then False else key = u ''Escape'')"

section \<open>Select all\<close>

text \<open>
  An element: whether it is an \<open>HTMLElement\<close>, lies in an editor, is a text control, lies in a grid; the
  closest selectable block, whether that block is itself a text surface, and the surface found in it.
\<close>

record dom_target =
  is_html :: bool
  in_monaco :: bool
  text_control :: bool
  in_grid :: bool
  selectable_block :: "nat option"
  block_is_surface :: bool
  inner_surface :: "nat option"

definition isNativeTextSelectTarget :: "dom_target option \<Rightarrow> bool" where
  "isNativeTextSelectTarget target =
     (case target of None \<Rightarrow> False
      | Some t \<Rightarrow> if \<not> is_html t then False else if in_monaco t then True else text_control t)"

definition isAppSelectAllRegion :: "dom_target option \<Rightarrow> bool" where
  "isAppSelectAllRegion target = (case target of None \<Rightarrow> False | Some t \<Rightarrow> in_grid t)"

definition findSelectableTextSurface :: "dom_target option \<Rightarrow> nat option" where
  "findSelectableTextSurface target =
     (case target of
        None \<Rightarrow> None
      | Some t \<Rightarrow>
          (case selectable_block t of
             None \<Rightarrow> None
           | Some block \<Rightarrow> if block_is_surface t then Some block else inner_surface t))"

datatype surface_kind = TextControl | StaticText bool

datatype dom_effect = FocusElement nat | SelectControl nat | SelectContents nat

text \<open>\<open>StaticText False\<close>: the host has no selection object.\<close>

definition selectTextSurfaceContents :: "(nat \<Rightarrow> surface_kind) \<Rightarrow> nat \<Rightarrow> dom_effect list" where
  "selectTextSurfaceContents kind surface =
     (case kind surface of
        TextControl \<Rightarrow> [FocusElement surface, SelectControl surface]
      | StaticText sel \<Rightarrow> if \<not> sel then [FocusElement surface] else [FocusElement surface, SelectContents surface])"

record select_all_event =
  matches_binding :: bool
  defaultPrevented :: bool
  modal_open :: bool
  target_element :: "dom_target option"
  active_element :: "dom_target option"

text \<open>The result: whether the event was consumed, whether its default was prevented, the effects.\<close>

definition handleScopedSelectAll ::
  "(nat \<Rightarrow> surface_kind) \<Rightarrow> select_all_event \<Rightarrow> bool \<times> bool \<times> dom_effect list" where
  "handleScopedSelectAll kind e =
     (if \<not> matches_binding e \<or> defaultPrevented e then (False, False, [])
      else if modal_open e then (False, False, [])
      else
        (let focusTarget = (case target_element e of Some t \<Rightarrow> Some t | None \<Rightarrow> active_element e)
         in if isNativeTextSelectTarget focusTarget then (False, False, [])
            else if isAppSelectAllRegion focusTarget then (True, True, [])
            else (case findSelectableTextSurface focusTarget of
                    Some surface \<Rightarrow> (True, True, selectTextSurfaceContents kind surface)
                  | None \<Rightarrow> (True, True, []))))"

text \<open>
  Select-all never selects the whole document: the default action is left to the host only inside a text
  control, while a dialog is open, or when the event is not a select-all or was handled before.
\<close>

lemma select_all_scoped:
  "matches_binding e \<Longrightarrow> \<not> defaultPrevented e \<Longrightarrow> \<not> modal_open e \<Longrightarrow>
    (case handleScopedSelectAll kind e of (consumed, prevented, effects) \<Rightarrow>
      consumed = prevented
      \<and> (\<not> prevented \<longrightarrow> isNativeTextSelectTarget (case target_element e of Some t \<Rightarrow> Some t | None \<Rightarrow> active_element e)))"
  by (auto simp: handleScopedSelectAll_def Let_def split: option.split)

end
