(* ===== verification/Mcp_State.thy ===== *)
theory Mcp_State
  imports Js_Strings
begin

text \<open>
  The MCP console's state (\<open>features/mcp/useMcpState.ts\<close>, \<open>features/mcp/types.ts\<close>): the snapshot pushed by
  the backend, the requests under way and the number of proposals that wait for approval.
\<close>

datatype SqlRisk = RiskRead | RiskWriteData | RiskSchemaChange | RiskUnknown

datatype ProposalStatus = P_pending | P_executing | P_executed | P_dismissed | P_failed

record PendingSqlProposal =
  prop_id :: js
  prop_connectionId :: js
  prop_sql :: js
  risk :: SqlRisk
  sourceTool :: js
  prop_createdAt :: js
  prop_status :: ProposalStatus
  resultSummary :: "js option"

record McpActivityEntry =
  act_id :: js
  act_createdAt :: js
  tool :: js
  act_connectionId :: "js option"
  act_summary :: js
  act_ok :: bool
  act_detail :: "js option"

record McpStatus =
  mcp_running :: bool
  mcp_enabled :: bool
  mcp_port :: nat
  restrictToConnection :: bool
  targetConnectionIds :: "js list"
  mcp_url :: "js option"
  mcp_token :: "js option"
  lastError :: "js option"

record McpPanelSnapshot =
  status :: McpStatus
  proposals :: "PendingSqlProposal list"
  activity :: "McpActivityEntry list"

definition EMPTY_MCP_SNAPSHOT :: McpPanelSnapshot where
  "EMPTY_MCP_SNAPSHOT =
     \<lparr> status = \<lparr> mcp_running = False, mcp_enabled = False, mcp_port = 3847, restrictToConnection = False,
         targetConnectionIds = [], mcp_url = None, mcp_token = None, lastError = None \<rparr>,
       proposals = [], activity = [] \<rparr>"

text \<open>What a rejected call carries: an object with a message, a string, anything else.\<close>

datatype mcp_cause = CauseMessage js | CauseString js | CauseOther

definition getErrorMessage :: "mcp_cause \<Rightarrow> js \<Rightarrow> js" where
  "getErrorMessage cause fallback =
     (case cause of CauseMessage m \<Rightarrow> m | CauseString m \<Rightarrow> m | CauseOther \<Rightarrow> fallback)"

section \<open>Pending approvals\<close>

definition countPending :: "McpPanelSnapshot \<Rightarrow> nat" where
  "countPending s = length (filter (\<lambda>p. prop_status p = P_pending) (proposals s))"

text \<open>
  A subscription to the backend's updates: being made (and whether it was disposed of meanwhile), live, or
  gone. Its listener can already be called while the promise of the subscription is unsettled.
\<close>

datatype sub = Making bool | Live | Gone

fun sub_dispose :: "sub \<Rightarrow> sub" where
  "sub_dispose (Making d) = Making True"
| "sub_dispose Live = Gone"
| "sub_dispose Gone = Gone"

text \<open>\<open>ap_polling\<close> is the first request. A payload without a status is \<open>None\<close>.\<close>

record approvals =
  pendingCount :: nat
  ap_disposed :: bool
  ap_polling :: bool
  ap_sub :: sub

definition init_approvals :: "bool \<Rightarrow> approvals" where
  "init_approvals tauri = \<lparr> pendingCount = 0, ap_disposed = False, ap_polling = tauri,
     ap_sub = (if tauri then Making False else Gone) \<rparr>"

datatype approvals_label =
  PollSettled "McpPanelSnapshot option" | ListenSettled bool | McpUpdated "McpPanelSnapshot option" | Dispose

fun approvals_step :: "approvals_label \<Rightarrow> approvals \<Rightarrow> approvals" where
  "approvals_step (PollSettled answer) s =
     (if \<not> ap_polling s then s
      else s \<lparr> ap_polling := False,
               pendingCount := (case answer of Some n \<Rightarrow> if \<not> ap_disposed s then countPending n else pendingCount s
                                | None \<Rightarrow> pendingCount s) \<rparr>)"
| "approvals_step (ListenSettled ok) s =
     (case ap_sub s of
        Making d \<Rightarrow> s \<lparr> ap_sub := (if ok \<and> \<not> d then Live else Gone) \<rparr>
      | _ \<Rightarrow> s)"
| "approvals_step (McpUpdated payload) s =
     (if ap_sub s = Gone then s
      else case payload of Some n \<Rightarrow> s \<lparr> pendingCount := countPending n \<rparr> | None \<Rightarrow> s)"
| "approvals_step Dispose s = s \<lparr> ap_disposed := True, ap_sub := sub_dispose (ap_sub s) \<rparr>"

text \<open>
  After the badge is gone and its subscription settled, nothing changes its count any more; no subscription
  outlives the badge.
\<close>

definition approvals_closed :: "approvals \<Rightarrow> bool" where
  "approvals_closed s \<longleftrightarrow> ap_disposed s \<and> ap_sub s = Gone"

definition approvals_inv :: "approvals \<Rightarrow> bool" where
  "approvals_inv s \<longleftrightarrow> (ap_disposed s \<longrightarrow> ap_sub s \<noteq> Live \<and> ap_sub s \<noteq> Making False)"

lemma approvals_closed_step:
  "approvals_closed s \<Longrightarrow> approvals_closed (approvals_step l s) \<and> pendingCount (approvals_step l s) = pendingCount s"
  by (cases l) (auto simp: approvals_closed_def split: option.split)

lemma approvals_inv_step: "approvals_inv s \<Longrightarrow> approvals_inv (approvals_step l s)"
  by (cases l; cases "ap_sub s") (auto simp: approvals_inv_def split: option.split)

lemma approvals_inv_run: "approvals_inv (foldl (\<lambda>s l. approvals_step l s) (init_approvals tauri) ls)"
  by (rule foldl_keeps) (auto simp: approvals_inv_step, simp add: approvals_inv_def init_approvals_def)

lemma approvals_closes: "approvals_inv s \<Longrightarrow> ap_disposed s \<Longrightarrow> approvals_closed (approvals_step (ListenSettled ok) s)"
  by (cases "ap_sub s") (auto simp: approvals_inv_def approvals_closed_def)

section \<open>The console\<close>

datatype mcp_action =
  McpStart | McpStop | McpSetPort nat | McpSetScope bool "js list" | McpRegenerateToken | McpExecute js | McpDismiss js
| McpRunManual js js

fun action_fallback :: "mcp_action \<Rightarrow> js" where
  "action_fallback McpStart = ([26080, 27861, 21551, 21160] @ u '' MCP'')"
| "action_fallback McpStop = ([26080, 27861, 20572, 27490] @ u '' MCP'')"
| "action_fallback (McpSetPort p) = ([26080, 27861, 26356, 26032] @ u '' MCP '' @ [31471, 21475])"
| "action_fallback (McpSetScope b ids) = ([26080, 27861, 26356, 26032] @ u '' MCP '' @ [36830, 25509, 33539, 22260])"
| "action_fallback McpRegenerateToken = ([26080, 27861, 37325, 26032, 29983, 25104] @ u '' Token'')"
| "action_fallback (McpExecute i) = ([26080, 27861, 25191, 34892, 24453, 30830, 35748] @ u '' SQL'')"
| "action_fallback (McpDismiss i) = ([26080, 27861, 24573, 30053, 24453, 30830, 35748] @ u '' SQL'')"
| "action_fallback (McpRunManual c s) = ([25163, 21160] @ u '' SQL '' @ [25191, 34892, 22833, 36133])"

definition LOAD_MCP_FALLBACK :: js where "LOAD_MCP_FALLBACK = ([26080, 27861, 21152, 36733] @ u '' MCP '' @ [29366, 24577])"
definition LISTEN_MCP_FALLBACK :: js where "LISTEN_MCP_FALLBACK = ([26080, 27861, 30417, 21548] @ u '' MCP '' @ [29366, 24577, 26356, 26032])"

text \<open>
  Requests under way are listed in \<open>m_flights\<close>, subscriptions in \<open>m_subs\<close>, one per run of the effect; the last
  is the one its cleanup disposes of.
\<close>

datatype mcp_flight = RefreshFlight | ActionFlight mcp_action

record mcp =
  snapshot :: McpPanelSnapshot
  m_loading :: bool
  m_busy :: bool
  m_error :: "js option"
  m_enabled :: bool
  m_flights :: "mcp_flight list"
  m_subs :: "sub list"

definition init_mcp :: mcp where
  "init_mcp = \<lparr> snapshot = EMPTY_MCP_SNAPSHOT, m_loading = False, m_busy = False, m_error = None, m_enabled = False,
     m_flights = [], m_subs = [] \<rparr>"

definition refresh :: "bool \<Rightarrow> mcp \<Rightarrow> mcp" where
  "refresh tauri s =
     (if \<not> tauri then s else s \<lparr> m_loading := True, m_flights := m_flights s @ [RefreshFlight] \<rparr>)"

definition runAction :: "mcp_action \<Rightarrow> mcp \<Rightarrow> mcp" where
  "runAction a s = s \<lparr> m_busy := True, m_flights := m_flights s @ [ActionFlight a] \<rparr>"

definition flight_settled :: "mcp_flight \<Rightarrow> mcp_cause + McpPanelSnapshot \<Rightarrow> mcp \<Rightarrow> mcp" where
  "flight_settled f answer s =
     (let s1 = (case answer of
                  Inr n \<Rightarrow> s \<lparr> snapshot := n, m_error := None \<rparr>
                | Inl cause \<Rightarrow> s \<lparr> m_error := Some (getErrorMessage cause
                    (case f of RefreshFlight \<Rightarrow> LOAD_MCP_FALLBACK | ActionFlight a \<Rightarrow> action_fallback a)) \<rparr>)
      in case f of RefreshFlight \<Rightarrow> s1 \<lparr> m_loading := False \<rparr> | ActionFlight a \<Rightarrow> s1 \<lparr> m_busy := False \<rparr>)"

datatype mcp_label =
  Enable | Disable | Refresh | Act mcp_action | FlightSettled nat "mcp_cause + McpPanelSnapshot"
| ListenDone nat "mcp_cause option" | Updated nat "McpPanelSnapshot option"

fun mcp_step :: "bool \<Rightarrow> mcp_label \<Rightarrow> mcp \<Rightarrow> mcp" where
  "mcp_step tauri Enable s =
     (if m_enabled s \<or> \<not> tauri then s \<lparr> m_enabled := True \<rparr>
      else (refresh tauri s) \<lparr> m_enabled := True, m_subs := m_subs s @ [Making False] \<rparr>)"
| "mcp_step tauri Disable s =
     (if \<not> m_enabled s \<or> \<not> tauri then s \<lparr> m_enabled := False \<rparr>
      else s \<lparr> m_enabled := False, m_subs := butlast (m_subs s) @ [sub_dispose (last (m_subs s))] \<rparr>)"
| "mcp_step tauri Refresh s = refresh tauri s"
| "mcp_step tauri (Act a) s = runAction a s"
| "mcp_step tauri (FlightSettled i answer) s =
     (case at (m_flights s) i of
        None \<Rightarrow> s
      | Some f \<Rightarrow> flight_settled f answer (s \<lparr> m_flights := take i (m_flights s) @ drop (Suc i) (m_flights s) \<rparr>))"
| "mcp_step tauri (ListenDone i failure) s =
     (case at (m_subs s) i of
        Some (Making d) \<Rightarrow>
          (case failure of
             None \<Rightarrow> s \<lparr> m_subs := (m_subs s)[i := if d then Gone else Live] \<rparr>
           | Some cause \<Rightarrow> s \<lparr> m_subs := (m_subs s)[i := Gone],
               m_error := (if d then m_error s else Some (getErrorMessage cause LISTEN_MCP_FALLBACK)) \<rparr>)
      | _ \<Rightarrow> s)"
| "mcp_step tauri (Updated i payload) s =
     (case at (m_subs s) i of
        Some Gone \<Rightarrow> s
      | None \<Rightarrow> s
      | _ \<Rightarrow> (case payload of Some n \<Rightarrow> s \<lparr> snapshot := n \<rparr> | None \<Rightarrow> s))"

text \<open>
  Every subscription but the current effect's is disposed of: at most one is live, and none while the console
  is closed.
\<close>

definition disposed_sub :: "sub \<Rightarrow> bool" where
  "disposed_sub x \<longleftrightarrow> x = Gone \<or> x = Making True"

definition subs_inv :: "bool \<Rightarrow> mcp \<Rightarrow> bool" where
  "subs_inv tauri s \<longleftrightarrow>
     (\<forall>x \<in> set (butlast (m_subs s)). disposed_sub x) \<and>
     (m_subs s \<noteq> [] \<and> \<not> m_enabled s \<longrightarrow> disposed_sub (last (m_subs s))) \<and>
     (m_enabled s \<and> tauri \<longrightarrow> m_subs s \<noteq> []) \<and> (\<not> tauri \<longrightarrow> m_subs s = [])"

lemma disposed_sub_dispose [simp]: "disposed_sub (sub_dispose x)"
  by (cases x) (simp_all add: disposed_sub_def)

lemma mcp_flight_frame [simp]:
  "m_subs (flight_settled f answer s) = m_subs s" "m_enabled (flight_settled f answer s) = m_enabled s"
  "m_subs (refresh tauri s) = m_subs s" "m_enabled (refresh tauri s) = m_enabled s"
  "m_subs (runAction a s) = m_subs s" "m_enabled (runAction a s) = m_enabled s"
  by (auto simp: flight_settled_def refresh_def runAction_def Let_def split: sum.split mcp_flight.split)

lemma disposed_butlast:
  "\<forall>x \<in> set (butlast xs). disposed_sub x \<Longrightarrow> disposed_sub (last xs) \<Longrightarrow> x \<in> set xs \<Longrightarrow> disposed_sub x"
  by (cases xs rule: rev_cases) auto

lemma disposed_update:
  assumes "\<forall>x \<in> set (butlast xs). disposed_sub x" "at xs i = Some (Making d)" "d \<longrightarrow> disposed_sub y"
  shows "\<forall>x \<in> set (butlast (xs[i := y])). disposed_sub x"
    and "disposed_sub (last xs) \<Longrightarrow> disposed_sub (last (xs[i := y]))"
proof -
  have i: "i < length xs" "xs ! i = Making d"
    using assms(2) by (auto simp: at_def split: if_splits)
  have d: "d" if "i < length xs - 1"
  proof -
    have "butlast xs ! i = Making d" and "i < length (butlast xs)"
      using that i by (auto simp: nth_butlast)
    then have "disposed_sub (Making d)"
      using assms(1) nth_mem by metis
    then show ?thesis by (simp add: disposed_sub_def)
  qed
  show "\<forall>x \<in> set (butlast (xs[i := y])). disposed_sub x"
  proof (cases "i < length xs - 1")
    case True
    then show ?thesis
      using assms(1,3) d by (auto simp: butlast_list_update dest!: set_update_subset_insert [THEN subsetD])
  next
    case False
    then show ?thesis using assms(1) i by (simp add: butlast_list_update)
  qed
  show "disposed_sub (last (xs[i := y]))" if "disposed_sub (last xs)"
  proof -
    have "xs \<noteq> []" using i by auto
    moreover have "d" if "i = length xs - 1"
      using \<open>disposed_sub (last xs)\<close> i that \<open>xs \<noteq> []\<close> by (simp add: last_conv_nth disposed_sub_def)
    ultimately show ?thesis
      using that assms(3) by (simp add: last_list_update)
  qed
qed

lemma mcp_subs_step: "subs_inv tauri s \<Longrightarrow> subs_inv tauri (mcp_step tauri l s)"
proof (induction l)
  case (ListenDone i failure)
  show ?case
  proof (cases "\<exists>d. at (m_subs s) i = Some (Making d)")
    case True
    then obtain d where d: "at (m_subs s) i = Some (Making d)" by blast
    define y where "y = (if failure = None \<and> \<not> d then Live else Gone)"
    have y: "d \<longrightarrow> disposed_sub y" by (simp add: y_def disposed_sub_def)
    have m: "m_subs (mcp_step tauri (ListenDone i failure) s) = (m_subs s)[i := y]"
      "m_enabled (mcp_step tauri (ListenDone i failure) s) = m_enabled s"
      using d by (auto simp: y_def split: option.split)
    show ?thesis
      using ListenDone disposed_update [OF _ d y] unfolding subs_inv_def m by auto
  next
    case False
    then have "mcp_step tauri (ListenDone i failure) s = s"
      by (auto split: option.split sub.split)
    then show ?thesis using ListenDone by simp
  qed
next
  case (Updated i payload)
  then show ?case
    by (cases "at (m_subs s) i") (auto simp: subs_inv_def split: sub.split option.split)
next
  case (FlightSettled i answer)
  then show ?case
    by (cases "at (m_flights s) i") (auto simp: subs_inv_def)
next
  case Disable
  then show ?case by (cases "m_subs s = []") (auto simp: subs_inv_def)
next
  case Enable
  then show ?case by (cases "m_subs s = []") (auto simp: subs_inv_def in_set_butlastD dest: disposed_butlast)
qed (simp_all add: subs_inv_def)

lemma mcp_subs_run: "subs_inv tauri (foldl (\<lambda>s l. mcp_step tauri l s) init_mcp ls)"
  by (rule foldl_keeps) (auto simp: mcp_subs_step, simp add: subs_inv_def init_mcp_def)

text \<open>A failure never changes the snapshot that is shown, and leaves a message.\<close>

lemma failure_keeps_snapshot:
  "snapshot (mcp_step tauri (FlightSettled i (Inl cause)) s) = snapshot s"
  "at (m_flights s) i \<noteq> None \<Longrightarrow> m_error (mcp_step tauri (FlightSettled i (Inl cause)) s) \<noteq> None"
  by (auto simp: flight_settled_def Let_def split: option.split mcp_flight.split)

text \<open>An action sets the flag at once, and its answer clears it.\<close>

lemma action_busy: "m_busy (mcp_step tauri (Act a) s)"
  and action_settles: "at (m_flights s) i = Some (ActionFlight a) \<Longrightarrow> \<not> m_busy (mcp_step tauri (FlightSettled i answer) s)"
  by (auto simp: runAction_def flight_settled_def Let_def)

end
