(* ===== verification/Command_Palette.thy ===== *)
theory Command_Palette
  imports Connections Shortcuts "HOL-Library.Sublist"
begin

text \<open>
  The command palette: its items (\<open>features/commands/commandPaletteItems.ts\<close>), their fuzzy ranking and
  groups, and the keyboard in its list (\<open>features/commands/CommandPalette.tsx\<close>).

  Unicode normalisation (\<open>NFKC\<close>) and the host's lower case are parameters (\<open>search_text\<close>). An object used as
  a map is the list of its entries in enumeration order.
\<close>

section \<open>Items\<close>

datatype CommandPaletteItemType = CommandItem | ConnectionItem | TableItem | WorkspaceItem

record CommandPaletteItem =
  pi_id :: js
  pi_type :: CommandPaletteItemType
  pi_label :: js
  pi_detail :: "js option"
  pi_keywords :: "js list option"
  pi_connectionId :: "js option"
  pi_database :: "js option"
  lastUsedAt :: "nat option"

record PaletteQueryTab =
  pq_id :: js
  pq_connectionId :: js
  pq_sqlText :: js
  pq_title :: js

record PaletteTableTab =
  pt_id :: js
  pt_connectionId :: js
  pt_tableName :: js
  pt_title :: js

record CommandPaletteItemsInput =
  activeTableTabId :: "js option"
  activeUtilityTabId :: "js option"
  activeQueryTabId :: "js option"
  activeQueryProfile :: "ConnectionProfile option"
  busyQueryTabId :: "js option"
  binlogWorkspaceOpen :: bool
  binlogWorkspaceTab :: "js \<times> js"
  connectionManagerOpen :: bool
  connectionManagerTab :: "js \<times> js"
  newQueryProfile :: "ConnectionProfile option"
  openTableTabs :: "PaletteTableTab list"
  openUtilityTabCount :: nat
  saved_profiles :: "ConnectionProfile list"
  queryTabs :: "PaletteQueryTab list"
  recentItemTimestamps :: "js \<Rightarrow> nat option"
  selectedProfile :: "ConnectionProfile option"
  palette_sidebarCollapsed :: bool
  shortcutLabel :: "ShortcutActionId \<Rightarrow> js"
  tableCatalog :: "(js \<times> (js \<times> js list) list) list"

definition paletteTableItemId :: "js \<Rightarrow> js \<Rightarrow> js \<Rightarrow> js" where
  "paletteTableItemId conn database tableName = u ''table:'' @ conn @ [0] @ database @ [0] @ tableName"

definition parsePaletteTableItemId :: "js \<Rightarrow> (js \<times> js \<times> js) option" where
  "parsePaletteTableItemId itemId =
     (case split_on 0 (drop 6 itemId) of
        c # d # t # _ \<Rightarrow> if c \<noteq> [] \<and> d \<noteq> [] \<and> t \<noteq> [] then Some (c, d, t) else None
      | _ \<Rightarrow> None)"

fun connectionEngineLabel :: "Engine \<Rightarrow> js" where
  "connectionEngineLabel MySql = u ''MySQL''"
| "connectionEngineLabel PostgreSql = u ''PostgreSQL''"
| "connectionEngineLabel MongoDb = u ''MongoDB''"
| "connectionEngineLabel RedisEngine = u ''Redis''"

definition host_port :: "ConnectionProfile \<Rightarrow> js" where
  "host_port p = host p @ u '':'' @ dec (port p)"

definition connectionSearchTerms :: "ConnectionProfile option \<Rightarrow> js list" where
  "connectionSearchTerms profile =
     (case profile of
        None \<Rightarrow> []
      | Some p \<Rightarrow>
          [cp_name p, connectionEngineLabel (engine p), host p, host_port p, dec (port p), username p,
           opt_text (cp_database p), environment_text (environment p), environmentLabel (environment p)])"

definition connectionPaletteDetail :: "ConnectionProfile \<Rightarrow> js" where
  "connectionPaletteDetail p =
     connectionEngineLabel (engine p) @ (u '' '' @ [183] @ u '' '')
       @ (case cp_database p of Some d \<Rightarrow> d | None \<Rightarrow> ([26410, 25351, 23450, 25968, 25454, 24211])) @ (u '' '' @ [183] @ u '' '') @ host_port p"

definition command :: "CommandPaletteItemsInput \<Rightarrow> string \<Rightarrow> js \<Rightarrow> js \<Rightarrow> js list \<Rightarrow> CommandPaletteItem" where
  "command inp name label detail keywords =
     \<lparr> pi_id = u ''command:'' @ u name, pi_type = CommandItem, pi_label = label, pi_detail = Some detail,
       pi_keywords = Some keywords, pi_connectionId = None, pi_database = None,
       lastUsedAt = recentItemTimestamps inp (u ''command:'' @ u name) \<rparr>"

definition fixed_commands :: "CommandPaletteItemsInput \<Rightarrow> CommandPaletteItem list" where
  "fixed_commands inp =
     [command inp ''add-connection'' ([28155, 21152, 25968, 25454, 24211, 36830, 25509]) ([36873, 25321] @ u '' MySQL '' @ [25110] @ u '' Redis'') [([26032, 24314, 36830, 25509]), u ''mysql'', u ''redis''],
      command inp ''open-mcp'' ([25171, 24320] @ u '' MCP '' @ [25511, 21046, 21488]) ([21551, 20572] @ u '' MCP'' @ [12289, 26597, 30475, 25191, 34892, 26085, 24535, 24182, 30830, 35748, 20889] @ u '' SQL'')
        [u ''mcp'', u ''ai'', ([21482, 35835]), u ''propose''],
      command inp ''open-connection-manager'' ([25171, 24320, 36830, 25509, 31649, 29702])
        (if connectionManagerOpen inp then ([20999, 25442, 21040, 24050, 25171, 24320, 30340, 36830, 25509, 31649, 29702]) else ([32534, 36753, 36830, 25509, 37197, 32622, 12289, 27983, 35272, 19982, 26032, 24314, 25968, 25454, 24211]))
        [u ''connection'', u ''database'', ([36830, 25509, 31649, 29702]), ([25968, 25454, 24211, 31649, 29702]), ([37197, 32622]), ([24314, 24211])],
      command inp ''open-binlog'' ([25171, 24320] @ u '' Binlog '' @ [20998, 26512])
        (if binlogWorkspaceOpen inp then ([20999, 25442, 21040, 24050, 25171, 24320, 30340, 29420, 31435, 26085, 24535, 24037, 20316, 21306]) else ([23548, 20837, 24182, 20998, 26512, 26412, 22320] @ u '' MySQL Binlog''))
        [u ''binlog'', u ''binary log'', ([26102, 38388, 32447]), ([26085, 24535]), ([24674, 22797])],
      command inp ''shortcut-help'' ([25171, 24320, 24555, 25463, 38190, 24110, 21161]) (([25628, 32034, 20840, 37096, 38190, 30424, 25805, 20316] @ u '' '' @ [183] @ u '' '') @ shortcutLabel inp ShortcutHelp)
        [u ''keyboard'', u ''hotkey'', ([24110, 21161])],
      command inp ''shortcut-settings'' ([25171, 24320, 24555, 25463, 38190, 35774, 32622]) ([20462, 25913, 32452, 21512, 38190, 12289, 26816, 26597, 20914, 31361, 25110, 24674, 22797, 40664, 35748])
        [u ''keyboard'', u ''hotkey'', ([20559, 22909]), ([20462, 25913])],
      command inp ''toggle-sidebar''
        (if palette_sidebarCollapsed inp then ([23637, 24320, 36830, 25509, 20391, 36793, 26639]) else ([25910, 36215, 36830, 25509, 20391, 36793, 26639]))
        (shortcutLabel inp ToggleSidebar) [u ''sidebar'', ([25910, 36215]), ([23637, 24320]), u ''panel'']]"

definition isRedisQuery :: "CommandPaletteItemsInput \<Rightarrow> bool" where
  "isRedisQuery inp = (map_option engine (activeQueryProfile inp) = Some RedisEngine)"

definition connection_commands :: "CommandPaletteItemsInput \<Rightarrow> CommandPaletteItem list" where
  "connection_commands inp =
     (case selectedProfile inp of
        Some p \<Rightarrow>
          if engine p = MySql then
            [(command inp ''create-database'' ([26032, 24314, 25968, 25454, 24211]) (([22312, 36830, 25509] @ u '' '') @ cp_name p @ (u '' '' @ [19978, 25191, 34892] @ u '' CREATE DATABASE''))
               [u ''create database'', ([24314, 24211]), u ''schema'', ([25968, 25454, 24211])]) \<lparr> pi_connectionId := Some (cp_id p) \<rparr>]
          else []
      | None \<Rightarrow> []) @
     (case newQueryProfile inp of
        Some p \<Rightarrow>
          [command inp ''new-query'' (if engine p = RedisEngine then ([26032, 24314] @ u '' Redis '' @ [24037, 20316, 21306]) else ([26032, 24314] @ u '' SQL '' @ [26597, 35810]))
             (shortcutLabel inp NewQuery) [u ''query'', if engine p = RedisEngine then u ''redis'' else u ''sql'']]
      | None \<Rightarrow> [])"

definition workspace_commands :: "CommandPaletteItemsInput \<Rightarrow> CommandPaletteItem list" where
  "workspace_commands inp =
     (if truthy (activeUtilityTabId inp) \<or> truthy (activeTableTabId inp) \<or> truthy (activeQueryTabId inp)
      then [command inp ''close-workspace'' ([20851, 38381, 24403, 21069, 24037, 20316, 21306]) (shortcutLabel inp CloseWorkspace) [u ''close'', ([20851, 38381, 26631, 31614])]]
      else []) @
     (if length (queryTabs inp) + length (openTableTabs inp) + openUtilityTabCount inp > 1
      then [command inp ''next-workspace'' ([19979, 19968, 20010, 24037, 20316, 21306]) (shortcutLabel inp NextWorkspace) [u ''next'', ([20999, 25442, 26631, 31614])],
            command inp ''previous-workspace'' ([19978, 19968, 20010, 24037, 20316, 21306]) (shortcutLabel inp PreviousWorkspace)
              [u ''previous'', ([20999, 25442, 26631, 31614])]]
      else [])"

definition query_commands :: "CommandPaletteItemsInput \<Rightarrow> CommandPaletteItem list" where
  "query_commands inp =
     (if activeUtilityTabId inp = None \<and> activeTableTabId inp = None \<and> truthy (activeQueryTabId inp)
      then [command inp ''execute-sql'' (if isRedisQuery inp then ([21047, 26032] @ u '' / '' @ [25191, 34892] @ u '' Redis '' @ [24037, 20316, 21306]) else ([25191, 34892, 24403, 21069] @ u '' SQL''))
              (shortcutLabel inp ExecuteQuery) [u ''run'', ([26597, 35810])],
            command inp ''select-sql'' (if isRedisQuery inp then ([36873, 20013, 24403, 21069] @ u '' Redis '' @ [21629, 20196]) else ([36873, 20013, 24403, 21069] @ u '' SQL''))
              (shortcutLabel inp SelectSql) [u ''select'', ([20840, 36873] @ u '' sql'')],
            command inp ''find-current'' (if isRedisQuery inp then ([26597, 25214, 24403, 21069] @ u '' Redis '' @ [24037, 20316, 21306]) else ([26597, 25214, 24403, 21069] @ u '' SQL''))
              (shortcutLabel inp Find) [u ''search'', ([26597, 25214, 25991, 26412])]]
           @ (if busyQueryTabId inp = activeQueryTabId inp
              then [command inp ''cancel-query'' ([21462, 28040, 24403, 21069, 26597, 35810]) (shortcutLabel inp CancelQuery) [u ''stop'', ([20572, 27490])]]
              else [])
      else []) @
     (if activeUtilityTabId inp \<noteq> None \<and> truthy (busyQueryTabId inp)
      then [command inp ''cancel-query'' ([21462, 28040, 21518, 21488, 26597, 35810]) (shortcutLabel inp CancelQuery)
              [u ''stop'', ([20572, 27490]), ([21518, 21488, 26597, 35810])]]
      else [])"

definition table_commands :: "CommandPaletteItemsInput \<Rightarrow> CommandPaletteItem list" where
  "table_commands inp =
     (if activeUtilityTabId inp = None \<and> truthy (activeTableTabId inp)
      then [command inp ''find-current'' ([26597, 25214, 24403, 21069, 39029, 25968, 25454]) (shortcutLabel inp Find) [u ''search'', ([36807, 28388])],
            command inp ''select-current-page'' ([36873, 25321, 24403, 21069, 39029, 20840, 37096, 34892]) (shortcutLabel inp SelectRows) [([20840, 36873]), u ''rows''],
            command inp ''save-table-changes'' ([25552, 20132, 34920, 21464, 26356]) (shortcutLabel inp SaveTable) [u ''save'', u ''ddl'', u ''dml'']]
      else [])"

definition found_profile :: "CommandPaletteItemsInput \<Rightarrow> js \<Rightarrow> ConnectionProfile option" where
  "found_profile inp i = List.find (\<lambda>p. cp_id p = i) (saved_profiles inp)"

definition connection_item :: "CommandPaletteItemsInput \<Rightarrow> ConnectionProfile \<Rightarrow> CommandPaletteItem" where
  "connection_item inp p =
     \<lparr> pi_id = u ''connection:'' @ cp_id p, pi_type = ConnectionItem, pi_label = cp_name p,
       pi_detail = Some (connectionPaletteDetail p), pi_keywords = Some (connectionSearchTerms (Some p)),
       pi_connectionId = Some (cp_id p), pi_database = None,
       lastUsedAt = recentItemTimestamps inp (u ''connection:'' @ cp_id p) \<rparr>"

definition table_item ::
  "CommandPaletteItemsInput \<Rightarrow> js \<Rightarrow> ConnectionProfile \<Rightarrow> js \<Rightarrow> js \<Rightarrow> CommandPaletteItem" where
  "table_item inp conn p database tableName =
     \<lparr> pi_id = paletteTableItemId conn database tableName, pi_type = TableItem, pi_label = tableName,
       pi_detail = Some (cp_name p @ (u '' '' @ [183] @ u '' '') @ database @ (u '' '' @ [183] @ u '' '') @ host_port p),
       pi_keywords = Some (database # connectionSearchTerms (Some p)), pi_connectionId = Some conn,
       pi_database = Some database, lastUsedAt = recentItemTimestamps inp (paletteTableItemId conn database tableName) \<rparr>"

definition table_items :: "CommandPaletteItemsInput \<Rightarrow> CommandPaletteItem list" where
  "table_items inp =
     concat (map (\<lambda>(conn, tablesByDatabase).
       case found_profile inp conn of
         Some p \<Rightarrow> concat (map (\<lambda>(database, tableNames). map (table_item inp conn p database) tableNames) tablesByDatabase)
       | None \<Rightarrow> []) (tableCatalog inp))"

definition workspace_item ::
  "CommandPaletteItemsInput \<Rightarrow> js \<Rightarrow> js \<Rightarrow> js \<Rightarrow> js list \<Rightarrow> js option \<Rightarrow> CommandPaletteItem" where
  "workspace_item inp i title detail keywords conn =
     \<lparr> pi_id = u ''workspace:'' @ i, pi_type = WorkspaceItem, pi_label = title, pi_detail = Some detail,
       pi_keywords = Some keywords, pi_connectionId = conn, pi_database = None,
       lastUsedAt = recentItemTimestamps inp (u ''workspace:'' @ i) \<rparr>"

definition place :: "ConnectionProfile option \<Rightarrow> js \<Rightarrow> js" where
  "place profile missing = (case profile of Some p \<Rightarrow> cp_name p @ (u '' '' @ [183] @ u '' '') @ host_port p | None \<Rightarrow> missing)"

definition query_item :: "CommandPaletteItemsInput \<Rightarrow> PaletteQueryTab \<Rightarrow> CommandPaletteItem" where
  "query_item inp tab =
     (let profile = found_profile inp (pq_connectionId tab)
      in workspace_item inp (u ''query:'' @ pq_id tab) (pq_title tab) (place profile ([36830, 25509, 19981, 21487, 29992]))
           ([slice (pq_sqlText tab) 0 160, (u ''SQL '' @ [26597, 35810])] @ connectionSearchTerms profile) (Some (pq_connectionId tab)))"

definition table_tab_item :: "CommandPaletteItemsInput \<Rightarrow> PaletteTableTab \<Rightarrow> CommandPaletteItem" where
  "table_tab_item inp tab =
     (let profile = found_profile inp (pt_connectionId tab)
      in workspace_item inp (u ''table:'' @ pt_id tab) (pt_title tab) (place profile ([34920, 24037, 20316, 21306]))
           (pt_tableName tab # connectionSearchTerms profile) (Some (pt_connectionId tab)))"

definition utility_items :: "CommandPaletteItemsInput \<Rightarrow> CommandPaletteItem list" where
  "utility_items inp =
     (if connectionManagerOpen inp
      then [workspace_item inp (u ''utility:'' @ fst (connectionManagerTab inp)) (snd (connectionManagerTab inp))
              ([31649, 29702, 36830, 25509, 37197, 32622, 19982, 25968, 25454, 24211]) [u ''connection'', u ''database'', ([36830, 25509]), ([25968, 25454, 24211]), ([37197, 32622])] None]
      else []) @
     (if binlogWorkspaceOpen inp
      then [workspace_item inp (u ''utility:'' @ fst (binlogWorkspaceTab inp)) (snd (binlogWorkspaceTab inp))
              ([29420, 31435] @ u '' Binlog '' @ [24037, 20316, 21306]) [u ''binlog'', u ''binary log'', ([26102, 38388, 32447]), ([26085, 24535])] None]
      else [])"

definition buildCommandPaletteItems :: "CommandPaletteItemsInput \<Rightarrow> CommandPaletteItem list" where
  "buildCommandPaletteItems inp =
     fixed_commands inp @ connection_commands inp @ workspace_commands inp @ query_commands inp @ table_commands inp
     @ map (connection_item inp) (saved_profiles inp) @ table_items inp
     @ map (query_item inp) (queryTabs inp) @ map (table_tab_item inp) (openTableTabs inp) @ utility_items inp"

section \<open>Fuzzy ranking\<close>

record search_text =
  nfkc :: "js \<Rightarrow> js"
  host_lower :: "js \<Rightarrow> js"

definition normalizeSearchText :: "search_text \<Rightarrow> js \<Rightarrow> js" where
  "normalizeSearchText T v = trim (host_lower T (nfkc T v))"

text \<open>The characters \<open>for ... of\<close> visits: code points as one or two code units.\<close>

fun characters :: "js \<Rightarrow> js list" where
  "characters [] = []"
| "characters [c] = [[c]]"
| "characters (c # d # s) = (if is_high c \<and> is_low d then [c, d] # characters s else [c] # characters (d # s))"

definition boundary_char :: "nat \<Rightarrow> bool" where
  "boundary_char c \<longleftrightarrow> is_ws c \<or> c = 95 \<or> c = 46 \<or> c = 47 \<or> c = 58 \<or> c = 45"

record fuzzy =
  candidateIndex :: nat
  firstMatchIndex :: int
  previousMatchIndex :: int
  consecutiveMatches :: int
  boundaryMatches :: int

definition fuzzy_step :: "js \<Rightarrow> js \<Rightarrow> fuzzy \<Rightarrow> fuzzy option" where
  "fuzzy_step candidate c s =
     (case index_from (candidateIndex s) (drop (candidateIndex s) candidate) c of
        None \<Rightarrow> None
      | Some i \<Rightarrow>
          Some \<lparr> candidateIndex = i + length c,
             firstMatchIndex = (if firstMatchIndex s < 0 then int i else firstMatchIndex s),
             previousMatchIndex = int i,
             consecutiveMatches = (if int i = previousMatchIndex s + 1 then consecutiveMatches s + 1 else consecutiveMatches s),
             boundaryMatches = (if i = 0 \<or> boundary_char (candidate ! (i - 1)) then boundaryMatches s + 1 else boundaryMatches s) \<rparr>)"

fun fuzzy_loop :: "js \<Rightarrow> js list \<Rightarrow> fuzzy \<Rightarrow> fuzzy option" where
  "fuzzy_loop candidate [] s = Some s"
| "fuzzy_loop candidate (c # cs) s =
     (case fuzzy_step candidate c s of None \<Rightarrow> None | Some s' \<Rightarrow> fuzzy_loop candidate cs s')"

definition fuzzy_start :: fuzzy where
  "fuzzy_start = \<lparr> candidateIndex = 0, firstMatchIndex = - 1, previousMatchIndex = - 1,
     consecutiveMatches = 0, boundaryMatches = 0 \<rparr>"

definition fuzzyMatchScore :: "search_text \<Rightarrow> js \<Rightarrow> js \<Rightarrow> int option" where
  "fuzzyMatchScore T candidate query =
     (let c = normalizeSearchText T candidate; q = normalizeSearchText T query;
          longer = min (int (length c) - int (length q)) 100
      in if q = [] then Some 0
         else if c = [] then None
         else if c = q then Some 1000
         else if starts_with c q then Some (850 - longer)
         else case index_of c q of
                Some i \<Rightarrow> Some (700 - min (int i * 4) 100 - longer)
              | None \<Rightarrow>
                  (case fuzzy_loop c (characters q) fuzzy_start of
                     None \<Rightarrow> None
                   | Some s \<Rightarrow>
                       (let span = previousMatchIndex s - firstMatchIndex s + 1; gaps = span - int (length q)
                        in Some (400 + consecutiveMatches s * 14 + boundaryMatches s * 18 - gaps * 5
                                 - firstMatchIndex s * 2))))"

text \<open>\<open>split(/\s+/u)\<close>\<close>

function split_ws :: "js \<Rightarrow> js list" where
  "split_ws s =
     (let w = takeWhile (\<lambda>c. \<not> is_ws c) s; r = dropWhile (\<lambda>c. \<not> is_ws c) s
      in if r = [] then [w] else w # split_ws (dropWhile is_ws r))"
  by auto
termination
proof (relation "measure length")
  fix s w r :: js
  assume "w = takeWhile (\<lambda>c. \<not> is_ws c) s" "r = dropWhile (\<lambda>c. \<not> is_ws c) s" "r \<noteq> []"
  then have "is_ws (hd r)" "length r \<le> length s"
    using hd_dropWhile [of "\<lambda>c. \<not> is_ws c" s] by (auto simp: length_dropWhile_le)
  then have "length (dropWhile is_ws r) < length r"
    using \<open>r \<noteq> []\<close> by (cases r) (auto simp: less_Suc_eq_le length_dropWhile_le)
  then show "(dropWhile is_ws r, s) \<in> measure length"
    using \<open>length r \<le> length s\<close> by simp
qed simp

declare split_ws.simps [simp del]

definition search_fields :: "CommandPaletteItem \<Rightarrow> (js \<times> int) list" where
  "search_fields item =
     [(pi_label item, 120), (opt_text (pi_detail item), 40)]
     @ (case pi_keywords item of Some ks \<Rightarrow> map (\<lambda>k. (k, 70)) ks | None \<Rightarrow> [])"

definition term_scores :: "search_text \<Rightarrow> CommandPaletteItem \<Rightarrow> js \<Rightarrow> int list" where
  "term_scores T item t =
     List.map_filter (\<lambda>(v, weight). map_option (\<lambda>s. s + weight) (fuzzyMatchScore T v t)) (search_fields item)"

fun total_score :: "search_text \<Rightarrow> CommandPaletteItem \<Rightarrow> js list \<Rightarrow> int \<Rightarrow> int option" where
  "total_score T item [] acc = Some acc"
| "total_score T item (t # ts) acc =
     (case term_scores T item t of
        [] \<Rightarrow> None
      | s # ss \<Rightarrow> total_score T item ts (acc + foldl max s ss))"

definition scoreCommandPaletteItem :: "search_text \<Rightarrow> CommandPaletteItem \<Rightarrow> js \<Rightarrow> int option" where
  "scoreCommandPaletteItem T item query =
     (let q = normalizeSearchText T query in if q = [] then Some 0 else total_score T item (split_ws q) 0)"

record RankedCommandPaletteItem =
  item :: CommandPaletteItem
  originalIndex :: nat
  score :: int

definition recency :: "RankedCommandPaletteItem \<Rightarrow> int" where
  "recency r = (case lastUsedAt (item r) of None \<Rightarrow> 0 | Some t \<Rightarrow> int t)"

definition rank_compare :: "bool \<Rightarrow> RankedCommandPaletteItem \<Rightarrow> RankedCommandPaletteItem \<Rightarrow> int" where
  "rank_compare queried l r =
     (if queried \<and> score l \<noteq> score r then score r - score l
      else if recency r - recency l \<noteq> 0 then recency r - recency l
      else int (originalIndex l) - int (originalIndex r))"

definition ranked_items :: "search_text \<Rightarrow> CommandPaletteItem list \<Rightarrow> js \<Rightarrow> RankedCommandPaletteItem list" where
  "ranked_items T cands q =
     List.map_filter (\<lambda>(i, x). map_option (\<lambda>s. \<lparr> item = x, originalIndex = i, score = s \<rparr>) (scoreCommandPaletteItem T x q))
       (enumerate 0 cands)"

definition rankCommandPaletteItems :: "search_text \<Rightarrow> CommandPaletteItem list \<Rightarrow> js \<Rightarrow> CommandPaletteItem list" where
  "rankCommandPaletteItems T cands query =
     (let q = normalizeSearchText T query
      in map item (js_sort (rank_compare (q \<noteq> [])) (ranked_items T cands q)))"

section \<open>Groups and the keyboard\<close>

datatype palette_group = Recent | Typed CommandPaletteItemType

definition group_of :: "bool \<Rightarrow> CommandPaletteItem \<Rightarrow> palette_group" where
  "group_of hasQuery x = (if \<not> hasQuery \<and> lastUsedAt x \<noteq> None then Recent else Typed (pi_type x))"

fun group_label :: "palette_group \<Rightarrow> js" where
  "group_label Recent = ([26368, 36817, 20351, 29992])"
| "group_label (Typed CommandItem) = ([21629, 20196])"
| "group_label (Typed ConnectionItem) = ([36830, 25509])"
| "group_label (Typed TableItem) = ([25968, 25454, 34920])"
| "group_label (Typed WorkspaceItem) = ([24037, 20316, 21306])"

definition put_group ::
  "bool \<Rightarrow> (palette_group \<times> CommandPaletteItem list) list \<Rightarrow> CommandPaletteItem
    \<Rightarrow> (palette_group \<times> CommandPaletteItem list) list" where
  "put_group hasQuery gs x =
     (let g = group_of hasQuery x
      in if g \<in> fst ` set gs then map (\<lambda>(h, xs). if h = g then (h, xs @ [x]) else (h, xs)) gs else gs @ [(g, [x])])"

definition groupCommandPaletteItems ::
  "search_text \<Rightarrow> CommandPaletteItem list \<Rightarrow> js \<Rightarrow> (palette_group \<times> CommandPaletteItem list) list" where
  "groupCommandPaletteItems T cands query = foldl (put_group (normalizeSearchText T query \<noteq> [])) [] cands"

record palette =
  p_query :: js
  connectionFilter :: js
  activeIndex :: nat

definition displayedItems :: "search_text \<Rightarrow> CommandPaletteItem list \<Rightarrow> palette \<Rightarrow> CommandPaletteItem list" where
  "displayedItems T cands s =
     (let filtered = (if connectionFilter s \<noteq> []
                      then filter (\<lambda>x. pi_connectionId x = Some (connectionFilter s)) cands else cands)
      in concat (map snd (groupCommandPaletteItems T (rankCommandPaletteItems T filtered (p_query s)) (p_query s))))"

definition open_palette :: "js option \<Rightarrow> palette" where
  "open_palette initialConnectionId =
     \<lparr> p_query = [], connectionFilter = opt_text initialConnectionId, activeIndex = 0 \<rparr>"

datatype palette_label = TypeQuery js | FilterConnection js | Arrow bool | Hover nat | ItemsChanged

text \<open>The effect that pulls the active index into the list runs after every step.\<close>

definition clamp_active :: "search_text \<Rightarrow> CommandPaletteItem list \<Rightarrow> palette \<Rightarrow> palette" where
  "clamp_active T cands s =
     (let n = length (displayedItems T cands s)
      in if activeIndex s \<ge> n then s \<lparr> activeIndex := n - 1 \<rparr> else s)"

fun palette_handler :: "search_text \<Rightarrow> CommandPaletteItem list \<Rightarrow> palette_label \<Rightarrow> palette \<Rightarrow> palette" where
  "palette_handler T cands (TypeQuery q) s = s \<lparr> p_query := q, activeIndex := 0 \<rparr>"
| "palette_handler T cands (FilterConnection c) s = s \<lparr> connectionFilter := c, activeIndex := 0 \<rparr>"
| "palette_handler T cands (Arrow down) s =
     (let n = length (displayedItems T cands s)
      in if n = 0 then s
         else s \<lparr> activeIndex := nat ((int (activeIndex s) + (if down then 1 else - 1) + int n) mod int n) \<rparr>)"
| "palette_handler T cands (Hover i) s = s \<lparr> activeIndex := i \<rparr>"
| "palette_handler T cands ItemsChanged s = s"

definition palette_step :: "search_text \<Rightarrow> CommandPaletteItem list \<Rightarrow> palette_label \<Rightarrow> palette \<Rightarrow> palette" where
  "palette_step T cands l s = clamp_active T cands (palette_handler T cands l s)"

text \<open>\<open>Enter\<close> selects the active item; \<open>None\<close>: nothing is listed.\<close>

definition activeItem :: "search_text \<Rightarrow> CommandPaletteItem list \<Rightarrow> palette \<Rightarrow> CommandPaletteItem option" where
  "activeItem T cands s = at (displayedItems T cands s) (activeIndex s)"

section \<open>The ranking\<close>

interpretation ranking: comparator_on "rank_compare queried" UNIV for queried
  by unfold_locales (auto simp: rank_compare_def split: if_splits)

lemma ranked_items_mem:
  "r \<in> set (ranked_items T cands q) \<Longrightarrow> Some (score r) = scoreCommandPaletteItem T (item r) q"
  by (auto simp: ranked_items_def List.map_filter_def)

lemma ranked_items_items:
  "map item (ranked_items T cands q) = filter (\<lambda>x. scoreCommandPaletteItem T x q \<noteq> None) cands"
proof -
  have "map item (List.map_filter (\<lambda>(i, x). map_option (\<lambda>s. \<lparr> item = x, originalIndex = i, score = s \<rparr>)
      (scoreCommandPaletteItem T x q)) (enumerate n cands)) = filter (\<lambda>x. scoreCommandPaletteItem T x q \<noteq> None) cands" for n
    by (induction cands arbitrary: n) (auto simp: List.map_filter_def split: option.split)
  then show ?thesis by (simp add: ranked_items_def)
qed

lemma rank_mset:
  "mset (rankCommandPaletteItems T cands query)
    = mset (filter (\<lambda>x. scoreCommandPaletteItem T x (normalizeSearchText T query) \<noteq> None) cands)"
proof -
  have "mset (rankCommandPaletteItems T cands query) = mset (map item (ranked_items T cands (normalizeSearchText T query)))"
    by (simp add: rankCommandPaletteItems_def Let_def)
  then show ?thesis by (simp only: ranked_items_items)
qed

lemma ranked_items_order: "sorted_wrt (<) (map originalIndex (ranked_items T cands q))"
proof -
  let ?R = "\<lambda>n cands. List.map_filter (\<lambda>(i, x). map_option (\<lambda>s. \<lparr> item = x, originalIndex = i, score = s \<rparr>)
      (scoreCommandPaletteItem T x q)) (enumerate n cands)"
  have "sorted_wrt (<) (map originalIndex (?R n cands)) \<and> (\<forall>r \<in> set (?R n cands). n \<le> originalIndex r)" for n
  proof (induction cands arbitrary: n)
    case (Cons x cands)
    from Cons.IH [of "Suc n"] show ?case
      by (cases "scoreCommandPaletteItem T x q") (auto simp: List.map_filter_simps)
  qed (simp add: List.map_filter_simps)
  then show ?thesis by (simp add: ranked_items_def)
qed

text \<open>Among entries that only their place tells apart, the sorted list keeps the order of the source.\<close>

lemma rank_keeps_source_order:
  assumes "\<And>l r. P l \<Longrightarrow> P r \<Longrightarrow> rank_compare b l r \<le> 0 \<Longrightarrow> originalIndex l \<le> originalIndex r"
  shows "filter P (js_sort (rank_compare b) (ranked_items T cands q)) = filter P (ranked_items T cands q)"
proof -
  let ?xs = "ranked_items T cands q" and ?ys = "js_sort (rank_compare b) (ranked_items T cands q)"
  have sub: "set (filter P ?ys) \<union> set (filter P ?xs) \<subseteq> set ?xs" by auto
  have strict: "sorted_wrt (<) (map originalIndex ?xs)" by (rule ranked_items_order)
  then have dx: "distinct (map originalIndex ?xs)" and sx: "sorted (map originalIndex ?xs)"
    by (simp_all add: strict_sorted_iff)
  have m: "mset ?ys = mset ?xs" by simp
  have d: "distinct (map originalIndex ?ys)"
    using dx mset_eq_imp_distinct_iff [of "map originalIndex ?ys" "map originalIndex ?xs"] by simp
  have "sorted_wrt (\<lambda>l r. rank_compare b l r \<le> 0) (filter P ?ys)"
    by (intro sorted_wrt_filter ranking.sorted_js_sort) simp
  then have s: "sorted (map originalIndex (filter P ?ys))"
    unfolding sorted_map by (rule sorted_wrt_mono_rel [rotated]) (use assms in auto)
  have "set (filter P ?ys) = set (filter P ?xs)" by simp
  moreover have "inj_on originalIndex (set (filter P ?ys) \<union> set (filter P ?xs))"
    using dx by (intro inj_on_subset [OF _ sub]) (simp add: distinct_map)
  moreover have "sorted (map originalIndex (filter P ?xs))" using sx by (rule sorted_filter)
  moreover have "distinct (map originalIndex (filter P ?ys))" "distinct (map originalIndex (filter P ?xs))"
    using d dx by (simp_all only: distinct_map_filter)
  ultimately show ?thesis using s by (intro map_sorted_distinct_set_unique [of originalIndex])
qed

lemma add_to_group:
  "distinct (map fst gs) \<Longrightarrow>
    mset (concat (map snd (map (\<lambda>(k, ys). if k = g then (k, ys @ [x]) else (k, ys)) gs)))
      = mset (if g \<in> fst ` set gs then [x] else []) + mset (concat (map snd gs))"
  by (induction gs) (force split: prod.split)+

lemma groups_kept: "map fst (map (\<lambda>(k, ys). if k = g then (k, f ys) else (k, ys)) gs) = map fst gs"
  by (simp add: comp_def case_prod_unfold)

lemma put_group_mset:
  assumes "distinct (map fst gs)"
  shows "mset (concat (map snd (put_group h gs x))) = add_mset x (mset (concat (map snd gs)))"
    and "distinct (map fst (put_group h gs x))"
  using add_to_group [OF assms, of "group_of h x" x] assms unfolding put_group_def Let_def
  by (simp_all add: groups_kept del: map_map)

lemma group_mset: "mset (concat (map snd (groupCommandPaletteItems T cands query))) = mset cands"
proof -
  have "mset (concat (map snd (foldl (put_group h) gs cands))) = mset (concat (map snd gs)) + mset cands"
    if "distinct (map fst gs)" for h gs
    using that
  proof (induction cands arbitrary: gs)
    case (Cons x cands)
    then show ?case using put_group_mset [of gs h x] by simp
  qed simp
  then show ?thesis by (simp add: groupCommandPaletteItems_def)
qed

definition item_score :: "search_text \<Rightarrow> js \<Rightarrow> CommandPaletteItem \<Rightarrow> int" where
  "item_score T query x =
     (case scoreCommandPaletteItem T x (normalizeSearchText T query) of None \<Rightarrow> 0 | Some s \<Rightarrow> s)"

definition last_used :: "CommandPaletteItem \<Rightarrow> nat" where
  "last_used x = (case lastUsedAt x of None \<Rightarrow> 0 | Some t \<Rightarrow> t)"

text \<open>What the ranking reads of an item.\<close>

definition palette_key :: "search_text \<Rightarrow> js \<Rightarrow> CommandPaletteItem \<Rightarrow> int \<times> nat" where
  "palette_key T query x = (if normalizeSearchText T query = [] then 0 else item_score T query x, last_used x)"

text \<open>C17: The palette lists exactly the items whose label, detail or keywords match every
  word of the query, each as often as it was offered, best score first and most recently used first among
  equal scores; without a query it lists every item, most recently used first. Items with the same score and the same
  last use stay in the order in which they were offered. Grouping them for display neither drops nor repeats one.\<close>

theorem palette_best_first:
  "mset (rankCommandPaletteItems T cands query)
     = mset (filter (\<lambda>x. scoreCommandPaletteItem T x (normalizeSearchText T query) \<noteq> None) cands)
   \<and> sorted_wrt (\<lambda>x y. if normalizeSearchText T query = [] then last_used y \<le> last_used x
       else item_score T query y < item_score T query x
         \<or> item_score T query y = item_score T query x \<and> last_used y \<le> last_used x)
       (rankCommandPaletteItems T cands query)
   \<and> (\<forall>k. filter (\<lambda>x. palette_key T query x = k) (rankCommandPaletteItems T cands query)
       = filter (\<lambda>x. palette_key T query x = k \<and> scoreCommandPaletteItem T x (normalizeSearchText T query) \<noteq> None) cands)
   \<and> mset (concat (map snd (groupCommandPaletteItems T (rankCommandPaletteItems T cands query) query)))
     = mset (rankCommandPaletteItems T cands query)"
proof -
  let ?q = "normalizeSearchText T query"
  let ?rs = "js_sort (rank_compare (?q \<noteq> [])) (ranked_items T cands ?q)"
  have sorted: "sorted_wrt (\<lambda>l r. rank_compare (?q \<noteq> []) l r \<le> 0) ?rs"
    by (rule ranking.sorted_js_sort) simp
  have score: "item_score T query (item r) = score r" if "r \<in> set ?rs" for r
  proof -
    have "Some (score r) = scoreCommandPaletteItem T (item r) ?q"
      using that by (intro ranked_items_mem) simp
    from this [symmetric] show ?thesis by (simp add: item_score_def)
  qed
  have used: "recency r = int (last_used (item r))" for r
    by (simp add: recency_def last_used_def split: option.split)
  have "sorted_wrt (\<lambda>l r. if ?q = [] then last_used (item r) \<le> last_used (item l)
      else item_score T query (item r) < item_score T query (item l)
        \<or> item_score T query (item r) = item_score T query (item l) \<and> last_used (item r) \<le> last_used (item l)) ?rs"
    by (rule sorted_wrt_mono_rel [OF _ sorted]) (auto simp: rank_compare_def used score split: if_splits)
  moreover have "filter (\<lambda>x. palette_key T query x = k) (rankCommandPaletteItems T cands query)
      = filter (\<lambda>x. palette_key T query x = k \<and> scoreCommandPaletteItem T x ?q \<noteq> None) cands" for k
  proof -
    let ?P = "\<lambda>r. palette_key T query (item r) = k \<and> item_score T query (item r) = score r"
    have "filter (\<lambda>r. palette_key T query (item r) = k) ?rs = filter ?P ?rs" using score by (intro filter_cong) auto
    also have "\<dots> = filter ?P (ranked_items T cands ?q)"
      by (rule rank_keeps_source_order) (auto simp: palette_key_def rank_compare_def used split: if_splits)
    also have "\<dots> = filter (\<lambda>r. palette_key T query (item r) = k) (ranked_items T cands ?q)"
      using score by (intro filter_cong) auto
    finally have "map item (filter (\<lambda>r. palette_key T query (item r) = k) ?rs)
        = map item (filter (\<lambda>r. palette_key T query (item r) = k) (ranked_items T cands ?q))" by simp
    then have "filter (\<lambda>x. palette_key T query x = k) (map item ?rs)
        = filter (\<lambda>x. palette_key T query x = k) (map item (ranked_items T cands ?q))"
      by (simp add: filter_map comp_def)
    then show ?thesis
      by (simp add: ranked_items_items rankCommandPaletteItems_def Let_def conj_commute)
  qed
  ultimately show ?thesis
    using rank_mset group_mset by (simp add: rankCommandPaletteItems_def Let_def sorted_wrt_map)
qed

text \<open>A query in which a word is a prefix of the label always finds the item.\<close>

lemma prefix_matches:
  "normalizeSearchText T v = normalizeSearchText T t @ r \<Longrightarrow> fuzzyMatchScore T v t \<noteq> None"
  by (auto simp: fuzzyMatchScore_def Let_def)

text \<open>The keyboard never leaves the list.\<close>

lemma active_in_list:
  "displayedItems T cands (palette_step T cands l s) \<noteq> [] \<Longrightarrow> activeItem T cands (palette_step T cands l s) \<noteq> None"
proof -
  have same: "displayedItems T cands (clamp_active T cands t) = displayedItems T cands t" for t
    by (simp add: clamp_active_def displayedItems_def Let_def)
  have "length (displayedItems T cands t) > 0 \<Longrightarrow> activeIndex (clamp_active T cands t) < length (displayedItems T cands t)" for t
    by (auto simp: clamp_active_def Let_def)
  then show "displayedItems T cands (palette_step T cands l s) \<noteq> [] \<Longrightarrow> ?thesis"
    by (simp add: palette_step_def same activeItem_def at_def)
qed

section \<open>Identities\<close>

lemma palette_table_id_reads_back:
  assumes "conn \<noteq> []" "database \<noteq> []" "tableName \<noteq> []" "0 \<notin> set conn" "0 \<notin> set database" "0 \<notin> set tableName"
  shows "parsePaletteTableItemId (paletteTableItemId conn database tableName) = Some (conn, database, tableName)"
  using assms by (simp add: parsePaletteTableItemId_def paletteTableItemId_def split_on_append_sep split_on_single)

text \<open>The names of the commands, part by part; only the query and the table commands share one.\<close>

lemma inj_u [simp]: "u s = u t \<longleftrightarrow> s = t"
proof (induction s arbitrary: t)
  case (Cons c s)
  then show ?case by (cases t) (simp_all add: u.simps)
next
  case Nil
  then show ?case by (cases t) (simp_all add: u.simps)
qed

definition names :: "string list \<Rightarrow> js list" where
  "names ns = map (\<lambda>n. u ''command:'' @ u n) ns"

lemma pi_id_command [simp]: "pi_id (command inp n l d k) = u ''command:'' @ u n"
  by (simp add: command_def)

lemma distinct_names: "distinct (names ns) \<longleftrightarrow> distinct ns"
  by (simp add: names_def distinct_map inj_on_def)

definition FIXED_NAMES :: "string list" where
  "FIXED_NAMES = [''add-connection'', ''open-mcp'', ''open-connection-manager'', ''open-binlog'', ''shortcut-help'',
     ''shortcut-settings'', ''toggle-sidebar'']"

definition SCOPED_NAMES :: "string list" where
  "SCOPED_NAMES = [''create-database'', ''new-query'']"

definition WORKSPACE_NAMES :: "string list" where
  "WORKSPACE_NAMES = [''close-workspace'', ''next-workspace'', ''previous-workspace'']"

definition CONTEXT_NAMES :: "string list" where
  "CONTEXT_NAMES = [''execute-sql'', ''select-sql'', ''find-current'', ''cancel-query'', ''select-current-page'', ''save-table-changes'']"

lemma subseq_names: "subseq ms ns \<Longrightarrow> subseq (names ms) (names ns)"
  unfolding names_def by (rule subseq_map)

lemma fixed_ids: "map pi_id (fixed_commands inp) = names FIXED_NAMES"
  by (simp add: fixed_commands_def names_def FIXED_NAMES_def)

lemma scoped_ids: "subseq (map pi_id (connection_commands inp)) (names SCOPED_NAMES)"
  by (simp add: connection_commands_def names_def SCOPED_NAMES_def split: option.split)

lemma workspace_ids: "subseq (map pi_id (workspace_commands inp)) (names WORKSPACE_NAMES)"
  by (simp add: workspace_commands_def names_def WORKSPACE_NAMES_def)

lemma context_ids: "subseq (map pi_id (query_commands inp @ table_commands inp)) (names CONTEXT_NAMES)"
proof (cases "activeUtilityTabId inp")
  case (Some i)
  then show ?thesis
    by (simp add: query_commands_def table_commands_def names_def CONTEXT_NAMES_def)
next
  case None
  then show ?thesis
    by (cases "activeTableTabId inp")
      (simp_all add: query_commands_def table_commands_def names_def CONTEXT_NAMES_def truthy_def)
qed

definition commands :: "CommandPaletteItemsInput \<Rightarrow> CommandPaletteItem list" where
  "commands inp = fixed_commands inp @ connection_commands inp @ workspace_commands inp @ query_commands inp @ table_commands inp"

lemma command_ids:
  "distinct (map pi_id (commands inp))" "i \<in> pi_id ` set (commands inp) \<Longrightarrow> \<exists>n. i = u ''command:'' @ u n"
proof -
  let ?ns = "FIXED_NAMES @ SCOPED_NAMES @ WORKSPACE_NAMES @ CONTEXT_NAMES"
  have "subseq (map pi_id (fixed_commands inp) @ map pi_id (connection_commands inp) @ map pi_id (workspace_commands inp)
      @ map pi_id (query_commands inp @ table_commands inp))
     (names FIXED_NAMES @ names SCOPED_NAMES @ names WORKSPACE_NAMES @ names CONTEXT_NAMES)"
    by (intro list_emb_append_mono scoped_ids workspace_ids context_ids) (simp add: fixed_ids)
  then have s: "subseq (map pi_id (commands inp)) (names ?ns)"
    by (simp add: commands_def names_def)
  have "distinct (names ?ns)"
    by (simp add: distinct_names FIXED_NAMES_def SCOPED_NAMES_def WORKSPACE_NAMES_def CONTEXT_NAMES_def)
  with s show "distinct (map pi_id (commands inp))"
    by (metis distinct_nthsI subseq_conv_nths)
  assume "i \<in> pi_id ` set (commands inp)"
  then have "i \<in> set (names ?ns)"
    using list_emb_set [OF s] by auto
  then show "\<exists>n. i = u ''command:'' @ u n" by (auto simp: names_def)
qed

text \<open>What identifies the things the palette lists: their own identifiers, which contain no NUL.\<close>

definition catalog_ok :: "(js \<times> (js \<times> js list) list) list \<Rightarrow> bool" where
  "catalog_ok catalog \<longleftrightarrow>
     distinct (map fst catalog) \<and>
     list_all (\<lambda>(conn, schemas). 0 \<notin> set conn \<and> distinct (map fst schemas) \<and>
       list_all (\<lambda>(database, names). 0 \<notin> set database \<and> distinct names \<and> list_all (\<lambda>n. 0 \<notin> set n) names) schemas) catalog"

definition input_ok :: "CommandPaletteItemsInput \<Rightarrow> bool" where
  "input_ok inp \<longleftrightarrow>
     distinct (map cp_id (saved_profiles inp)) \<and> distinct (map pq_id (queryTabs inp)) \<and>
     distinct (map pt_id (openTableTabs inp)) \<and> fst (connectionManagerTab inp) \<noteq> fst (binlogWorkspaceTab inp) \<and>
     catalog_ok (tableCatalog inp)"

lemma nul_split:
  fixes x x' y y' :: js
  assumes "0 \<notin> set x" "0 \<notin> set x'"
  shows "x @ 0 # y = x' @ 0 # y' \<longleftrightarrow> x = x' \<and> y = y'"
  using assms
proof (induction x arbitrary: x')
  case Nil
  then show ?case by (cases x') auto
next
  case (Cons c x)
  then show ?case by (cases x') auto
qed

lemma table_id_inj:
  assumes "0 \<notin> set c" "0 \<notin> set d" "0 \<notin> set c'" "0 \<notin> set d'"
  shows "paletteTableItemId c d t = paletteTableItemId c' d' t' \<longleftrightarrow> c = c' \<and> d = d' \<and> t = t'"
  using assms by (simp add: paletteTableItemId_def nul_split)

lemma distinct_concat_map:
  assumes "distinct xs" "\<And>x. x \<in> set xs \<Longrightarrow> distinct (f x)"
    and "\<And>x y. x \<in> set xs \<Longrightarrow> y \<in> set xs \<Longrightarrow> x \<noteq> y \<Longrightarrow> set (f x) \<inter> set (f y) = {}"
  shows "distinct (concat (map f xs))"
  using assms
proof (induction xs)
  case (Cons x xs)
  then have "distinct (concat (map f xs))" "\<And>y. y \<in> set xs \<Longrightarrow> set (f x) \<inter> set (f y) = {}"
    by auto
  then show ?case using Cons.prems(2) [of x] by (auto simp: disjoint_iff)
qed simp

lemma table_items_distinct:
  assumes "catalog_ok (tableCatalog inp)"
  shows "distinct (map pi_id (table_items inp))"
proof -
  define per where "per = (\<lambda>(conn, schemas :: (js \<times> js list) list). concat (map (\<lambda>(database, ns). map (paletteTableItemId conn database) ns) schemas))"
  have ids: "map pi_id (table_items inp)
      = concat (map (\<lambda>e. if found_profile inp (fst e) = None then [] else per e) (tableCatalog inp))"
    by (auto simp: table_items_def per_def map_concat table_item_def case_prod_unfold comp_def split: option.split
        intro!: arg_cong [where f = concat] map_cong)
  have ok: "0 \<notin> set c \<and> distinct (map fst ss) \<and> (\<forall>(d, ns) \<in> set ss. 0 \<notin> set d \<and> distinct ns)" if "(c, ss) \<in> set (tableCatalog inp)" for c ss
    using assms that by (fastforce simp: catalog_ok_def list_all_iff)
  show ?thesis
    unfolding ids
  proof (rule distinct_concat_map)
    show "distinct (tableCatalog inp)"
      using assms by (auto simp: catalog_ok_def distinct_map)
    fix e assume e: "e \<in> set (tableCatalog inp)"
    obtain c ss where cs: "e = (c, ss)" by (cases e)
    have "distinct (per e)"
      unfolding per_def cs prod.case
    proof (rule distinct_concat_map)
      show "distinct ss" using ok e cs by (auto simp: distinct_map)
      fix x assume "x \<in> set ss"
      then show "distinct (case x of (database, ns) \<Rightarrow> map (paletteTableItemId c database) ns)"
        using ok [of c ss] e cs by (fastforce simp: distinct_map inj_on_def table_id_inj split: prod.split)
    next
      fix x y assume xy: "x \<in> set ss" "y \<in> set ss" "x \<noteq> y"
      then have "fst x \<noteq> fst y" using ok [of c ss] e cs by (auto simp: distinct_map inj_on_def)
      moreover have "0 \<notin> set c" "0 \<notin> set (fst x)" "0 \<notin> set (fst y)"
        using ok [of c ss] e cs xy by (fastforce split: prod.splits)+
      ultimately show "set (case x of (database, ns) \<Rightarrow> map (paletteTableItemId c database) ns)
          \<inter> set (case y of (database, ns) \<Rightarrow> map (paletteTableItemId c database) ns) = {}"
        by (auto simp: table_id_inj split: prod.splits)
    qed
    then show "distinct (if found_profile inp (fst e) = None then [] else per e)" by simp
  next
    fix e f assume ef: "e \<in> set (tableCatalog inp)" "f \<in> set (tableCatalog inp)" "e \<noteq> f"
    then have ne: "fst e \<noteq> fst f" using assms by (auto simp: catalog_ok_def distinct_map inj_on_def)
    have "set (per e) \<inter> set (per f) = {}"
    proof -
      have mem: "\<exists>d t. x = paletteTableItemId (fst g) d t \<and> 0 \<notin> set d \<and> 0 \<notin> set (fst g)"
        if "x \<in> set (per g)" "g \<in> set (tableCatalog inp)" for x g
        using that ok [of "fst g" "snd g"] by (fastforce simp: per_def)
      show ?thesis
      proof (rule equals0I)
        fix x assume "x \<in> set (per e) \<inter> set (per f)"
        with mem [of x e] mem [of x f] ef show False using ne by (auto simp: table_id_inj)
      qed
    qed
    then show "set (if found_profile inp (fst e) = None then [] else per e)
        \<inter> set (if found_profile inp (fst f) = None then [] else per f) = {}" by simp
  qed
qed

text \<open>The parts of the list are told apart by the prefix of their identifiers.\<close>

definition kind_of :: "js \<Rightarrow> nat option" where
  "kind_of i = find_index (starts_with i)
     [u ''command:'', u ''connection:'', u ''table:'', u ''workspace:query:'', u ''workspace:table:'', u ''workspace:utility:'']"

lemma kind_simps:
  "kind_of (u ''command:'' @ r) = Some 0" "kind_of (u ''connection:'' @ r) = Some 1" "kind_of (u ''table:'' @ r) = Some 2"
  "kind_of (u ''workspace:'' @ u ''query:'' @ r) = Some 3" "kind_of (u ''workspace:'' @ u ''table:'' @ r) = Some 4"
  "kind_of (u ''workspace:'' @ u ''utility:'' @ r) = Some 5"
  by (simp_all add: kind_of_def u.simps)

definition in_kinds :: "nat set \<Rightarrow> CommandPaletteItem list \<Rightarrow> bool" where
  "in_kinds K xs \<longleftrightarrow> (\<forall>x \<in> set xs. \<exists>k \<in> K. kind_of (pi_id x) = Some k)"

lemma part_kinds:
  "in_kinds {0} (commands inp)" "in_kinds {1} (map (connection_item inp) ps)" "in_kinds {2} (table_items inp)"
  "in_kinds {3} (map (query_item inp) qs)" "in_kinds {4} (map (table_tab_item inp) ts)" "in_kinds {5} (utility_items inp)"
  using command_ids(2) [of _ inp]
  by (force simp: in_kinds_def kind_simps,
      auto simp: in_kinds_def kind_simps connection_item_def table_items_def table_item_def paletteTableItemId_def
        query_item_def table_tab_item_def utility_items_def workspace_item_def Let_def split: option.splits if_splits)

definition kinded :: "nat set \<Rightarrow> CommandPaletteItem list \<Rightarrow> bool" where
  "kinded K xs \<longleftrightarrow> in_kinds K xs \<and> distinct (map pi_id xs)"

lemma kinded_append: "kinded {k} xs \<Longrightarrow> kinded K ys \<Longrightarrow> k \<notin> K \<Longrightarrow> kinded (insert k K) (xs @ ys)"
  by (fastforce simp: kinded_def in_kinds_def)

definition sample_input :: CommandPaletteItemsInput where
  "sample_input =
     \<lparr> activeTableTabId = None, activeUtilityTabId = None, activeQueryTabId = Some (u ''q''), activeQueryProfile = None,
       busyQueryTabId = Some (u ''q''), binlogWorkspaceOpen = True, binlogWorkspaceTab = (u ''binlog'', u ''B''),
       connectionManagerOpen = True, connectionManagerTab = (u ''connections'', u ''C''), newQueryProfile = None,
       openTableTabs = [], openUtilityTabCount = 2, saved_profiles = [sample_profile],
       queryTabs = [\<lparr> pq_id = u ''q'', pq_connectionId = [99], pq_sqlText = [], pq_title = [] \<rparr>],
       recentItemTimestamps = (\<lambda>i. None), selectedProfile = Some sample_profile, palette_sidebarCollapsed = False,
       shortcutLabel = action_name, tableCatalog = [([99], [(u ''db'', [u ''t1'', u ''t2''])])] \<rparr>"

text \<open>Whatever is open and selected, no two palette items share an identifier, so recency,
  keyboard focus and selection never mix two of them up: the conditions under which a command is offered
  twice exclude each other, and a NUL keeps the parts of a table's identity apart.\<close>

theorem palette_ids_unique:
  assumes "input_ok inp"
  shows "distinct (map pi_id (buildCommandPaletteItems inp))"
proof -
  let ?ids = "\<lambda>xs :: CommandPaletteItem list. pi_id ` set xs"
  let ?cs = "map (connection_item inp) (saved_profiles inp)" and ?qs = "map (query_item inp) (queryTabs inp)"
  let ?ts = "map (table_tab_item inp) (openTableTabs inp)"
  have cs: "distinct (map pi_id ?cs)"
    using assms by (auto simp: input_ok_def distinct_map inj_on_def connection_item_def)
  have qs: "distinct (map pi_id ?qs)"
    using assms by (auto simp: input_ok_def distinct_map inj_on_def query_item_def workspace_item_def Let_def)
  have ts: "distinct (map pi_id ?ts)"
    using assms by (auto simp: input_ok_def distinct_map inj_on_def table_tab_item_def workspace_item_def Let_def)
  have us: "distinct (map pi_id (utility_items inp))"
    using assms by (auto simp: input_ok_def utility_items_def workspace_item_def)
  have tables: "distinct (map pi_id (table_items inp))"
    using assms by (simp add: input_ok_def table_items_distinct)
  have "kinded {0} (commands inp)" "kinded {1} ?cs" "kinded {2} (table_items inp)" "kinded {3} ?qs" "kinded {4} ?ts"
      "kinded {5} (utility_items inp)"
    unfolding kinded_def using part_kinds command_ids(1) cs tables qs ts us by simp_all
  then have "kinded {0, 1, 2, 3, 4, 5} (commands inp @ ?cs @ table_items inp @ ?qs @ ?ts @ utility_items inp)"
    by (intro kinded_append) simp_all
  then show ?thesis by (simp add: kinded_def buildCommandPaletteItems_def commands_def)
qed

theorem palette_ids_unique_witness:
  "distinct (map pi_id (buildCommandPaletteItems sample_input))"
proof -
  have "input_ok sample_input"
    by (simp add: input_ok_def sample_input_def catalog_ok_def sample_profile_def u.simps)
  then show ?thesis
    by (simp add: palette_ids_unique)
qed

end
