(* ===== verification/Table_Rows.thy ===== *)
theory Table_Rows
  imports Table_Mutation Table_Filter Js_Sort
begin

text \<open>
  What a table workspace asks the server and makes of the rows it gets back
  (\<open>features/tables/TableWorkspace.tsx\<close>): the metadata queries, the column, index and collation rows, the
  exact row count and the page query.
\<close>

section \<open>Queries\<close>

definition NL :: js where "NL = [NEWLINE]"

definition schemaSql :: "js \<Rightarrow> js \<Rightarrow> js" where
  "schemaSql database tableName =
     u ''SELECT COLUMN_NAME, COLUMN_TYPE, IS_NULLABLE, COLUMN_DEFAULT, COLUMN_KEY, EXTRA, COLUMN_COMMENT, CHARACTER_SET_NAME, COLLATION_NAME, GENERATION_EXPRESSION''
       @ NL @ u ''FROM INFORMATION_SCHEMA.COLUMNS'' @ NL
       @ u ''WHERE TABLE_SCHEMA = '' @ mysqlStringLiteral database @ u '' AND TABLE_NAME = '' @ mysqlStringLiteral tableName
       @ NL @ u ''ORDER BY ORDINAL_POSITION;''"

definition indexSql :: "js \<Rightarrow> js \<Rightarrow> js" where
  "indexSql database tableName =
     u ''SELECT INDEX_NAME, NON_UNIQUE, SUB_PART, COLUMN_NAME, INDEX_TYPE, CARDINALITY'' @ NL
       @ u ''FROM INFORMATION_SCHEMA.STATISTICS'' @ NL
       @ u ''WHERE TABLE_SCHEMA = '' @ mysqlStringLiteral database @ u '' AND TABLE_NAME = '' @ mysqlStringLiteral tableName
       @ NL @ u ''ORDER BY INDEX_NAME = '' @ [QUOTE] @ u ''PRIMARY'' @ [QUOTE] @ u '' DESC, INDEX_NAME, SEQ_IN_INDEX;''"

definition charsetSql :: js where
  "charsetSql = u ''SELECT CHARACTER_SET_NAME, COLLATION_NAME, IS_DEFAULT'' @ NL
     @ u ''FROM INFORMATION_SCHEMA.COLLATIONS'' @ NL
     @ u ''ORDER BY CHARACTER_SET_NAME, IS_DEFAULT DESC, COLLATION_NAME;''"

definition countSql :: "js \<Rightarrow> js \<Rightarrow> js" where
  "countSql target filterWhere = u ''SELECT COUNT(*) AS total_rows FROM '' @ target @ filterWhere @ [SEMICOLON]"

definition showCreateSql :: "js \<Rightarrow> js" where
  "showCreateSql target = u ''SHOW CREATE TABLE '' @ target @ [SEMICOLON]"

text \<open>The statement of one page; \<open>None\<close> when there is no column to select.\<close>

definition pageSql :: "js \<Rightarrow> TableColumnDefinition list \<Rightarrow> js \<Rightarrow> int \<Rightarrow> nat \<Rightarrow> js option" where
  "pageSql target orderingSchema filterWhere pageNumber sz =
     (let offset = (pageNumber - 1) * int sz;
          primaryOrder = map (\<lambda>c. quoteIdentifier (col_name c)) (filter primary orderingSchema);
          orderBy = (if length primaryOrder > 0 then u '' ORDER BY '' @ join (u '', '') primaryOrder else []);
          selectList = join (u '', '') (map (\<lambda>c. quoteIdentifier (col_name c)) orderingSchema)
      in if selectList = [] then None
         else Some (u ''SELECT '' @ selectList @ u '' FROM '' @ target @ filterWhere @ orderBy
                @ u '' LIMIT '' @ dec sz @ u '' OFFSET '' @ dec_int offset @ [SEMICOLON]))"

section \<open>Rows\<close>

definition schemaCell :: "CellValue option \<Rightarrow> js option" where
  "schemaCell c = cellValueToEditable c"

definition cell_or :: "js \<Rightarrow> CellValue list \<Rightarrow> nat \<Rightarrow> js" where
  "cell_or dflt row i = (case schemaCell (at row i) of Some s \<Rightarrow> s | None \<Rightarrow> dflt)"

definition defaultGeneratedRx :: rx where
  "defaultGeneratedRx = rx_seqs [Bnd word_iu, rx_liti ''default_generated'', Bnd word_iu]"

definition schema_row :: "CellValue list \<Rightarrow> TableColumnDefinition" where
  "schema_row row =
     (let name = cell_or [] row 0
      in \<lparr> sourceName = Some name, col_name = name, col_type = cell_or (u ''varchar(255)'') row 1,
           nullable = (schemaCell (at row 2) = Some (u ''YES'')), defaultValue = schemaCell (at row 3),
           defaultExpression = rx_test defaultGeneratedRx (cell_or [] row 5), comment = cell_or [] row 6,
           primary = (schemaCell (at row 4) = Some (u ''PRI'')), extra = cell_or [] row 5,
           characterSet = schemaCell (at row 7), collation = schemaCell (at row 8),
           generationExpression = cell_or [] row 9 \<rparr>)"

definition parseSchemaRows :: "CellValue list list \<Rightarrow> TableColumnDefinition list" where
  "parseSchemaRows rows = map schema_row rows"

text \<open>\<open>BigInt(text)\<close>; \<open>None\<close> is the \<open>SyntaxError\<close>.\<close>

definition bigint_text :: "js \<Rightarrow> int option" where
  "bigint_text s =
     (let t = trim s
      in if t = [] then Some 0
         else case radix_of t of
                Some n \<Rightarrow> Some (int n)
              | None \<Rightarrow>
                  (case parse_sign t of (neg, ds) \<Rightarrow>
                     if ds \<noteq> [] \<and> list_all is_digit ds
                     then Some (if neg then - int (digits_val ds) else int (digits_val ds)) else None))"

definition parseRowCount :: "CellValue option \<Rightarrow> nat \<Rightarrow> int" where
  "parseRowCount c fallback =
     (case schemaCell c of
        None \<Rightarrow> int fallback
      | Some v \<Rightarrow> (case bigint_text v of Some n \<Rightarrow> n | None \<Rightarrow> int fallback))"

text \<open>Division of BigInts truncates.\<close>

definition bigint_div :: "int \<Rightarrow> int \<Rightarrow> int" where
  "bigint_div a b = sgn a * sgn b * (\<bar>a\<bar> div \<bar>b\<bar>)"

definition totalPages :: "int \<Rightarrow> nat \<Rightarrow> int" where
  "totalPages totalRows sz = (if totalRows = 0 then 1 else bigint_div (totalRows + int sz - 1) (int sz))"

record TableIndexDefinition =
  ix_name :: js
  ix_unique :: bool
  ix_type :: js
  ix_columns :: "js list"
  ix_cardinality :: "js option"

definition index_column :: "CellValue list \<Rightarrow> js list" where
  "index_column row =
     (let name = schemaCell (at row 3); prefixLength = schemaCell (at row 2)
      in if truthy name
         then [the name @ (if truthy prefixLength then u ''('' @ the prefixLength @ u '')'' else [])]
         else [])"

definition index_step :: "TableIndexDefinition list \<Rightarrow> CellValue list \<Rightarrow> TableIndexDefinition list" where
  "index_step ixs row =
     (let name = cell_or [] row 0
      in if name \<in> ix_name ` set ixs
         then map (\<lambda>ix. if ix_name ix = name then ix \<lparr> ix_columns := ix_columns ix @ index_column row \<rparr> else ix) ixs
         else ixs @ [\<lparr> ix_name = name, ix_unique = (schemaCell (at row 1) = Some (u ''0'')),
                       ix_type = cell_or [] row 4, ix_columns = index_column row,
                       ix_cardinality = schemaCell (at row 5) \<rparr>])"

definition parseIndexRows :: "CellValue list list \<Rightarrow> TableIndexDefinition list" where
  "parseIndexRows rows = foldl index_step [] rows"

record MysqlCollationInfo =
  ci_characterSet :: js
  ci_collation :: js
  isDefault :: bool

text \<open>\<open>toUpperCase() === "YES"\<close>; the long s is the one other character whose upper case is \<open>S\<close>.\<close>

definition upper_is_yes :: "js \<Rightarrow> bool" where
  "upper_is_yes s \<longleftrightarrow>
     length s = 3 \<and> s ! 0 \<in> {89, 121} \<and> s ! 1 \<in> {69, 101} \<and> s ! 2 \<in> {83, 115, 383}"

definition parseCollationRows :: "CellValue list list \<Rightarrow> MysqlCollationInfo list" where
  "parseCollationRows rows =
     List.map_filter (\<lambda>row.
       let cs = cell_or [] row 0; co = cell_or [] row 1
       in if cs = [] \<or> co = [] then None
          else Some \<lparr> ci_characterSet = cs, ci_collation = co, isDefault = upper_is_yes (cell_or [] row 2) \<rparr>) rows"

definition characterSets :: "MysqlCollationInfo list \<Rightarrow> js list" where
  "characterSets catalog = new_set (map ci_characterSet catalog)"

definition defaultCollationByCharset :: "MysqlCollationInfo list \<Rightarrow> js \<Rightarrow> js option" where
  "defaultCollationByCharset catalog cs =
     map_option ci_collation (List.find (\<lambda>i. isDefault i \<and> ci_characterSet i = cs) catalog)"

definition collationsByCharset :: "MysqlCollationInfo list \<Rightarrow> js \<Rightarrow> js list" where
  "collationsByCharset catalog cs = map ci_collation (filter (\<lambda>i. ci_characterSet i = cs) catalog)"

lemmas table_rows_eval [js_eval] =
  NL_def schemaSql_def indexSql_def charsetSql_def countSql_def showCreateSql_def pageSql_def schemaCell_def cell_or_def
  defaultGeneratedRx_def schema_row_def parseSchemaRows_def bigint_text_def parseRowCount_def bigint_div_def
  totalPages_def index_column_def index_step_def parseIndexRows_def upper_is_yes_def parseCollationRows_def
  characterSets_def defaultCollationByCharset_def collationsByCharset_def

section \<open>Paging covers every row\<close>

lemma bigint_div_nonneg: "0 \<le> a \<Longrightarrow> 0 < b \<Longrightarrow> bigint_div a b = a div b"
  by (cases "a = 0") (auto simp: bigint_div_def)

lemma totalPages_pos: "0 \<le> n \<Longrightarrow> 0 < sz \<Longrightarrow> 1 \<le> totalPages n sz"
proof -
  assume n: "0 \<le> n" and s: "0 < sz"
  show ?thesis
  proof (cases "n = 0")
    case False
    then have "int sz \<le> n + int sz - 1" using n by simp
    then have "1 \<le> (n + int sz - 1) div int sz"
      using s zdiv_mono1 [of "int sz" "n + int sz - 1" "int sz"] by simp
    then show ?thesis using n s False by (simp add: totalPages_def bigint_div_nonneg)
  qed (simp add: totalPages_def)
qed

text \<open>Every row lies on exactly one of the pages, and the last page is not empty.\<close>

lemma pages_cover:
  assumes "0 \<le> k" "k < n" "0 < sz"
  shows "1 \<le> k div int sz + 1 \<and> k div int sz + 1 \<le> totalPages n sz"
proof -
  have "k div int sz + 1 = (k + int sz) div int sz"
    using assms by (simp add: div_add_self2)
  also have "\<dots> \<le> (n + int sz - 1) div int sz" using assms by (intro zdiv_mono1) auto
  finally have "k div int sz + 1 \<le> totalPages n sz"
    using assms by (simp add: totalPages_def bigint_div_nonneg)
  then show ?thesis using assms by (simp add: pos_imp_zdiv_nonneg_iff)
qed

lemma last_page_not_empty:
  assumes "0 < n" "0 < sz"
  shows "(totalPages n sz - 1) * int sz < n"
proof -
  have "(n + int sz - 1) div int sz * int sz \<le> n + int sz - 1"
    using assms by (metis div_mult_mod_eq le_add_same_cancel1 of_nat_0_less_iff pos_mod_sign)
  then have "((n + int sz - 1) div int sz - 1) * int sz < n" by (simp add: algebra_simps)
  then show ?thesis using assms by (simp add: totalPages_def bigint_div_nonneg)
qed

section \<open>Indexes\<close>

lemma index_step_distinct: "distinct (map ix_name ixs) \<Longrightarrow> distinct (map ix_name (index_step ixs row))"
  by (auto simp: index_step_def Let_def comp_def if_distrib cong: if_cong)

lemma parseIndexRows_distinct: "distinct (map ix_name (parseIndexRows rows))"
  unfolding parseIndexRows_def by (rule foldl_keeps) (simp_all add: index_step_distinct)

end
