(* ===== verification/Table_Drafts.thy ===== *)
theory Table_Drafts
  imports Table_Rows
begin

text \<open>
  The local drafts of a table workspace (\<open>features/tables/TableWorkspace.tsx\<close>): staged cells of existing rows,
  staged deletions and new rows, and the draft of the table structure. A JavaScript \<open>Map\<close> is the list of its
  entries in insertion order.
\<close>

section \<open>Maps with an order\<close>

fun map_put :: "'k \<Rightarrow> 'v \<Rightarrow> ('k \<times> 'v) list \<Rightarrow> ('k \<times> 'v) list" where
  "map_put k v [] = [(k, v)]"
| "map_put k v ((k', w) # es) = (if k' = k then (k, v) # es else (k', w) # map_put k v es)"

definition map_delete :: "'k \<Rightarrow> ('k \<times> 'v) list \<Rightarrow> ('k \<times> 'v) list" where
  "map_delete k es = filter (\<lambda>e. fst e \<noteq> k) es"

lemma map_delete_simps [simp]:
  "map_delete k [] = []"
  "map_delete k (e # es) = (if fst e = k then map_delete k es else e # map_delete k es)"
  by (simp_all add: map_delete_def)

lemma map_of_put [simp]: "map_of (map_put k v es) = (map_of es)(k \<mapsto> v)"
  by (induction k v es rule: map_put.induct) auto

lemma map_of_delete [simp]: "map_of (map_delete k es) = (map_of es)(k := None)"
  by (induction es) auto

lemma keys_put [simp]: "fst ` set (map_put k v es) = insert k (fst ` set es)"
  by (induction k v es rule: map_put.induct) auto

lemma keys_delete [simp]: "fst ` set (map_delete k es) = fst ` set es - {k}"
  by (induction es) auto

lemma distinct_put [simp]: "distinct (map fst es) \<Longrightarrow> distinct (map fst (map_put k v es))"
  by (induction k v es rule: map_put.induct) (auto simp: keys_put [unfolded set_map [symmetric]] simp del: set_map)

lemma distinct_delete [simp]: "distinct (map fst es) \<Longrightarrow> distinct (map fst (map_delete k es))"
  by (simp add: map_delete_def distinct_map_filter)

lemma map_put_not_Nil [simp]: "map_put k v es \<noteq> []"
  by (cases es) (auto split: if_splits)

lemma map_put_same: "map_of es k = Some v \<Longrightarrow> map_put k v es = es"
  by (induction k v es rule: map_put.induct) (auto split: if_splits)

lemma map_put_put [simp]: "map_put k v (map_put k w es) = map_put k v es"
  by (induction es) auto

lemma map_delete_absent: "k \<notin> fst ` set es \<Longrightarrow> map_delete k es = es"
  by (induction es) auto

lemma map_delete_put: "k \<notin> fst ` set es \<Longrightarrow> map_delete k (map_put k v es) = es"
  by (induction k v es rule: map_put.induct) (auto simp: map_delete_absent)

lemma map_put_mem: "e \<in> set (map_put k v es) \<Longrightarrow> e = (k, v) \<or> e \<in> set es"
  by (induction k v es rule: map_put.induct) (auto split: if_splits)

lemma map_delete_mem: "e \<in> set (map_delete k es) \<Longrightarrow> e \<in> set es"
  by (simp add: map_delete_def)

section \<open>Staged rows\<close>

type_synonym staged_updates = "(js \<times> StagedExistingRow) list"

definition staged_for :: "js \<Rightarrow> staged_updates \<Rightarrow> (js \<times> EditableCellValue) list" where
  "staged_for identity current =
     (case map_of current identity of None \<Rightarrow> [] | Some r \<Rightarrow> staged_values r)"

definition stage_cell :: "js \<Rightarrow> CellValue list \<Rightarrow> js \<Rightarrow> EditableCellValue \<Rightarrow> staged_updates \<Rightarrow> staged_updates" where
  "stage_cell identity row name v current =
     map_put identity
       \<lparr> originalRow = (case map_of current identity of Some r \<Rightarrow> originalRow r | None \<Rightarrow> row),
         staged_values = map_put name v (staged_for identity current) \<rparr> current"

definition unstage_cell :: "js \<Rightarrow> js \<Rightarrow> staged_updates \<Rightarrow> staged_updates" where
  "unstage_cell identity name current =
     (let rowUpdates = map_delete name (staged_for identity current)
      in if length rowUpdates = 0 then map_delete identity current
         else case map_of current identity of
                Some r \<Rightarrow> map_put identity (r \<lparr> staged_values := rowUpdates \<rparr>) current
              | None \<Rightarrow> current)"

text \<open>Staging keeps one entry per row and never an empty one.\<close>

definition staged_ok :: "staged_updates \<Rightarrow> bool" where
  "staged_ok current \<longleftrightarrow>
     distinct (map fst current)
     \<and> (\<forall>(i, r) \<in> set current. i \<noteq> [] \<and> staged_values r \<noteq> [] \<and> distinct (map fst (staged_values r)))"

lemma staged_for_distinct: "staged_ok current \<Longrightarrow> distinct (map fst (staged_for identity current))"
  by (auto simp: staged_for_def staged_ok_def split: option.split dest: map_of_SomeD)

lemma stage_cell_ok: "staged_ok current \<Longrightarrow> identity \<noteq> [] \<Longrightarrow> staged_ok (stage_cell identity row name v current)"
  using staged_for_distinct [of current identity]
  by (auto simp: staged_ok_def stage_cell_def dest!: map_put_mem)

lemma unstage_cell_ok: "staged_ok current \<Longrightarrow> staged_ok (unstage_cell identity name current)"
  using staged_for_distinct [of current identity]
  by (auto simp: staged_ok_def unstage_cell_def Let_def dest!: map_put_mem map_delete_mem dest: map_of_SomeD
      split: option.split)

lemma staged_for_stage:
  "staged_for i (stage_cell j row name v current)
     = (if i = j then map_put name v (staged_for j current) else staged_for i current)"
  by (simp add: staged_for_def stage_cell_def)

lemma staged_for_unstage:
  "staged_for i (unstage_cell j name current)
     = (if i = j then map_delete name (staged_for j current) else staged_for i current)"
  by (cases "map_of current j") (auto simp: staged_for_def unstage_cell_def Let_def)

text \<open>Staging a cell and taking it back leaves the edits as they were.\<close>

lemma unstage_stage:
  assumes "staged_ok current" "map_of (staged_for identity current) name = None"
  shows "unstage_cell identity name (stage_cell identity row name v current) = current"
proof -
  let ?s = "stage_cell identity row name v current"
  have vals: "map_delete name (staged_for identity ?s) = staged_for identity current"
    using assms(2) by (simp add: staged_for_stage map_delete_put map_of_eq_None_iff)
  show ?thesis
  proof (cases "map_of current identity")
    case None
    then have "staged_for identity current = []" "identity \<notin> fst ` set current"
      by (simp_all add: staged_for_def) (simp add: map_of_eq_None_iff)
    then have "unstage_cell identity name ?s = map_delete identity ?s" "identity \<notin> fst ` set current"
      using vals by (simp_all add: unstage_cell_def Let_def)
    then show ?thesis by (simp add: stage_cell_def map_delete_put)
  next
    case (Some r)
    then have r: "staged_values r \<noteq> []" "staged_for identity current = staged_values r"
      using assms(1) by (auto simp: staged_ok_def staged_for_def dest: map_of_SomeD)
    then have "unstage_cell identity name ?s = map_put identity r ?s"
      using vals Some by (simp add: unstage_cell_def Let_def) (cases r; simp add: stage_cell_def)
    then show ?thesis using Some by (simp add: stage_cell_def map_put_same)
  qed
qed

section \<open>The structure draft\<close>

datatype draft_patch =
  PatchName js | PatchNullable bool | PatchDefault "js option" | PatchCollation "js option" | PatchComment js

fun apply_patch :: "draft_patch \<Rightarrow> TableColumnDefinition \<Rightarrow> TableColumnDefinition" where
  "apply_patch (PatchName v) c = c \<lparr> col_name := v \<rparr>"
| "apply_patch (PatchNullable v) c = c \<lparr> nullable := v \<rparr>"
| "apply_patch (PatchDefault v) c = c \<lparr> defaultValue := v \<rparr>"
| "apply_patch (PatchCollation v) c = c \<lparr> collation := v \<rparr>"
| "apply_patch (PatchComment v) c = c \<lparr> comment := v \<rparr>"

definition change_at :: "nat \<Rightarrow> ('a \<Rightarrow> 'a) \<Rightarrow> 'a list \<Rightarrow> 'a list" where
  "change_at i f xs = map (\<lambda>(j, x). if j = i then f x else x) (enumerate 0 xs)"

definition remove_at :: "nat \<Rightarrow> 'a list \<Rightarrow> 'a list" where
  "remove_at i xs = map snd (filter (\<lambda>(j, x). j \<noteq> i) (enumerate 0 xs))"

lemma nth_change_at [simp]: "j < length xs \<Longrightarrow> change_at i f xs ! j = (if j = i then f (xs ! j) else xs ! j)"
  and length_change_at [simp]: "length (change_at i f xs) = length xs"
  by (simp_all add: change_at_def nth_enumerate_eq)

definition updateDraftColumn :: "nat \<Rightarrow> draft_patch \<Rightarrow> TableColumnDefinition list \<Rightarrow> TableColumnDefinition list" where
  "updateDraftColumn i p cs = change_at i (apply_patch p) cs"

datatype type_patch = PatchBase js | PatchLength "js option" | PatchUnsigned bool | PatchRaw js

fun patch_parts :: "type_patch \<Rightarrow> ParsedMysqlColumnType \<Rightarrow> ParsedMysqlColumnType" where
  "patch_parts (PatchBase b) p = p \<lparr> baseType := b \<rparr>"
| "patch_parts (PatchLength a) p = p \<lparr> lengthArgs := a \<rparr>"
| "patch_parts (PatchUnsigned b) p = p \<lparr> unsigned := b \<rparr>"
| "patch_parts (PatchRaw t) p = p"

definition default_parts :: ParsedMysqlColumnType where
  "default_parts = \<lparr> baseType = u ''varchar'', lengthArgs = Some (u ''255''), unsigned = False, zerofill = False \<rparr>"

definition change_type :: "type_patch \<Rightarrow> TableColumnDefinition \<Rightarrow> TableColumnDefinition" where
  "change_type patch c =
     (case patch of
        PatchRaw t \<Rightarrow> c \<lparr> col_type := t \<rparr>
      | _ \<Rightarrow>
          (let parsed = (case parseMysqlColumnType (col_type c) of Some p \<Rightarrow> p | None \<Rightarrow> default_parts);
               n0 = patch_parts patch parsed;
               n1 = (if typeSupportsUnsigned (baseType n0) then n0 else n0 \<lparr> unsigned := False, zerofill := False \<rparr>);
               n2 = (if typeSupportsLength (baseType n1) then n1 else n1 \<lparr> lengthArgs := None \<rparr>);
               nextType = formatMysqlColumnType n2;
               keepsCharset = typeSupportsCharset nextType
           in c \<lparr> col_type := nextType,
                  characterSet := (if keepsCharset then characterSet c else None),
                  collation := (if keepsCharset then collation c else None) \<rparr>))"

definition updateDraftColumnType :: "nat \<Rightarrow> type_patch \<Rightarrow> TableColumnDefinition list \<Rightarrow> TableColumnDefinition list" where
  "updateDraftColumnType i patch cs = change_at i (change_type patch) cs"

definition change_charset :: "MysqlCollationInfo list \<Rightarrow> js option \<Rightarrow> TableColumnDefinition \<Rightarrow> TableColumnDefinition" where
  "change_charset catalog cs c =
     (if \<not> truthy cs then c \<lparr> characterSet := None, collation := None \<rparr>
      else
        (let collations = collationsByCharset catalog (the cs);
             stillValid = (truthy (collation c) \<and> the (collation c) \<in> set collations)
         in c \<lparr> characterSet := cs,
                collation := (if stillValid then collation c
                  else case defaultCollationByCharset catalog (the cs) of
                         Some d \<Rightarrow> Some d
                       | None \<Rightarrow> at collations 0) \<rparr>))"

definition updateDraftColumnCharset ::
  "MysqlCollationInfo list \<Rightarrow> nat \<Rightarrow> js option \<Rightarrow> TableColumnDefinition list \<Rightarrow> TableColumnDefinition list" where
  "updateDraftColumnCharset catalog i cs cols = change_at i (change_charset catalog cs) cols"

definition addDraftColumn :: "TableColumnDefinition list \<Rightarrow> TableColumnDefinition list" where
  "addDraftColumn cs = cs @
     [\<lparr> sourceName = None, col_name = u ''new_column_'' @ dec (length cs + 1), col_type = u ''varchar(255)'',
        nullable = True, defaultValue = None, defaultExpression = False, comment = [], primary = False,
        extra = [], characterSet = None, collation = None, generationExpression = [] \<rparr>]"

definition removeDraftColumn :: "nat \<Rightarrow> TableColumnDefinition list \<Rightarrow> TableColumnDefinition list" where
  "removeDraftColumn i cs = remove_at i cs"

text \<open>A chosen character set keeps the collation consistent with it, whenever the server lists one.\<close>

lemma charset_collation_consistent:
  assumes "truthy cs" "collationsByCharset catalog (the cs) \<noteq> []"
  shows "\<exists>c'. collation (change_charset catalog cs c) = Some c' \<and> c' \<in> set (collationsByCharset catalog (the cs))"
proof -
  have "d \<in> set (collationsByCharset catalog (the cs))" if "defaultCollationByCharset catalog (the cs) = Some d" for d
    using that by (auto simp: defaultCollationByCharset_def collationsByCharset_def find_Some_iff)
  then show ?thesis
    using assms by (auto simp: change_charset_def Let_def truthy_def at_def split: option.split)
qed

end
