(* ===== verification/Table_Workspace.thy ===== *)
theory Table_Workspace
  imports Table_Drafts Connections Result_View
begin

text \<open>
  The table workspace (\<open>features/tables/TableWorkspace.tsx\<close>): staged edits and the structure draft, paging and
  filtering, selection, and the commit of either draft with its confirmation on production connections.

  The seven query sessions are the hook of Query\_Session; the workspace sees the state each shows at a render
  (\<open>Session\<close>) and starts queries (\<open>RunSession\<close>). A handler sees what the previous step left. An awaited
  call is a flight that holds what its continuation took from the render of the click; its answer is a step.
  After every step the effects run. Column widths, focus and the panel geometry are not part of the state. The
  schema and the table do not change while the component lives: tabs are keyed by them.
\<close>

section \<open>State\<close>

datatype session_name = SchemaQuery | DataQuery | DdlQuery | IndexQuery | CountQuery | CharsetQuery | MutationQuery

datatype TableView = DataView | StructureView | DdlView

datatype MutationKind = Ddl | Dml

record tw_props =
  tp_connection :: js
  tp_environment :: Environment
  tp_database :: js
  tp_table :: js

record EditingCell =
  ec_row :: nat
  ec_column :: js
  ec_value :: EditableCellValue

text \<open>What a continuation takes from the render in which it was created.\<close>

record closure =
  cl_page :: int
  cl_pageSize :: nat
  cl_schema :: "TableColumnDefinition list"
  cl_where :: js
  cl_summary :: "js option"
  cl_blocked :: bool
  cl_comment :: "js option"

datatype tw_flight =
  FilterFlight closure | DdlFlight closure | CommentFlight closure "js list" | DmlFlight closure

record table_ws =
  activeView :: TableView
  tw_schema :: "TableColumnDefinition list"
  draftColumns :: "TableColumnDefinition list"
  draftTableComment :: "js option"
  tw_updated :: staged_updates
  tw_deleted :: "(js \<times> CellValue list) list"
  tw_inserted :: "(js \<times> EditableCellValue) list list"
  selectedRows :: "nat list"
  focusedRowIndex :: nat
  selectionAnchorIndex :: "nat option"
  editingCell :: "EditingCell option"
  editingComment :: "(nat \<times> js) option"
  dataSearch :: js
  filterConditions :: "TableFilterCondition list"
  appliedFilterWhere :: js
  appliedFilterSummary :: "js option"
  appliedFilterCount :: nat
  filterError :: "js option"
  ddlBackendError :: "js option"
  tw_page :: int
  pageSize :: nat
  pendingProductionAction :: "MutationKind option"
  dmlMutationRunning :: bool
  dmlMutationError :: "AppError option"
  loadedSchemaQuery :: "js option"
  handledMutationQuery :: "js option"
  mutationKind :: "MutationKind option"
  sessions :: "session_name \<Rightarrow> QuerySessionState"
  tw_flights :: "tw_flight list"

datatype tw_effect =
  RunSession session_name js
| BuildFilterClause "TableFilterCondition list" "(js \<times> js) list"
| BuildTableDdl js js "TableColumnDefinition list" "TableColumnDefinition list"
| BuildTableCommentDdl js js js
| ApplyTableMutations js js "TableMutation list"

type_synonym tw_result = "table_ws \<times> tw_effect list"

definition init_table_ws :: table_ws where
  "init_table_ws =
     \<lparr> activeView = DataView, tw_schema = [], draftColumns = [], draftTableComment = None, tw_updated = [],
       tw_deleted = [], tw_inserted = [], selectedRows = [], focusedRowIndex = 0, selectionAnchorIndex = None,
       editingCell = None, editingComment = None, dataSearch = [], filterConditions = [], appliedFilterWhere = [],
       appliedFilterSummary = Some [], appliedFilterCount = 0, filterError = None, ddlBackendError = None, tw_page = 1,
       pageSize = 50, pendingProductionAction = None, dmlMutationRunning = False, dmlMutationError = None,
       loadedSchemaQuery = None, handledMutationQuery = None, mutationKind = None,
       sessions = (\<lambda>_. createInitialQuerySessionState), tw_flights = [] \<rparr>"

section \<open>What a render derives\<close>

definition data_rows :: "table_ws \<Rightarrow> CellValue list list" where
  "data_rows s = session_rows (sessions s DataQuery)"

definition data_columns :: "table_ws \<Rightarrow> QueryColumn list" where
  "data_columns s = session_columns (sessions s DataQuery)"

definition primaryColumns :: "table_ws \<Rightarrow> js list" where
  "primaryColumns s = map col_name (filter primary (tw_schema s))"

definition rawDdl :: "table_ws \<Rightarrow> js" where
  "rawDdl s = (case at (session_rows (sessions s DdlQuery)) 0 of None \<Rightarrow> [] | Some row \<Rightarrow> cell_or [] row 1)"

definition serverTableComment :: "table_ws \<Rightarrow> js" where
  "serverTableComment s = parseCreateTableComment (rawDdl s)"

definition tableComment :: "table_ws \<Rightarrow> js" where
  "tableComment s = (case draftTableComment s of Some c \<Rightarrow> c | None \<Rightarrow> serverTableComment s)"

definition tableCommentDirty :: "table_ws \<Rightarrow> bool" where
  "tableCommentDirty s \<longleftrightarrow> tableComment s \<noteq> serverTableComment s"

definition totalRows :: "table_ws \<Rightarrow> int" where
  "totalRows s = parseRowCount
     (case at (session_rows (sessions s CountQuery)) 0 of None \<Rightarrow> None | Some row \<Rightarrow> at row 0) (length (data_rows s))"

definition dmlChangeCount :: "table_ws \<Rightarrow> nat" where
  "dmlChangeCount s = length (tw_updated s) + length (tw_deleted s) + length (tw_inserted s)"

definition hasDmlChanges :: "table_ws \<Rightarrow> bool" where
  "hasDmlChanges s \<longleftrightarrow> dmlChangeCount s > 0"

definition columnDdlStatements :: "tw_props \<Rightarrow> table_ws \<Rightarrow> js list" where
  "columnDdlStatements p s = buildDdlStatements (tp_database p) (tp_table p) (tw_schema s) (draftColumns s)"

definition ddlStatements :: "tw_props \<Rightarrow> table_ws \<Rightarrow> js list" where
  "ddlStatements p s = columnDdlStatements p s
     @ (if tableCommentDirty s then [buildAlterTableCommentStatement (tp_database p) (tp_table p) (tableComment s)] else [])"

definition column_errors :: "TableColumnDefinition list \<Rightarrow> TableColumnDefinition \<Rightarrow> js list" where
  "column_errors schema c =
     (let original = (case sourceName c of None \<Rightarrow> None | Some src \<Rightarrow> List.find (\<lambda>x. col_name x = src) schema)
      in if (case original of Some o1 \<Rightarrow> \<not> isStructureColumnEditable o1 | None \<Rightarrow> False) then []
         else map (\<lambda>e. (if col_name c \<noteq> [] then col_name c else ([26410, 21629, 21517, 23383, 27573])) @ ([65306]) @ e)
                (List.map_filter (\<lambda>e. if truthy e then e else None)
                   [columnTypeValidationError (col_type c), columnDefaultValidationError c]))"

definition ddlValidationErrors :: "table_ws \<Rightarrow> js list" where
  "ddlValidationErrors s = concat (map (column_errors (tw_schema s)) (draftColumns s))"

definition dmlPlan :: "tw_props \<Rightarrow> table_ws \<Rightarrow> TableMutationPlan" where
  "dmlPlan p s = buildTableMutationPlan
     \<lparr> dml_database = tp_database p, dml_table = tp_table p, queryColumns = data_columns s, dml_schema = tw_schema s,
       updatedRows = tw_updated s, deletedRows = tw_deleted s, insertedRows = tw_inserted s \<rparr>"

definition hasDirtyChanges :: "tw_props \<Rightarrow> table_ws \<Rightarrow> bool" where
  "hasDirtyChanges p s \<longleftrightarrow> ddlStatements p s \<noteq> [] \<or> ddlValidationErrors s \<noteq> [] \<or> hasDmlChanges s"

definition readOnly :: "tw_props \<Rightarrow> bool" where
  "readOnly p = isSystemDatabase (tp_database p)"

definition draftFilterClause :: "table_ws \<Rightarrow> TableFilterClause" where
  "draftFilterClause s = buildTableFilterClause (filterConditions s) (tw_schema s)"

definition row_identity :: "table_ws \<Rightarrow> nat \<Rightarrow> js" where
  "row_identity s i =
     (case at (data_rows s) i of None \<Rightarrow> [] | Some row \<Rightarrow> tableRowIdentity row (data_columns s) (primaryColumns s))"

definition currentCellValue :: "table_ws \<Rightarrow> nat \<Rightarrow> js \<Rightarrow> CellValue option \<Rightarrow> EditableCellValue" where
  "currentCellValue s i name c =
     (let identity = row_identity s i
      in case (if identity = [] then None else map_of (staged_for identity (tw_updated s)) name) of
           Some v \<Rightarrow> v
         | None \<Rightarrow> cellValueToEditable c)"

definition cellMatchesDataSearch :: "locale_ops \<Rightarrow> table_ws \<Rightarrow> nat \<Rightarrow> js \<Rightarrow> CellValue option \<Rightarrow> bool" where
  "cellMatchesDataSearch L s i name c =
     (let needle = locale_lower L (trim (dataSearch s))
      in if needle = [] then False
         else has_sub (locale_lower L (case currentCellValue s i name c of Some v \<Rightarrow> v | None \<Rightarrow> u ''NULL'')) needle)"

definition dataSearchMatchCount :: "locale_ops \<Rightarrow> table_ws \<Rightarrow> nat" where
  "dataSearchMatchCount L s =
     (if locale_lower L (trim (dataSearch s)) = [] then 0
      else sum_list (map (\<lambda>(i, row). length (filter (\<lambda>(j, c). cellMatchesDataSearch L s i (qc_name c) (at row j))
             (enumerate 0 (data_columns s)))) (enumerate 0 (data_rows s))))"

section \<open>Loading\<close>

definition target :: "tw_props \<Rightarrow> js" where
  "target p = tableTarget (tp_database p) (tp_table p)"

definition data_blocked :: "table_ws \<Rightarrow> bool \<Rightarrow> bool" where
  "data_blocked s allowDirty \<longleftrightarrow> running (sessions s DataQuery) \<or> (\<not> allowDirty \<and> hasDmlChanges s)"

text \<open>\<open>blocked\<close> is what the guard of \<open>loadPage\<close> sees in the render its caller was created in.\<close>

definition loadPage ::
  "tw_props \<Rightarrow> int \<Rightarrow> nat \<Rightarrow> TableColumnDefinition list \<Rightarrow> js \<Rightarrow> bool \<Rightarrow> table_ws \<Rightarrow> tw_result" where
  "loadPage p nextPage nextPageSize orderingSchema filterWhere blocked s =
     (if tp_database p = [] \<or> blocked then (s, [])
      else case pageSql (target p) orderingSchema filterWhere nextPage nextPageSize of
             None \<Rightarrow> (s, [])
           | Some sql \<Rightarrow>
               (s \<lparr> tw_page := nextPage, selectedRows := [], focusedRowIndex := 0, selectionAnchorIndex := None,
                    editingCell := None \<rparr>,
                [RunSession DataQuery sql]))"

definition run_idle :: "session_name \<Rightarrow> js \<Rightarrow> table_ws \<Rightarrow> tw_effect list" where
  "run_idle n sql s = (if running (sessions s n) then [] else [RunSession n sql])"

definition loadTable :: "tw_props \<Rightarrow> table_ws \<Rightarrow> tw_effect list" where
  "loadTable p s =
     (if tp_database p = [] \<or> hasDmlChanges s \<or> tw_schema s \<noteq> draftColumns s then []
      else run_idle SchemaQuery (schemaSql (tp_database p) (tp_table p)) s
         @ run_idle DdlQuery (showCreateSql (target p)) s
         @ run_idle IndexQuery (indexSql (tp_database p) (tp_table p)) s
         @ run_idle CountQuery (countSql (target p) (appliedFilterWhere s)) s
         @ (if session_rows (sessions s CharsetQuery) = [] then run_idle CharsetQuery charsetSql s else []))"

definition idle_query :: "QuerySessionState \<Rightarrow> bool" where
  "idle_query q \<longleftrightarrow> truthy (queryId q) \<and> \<not> running q \<and> session_error q = None"

definition schema_effect :: "tw_props \<Rightarrow> table_ws \<Rightarrow> tw_result" where
  "schema_effect p s =
     (let q = sessions s SchemaQuery
      in if \<not> idle_query q \<or> loadedSchemaQuery s = queryId q then (s, [])
         else
           (let next = parseSchemaRows (session_rows q)
            in loadPage p (tw_page s) (pageSize s) next (appliedFilterWhere s) (data_blocked s False)
                 (s \<lparr> loadedSchemaQuery := queryId q, tw_schema := next, draftColumns := next, ddlBackendError := None \<rparr>)))"

definition mutation_effect :: "tw_props \<Rightarrow> table_ws \<Rightarrow> tw_result" where
  "mutation_effect p s =
     (let q = sessions s MutationQuery
      in if \<not> idle_query q \<or> handledMutationQuery s = queryId q then (s, [])
         else
           (s \<lparr> handledMutationQuery := queryId q, mutationKind := None \<rparr>,
            if mutationKind s = Some Ddl
            then [RunSession SchemaQuery (schemaSql (tp_database p) (tp_table p)),
                  RunSession DdlQuery (showCreateSql (target p)),
                  RunSession IndexQuery (indexSql (tp_database p) (tp_table p)),
                  RunSession CountQuery (countSql (target p) (appliedFilterWhere s))]
               @ (if session_rows (sessions s CharsetQuery) = [] then [RunSession CharsetQuery charsetSql] else [])
            else []))"

section \<open>Selection\<close>

definition all_rows :: "table_ws \<Rightarrow> nat list" where
  "all_rows s = [0..<length (data_rows s)]"

definition allRowsSelected :: "table_ws \<Rightarrow> bool" where
  "allRowsSelected s \<longleftrightarrow> length (data_rows s) > 0 \<and> length (selectedRows s) = length (data_rows s)"

definition toggleSelectedRow :: "nat \<Rightarrow> table_ws \<Rightarrow> table_ws" where
  "toggleSelectedRow i s =
     s \<lparr> selectionAnchorIndex := Some i,
         selectedRows := (if i \<in> set (selectedRows s) then set_delete i (selectedRows s) else set_add i (selectedRows s)) \<rparr>"

definition toggleSelectAllRows :: "table_ws \<Rightarrow> table_ws" where
  "toggleSelectAllRows s =
     s \<lparr> selectionAnchorIndex := (if allRowsSelected s \<or> data_rows s = [] then None else Some 0),
         selectedRows := (if allRowsSelected s then [] else all_rows s) \<rparr>"

record grid_key =
  gk_selects :: bool
  gk_text :: bool
  gk_control :: bool
  gk_key :: js
  gk_shift :: bool

definition handleGridKeyDown :: "grid_key \<Rightarrow> table_ws \<Rightarrow> table_ws" where
  "handleGridKeyDown k s =
     (let n = length (data_rows s); arrow = gk_key k \<in> {u ''ArrowUp'', u ''ArrowDown''}
      in if gk_selects k \<and> \<not> gk_text k then
           s \<lparr> selectedRows := all_rows s, selectionAnchorIndex := (if n > 0 then Some 0 else None) \<rparr>
         else if gk_control k then s
         else if gk_key k = u ''Escape'' \<and> selectedRows s \<noteq> [] then
           s \<lparr> selectedRows := [], selectionAnchorIndex := None \<rparr>
         else if gk_key k \<in> {u '' '', u ''Spacebar''} \<and> n > 0 then toggleSelectedRow (focusedRowIndex s) s
         else if gk_shift k \<and> arrow \<and> n > 0 then
           (let step = int (focusedRowIndex s) + (if gk_key k = u ''ArrowDown'' then 1 else - 1);
                nextRow = nat (max 0 (min (int n - 1) step));
                anchor = (case selectionAnchorIndex s of Some a \<Rightarrow> a | None \<Rightarrow> focusedRowIndex s)
            in s \<lparr> selectionAnchorIndex := Some anchor, focusedRowIndex := nextRow,
                   selectedRows := [min anchor nextRow ..< Suc (max anchor nextRow)] \<rparr>)
         else s)"

section \<open>Editing\<close>

definition edited :: "table_ws \<Rightarrow> table_ws" where
  "edited s = s \<lparr> pendingProductionAction := None \<rparr>"

text \<open>A new draft is a new array, so the effect that clears a refusal of the backend runs.\<close>

definition set_drafts :: "(TableColumnDefinition list \<Rightarrow> TableColumnDefinition list) \<Rightarrow> table_ws \<Rightarrow> table_ws" where
  "set_drafts f s = (edited s) \<lparr> draftColumns := f (draftColumns s), ddlBackendError := None \<rparr>"

definition collationCatalog :: "table_ws \<Rightarrow> MysqlCollationInfo list" where
  "collationCatalog s = parseCollationRows (session_rows (sessions s CharsetQuery))"

definition saveCommentEdit :: "table_ws \<Rightarrow> table_ws" where
  "saveCommentEdit s =
     (case editingComment s of
        None \<Rightarrow> s
      | Some (i, v) \<Rightarrow> (set_drafts (updateDraftColumn i (PatchComment v)) s) \<lparr> editingComment := None \<rparr>)"

definition updateExistingCell :: "nat \<Rightarrow> js \<Rightarrow> EditableCellValue \<Rightarrow> table_ws \<Rightarrow> table_ws" where
  "updateExistingCell i name v s =
     (case at (data_rows s) i of
        None \<Rightarrow> s
      | Some row \<Rightarrow>
          (let identity = row_identity s i
           in if identity = [] then s
              else (edited s) \<lparr> tw_updated := stage_cell identity row name v (tw_updated s) \<rparr>))"

definition revertExistingCell :: "nat \<Rightarrow> js \<Rightarrow> table_ws \<Rightarrow> table_ws" where
  "revertExistingCell i name s =
     (let identity = row_identity s i
      in if identity = [] then s else s \<lparr> tw_updated := unstage_cell identity name (tw_updated s) \<rparr>)"

definition original_value :: "table_ws \<Rightarrow> nat \<Rightarrow> js \<Rightarrow> EditableCellValue" where
  "original_value s i name =
     cellValueToEditable
       (case at (data_rows s) i of
          None \<Rightarrow> None
        | Some row \<Rightarrow> (case find_index (\<lambda>c. qc_name c = name) (data_columns s) of Some j \<Rightarrow> at row j | None \<Rightarrow> None))"

definition saveCellEdit :: "table_ws \<Rightarrow> table_ws" where
  "saveCellEdit s =
     (case editingCell s of
        None \<Rightarrow> s
      | Some e \<Rightarrow>
          (edited (if ec_value e = original_value s (ec_row e) (ec_column e)
                   then revertExistingCell (ec_row e) (ec_column e) s
                   else updateExistingCell (ec_row e) (ec_column e) (ec_value e) s)) \<lparr> editingCell := None \<rparr>)"

text \<open>A double click on a cell; a deleted row, a table without a key and a generated column are not edited.\<close>

definition openCellEditor :: "nat \<Rightarrow> nat \<Rightarrow> table_ws \<Rightarrow> table_ws" where
  "openCellEditor i j s =
     (case (at (data_rows s) i, at (data_columns s) j) of
        (Some row, Some column) \<Rightarrow>
          (let generated = (case List.find (\<lambda>c. col_name c = qc_name column) (tw_schema s) of
                              Some c \<Rightarrow> generationExpression c \<noteq> [] | None \<Rightarrow> False)
           in if row_identity s i \<notin> fst ` set (tw_deleted s) \<and> primaryColumns s \<noteq> [] \<and> \<not> generated
              then s \<lparr> selectedRows := [i], editingCell := Some \<lparr> ec_row = i, ec_column = qc_name column,
                         ec_value = currentCellValue s i (qc_name column) (at row j) \<rparr> \<rparr>
              else s)
      | _ \<Rightarrow> s)"

definition deleteSelectedRows :: "table_ws \<Rightarrow> table_ws" where
  "deleteSelectedRows s =
     (if primaryColumns s = [] then s
      else (edited s) \<lparr>
        tw_deleted := foldl (\<lambda>acc i. case at (data_rows s) i of
            None \<Rightarrow> acc
          | Some row \<Rightarrow> if row_identity s i = [] then acc else map_put (row_identity s i) row acc) (tw_deleted s) (selectedRows s),
        selectedRows := [], selectionAnchorIndex := None \<rparr>)"

definition addInsertedRow :: "table_ws \<Rightarrow> table_ws" where
  "addInsertedRow s = (edited s) \<lparr> tw_inserted := tw_inserted s @ [[]] \<rparr>"

definition updateInsertedCell :: "nat \<Rightarrow> js \<Rightarrow> EditableCellValue \<Rightarrow> table_ws \<Rightarrow> table_ws" where
  "updateInsertedCell i name v s = (edited s) \<lparr> tw_inserted := change_at i (map_put name v) (tw_inserted s) \<rparr>"

definition resetInsertedCellToDefault :: "nat \<Rightarrow> js \<Rightarrow> table_ws \<Rightarrow> table_ws" where
  "resetInsertedCellToDefault i name s = (edited s) \<lparr> tw_inserted := change_at i (map_delete name) (tw_inserted s) \<rparr>"

definition removeInsertedRow :: "nat \<Rightarrow> table_ws \<Rightarrow> table_ws" where
  "removeInsertedRow i s = (edited s) \<lparr> tw_inserted := remove_at i (tw_inserted s) \<rparr>"

definition discardDdlChanges :: "table_ws \<Rightarrow> table_ws" where
  "discardDdlChanges s = (set_drafts (\<lambda>_. tw_schema s) s) \<lparr> draftTableComment := None \<rparr>"

definition discardDmlChanges :: "table_ws \<Rightarrow> table_ws" where
  "discardDmlChanges s =
     (edited s) \<lparr> tw_updated := [], tw_deleted := [], tw_inserted := [], selectedRows := [], selectionAnchorIndex := None,
       editingCell := None, dmlMutationError := None \<rparr>"

section \<open>Filtering\<close>

definition closure_of :: "bool \<Rightarrow> table_ws \<Rightarrow> closure" where
  "closure_of blocked s =
     \<lparr> cl_page = tw_page s, cl_pageSize = pageSize s, cl_schema = tw_schema s, cl_where = appliedFilterWhere s,
       cl_summary = describeTableFilter (filterConditions s), cl_blocked = blocked,
       cl_comment = (if tableCommentDirty s then Some (tableComment s) else None) \<rparr>"

definition applyQuickFilter :: "table_ws \<Rightarrow> tw_result" where
  "applyQuickFilter s =
     (if hasDmlChanges s \<or> running (sessions s DataQuery) \<or> clause_errors (draftFilterClause s) \<noteq> [] then (s, [])
      else (s \<lparr> tw_flights := tw_flights s @ [FilterFlight (closure_of (data_blocked s False) s)] \<rparr>,
            [BuildFilterClause (filterConditions s) (map (\<lambda>c. (col_name c, col_type c)) (tw_schema s))]))"

definition FILTER_FAILED :: js where "FILTER_FAILED = ([26080, 27861, 29983, 25104, 31579, 36873, 26465, 20214, 65292, 35831, 37325, 35797, 12290])"

definition filter_settled :: "tw_props \<Rightarrow> closure \<Rightarrow> TableFilterClause option \<Rightarrow> table_ws \<Rightarrow> tw_result" where
  "filter_settled p cl answer s =
     (case answer of
        None \<Rightarrow> (s \<lparr> filterError := Some FILTER_FAILED \<rparr>, [])
      | Some clause \<Rightarrow>
          if clause_errors clause \<noteq> [] then (s \<lparr> filterError := Some (join ([65307]) (clause_errors clause)) \<rparr>, [])
          else
            (case loadPage p 1 (cl_pageSize cl) (cl_schema cl) (clause_where clause) (cl_blocked cl)
                    (s \<lparr> filterError := None, appliedFilterWhere := clause_where clause,
                         appliedFilterSummary := cl_summary cl, appliedFilterCount := activeCount clause \<rparr>) of
               (s', effects) \<Rightarrow> (s', RunSession CountQuery (countSql (target p) (clause_where clause)) # effects)))"

definition clearQuickFilter :: "tw_props \<Rightarrow> table_ws \<Rightarrow> tw_result" where
  "clearQuickFilter p s =
     (if hasDmlChanges s \<or> running (sessions s DataQuery) then (s, [])
      else
        (case loadPage p 1 (pageSize s) (tw_schema s) [] (data_blocked s False)
                (s \<lparr> filterConditions := [], filterError := None, appliedFilterWhere := [], appliedFilterSummary := Some [],
                     appliedFilterCount := 0 \<rparr>) of
           (s', effects) \<Rightarrow> (s', RunSession CountQuery (countSql (target p) []) # effects)))"

section \<open>Committing\<close>

definition kind_statements :: "tw_props \<Rightarrow> MutationKind \<Rightarrow> table_ws \<Rightarrow> js list" where
  "kind_statements p kind s = (case kind of Ddl \<Rightarrow> ddlStatements p s | Dml \<Rightarrow> statements (dmlPlan p s))"

definition kind_errors :: "tw_props \<Rightarrow> MutationKind \<Rightarrow> table_ws \<Rightarrow> js list" where
  "kind_errors p kind s = (case kind of Ddl \<Rightarrow> ddlValidationErrors s | Dml \<Rightarrow> plan_errors (dmlPlan p s))"

definition start_commit :: "tw_props \<Rightarrow> MutationKind \<Rightarrow> table_ws \<Rightarrow> tw_result" where
  "start_commit p kind s =
     (case kind of
        Ddl \<Rightarrow>
          (s \<lparr> pendingProductionAction := None, tw_flights := tw_flights s @ [DdlFlight (closure_of False s)] \<rparr>,
           [BuildTableDdl (tp_database p) (tp_table p) (tw_schema s) (draftColumns s)])
      | Dml \<Rightarrow>
          (s \<lparr> pendingProductionAction := None, dmlMutationError := None, dmlMutationRunning := True,
               tw_flights := tw_flights s @ [DmlFlight (closure_of (data_blocked s True) s)] \<rparr>,
           [ApplyTableMutations (tp_database p) (tp_table p) (mutations (dmlPlan p s))]))"

definition commit :: "tw_props \<Rightarrow> MutationKind \<Rightarrow> table_ws \<Rightarrow> tw_result" where
  "commit p kind s =
     (if readOnly p then (s, [])
      else if length (kind_statements p kind s) = 0 \<or> running (sessions s MutationQuery) \<or> dmlMutationRunning s
        \<or> kind_errors p kind s \<noteq> [] then (s, [])
      else if tp_environment p = Production \<and> pendingProductionAction s \<noteq> Some kind then
        (s \<lparr> pendingProductionAction := Some kind \<rparr>, [])
      else start_commit p kind s)"

definition DDL_FAILED :: js where "DDL_FAILED = ([26080, 27861, 29983, 25104, 32467, 26500, 21464, 26356, 35821, 21477, 65292, 35831, 37325, 35797, 12290])"
definition DDL_EMPTY :: js where "DDL_EMPTY = ([32467, 26500, 21464, 26356, 27809, 26377, 29983, 25104, 20219, 20309, 21487, 25191, 34892, 35821, 21477, 12290])"
definition DML_FAILED :: js where "DML_FAILED = ([25968, 25454, 25552, 20132, 22833, 36133, 65292, 35831, 37325, 35797, 12290])"

definition run_ddl :: "js list \<Rightarrow> table_ws \<Rightarrow> tw_result" where
  "run_ddl executable s =
     (if executable = [] then (s \<lparr> ddlBackendError := Some DDL_EMPTY \<rparr>, [])
      else (s \<lparr> ddlBackendError := None, mutationKind := Some Ddl \<rparr>, [RunSession MutationQuery (join NL executable)]))"

definition ddl_settled ::
  "tw_props \<Rightarrow> closure \<Rightarrow> (js list \<times> js list) option \<Rightarrow> table_ws \<Rightarrow> tw_result" where
  "ddl_settled p cl answer s =
     (case answer of
        None \<Rightarrow> (s \<lparr> ddlBackendError := Some DDL_FAILED \<rparr>, [])
      | Some (sts, errors) \<Rightarrow>
          if errors \<noteq> [] then (s \<lparr> ddlBackendError := Some (join ([65307]) errors) \<rparr>, [])
          else case cl_comment cl of
                 None \<Rightarrow> run_ddl sts s
               | Some c \<Rightarrow> (s \<lparr> tw_flights := tw_flights s @ [CommentFlight cl sts] \<rparr>,
                             [BuildTableCommentDdl (tp_database p) (tp_table p) c]))"

definition comment_settled :: "js list \<Rightarrow> js option \<Rightarrow> table_ws \<Rightarrow> tw_result" where
  "comment_settled sts answer s =
     (case answer of
        None \<Rightarrow> (s \<lparr> ddlBackendError := Some DDL_FAILED \<rparr>, [])
      | Some st \<Rightarrow> run_ddl (sts @ [st]) s)"

definition dml_settled :: "tw_props \<Rightarrow> closure \<Rightarrow> rejection option \<Rightarrow> table_ws \<Rightarrow> tw_result" where
  "dml_settled p cl failure s =
     (case failure of
        Some e \<Rightarrow> (s \<lparr> dmlMutationError := Some (toAppError DML_FAILED e), dmlMutationRunning := False \<rparr>, [])
      | None \<Rightarrow>
          (case loadPage p (cl_page cl) (cl_pageSize cl) (cl_schema cl) (cl_where cl) (cl_blocked cl)
                  (s \<lparr> tw_updated := [], tw_deleted := [], tw_inserted := [], selectedRows := [],
                       selectionAnchorIndex := None, dmlMutationRunning := False \<rparr>) of
             (s', effects) \<Rightarrow> (s', RunSession CountQuery (countSql (target p) (cl_where cl)) # effects)))"

section \<open>The buttons\<close>

definition commit_enabled :: "tw_props \<Rightarrow> MutationKind \<Rightarrow> table_ws \<Rightarrow> bool" where
  "commit_enabled p kind s \<longleftrightarrow>
     \<not> readOnly p \<and> kind_statements p kind s \<noteq> [] \<and> kind_errors p kind s = []
     \<and> (case kind of Ddl \<Rightarrow> \<not> hasDmlChanges s | Dml \<Rightarrow> ddlStatements p s = [])
     \<and> \<not> running (sessions s MutationQuery) \<and> \<not> dmlMutationRunning s"

text \<open>The button of the raw DDL view, which saves the comment.\<close>

definition comment_enabled :: "table_ws \<Rightarrow> bool" where
  "comment_enabled s \<longleftrightarrow>
     tableCommentDirty s \<and> ddlValidationErrors s = [] \<and> \<not> hasDmlChanges s
     \<and> \<not> running (sessions s MutationQuery) \<and> \<not> dmlMutationRunning s"

definition refresh_enabled :: "tw_props \<Rightarrow> table_ws \<Rightarrow> bool" where
  "refresh_enabled p s \<longleftrightarrow>
     \<not> hasDirtyChanges p s \<and> \<not> running (sessions s SchemaQuery) \<and> \<not> running (sessions s DataQuery)
     \<and> \<not> running (sessions s DdlQuery) \<and> \<not> dmlMutationRunning s"

definition paging_enabled :: "table_ws \<Rightarrow> bool" where
  "paging_enabled s \<longleftrightarrow> \<not> hasDmlChanges s \<and> \<not> running (sessions s DataQuery)"

datatype page_button = FirstPage | PreviousPage | NextPage | LastPage

definition page_of :: "page_button \<Rightarrow> table_ws \<Rightarrow> int option" where
  "page_of button s =
     (let last_page = totalPages (totalRows s) (pageSize s)
      in case button of
           FirstPage \<Rightarrow> if tw_page s = 1 then None else Some 1
         | PreviousPage \<Rightarrow> if tw_page s = 1 then None else Some (tw_page s - 1)
         | NextPage \<Rightarrow> if tw_page s \<ge> last_page then None else Some (tw_page s + 1)
         | LastPage \<Rightarrow> if tw_page s \<ge> last_page then None else Some last_page)"

text \<open>The shortcut that saves: what it commits depends on the view.\<close>

definition save_key :: "tw_props \<Rightarrow> table_ws \<Rightarrow> tw_result" where
  "save_key p s =
     (let ddl = kind_statements p Ddl s \<noteq> []; ddlOk = kind_errors p Ddl s = [];
          dml = kind_statements p Dml s \<noteq> []; dmlOk = kind_errors p Dml s = []
      in if \<not> hasDirtyChanges p s then (s, [])
         else if activeView s \<noteq> DataView \<and> ddl \<and> ddlOk then commit p Ddl s
         else if activeView s = DataView \<and> dml \<and> dmlOk then commit p Dml s
         else if dml \<and> dmlOk \<and> \<not> ddl then commit p Dml s
         else if ddl \<and> \<not> dml then commit p Ddl s
         else (s, []))"

section \<open>Steps\<close>

text \<open>
  Of the structure grid the handlers take any call; the inputs it disables are not modelled. An answer names
  the flight it settles by its place in the list of flights.
\<close>

datatype tw_label =
  SetView TableView
| EditColumn nat draft_patch | EditColumnType nat type_patch | EditColumnCharset nat "js option"
| AddColumn | RemoveColumn nat | OpenComment nat js | TypeComment js | SaveComment | CloseComment
| EditTableComment js | DiscardTableComment | DiscardDdl
| OpenCell nat nat | TypeCell EditableCellValue | SaveCell | CloseCell
| ToggleRow nat | ClickRow nat | FocusRow nat | ToggleAll | GridKey grid_key
| DeleteSelected | AddRow | SetInserted nat js EditableCellValue | ResetInserted nat js | RemoveInserted nat | DiscardDml
| ClickCommit MutationKind | ClickSaveComment | SaveKey
| ClickPage page_button | ChoosePageSize nat | SetConditions "TableFilterCondition list" | ApplyFilter | ClearFilter
| SearchData js | Refresh
| FilterAnswer nat "TableFilterClause option" | DdlAnswer nat "(js list \<times> js list) option"
| CommentAnswer nat "js option" | DmlAnswer nat "rejection option"
| Session session_name QuerySessionState

definition land :: "nat \<Rightarrow> table_ws \<Rightarrow> table_ws" where
  "land i s = s \<lparr> tw_flights := remove_at i (tw_flights s) \<rparr>"

fun edit_handler :: "tw_label \<Rightarrow> table_ws \<Rightarrow> table_ws" where
  "edit_handler (EditColumn i patch) s = set_drafts (updateDraftColumn i patch) s"
| "edit_handler (EditColumnType i patch) s = set_drafts (updateDraftColumnType i patch) s"
| "edit_handler (EditColumnCharset i cs) s = set_drafts (updateDraftColumnCharset (collationCatalog s) i cs) s"
| "edit_handler AddColumn s = set_drafts addDraftColumn s"
| "edit_handler (RemoveColumn i) s = set_drafts (removeDraftColumn i) s"
| "edit_handler (OpenComment i v) s = s \<lparr> editingComment := Some (i, v) \<rparr>"
| "edit_handler (TypeComment v) s = s \<lparr> editingComment := map_option (\<lambda>(i, w). (i, v)) (editingComment s) \<rparr>"
| "edit_handler SaveComment s = saveCommentEdit s"
| "edit_handler CloseComment s = s \<lparr> editingComment := None \<rparr>"
| "edit_handler (EditTableComment v) s = (edited s) \<lparr> draftTableComment := Some v \<rparr>"
| "edit_handler DiscardTableComment s = (edited s) \<lparr> draftTableComment := None \<rparr>"
| "edit_handler DiscardDdl s = discardDdlChanges s"
| "edit_handler (OpenCell i j) s = openCellEditor i j s"
| "edit_handler (TypeCell v) s = s \<lparr> editingCell := map_option (\<lambda>e. e \<lparr> ec_value := v \<rparr>) (editingCell s) \<rparr>"
| "edit_handler SaveCell s = saveCellEdit s"
| "edit_handler CloseCell s = s \<lparr> editingCell := None \<rparr>"
| "edit_handler (ToggleRow i) s = toggleSelectedRow i s"
| "edit_handler (ClickRow i) s = toggleSelectedRow i (s \<lparr> focusedRowIndex := i \<rparr>)"
| "edit_handler (FocusRow i) s = s \<lparr> focusedRowIndex := i \<rparr>"
| "edit_handler ToggleAll s = toggleSelectAllRows s"
| "edit_handler (GridKey k) s = handleGridKeyDown k s"
| "edit_handler AddRow s = addInsertedRow s"
| "edit_handler (SetInserted i name v) s = updateInsertedCell i name v s"
| "edit_handler (ResetInserted i name) s = resetInsertedCellToDefault i name s"
| "edit_handler (RemoveInserted i) s = removeInsertedRow i s"
| "edit_handler DiscardDml s = discardDmlChanges s"
| "edit_handler (SetView v) s = s \<lparr> activeView := v \<rparr>"
| "edit_handler (SetConditions cs) s = s \<lparr> filterError := None, filterConditions := cs \<rparr>"
| "edit_handler (SearchData v) s = s \<lparr> dataSearch := v \<rparr>"
| "edit_handler _ s = s"

definition answer_handler :: "tw_props \<Rightarrow> tw_label \<Rightarrow> table_ws \<Rightarrow> tw_result" where
  "answer_handler p l s =
     (case l of
        FilterAnswer i answer \<Rightarrow>
          (case at (tw_flights s) i of Some (FilterFlight cl) \<Rightarrow> filter_settled p cl answer (land i s) | _ \<Rightarrow> (s, []))
      | DdlAnswer i answer \<Rightarrow>
          (case at (tw_flights s) i of Some (DdlFlight cl) \<Rightarrow> ddl_settled p cl answer (land i s) | _ \<Rightarrow> (s, []))
      | CommentAnswer i answer \<Rightarrow>
          (case at (tw_flights s) i of Some (CommentFlight cl sts) \<Rightarrow> comment_settled sts answer (land i s) | _ \<Rightarrow> (s, []))
      | DmlAnswer i failure \<Rightarrow>
          (case at (tw_flights s) i of Some (DmlFlight cl) \<Rightarrow> dml_settled p cl failure (land i s) | _ \<Rightarrow> (s, []))
      | _ \<Rightarrow> (s, []))"

definition tw_handler :: "tw_props \<Rightarrow> tw_label \<Rightarrow> table_ws \<Rightarrow> tw_result" where
  "tw_handler p l s =
     (case l of
        ClickCommit kind \<Rightarrow> if commit_enabled p kind s then commit p kind s else (s, [])
      | ClickSaveComment \<Rightarrow> if comment_enabled s then commit p Ddl s else (s, [])
      | SaveKey \<Rightarrow> save_key p s
      | DeleteSelected \<Rightarrow> (if readOnly p \<or> selectedRows s = [] then s else deleteSelectedRows s, [])
      | ClickPage button \<Rightarrow>
          (case (if paging_enabled s then page_of button s else None) of
             None \<Rightarrow> (s, [])
           | Some n \<Rightarrow> loadPage p n (pageSize s) (tw_schema s) (appliedFilterWhere s) (data_blocked s False) s)
      | ChoosePageSize n \<Rightarrow>
          if paging_enabled s
          then loadPage p 1 n (tw_schema s) (appliedFilterWhere s) (data_blocked s False) (s \<lparr> pageSize := n \<rparr>)
          else (s, [])
      | ApplyFilter \<Rightarrow> applyQuickFilter s
      | ClearFilter \<Rightarrow> clearQuickFilter p s
      | Refresh \<Rightarrow> (s, if refresh_enabled p s then loadTable p s else [])
      | Session n q \<Rightarrow> (s \<lparr> sessions := (sessions s)(n := q) \<rparr>, [])
      | FilterAnswer i answer \<Rightarrow> answer_handler p l s
      | DdlAnswer i answer \<Rightarrow> answer_handler p l s
      | CommentAnswer i answer \<Rightarrow> answer_handler p l s
      | DmlAnswer i failure \<Rightarrow> answer_handler p l s
      | AddRow \<Rightarrow> (if readOnly p \<or> data_columns s = [] then s else addInsertedRow s, [])
      | AddColumn \<Rightarrow> (if readOnly p then s else set_drafts addDraftColumn s, [])
      | _ \<Rightarrow> (edit_handler l s, []))"

text \<open>The effects on the raw DDL and the table comment; \<open>old\<close> is the previous render.\<close>

definition comment_effects :: "table_ws \<Rightarrow> table_ws \<Rightarrow> table_ws" where
  "comment_effects old s =
     (let s1 = (if rawDdl old \<noteq> rawDdl s then s \<lparr> draftTableComment := None \<rparr> else s)
      in if tableComment old \<noteq> tableComment s1 then s1 \<lparr> ddlBackendError := None \<rparr> else s1)"

definition tw_step :: "tw_props \<Rightarrow> tw_label \<Rightarrow> table_ws \<Rightarrow> tw_result" where
  "tw_step p l s =
     (let (s1, e1) = tw_handler p l s; (s2, e2) = schema_effect p s1; (s3, e3) = mutation_effect p s2
      in (comment_effects s s3, e1 @ e2 @ e3))"

definition tw_run :: "tw_props \<Rightarrow> tw_label list \<Rightarrow> table_ws" where
  "tw_run p ls = foldl (\<lambda>s l. fst (tw_step p l s)) init_table_ws ls"

lemma tw_run_simps [simp]:
  "tw_run p [] = init_table_ws"
  "tw_run p (ls @ [l]) = fst (tw_step p l (tw_run p ls))"
  by (simp_all add: tw_run_def)

end
