(* ===== verification/Table_Commit.thy ===== *)
theory Table_Commit
  imports Table_Workspace
begin

text \<open>
  What the table workspace guarantees of its drafts and commits: confirmation on production connections, no
  writes to server-managed schemas, one transaction at a time, failed commits keep the edits, and what is
  lost when edits and commits overlap.
\<close>

section \<open>What steps leave alone\<close>

text \<open>The staged edits, and the commits under way.\<close>

definition staged :: "table_ws \<Rightarrow> staged_updates \<times> (js \<times> CellValue list) list \<times> (js \<times> EditableCellValue) list list" where
  "staged s = (tw_updated s, tw_deleted s, tw_inserted s)"

definition control :: "table_ws \<Rightarrow> MutationKind option \<times> bool \<times> tw_flight list" where
  "control s = (pendingProductionAction s, dmlMutationRunning s, tw_flights s)"

lemma loadPage_frame [simp]:
  "staged (fst (loadPage p n k sch w b s)) = staged s" "control (fst (loadPage p n k sch w b s)) = control s"
  "dmlMutationError (fst (loadPage p n k sch w b s)) = dmlMutationError s"
  by (auto simp: loadPage_def staged_def control_def split: option.split)

lemma schema_effect_frame [simp]:
  "staged (fst (schema_effect p s)) = staged s" "control (fst (schema_effect p s)) = control s"
  by (auto simp: schema_effect_def Let_def) (auto simp: staged_def control_def)

lemma mutation_effect_frame [simp]:
  "staged (fst (mutation_effect p s)) = staged s" "control (fst (mutation_effect p s)) = control s"
  by (auto simp: mutation_effect_def Let_def staged_def control_def)

lemma comment_effects_frame [simp]:
  "staged (comment_effects old s) = staged s" "control (comment_effects old s) = control s"
  by (auto simp: comment_effects_def Let_def staged_def control_def)

lemma step_sessions [simp]:
  "sessions (fst (schema_effect p s)) = sessions s" "sessions (fst (mutation_effect p s)) = sessions s"
  "sessions (comment_effects old s) = sessions s"
  by (auto simp: schema_effect_def mutation_effect_def comment_effects_def Let_def loadPage_def split: option.split)

lemma tw_step_frame:
  "staged (fst (tw_step p l s)) = staged (fst (tw_handler p l s))"
  "control (fst (tw_step p l s)) = control (fst (tw_handler p l s))"
  by (simp_all add: tw_step_def Let_def case_prod_unfold)

text \<open>An edit leaves the commits alone; unless it withdraws a confirmation that was asked for, it stages nothing.\<close>

definition same_commits :: "table_ws \<Rightarrow> table_ws \<Rightarrow> bool" where
  "same_commits s s' \<longleftrightarrow>
     tw_flights s' = tw_flights s \<and> dmlMutationRunning s' = dmlMutationRunning s
     \<and> (pendingProductionAction s' = None \<or> pendingProductionAction s' = pendingProductionAction s \<and> staged s' = staged s)"

lemmas edit_defs =
  set_drafts_def edited_def saveCommentEdit_def openCellEditor_def saveCellEdit_def toggleSelectedRow_def
  toggleSelectAllRows_def addInsertedRow_def updateInsertedCell_def resetInsertedCellToDefault_def
  removeInsertedRow_def discardDmlChanges_def discardDdlChanges_def deleteSelectedRows_def

lemma grid_key_same: "same_commits s (handleGridKeyDown k s)"
  by (auto simp: same_commits_def staged_def handleGridKeyDown_def toggleSelectedRow_def Let_def)

lemma cell_update_same:
  "tw_flights (updateExistingCell i n v s) = tw_flights s" "dmlMutationRunning (updateExistingCell i n v s) = dmlMutationRunning s"
  "tw_flights (revertExistingCell i n s) = tw_flights s" "dmlMutationRunning (revertExistingCell i n s) = dmlMutationRunning s"
  by (auto simp: updateExistingCell_def revertExistingCell_def Let_def edited_def split: option.split)

lemma edit_handler_same: "same_commits s (edit_handler l s)"
proof (cases l)
  case (GridKey k)
  then show ?thesis by (simp add: grid_key_same)
next
  case SaveCell
  then show ?thesis
    by (auto simp: same_commits_def saveCellEdit_def edited_def cell_update_same staged_def split: option.split)
qed (auto simp: same_commits_def staged_def edit_defs Let_def split: option.split)

lemma delete_same: "same_commits s (deleteSelectedRows s)"
  by (simp add: same_commits_def deleteSelectedRows_def edited_def staged_def)

section \<open>Commits\<close>

fun runs_dml :: "tw_flight \<Rightarrow> bool" where
  "runs_dml (DmlFlight cl) = True"
| "runs_dml _ = False"

fun asks_filter :: "tw_flight \<Rightarrow> bool" where
  "asks_filter (FilterFlight cl) = True"
| "asks_filter _ = False"

text \<open>
  At most one transaction is under way, exactly while the workspace says so; nothing waits for confirmation
  meanwhile; and over a server-managed schema nothing but filters is ever requested.
\<close>

definition commit_inv :: "tw_props \<Rightarrow> table_ws \<Rightarrow> bool" where
  "commit_inv p s \<longleftrightarrow>
     length (filter runs_dml (tw_flights s)) = of_bool (dmlMutationRunning s)
     \<and> (dmlMutationRunning s \<longrightarrow> pendingProductionAction s = None)
     \<and> (readOnly p \<longrightarrow> pendingProductionAction s = None \<and> list_all asks_filter (tw_flights s))"

lemma commit_inv_control: "commit_inv p s \<Longrightarrow> control s' = control s \<Longrightarrow> commit_inv p s'"
  by (simp add: commit_inv_def control_def)

lemma commit_inv_same: "commit_inv p s \<Longrightarrow> same_commits s s' \<Longrightarrow> commit_inv p s'"
  by (auto simp: commit_inv_def same_commits_def)

lemma remove_at_filter:
  "at xs i = Some x \<Longrightarrow> length (filter P xs) = length (filter P (remove_at i xs)) + of_bool (P x)"
proof -
  have "length (filter P (map snd (enumerate n xs))) =
      length (filter P (map snd (filter (\<lambda>(j, y). j \<noteq> n + i) (enumerate n xs)))) + of_bool (P x)"
    if "at xs i = Some x" for n
    using that
  proof (induction xs arbitrary: n i)
    case (Cons y xs)
    show ?case
    proof (cases i)
      case 0
      have "filter (\<lambda>(j, y). j \<noteq> n) (enumerate (Suc n) xs) = enumerate (Suc n) xs"
        by (auto simp: filter_id_conv in_set_enumerate_eq)
      with 0 Cons.prems show ?thesis by simp
    next
      case (Suc k)
      with Cons.prems have "at xs k = Some x" by simp
      from Cons.IH [OF this, of "Suc n"] Suc show ?thesis by simp
    qed
  qed simp
  from this [of 0] show "at xs i = Some x \<Longrightarrow> ?thesis"
    by (simp add: remove_at_def)
qed

lemma set_remove_at: "set (remove_at i xs) \<subseteq> set xs"
  by (auto simp: remove_at_def in_set_enumerate_eq)

lemma list_all_remove_at: "list_all P xs \<Longrightarrow> list_all P (remove_at i xs)"
  using set_remove_at [of i xs] by (auto simp: list_all_iff)

lemma land_frame:
  assumes "at (tw_flights s) i = Some f"
  shows "length (filter runs_dml (tw_flights s)) = length (filter runs_dml (tw_flights (land i s))) + of_bool (runs_dml f)"
    and "list_all asks_filter (tw_flights s) \<Longrightarrow> list_all asks_filter (tw_flights (land i s)) \<and> asks_filter f"
    and "dmlMutationRunning (land i s) = dmlMutationRunning s"
    and "pendingProductionAction (land i s) = pendingProductionAction s"
  using assms by (auto simp: land_def remove_at_filter list_all_remove_at list_all_iff dest: subsetD [OF set_remove_at])

lemma settled_control:
  "control (fst (filter_settled p cl answer s)) = control s"
  "control (fst (comment_settled sts st s)) = control s"
  "control (fst (dml_settled p cl failure s)) = (pendingProductionAction s, False, tw_flights s)"
  "\<exists>fs. control (fst (ddl_settled p cl plan s)) = (pendingProductionAction s, dmlMutationRunning s, tw_flights s @ fs)
    \<and> filter runs_dml fs = []"
proof -
  show "control (fst (filter_settled p cl answer s)) = control s"
    by (cases answer) (simp_all add: filter_settled_def case_prod_unfold, simp_all add: control_def)
  show "control (fst (comment_settled sts st s)) = control s"
    by (cases st) (simp_all add: comment_settled_def run_ddl_def control_def)
  show "control (fst (dml_settled p cl failure s)) = (pendingProductionAction s, False, tw_flights s)"
    by (cases failure) (simp_all add: dml_settled_def case_prod_unfold, simp_all add: control_def)
  show "\<exists>fs. control (fst (ddl_settled p cl plan s)) = (pendingProductionAction s, dmlMutationRunning s, tw_flights s @ fs)
      \<and> filter runs_dml fs = []"
    by (auto simp: ddl_settled_def run_ddl_def control_def split: option.split if_split)
qed

text \<open>An answer that finds no flight of its kind does nothing.\<close>

lemma answer_cases:
  obtains (none) "answer_handler p l s = (s, [])"
  | (filter) i cl answer where "at (tw_flights s) i = Some (FilterFlight cl)" "l = FilterAnswer i answer"
      "answer_handler p l s = filter_settled p cl answer (land i s)"
  | (ddl) i cl answer where "at (tw_flights s) i = Some (DdlFlight cl)" "l = DdlAnswer i answer"
      "answer_handler p l s = ddl_settled p cl answer (land i s)"
  | (comment) i cl sts answer where "at (tw_flights s) i = Some (CommentFlight cl sts)" "l = CommentAnswer i answer"
      "answer_handler p l s = comment_settled sts answer (land i s)"
  | (dml) i cl failure where "at (tw_flights s) i = Some (DmlFlight cl)" "l = DmlAnswer i failure"
      "answer_handler p l s = dml_settled p cl failure (land i s)"
proof (cases l)
  case (FilterAnswer i answer)
  show ?thesis
  proof (cases "\<exists>cl. at (tw_flights s) i = Some (FilterFlight cl)")
    case True
    then obtain cl where f: "at (tw_flights s) i = Some (FilterFlight cl)" by blast
    show ?thesis by (rule that(2) [OF f FilterAnswer]) (simp add: FilterAnswer f answer_handler_def)
  next
    case False
    have "answer_handler p l s = (s, [])"
      unfolding FilterAnswer answer_handler_def tw_label.case
      using False by (cases "at (tw_flights s) i"; simp split: tw_flight.split)
    then show ?thesis by (rule that(1))
  qed
next
  case (DdlAnswer i answer)
  show ?thesis
  proof (cases "\<exists>cl. at (tw_flights s) i = Some (DdlFlight cl)")
    case True
    then obtain cl where f: "at (tw_flights s) i = Some (DdlFlight cl)" by blast
    show ?thesis by (rule that(3) [OF f DdlAnswer]) (simp add: DdlAnswer f answer_handler_def)
  next
    case False
    have "answer_handler p l s = (s, [])"
      unfolding DdlAnswer answer_handler_def tw_label.case
      using False by (cases "at (tw_flights s) i"; simp split: tw_flight.split)
    then show ?thesis by (rule that(1))
  qed
next
  case (CommentAnswer i answer)
  show ?thesis
  proof (cases "\<exists>cl sts. at (tw_flights s) i = Some (CommentFlight cl sts)")
    case True
    then obtain cl sts where f: "at (tw_flights s) i = Some (CommentFlight cl sts)" by blast
    show ?thesis by (rule that(4) [OF f CommentAnswer]) (simp add: CommentAnswer f answer_handler_def)
  next
    case False
    have "answer_handler p l s = (s, [])"
      unfolding CommentAnswer answer_handler_def tw_label.case
      using False by (cases "at (tw_flights s) i"; simp split: tw_flight.split)
    then show ?thesis by (rule that(1))
  qed
next
  case (DmlAnswer i failure)
  show ?thesis
  proof (cases "\<exists>cl. at (tw_flights s) i = Some (DmlFlight cl)")
    case True
    then obtain cl where f: "at (tw_flights s) i = Some (DmlFlight cl)" by blast
    show ?thesis by (rule that(5) [OF f DmlAnswer]) (simp add: DmlAnswer f answer_handler_def)
  next
    case False
    have "answer_handler p l s = (s, [])"
      unfolding DmlAnswer answer_handler_def tw_label.case
      using False by (cases "at (tw_flights s) i"; simp split: tw_flight.split)
    then show ?thesis by (rule that(1))
  qed
qed (rule that(1), simp add: answer_handler_def)+

lemma answer_inv:
  assumes inv: "commit_inv p s"
  shows "commit_inv p (fst (answer_handler p l s))"
proof (cases rule: answer_cases [of p l s])
  case none
  then show ?thesis using inv by simp
next
  case (filter i cl answer)
  then have "commit_inv p (land i s)"
    using inv land_frame [OF filter(1)] by (simp add: commit_inv_def)
  then show ?thesis
    unfolding filter(3) by (rule commit_inv_control) (rule settled_control(1))
next
  case (ddl i cl answer)
  have "commit_inv p (land i s)" "\<not> readOnly p"
    using inv land_frame [OF ddl(1)] by (auto simp: commit_inv_def)
  moreover obtain fs where "control (fst (ddl_settled p cl answer (land i s)))
      = (pendingProductionAction (land i s), dmlMutationRunning (land i s), tw_flights (land i s) @ fs)" "filter runs_dml fs = []"
    using settled_control(4) by blast
  ultimately show ?thesis
    unfolding ddl(3) by (simp add: commit_inv_def control_def)
next
  case (comment i cl sts answer)
  then have "commit_inv p (land i s)"
    using inv land_frame [OF comment(1)] by (auto simp: commit_inv_def)
  then show ?thesis
    unfolding comment(3) by (rule commit_inv_control) (rule settled_control(2))
next
  case (dml i cl failure)
  then have "length (List.filter runs_dml (tw_flights (land i s))) = 0" "\<not> readOnly p"
    using inv land_frame [OF dml(1)] by (cases "dmlMutationRunning s"; auto simp: commit_inv_def)+
  then show ?thesis
    using dml(3) settled_control(3) [of p cl failure "land i s"] by (simp add: commit_inv_def control_def)
qed

text \<open>What a commit does: nothing, ask for confirmation, or start.\<close>

lemma commit_cases:
  obtains (none) "commit p kind s = (s, [])"
  | (asks) "commit p kind s = (s \<lparr> pendingProductionAction := Some kind \<rparr>, [])" "\<not> readOnly p" "\<not> dmlMutationRunning s"
      "pendingProductionAction s \<noteq> Some kind" "tp_environment p = Production"
  | (starts) "commit p kind s = start_commit p kind s" "\<not> readOnly p" "\<not> dmlMutationRunning s"
      "tp_environment p = Production \<Longrightarrow> pendingProductionAction s = Some kind"
proof -
  define blocked where "blocked \<longleftrightarrow> readOnly p \<or> length (kind_statements p kind s) = 0 \<or> running (sessions s MutationQuery)
    \<or> dmlMutationRunning s \<or> kind_errors p kind s \<noteq> []"
  define unconfirmed where "unconfirmed \<longleftrightarrow> tp_environment p = Production \<and> pendingProductionAction s \<noteq> Some kind"
  have eq: "commit p kind s = (if blocked then (s, [])
      else if unconfirmed then (s \<lparr> pendingProductionAction := Some kind \<rparr>, []) else start_commit p kind s)"
    unfolding commit_def blocked_def unconfirmed_def by (cases "readOnly p") (simp_all only: simp_thms if_True if_False)
  have free: "\<not> blocked \<Longrightarrow> \<not> readOnly p \<and> \<not> dmlMutationRunning s"
    unfolding blocked_def by blast
  show ?thesis
  proof (cases blocked)
    case True
    then show ?thesis using eq that(1) by simp
  next
    case False
    show ?thesis
    proof (cases unconfirmed)
      case True
      then show ?thesis using eq free False that(2) by (simp add: unconfirmed_def)
    next
      case no: False
      then have "commit p kind s = start_commit p kind s" "tp_environment p = Production \<Longrightarrow> pendingProductionAction s = Some kind"
        using no unfolding eq if_not_P [OF no] if_not_P [OF False] by (simp_all add: unconfirmed_def)
      then show ?thesis using free False by (intro that(3)) simp_all
    qed
  qed
qed

lemma commit_keeps:
  "commit_inv p s \<Longrightarrow> commit_inv p (fst (commit p kind s))" "staged (fst (commit p kind s)) = staged s"
proof -
  show "commit_inv p s \<Longrightarrow> commit_inv p (fst (commit p kind s))"
    by (cases rule: commit_cases [of p kind s]) (auto simp: commit_inv_def start_commit_def split: MutationKind.split)
  show "staged (fst (commit p kind s)) = staged s"
    by (cases rule: commit_cases [of p kind s]) (auto simp: staged_def start_commit_def split: MutationKind.split)
qed

lemma save_key_cases: "save_key p s = (s, []) \<or> (\<exists>kind. save_key p s = commit p kind s)"
  by (auto simp: save_key_def Let_def)

text \<open>The effects that lead to a change on the server.\<close>

fun writes :: "tw_effect \<Rightarrow> bool" where
  "writes (RunSession n sql) = (n = MutationQuery)"
| "writes (BuildFilterClause cs cols) = False"
| "writes (BuildTableDdl d t sch draft) = True"
| "writes (BuildTableCommentDdl d t c) = True"
| "writes (ApplyTableMutations d t ms) = True"

fun requests :: "tw_effect \<Rightarrow> MutationKind option" where
  "requests (BuildTableDdl d t sch draft) = Some Ddl"
| "requests (ApplyTableMutations d t ms) = Some Dml"
| "requests _ = None"

lemma requests_writes: "requests e = Some k \<Longrightarrow> writes e"
  by (cases e) simp_all

lemma loadPage_reads: "e \<in> set (snd (loadPage p n k sch w b s)) \<Longrightarrow> \<not> writes e"
  by (auto simp: loadPage_def split: option.splits if_splits)

lemma loadTable_reads: "e \<in> set (loadTable p s) \<Longrightarrow> \<not> writes e"
  by (auto simp: loadTable_def run_idle_def split: if_splits)

lemma effects_read:
  "e \<in> set (snd (schema_effect p s)) \<Longrightarrow> \<not> writes e" "e \<in> set (snd (mutation_effect p s)) \<Longrightarrow> \<not> writes e"
  by (auto simp: schema_effect_def mutation_effect_def Let_def loadPage_reads split: if_splits)

lemma step_writes: "e \<in> set (snd (tw_step p l s)) \<Longrightarrow> writes e \<Longrightarrow> e \<in> set (snd (tw_handler p l s))"
  by (auto simp: tw_step_def Let_def case_prod_unfold dest: effects_read)

text \<open>The requests to commit.\<close>

fun commit_label :: "tw_label \<Rightarrow> bool" where
  "commit_label (ClickCommit kind) = True"
| "commit_label ClickSaveComment = True"
| "commit_label SaveKey = True"
| "commit_label _ = False"

text \<open>Every handler is a commit, the answer of a flight, an edit, or leaves drafts and commits alone.\<close>

lemma handler_cases:
  obtains (commit) kind where "tw_handler p l s = commit p kind s" "commit_label l"
  | (answer) "tw_handler p l s = answer_handler p l s"
  | (edit) "same_commits s (fst (tw_handler p l s))" "snd (tw_handler p l s) = []"
  | (other) "control (fst (tw_handler p l s)) = control s" "staged (fst (tw_handler p l s)) = staged s"
      "\<not> (\<exists>e \<in> set (snd (tw_handler p l s)). writes e)"
  | (asks) cl where "control (fst (tw_handler p l s)) = (pendingProductionAction s, dmlMutationRunning s, tw_flights s @ [FilterFlight cl])"
      "staged (fst (tw_handler p l s)) = staged s" "\<not> (\<exists>e \<in> set (snd (tw_handler p l s)). writes e)"
proof (cases l)
  case (ClickCommit kind)
  then show ?thesis using that(1,4) by (cases "commit_enabled p kind s") (auto simp: tw_handler_def)
next
  case ClickSaveComment
  then show ?thesis using that(1,4) by (cases "comment_enabled s") (auto simp: tw_handler_def)
next
  case SaveKey
  then show ?thesis using that(1,4) save_key_cases [of p s] by (auto simp: tw_handler_def)
next
  case (ClickPage button)
  show ?thesis
    by (rule that(4)) (auto simp: ClickPage tw_handler_def dest: loadPage_reads split: option.split)
next
  case (ChoosePageSize n)
  have "control (s \<lparr> pageSize := n \<rparr>) = control s" "staged (s \<lparr> pageSize := n \<rparr>) = staged s"
    by (simp_all add: control_def staged_def)
  then show ?thesis
    by (intro that(4)) (auto simp: ChoosePageSize tw_handler_def dest: loadPage_reads split: if_splits)
next
  case ApplyFilter
  show ?thesis
  proof (cases "fst (applyQuickFilter s) = s")
    case True
    then show ?thesis
      by (intro that(4)) (auto simp: ApplyFilter tw_handler_def applyQuickFilter_def)
  next
    case False
    then show ?thesis
      by (intro that(5)) (auto simp: ApplyFilter tw_handler_def applyQuickFilter_def control_def staged_def split: if_splits)
  qed
next
  case ClearFilter
  have "e \<in> set (snd (clearQuickFilter p s)) \<Longrightarrow> \<not> writes e" for e
    by (auto simp: clearQuickFilter_def case_prod_unfold dest: loadPage_reads split: if_splits)
  then show ?thesis
    by (intro that(4)) (simp_all add: ClearFilter tw_handler_def clearQuickFilter_def case_prod_unfold,
      simp_all add: control_def staged_def)
next
  case Refresh
  then show ?thesis by (intro that(4)) (auto simp: tw_handler_def dest: loadTable_reads)
next
  case (Session n q)
  then show ?thesis by (intro that(4)) (simp_all add: tw_handler_def control_def staged_def)
next
  case DeleteSelected
  then show ?thesis
    using that(3,4) delete_same [of s] by (cases "readOnly p \<or> selectedRows s = []") (auto simp: tw_handler_def)
next
  case AddRow
  then show ?thesis
    using that(3,4) edit_handler_same [of s AddRow] by (cases "readOnly p \<or> data_columns s = []") (auto simp: tw_handler_def)
next
  case AddColumn
  then show ?thesis
    using that(3,4) edit_handler_same [of s AddColumn] by (cases "readOnly p") (auto simp: tw_handler_def)
next
  case (FilterAnswer i answer)
  then show ?thesis by (intro that(2)) (simp add: tw_handler_def)
next
  case (DdlAnswer i answer)
  then show ?thesis by (intro that(2)) (simp add: tw_handler_def)
next
  case (CommentAnswer i answer)
  then show ?thesis by (intro that(2)) (simp add: tw_handler_def)
next
  case (DmlAnswer i failure)
  then show ?thesis by (intro that(2)) (simp add: tw_handler_def)
qed (rule that(3), simp_all add: tw_handler_def edit_handler_same del: edit_handler.simps)

lemma handler_inv: "commit_inv p s \<Longrightarrow> commit_inv p (fst (tw_handler p l s))"
proof (cases rule: handler_cases [of p l s])
  case (commit kind)
  then show "commit_inv p s \<Longrightarrow> ?thesis" by (simp add: commit_keeps(1))
next
  case answer
  then show "commit_inv p s \<Longrightarrow> ?thesis" by (simp add: answer_inv)
next
  case edit
  then show "commit_inv p s \<Longrightarrow> ?thesis" by (simp add: commit_inv_same)
next
  case other
  then show "commit_inv p s \<Longrightarrow> ?thesis" by (simp add: commit_inv_control)
next
  case (asks cl)
  then show "commit_inv p s \<Longrightarrow> ?thesis" by (auto simp: commit_inv_def control_def)
qed

lemma run_inv: "commit_inv p (tw_run p ls)"
proof (induction ls rule: rev_induct)
  case (snoc l ls)
  then have "commit_inv p (fst (tw_handler p l (tw_run p ls)))" by (rule handler_inv)
  then show ?case
    unfolding tw_run_simps by (rule commit_inv_control) (simp add: tw_step_frame)
qed (simp add: commit_inv_def init_table_ws_def)

lemma settled_reads:
  "e \<in> set (snd (filter_settled p cl a s)) \<Longrightarrow> \<not> writes e"
  "e \<in> set (snd (dml_settled p cl failure s)) \<Longrightarrow> \<not> writes e"
  by (auto simp: filter_settled_def dml_settled_def case_prod_unfold dest: loadPage_reads split: option.splits if_splits)

lemma settled_requests:
  "e \<in> set (snd (ddl_settled p cl plan s)) \<Longrightarrow> requests e = None"
  "e \<in> set (snd (comment_settled sts st s)) \<Longrightarrow> requests e = None"
  by (auto simp: ddl_settled_def comment_settled_def run_ddl_def split: option.splits if_splits)

lemma answer_effects:
  assumes "e \<in> set (snd (answer_handler p l s))"
  shows "requests e = None" "list_all asks_filter (tw_flights s) \<Longrightarrow> \<not> writes e"
proof -
  have read: "requests x = None" if "\<not> writes x" for x
    using that by (cases x) simp_all
  show "requests e = None"
    using assms
    by (cases rule: answer_cases [of p l s])
      (auto dest: settled_requests read [OF settled_reads(1)] read [OF settled_reads(2)])
  show "list_all asks_filter (tw_flights s) \<Longrightarrow> \<not> writes e"
    using assms
    by (cases rule: answer_cases [of p l s]) (auto dest: settled_reads land_frame(2))
qed

lemma commit_effects:
  assumes "e \<in> set (snd (commit p kind s))"
  shows "requests e = Some kind" "\<not> readOnly p" "tp_environment p = Production \<Longrightarrow> pendingProductionAction s = Some kind"
    and "fst (commit p kind s) = fst (start_commit p kind s)"
  using assms
  by (cases rule: commit_cases [of p kind s]; cases kind; simp add: start_commit_def)+

lemma land_staged [simp]: "staged (land i s) = staged s"
  by (simp add: land_def staged_def)

lemma settled_staged:
  "staged (fst (filter_settled p cl answer s)) = staged s"
  "staged (fst (comment_settled sts st s)) = staged s"
  "staged (fst (ddl_settled p cl plan s)) = staged s"
  by (auto simp: filter_settled_def comment_settled_def ddl_settled_def run_ddl_def case_prod_unfold split: option.split)
    (auto simp: staged_def)

lemma dml_lands:
  assumes "commit_inv p s" "at (tw_flights s) i = Some (DmlFlight cl)"
  shows "dmlMutationRunning s" "pendingProductionAction s = None" "filter runs_dml (tw_flights (land i s)) = []"
proof -
  show run: "dmlMutationRunning s"
    using assms(1) land_frame(1) [OF assms(2)] by (cases "dmlMutationRunning s") (simp_all add: commit_inv_def)
  show "pendingProductionAction s = None" "filter runs_dml (tw_flights (land i s)) = []"
    using assms(1) land_frame(1) [OF assms(2)] run by (simp_all add: commit_inv_def)
qed

text \<open>A confirmation is asked for by a commit, and lasts while nothing is staged.\<close>

lemma pending_step:
  assumes "commit_inv p s" "pendingProductionAction (fst (tw_handler p l s)) = Some k"
  shows "commit_label l \<and> pendingProductionAction s \<noteq> Some k \<and> staged (fst (tw_handler p l s)) = staged s
    \<or> pendingProductionAction s = Some k \<and> staged (fst (tw_handler p l s)) = staged s"
proof (cases rule: handler_cases [of p l s])
  case (commit kind)
  show ?thesis
    using assms(2) commit commit_keeps(2) [of p kind s] by auto
next
  case answer
  show ?thesis
  proof (cases rule: answer_cases [of p l s])
    case none
    with answer assms(2) show ?thesis by simp
  next
    case (filter i cl a)
    have "pendingProductionAction (fst (tw_handler p l s)) = pendingProductionAction s"
      using settled_control(1) [of p cl a "land i s"] land_frame(4) [OF filter(1)] answer filter(3) by (simp add: control_def)
    with answer filter(3) assms(2) show ?thesis by (simp add: settled_staged)
  next
    case (ddl i cl a)
    have "pendingProductionAction (fst (tw_handler p l s)) = pendingProductionAction s"
      using settled_control(4) [of p cl a "land i s"] land_frame(4) [OF ddl(1)] answer ddl(3) by (auto simp: control_def)
    with answer ddl(3) assms(2) show ?thesis by (simp add: settled_staged)
  next
    case (comment i cl sts a)
    have "pendingProductionAction (fst (tw_handler p l s)) = pendingProductionAction s"
      using settled_control(2) [of sts a "land i s"] land_frame(4) [OF comment(1)] answer comment(3) by (simp add: control_def)
    with answer comment(3) assms(2) show ?thesis by (simp add: settled_staged)
  next
    case (dml i cl failure)
    have "pendingProductionAction (fst (tw_handler p l s)) = pendingProductionAction s"
      using settled_control(3) [of p cl failure "land i s"] land_frame(4) [OF dml(1)] answer dml(3) by (simp add: control_def)
    with dml_lands(2) [OF assms(1) dml(1)] assms(2) show ?thesis by simp
  qed
next
  case edit
  then show ?thesis using assms(2) by (auto simp: same_commits_def)
next
  case other
  then show ?thesis using assms(2) by (auto simp: control_def)
next
  case (asks cl)
  then show ?thesis using assms(2) by (auto simp: control_def)
qed

lemma pending_asked:
  "pendingProductionAction (tw_run p ls) = Some k \<Longrightarrow>
     \<exists>ls1 l1 ls2. ls = ls1 @ l1 # ls2 \<and> commit_label l1 \<and> pendingProductionAction (tw_run p ls1) \<noteq> Some k
       \<and> pendingProductionAction (tw_run p (ls1 @ [l1])) = Some k \<and> staged (tw_run p (ls1 @ [l1])) = staged (tw_run p ls)"
proof (induction ls rule: rev_induct)
  case (snoc l ls)
  let ?s = "tw_run p ls"
  have same: "pendingProductionAction (fst (tw_handler p l ?s)) = Some k" "staged (tw_run p (ls @ [l])) = staged (fst (tw_handler p l ?s))"
    using snoc.prems tw_step_frame [of p l ?s] by (simp_all add: control_def)
  from pending_step [OF run_inv same(1)] show ?case
  proof (elim disjE conjE)
    assume "commit_label l" "pendingProductionAction ?s \<noteq> Some k"
    with snoc.prems show ?thesis by blast
  next
    assume "pendingProductionAction ?s = Some k" and eq: "staged (fst (tw_handler p l ?s)) = staged ?s"
    from snoc.IH [OF this(1)] obtain ls1 l1 ls2 where *: "ls = ls1 @ l1 # ls2" "commit_label l1"
      "pendingProductionAction (tw_run p ls1) \<noteq> Some k" "pendingProductionAction (tw_run p (ls1 @ [l1])) = Some k"
      "staged (tw_run p (ls1 @ [l1])) = staged ?s" by blast
    show ?thesis
      using * eq same(2) by (intro exI [of _ ls1] exI [of _ l1] exI [of _ "ls2 @ [l]"]) (simp del: tw_run_simps)
  qed
qed (simp add: init_table_ws_def)

section \<open>Guarantees\<close>

text \<open>C14: Over a server-managed schema (information_schema, mysql, performance_schema, sys) no sequence
  of clicks, keys, answers and query updates makes the workspace ask for a change of the server: no DDL or comment
  statement is built, no transaction is sent and the session that runs DDL is never started.\<close>

theorem system_schema_read_only:
  assumes "readOnly p" "e \<in> set (snd (tw_step p l (tw_run p ls)))"
  shows "\<not> writes e"
proof
  assume "writes e"
  let ?s = "tw_run p ls"
  have e: "e \<in> set (snd (tw_handler p l ?s))"
    using assms(2) \<open>writes e\<close> by (rule step_writes)
  have inv: "commit_inv p ?s" by (rule run_inv)
  show False
  proof (cases rule: handler_cases [of p l ?s])
    case (commit kind)
    with e assms(1) commit_effects(2) show False by simp
  next
    case answer
    with e inv assms(1) answer_effects(2) \<open>writes e\<close> show False by (simp add: commit_inv_def)
  qed (use e \<open>writes e\<close> in auto)
qed

text \<open>C13: On a production connection a transaction or a DDL plan is requested only by a click
  or shortcut that commits, and only after an earlier one of these had asked the user to confirm that kind of change: between the
  two the request stayed open and the staged row edits did not change.\<close>

theorem production_writes_confirmed:
  assumes "tp_environment p = Production" "e \<in> set (snd (tw_step p l (tw_run p ls)))" "requests e = Some k"
  shows "commit_label l \<and> (\<exists>ls1 l1 ls2. ls = ls1 @ l1 # ls2 \<and> commit_label l1
    \<and> pendingProductionAction (tw_run p ls1) \<noteq> Some k \<and> pendingProductionAction (tw_run p (ls1 @ [l1])) = Some k
    \<and> staged (tw_run p (ls1 @ [l1])) = staged (tw_run p ls))"
proof -
  let ?s = "tw_run p ls"
  have w: "writes e" using assms(3) by (rule requests_writes)
  then have e: "e \<in> set (snd (tw_handler p l ?s))"
    using step_writes assms(2) by blast
  show ?thesis
  proof (cases rule: handler_cases [of p l ?s])
    case (commit kind)
    with e assms(1,3) have "pendingProductionAction ?s = Some k"
      using commit_effects(1,3) [of e p kind ?s] by simp
    from pending_asked [OF this] commit(2) show ?thesis by blast
  next
    case answer
    with e assms(3) answer_effects(1) show ?thesis by fastforce
  qed (use e w in auto)
qed

text \<open>C15: Whatever the user and the answers do, at most one transaction is under way; while one
  is, the workspace says so, no commit starts another write, and the state it leaves is the one it found.\<close>

theorem one_transaction_at_a_time:
  "length (filter runs_dml (tw_flights (tw_run p ls))) \<le> 1
   \<and> (filter runs_dml (tw_flights (tw_run p ls)) = [] \<or> commit p kind (tw_run p ls) = (tw_run p ls, []))"
proof -
  have inv: "commit_inv p (tw_run p ls)" by (rule run_inv)
  have "commit p kind (tw_run p ls) = (tw_run p ls, [])" if "dmlMutationRunning (tw_run p ls)"
    using that by (cases rule: commit_cases [of p kind "tw_run p ls"]) simp_all
  then show ?thesis
    using inv by (cases "dmlMutationRunning (tw_run p ls)") (simp_all add: commit_inv_def)
qed

text \<open>C16: When the server refuses the transaction, every staged edit is still there, the
  refusal is shown, nothing else is sent for it, and no transaction is under way any more: the same commit can be tried again.\<close>

theorem failed_commit_keeps_edits:
  assumes "at (tw_flights (tw_run p ls)) i = Some (DmlFlight cl)"
  shows "staged (tw_run p (ls @ [DmlAnswer i (Some e)])) = staged (tw_run p ls)
    \<and> dmlMutationError (fst (tw_handler p (DmlAnswer i (Some e)) (tw_run p ls))) = Some (toAppError DML_FAILED e)
    \<and> snd (tw_handler p (DmlAnswer i (Some e)) (tw_run p ls)) = []
    \<and> filter runs_dml (tw_flights (tw_run p (ls @ [DmlAnswer i (Some e)]))) = []
    \<and> \<not> dmlMutationRunning (tw_run p (ls @ [DmlAnswer i (Some e)]))"
proof -
  let ?s = "tw_run p ls" and ?l = "DmlAnswer i (Some e)"
  have h: "tw_handler p ?l ?s
      = ((land i ?s) \<lparr> dmlMutationError := Some (toAppError DML_FAILED e), dmlMutationRunning := False \<rparr>, [])"
    using assms by (simp add: tw_handler_def answer_handler_def dml_settled_def)
  have "control (tw_run p (ls @ [?l])) = (pendingProductionAction (land i ?s), False, tw_flights (land i ?s))"
    "staged (tw_run p (ls @ [?l])) = staged ?s"
    unfolding tw_run_simps tw_step_frame h by (simp_all add: control_def) (simp add: land_def staged_def)
  with h dml_lands(3) [OF run_inv assms] show ?thesis by (simp add: control_def)
qed

text \<open>When a transaction succeeds, all staged edits are dropped: those staged after it was sent, which are
  in no transaction, as well.\<close>

theorem late_edits_lost:
  assumes "at (tw_flights (tw_run p ls)) i = Some (DmlFlight cl)"
  shows "staged (tw_run p (ls @ [DmlAnswer i None])) = ([], [], [])"
  using assms unfolding tw_run_simps tw_step_frame
  by (simp add: tw_handler_def answer_handler_def dml_settled_def case_prod_unfold staged_def)
    (simp add: loadPage_def split: option.split)

section \<open>A concrete run\<close>

text \<open>A row is added on a production connection.\<close>

definition prod_props :: tw_props where
  "prod_props = \<lparr> tp_connection = u ''c'', tp_environment = Production, tp_database = u ''shop'', tp_table = u ''t'' \<rparr>"

definition one_column :: QuerySessionState where
  "one_column = createInitialQuerySessionState
     \<lparr> session_columns := [\<lparr> qc_name = u ''id'', databaseType = u ''INT'', qc_nullable = None \<rparr>] \<rparr>"

definition row_added :: "MutationKind option \<Rightarrow> table_ws" where
  "row_added pending = init_table_ws
     \<lparr> tw_inserted := [[]], sessions := (\<lambda>_. createInitialQuerySessionState)(DataQuery := one_column),
       pendingProductionAction := pending \<rparr>"

lemma idle: "\<not> idle_query createInitialQuerySessionState" "\<not> idle_query one_column"
  by (simp_all add: idle_query_def createInitialQuerySessionState_def one_column_def truthy_def)

lemma prod_readable: "\<not> readOnly prod_props"
  by code_simp

lemmas comment_defs = tableCommentDirty_def tableComment_def serverTableComment_def rawDdl_def

lemma row_added_run: "tw_run prod_props [Session DataQuery one_column, AddRow] = row_added None"
  by (simp add: tw_run_def tw_step_def tw_handler_def schema_effect_def mutation_effect_def comment_effects_def comment_defs
      idle prod_readable row_added_def init_table_ws_def addInsertedRow_def edited_def data_columns_def)
    (simp add: one_column_def)

lemma row_added_plan: "dmlPlan prod_props (row_added pending) = dmlPlan prod_props (row_added None)"
  by (simp add: dmlPlan_def data_columns_def row_added_def init_table_ws_def)

lemma row_added_mutations:
  "mutations (dmlPlan prod_props (row_added None)) = [Insert []]" "plan_errors (dmlPlan prod_props (row_added None)) = []"
  by code_simp+

lemma row_added_commit: "commit_enabled prod_props Dml (row_added pending)"
proof -
  have "statements (dmlPlan prod_props (row_added None)) \<noteq> []"
    using row_added_mutations(1) by (simp add: dmlPlan_def buildTableMutationPlan_def Let_def case_prod_unfold)
  moreover have "ddlStatements prod_props (row_added pending) = []"
    by (simp add: ddlStatements_def columnDdlStatements_def comment_defs buildDdlStatements_def row_added_def init_table_ws_def)
  ultimately show ?thesis
    by (simp add: commit_enabled_def kind_statements_def kind_errors_def row_added_plan [of pending] row_added_mutations
        prod_readable) (simp add: row_added_def init_table_ws_def createInitialQuerySessionState_def)
qed

lemma row_added_steps:
  "tw_handler prod_props (ClickCommit Dml) (row_added None) = (row_added (Some Dml), [])"
  "tw_handler prod_props (ClickCommit Dml) (row_added (Some Dml)) = start_commit prod_props Dml (row_added (Some Dml))"
  using row_added_commit
  by (auto simp: tw_handler_def commit_def commit_enabled_def)
    (simp_all add: row_added_def prod_props_def init_table_ws_def)

lemma row_added_asked: "tw_run prod_props [Session DataQuery one_column, AddRow, ClickCommit Dml] = row_added (Some Dml)"
  using tw_run_simps(2) [of prod_props "[Session DataQuery one_column, AddRow]" "ClickCommit Dml"]
  unfolding row_added_run
  by (simp add: tw_step_def row_added_steps)
    (simp add: schema_effect_def mutation_effect_def comment_effects_def comment_defs row_added_def idle init_table_ws_def)

lemma production_writes_confirmed_witness:
  "\<exists>ls1 l1 ls2. [Session DataQuery one_column, AddRow, ClickCommit Dml] = ls1 @ l1 # ls2 \<and> commit_label l1
     \<and> pendingProductionAction (tw_run prod_props ls1) \<noteq> Some Dml
     \<and> pendingProductionAction (tw_run prod_props (ls1 @ [l1])) = Some Dml
     \<and> staged (tw_run prod_props (ls1 @ [l1])) = ([], [], [[]])"
proof -
  have e: "ApplyTableMutations (tp_database prod_props) (tp_table prod_props) (mutations (dmlPlan prod_props (row_added (Some Dml))))
      \<in> set (snd (tw_step prod_props (ClickCommit Dml) (tw_run prod_props [Session DataQuery one_column, AddRow, ClickCommit Dml])))"
    by (simp add: row_added_asked tw_step_def row_added_steps start_commit_def case_prod_unfold Let_def)
  have s: "staged (row_added (Some Dml)) = ([], [], [[]])"
    by (simp add: staged_def row_added_def init_table_ws_def)
  show ?thesis
    using production_writes_confirmed [OF _ e requests.simps(2)]
    unfolding row_added_asked s by (simp add: prod_props_def)
qed

lemma system_schema_read_only_witness:
  "RunSession DdlQuery (showCreateSql (target (prod_props \<lparr> tp_database := u ''mysql'' \<rparr>)))
     \<in> set (snd (tw_step (prod_props \<lparr> tp_database := u ''mysql'' \<rparr>) Refresh (tw_run (prod_props \<lparr> tp_database := u ''mysql'' \<rparr>) [])))
   \<and> \<not> writes (RunSession DdlQuery (showCreateSql (target (prod_props \<lparr> tp_database := u ''mysql'' \<rparr>))))"
proof -
  let ?p = "prod_props \<lparr> tp_database := u ''mysql'' \<rparr>"
  have r: "readOnly ?p" by code_simp
  have idle: "refresh_enabled ?p init_table_ws" "\<not> hasDmlChanges init_table_ws" "tw_schema init_table_ws = draftColumns init_table_ws"
    "\<not> running (sessions init_table_ws n)" "tp_database ?p \<noteq> []" for n
    by (simp_all add: refresh_enabled_def hasDirtyChanges_def hasDmlChanges_def dmlChangeCount_def ddlStatements_def
        columnDdlStatements_def comment_defs buildDdlStatements_def ddlValidationErrors_def init_table_ws_def
        createInitialQuerySessionState_def u.simps)
  then have e: "RunSession DdlQuery (showCreateSql (target ?p)) \<in> set (snd (tw_step ?p Refresh (tw_run ?p [])))"
    unfolding tw_run_simps by (simp add: tw_step_def tw_handler_def case_prod_unfold Let_def loadTable_def run_idle_def)
  with system_schema_read_only [OF r e] show ?thesis by simp
qed

lemma row_added_flight:
  "at (tw_flights (tw_run prod_props [Session DataQuery one_column, AddRow, ClickCommit Dml, ClickCommit Dml])) 0
     = Some (DmlFlight (closure_of (data_blocked (row_added (Some Dml)) True) (row_added (Some Dml))))"
proof -
  have "control (tw_run prod_props ([Session DataQuery one_column, AddRow, ClickCommit Dml] @ [ClickCommit Dml]))
      = control (fst (start_commit prod_props Dml (row_added (Some Dml))))"
    unfolding tw_run_simps(2) row_added_asked tw_step_frame row_added_steps ..
  then show ?thesis by (simp add: control_def start_commit_def) (simp add: row_added_def init_table_ws_def)
qed

lemma failed_commit_keeps_edits_witness:
  "filter runs_dml (tw_flights (tw_run prod_props [Session DataQuery one_column, AddRow, ClickCommit Dml, ClickCommit Dml,
     DmlAnswer 0 (Some RejOther)])) = []"
  using failed_commit_keeps_edits [OF row_added_flight, of RejOther] by simp
text \<open>A second row, added while the transaction of the first is under way, is lost.\<close>

lemma late_edits_lost_witness:
  "staged (tw_run prod_props ([Session DataQuery one_column, AddRow, ClickCommit Dml, ClickCommit Dml] @ [AddRow])) = ([], [], [[], []])
   \<and> staged (tw_run prod_props (([Session DataQuery one_column, AddRow, ClickCommit Dml, ClickCommit Dml] @ [AddRow])
        @ [DmlAnswer 0 None])) = ([], [], [])"
proof -
  let ?ls = "[Session DataQuery one_column, AddRow, ClickCommit Dml, ClickCommit Dml]"
  let ?s = "tw_run prod_props ?ls"
  have s: "staged ?s = ([], [], [[]])"
    using tw_run_simps(2) [of prod_props "[Session DataQuery one_column, AddRow, ClickCommit Dml]" "ClickCommit Dml"]
    unfolding row_added_asked
    by (simp add: tw_step_frame row_added_steps start_commit_def) (simp add: staged_def row_added_def init_table_ws_def)
  have "data_columns (tw_run prod_props ?ls) = data_columns (row_added (Some Dml))"
    using tw_run_simps(2) [of prod_props "[Session DataQuery one_column, AddRow, ClickCommit Dml]" "ClickCommit Dml"]
    unfolding row_added_asked
    by (simp add: tw_step_def row_added_steps start_commit_def case_prod_unfold Let_def data_columns_def step_sessions)
  then have h: "tw_handler prod_props AddRow ?s = (addInsertedRow ?s, [])"
    by (simp add: tw_handler_def prod_readable data_columns_def) (simp add: row_added_def one_column_def)
  have step: "tw_run prod_props (?ls @ [AddRow]) = fst (tw_step prod_props AddRow ?s)"
    by (rule tw_run_simps)
  have "control (tw_run prod_props (?ls @ [AddRow])) = (None, dmlMutationRunning ?s, tw_flights ?s)"
    unfolding step tw_step_frame h by (simp add: control_def addInsertedRow_def edited_def)
  then have "tw_flights (tw_run prod_props (?ls @ [AddRow])) = tw_flights ?s"
    by (simp only: control_def prod.inject)
  then have "at (tw_flights (tw_run prod_props (?ls @ [AddRow]))) 0
      = Some (DmlFlight (closure_of (data_blocked (row_added (Some Dml)) True) (row_added (Some Dml))))"
    by (simp only: row_added_flight)
  note lost = late_edits_lost [OF this]
  have "staged (tw_run prod_props (?ls @ [AddRow])) = ([], [], [[], []])"
    using s unfolding step tw_step_frame h by (simp add: staged_def addInsertedRow_def edited_def)
  with lost show ?thesis by blast
qed

end
