(* ===== verification/Column_Widths.thy ===== *)
theory Column_Widths
  imports Complex_Main Js_Strings
begin

text \<open>
  Dragging column edges, in the table workspace (\<open>features/tables/TableWorkspace.tsx\<close>) and in the result grid
  (\<open>features/query/ResultGrid.tsx\<close>). Pixels are rationals, as every finite double is one. A hole of a JavaScript
  array reads as \<open>undefined\<close>, like a missing element: both are \<open>None\<close>.
\<close>

section \<open>Assigning to an index\<close>

definition set_index :: "nat \<Rightarrow> 'a \<Rightarrow> 'a option list \<Rightarrow> 'a option list" where
  "set_index i v xs = (if i < length xs then xs[i := Some v] else xs @ replicate (i - length xs) None @ [Some v])"

definition slot :: "'a option list \<Rightarrow> nat \<Rightarrow> 'a option" where
  "slot xs i = (case Js_Strings.at xs i of Some v \<Rightarrow> v | None \<Rightarrow> None)"

lemma slot_set_index [simp]: "slot (set_index i v xs) j = (if j = i then Some v else slot xs j)"
  by (auto simp: slot_def set_index_def at_def nth_append nth_list_update nth_Cons split: option.split nat.split)

lemma slot_map: "slot (map f [0..<n]) j = (if j < n then f j else None)"
  by (simp add: slot_def at_def)

text \<open>The width at which a pointer leaves a column: \<open>start\<close> is where the drag began.\<close>

definition drag_width :: "rat \<Rightarrow> rat \<Rightarrow> rat \<Rightarrow> rat \<Rightarrow> rat" where
  "drag_width smallest startWidth startX x = max smallest (startWidth + (x - startX))"

lemma drag_width_ge: "smallest \<le> drag_width smallest w a x"
  by (simp add: drag_width_def)

section \<open>The table workspace\<close>

definition DATA_COLUMN_DEFAULT_WIDTH :: rat where "DATA_COLUMN_DEFAULT_WIDTH = 150"
definition DATA_COLUMN_MIN_WIDTH :: rat where "DATA_COLUMN_MIN_WIDTH = 80"

record StructureColumnDef =
  sc_key :: js
  defaultWidth :: rat
  minWidth :: rat
  resizable :: bool

definition STRUCTURE_COLUMNS :: "StructureColumnDef list" where
  "STRUCTURE_COLUMNS = map (\<lambda>(k, d, m, r). \<lparr> sc_key = k, defaultWidth = d, minWidth = m, resizable = r \<rparr>)
     [(u ''name'', 148, 96, True), (u ''type'', 100, 72, True), (u ''length'', 68, 52, True),
      (u ''unsigned'', 72, 56, True), (u ''null'', 52, 44, True), (u ''default'', 180, 120, True),
      (u ''charset'', 110, 80, True), (u ''collation'', 160, 110, True), (u ''comment'', 180, 120, True),
      (u ''flags'', 120, 80, True), (u ''action'', 40, 40, False)]"

datatype resize_target = DataColumn | StructureColumn

record resize_session =
  rs_target :: resize_target
  rs_column :: nat
  rs_startX :: rat
  rs_startWidth :: rat

text \<open>\<open>tw_columns\<close> is the number of columns of the data grid.\<close>

record table_widths =
  tw_columns :: nat
  dataColumnWidths :: "rat option list"
  structureColumnWidths :: "rat option list"
  resizeSession :: "resize_session option"

definition init_widths :: table_widths where
  "init_widths = \<lparr> tw_columns = 0, dataColumnWidths = [], structureColumnWidths = map (\<lambda>_. None) STRUCTURE_COLUMNS,
     resizeSession = None \<rparr>"

text \<open>\<open>rendered\<close>: the width of the header on screen, if it has a parent; JavaScript's \<open>||\<close> passes over zero.\<close>

definition or_width :: "rat option \<Rightarrow> rat \<Rightarrow> rat" where
  "or_width w other = (case w of Some v \<Rightarrow> if v = 0 then other else v | None \<Rightarrow> other)"

definition handleDataColumnResizeMouseDown :: "bool \<Rightarrow> rat \<Rightarrow> rat option \<Rightarrow> nat \<Rightarrow> table_widths \<Rightarrow> table_widths" where
  "handleDataColumnResizeMouseDown main_button x rendered i s =
     (if \<not> main_button then s
      else s \<lparr> resizeSession := Some \<lparr> rs_target = DataColumn, rs_column = i, rs_startX = x,
        rs_startWidth = or_width rendered (or_width (slot (dataColumnWidths s) i) DATA_COLUMN_DEFAULT_WIDTH) \<rparr> \<rparr>)"

definition handleStructureColumnResizeMouseDown ::
  "bool \<Rightarrow> rat \<Rightarrow> rat option \<Rightarrow> nat \<Rightarrow> table_widths \<Rightarrow> table_widths" where
  "handleStructureColumnResizeMouseDown main_button x rendered i s =
     (case (main_button, Js_Strings.at STRUCTURE_COLUMNS i) of
        (True, Some c) \<Rightarrow>
          (if \<not> resizable c then s
           else s \<lparr> resizeSession := Some \<lparr> rs_target = StructureColumn, rs_column = i, rs_startX = x,
             rs_startWidth = or_width rendered (or_width (slot (structureColumnWidths s) i) (defaultWidth c)) \<rparr> \<rparr>)
      | _ \<Rightarrow> s)"

definition handlePointerMove :: "rat \<Rightarrow> table_widths \<Rightarrow> table_widths" where
  "handlePointerMove x s =
     (case resizeSession s of
        None \<Rightarrow> s
      | Some r \<Rightarrow>
          (case rs_target r of
             DataColumn \<Rightarrow>
               s \<lparr> dataColumnWidths := set_index (rs_column r)
                 (drag_width DATA_COLUMN_MIN_WIDTH (rs_startWidth r) (rs_startX r) x)
                 (map (slot (dataColumnWidths s)) [0..<tw_columns s]) \<rparr>
           | StructureColumn \<Rightarrow>
               (case Js_Strings.at STRUCTURE_COLUMNS (rs_column r) of
                  None \<Rightarrow> s
                | Some c \<Rightarrow>
                    if \<not> resizable c then s
                    else s \<lparr> structureColumnWidths := set_index (rs_column r)
                      (drag_width (minWidth c) (rs_startWidth r) (rs_startX r) x)
                      (map (slot (structureColumnWidths s)) [0..<length STRUCTURE_COLUMNS]) \<rparr>)))"

datatype width_label =
  DragData bool rat "rat option" nat | DragStructure bool rat "rat option" nat | PointerMoves rat | PointerUp
| DataColumns nat

fun widths_step :: "width_label \<Rightarrow> table_widths \<Rightarrow> table_widths" where
  "widths_step (DragData b x w i) s = handleDataColumnResizeMouseDown b x w i s"
| "widths_step (DragStructure b x w i) s = handleStructureColumnResizeMouseDown b x w i s"
| "widths_step (PointerMoves x) s = handlePointerMove x s"
| "widths_step PointerUp s = s \<lparr> resizeSession := None \<rparr>"
| "widths_step (DataColumns n) s = s \<lparr> tw_columns := n, dataColumnWidths := replicate n None \<rparr>"

text \<open>No drag makes a column narrower than its least width, and the fixed columns stay as they are.\<close>

definition widths_ok :: "table_widths \<Rightarrow> bool" where
  "widths_ok s \<longleftrightarrow>
     (\<forall>i w. slot (dataColumnWidths s) i = Some w \<longrightarrow> DATA_COLUMN_MIN_WIDTH \<le> w)
     \<and> (\<forall>i w. slot (structureColumnWidths s) i = Some w \<longrightarrow>
          (\<exists>c. Js_Strings.at STRUCTURE_COLUMNS i = Some c \<and> resizable c \<and> minWidth c \<le> w))"

lemma widths_step_ok: "widths_ok s \<Longrightarrow> widths_ok (widths_step l s)"
proof (cases l)
  case (PointerMoves x)
  then show "widths_ok s \<Longrightarrow> ?thesis"
    by (auto simp: widths_ok_def handlePointerMove_def slot_map drag_width_ge split: option.split resize_target.split)
next
  case (DataColumns n)
  then show "widths_ok s \<Longrightarrow> ?thesis"
    by (simp add: widths_ok_def) (simp add: slot_def at_def)
qed (auto simp: widths_ok_def handleDataColumnResizeMouseDown_def handleStructureColumnResizeMouseDown_def
    split: option.split bool.split)

lemma widths_run_ok: "widths_ok (foldl (\<lambda>s l. widths_step l s) init_widths ls)"
  by (induction ls rule: rev_induct)
    (simp_all add: widths_step_ok, simp add: widths_ok_def init_widths_def slot_def at_def)

end
