(* ===== verification/Result_Grid.thy ===== *)
theory Result_Grid
  imports Result_View Column_Widths
begin

text \<open>
  The result grid (\<open>features/query/ResultGrid.tsx\<close>): selecting cells, rows and columns with the mouse and the
  keyboard, sorting, resizing, the context menu, the cell viewer and what each copy command copies.

  Mouse events come from rendered cells and headers. A key event says which shortcuts it matches; the parent's
  re-renders are the steps \<open>NewResult\<close> (a new columns array), \<open>MoreRows\<close> (a batch of a streaming result) and
  \<open>Search\<close>. After every step the effects run. Focus and scrolling are not modelled.
\<close>

section \<open>State\<close>

definition DEFAULT_COLUMN_WIDTH :: rat where "DEFAULT_COLUMN_WIDTH = 160"
definition MIN_COLUMN_WIDTH :: rat where "MIN_COLUMN_WIDTH = 80"

record grid =
  g_columns :: "QueryColumn list"
  g_rows :: "CellValue list list"
  searchQuery :: js
  g_tableName :: js
  canCopyAll :: bool
  canCopyText :: bool
  window_size :: "rat \<times> rat"
  allSelected :: bool
  selection :: "ResultSelectionRect option"
  selectedRowIndexes :: "nat list"
  anchor :: "(nat \<times> nat) option"
  focusCell :: "(nat \<times> nat) option"
  contextMenu :: "(rat \<times> rat) option"
  cellViewer :: "(nat \<times> nat) option"
  g_sort :: "ResultSortState option"
  columnWidths :: "rat option list"
  g_resize :: "(nat \<times> rat \<times> rat) option"

datatype grid_effect = CopyAll | CopyText js js

definition init_grid :: "QueryColumn list \<Rightarrow> CellValue list list \<Rightarrow> js \<Rightarrow> js \<Rightarrow> bool \<Rightarrow> bool \<Rightarrow> rat \<times> rat \<Rightarrow> grid" where
  "init_grid columns rows search tableName copyAll copyText window =
     \<lparr> g_columns = columns, g_rows = rows, searchQuery = search, g_tableName = tableName, canCopyAll = copyAll,
       canCopyText = copyText, window_size = window, allSelected = False, selection = None, selectedRowIndexes = [],
       anchor = None, focusCell = None, contextMenu = None, cellViewer = None, g_sort = None,
       columnWidths = map (\<lambda>_. Some DEFAULT_COLUMN_WIDTH) columns, g_resize = None \<rparr>"

section \<open>What a render derives\<close>

definition cell_rect :: "nat \<Rightarrow> nat \<Rightarrow> ResultSelectionRect" where
  "cell_rect r c = \<lparr> startRow = r, startCol = c, endRow = r, endCol = c \<rparr>"

definition isCellInSelection :: "ResultSelectionRect option \<Rightarrow> nat \<Rightarrow> nat \<Rightarrow> bool" where
  "isCellInSelection sel r c =
     (case sel of None \<Rightarrow> False
      | Some s \<Rightarrow> startRow s \<le> r \<and> r \<le> endRow s \<and> startCol s \<le> c \<and> c \<le> endCol s)"

definition isCellSelected :: "ResultSelectionRect option \<Rightarrow> nat list \<Rightarrow> nat \<Rightarrow> nat \<Rightarrow> bool" where
  "isCellSelected sel selected r c \<longleftrightarrow> r \<in> set selected \<or> isCellInSelection sel r c"

definition rowIndexesFromSelection :: "ResultSelectionRect \<Rightarrow> nat list" where
  "rowIndexesFromSelection s = [startRow (normalizeSelection s)..<Suc (endRow (normalizeSelection s))]"

definition clampMenuPosition :: "rat \<times> rat \<Rightarrow> rat \<Rightarrow> rat \<Rightarrow> rat \<times> rat" where
  "clampMenuPosition window x y =
     (max 8 (min x (fst window - 248 - 8)), max 8 (min y (snd window - 420 - 8)))"

definition viewRows :: "locale_ops \<Rightarrow> grid \<Rightarrow> ResultViewRow list" where
  "viewRows L g = view_rows (buildResultView L (g_rows g) (searchQuery g) (g_sort g))"

definition displayRows :: "locale_ops \<Rightarrow> grid \<Rightarrow> CellValue list list" where
  "displayRows L g = map cells (viewRows L g)"

definition normalizedSearch :: "locale_ops \<Rightarrow> grid \<Rightarrow> js" where
  "normalizedSearch L g = locale_lower L (trim (searchQuery g))"

definition widths :: "grid \<Rightarrow> rat list" where
  "widths g = map (\<lambda>i. case slot (columnWidths g) i of Some w \<Rightarrow> w | None \<Rightarrow> DEFAULT_COLUMN_WIDTH) [0..<length (g_columns g)]"

definition normalizedSelection :: "grid \<Rightarrow> ResultSelectionRect option" where
  "normalizedSelection g = map_option normalizeSelection (selection g)"

definition discreteRowIndexes :: "grid \<Rightarrow> nat list" where
  "discreteRowIndexes g = sort (selectedRowIndexes g)"

definition lastColumnIndex :: "grid \<Rightarrow> nat" where
  "lastColumnIndex g = length (g_columns g) - 1"

definition lastRowIndex :: "locale_ops \<Rightarrow> grid \<Rightarrow> nat" where
  "lastRowIndex L g = length (viewRows L g) - 1"

definition whole :: "locale_ops \<Rightarrow> grid \<Rightarrow> ResultSelectionRect" where
  "whole L g = \<lparr> startRow = 0, startCol = 0, endRow = lastRowIndex L g, endCol = lastColumnIndex g \<rparr>"

definition activeSelection :: "locale_ops \<Rightarrow> grid \<Rightarrow> ResultSelectionRect option" where
  "activeSelection L g =
     (case normalizedSelection g of
        Some s \<Rightarrow> Some s
      | None \<Rightarrow> if allSelected g \<and> viewRows L g \<noteq> [] then Some (whole L g) else None)"

definition discreteCopyRows :: "locale_ops \<Rightarrow> grid \<Rightarrow> CellValue list list option" where
  "discreteCopyRows L g =
     (if discreteRowIndexes g = [] then None
      else Some (map (\<lambda>r. case Js_Strings.at (displayRows L g) r of Some row \<Rightarrow> row | None \<Rightarrow> []) (discreteRowIndexes g)))"

definition discreteCopySelection :: "grid \<Rightarrow> ResultSelectionRect option" where
  "discreteCopySelection g =
     (if discreteRowIndexes g = [] then None
      else Some \<lparr> startRow = 0, startCol = 0, endRow = length (discreteRowIndexes g) - 1, endCol = lastColumnIndex g \<rparr>)"

text \<open>The status the results header shows.\<close>

definition selection_label :: "grid \<Rightarrow> js option" where
  "selection_label g =
     describeSelection (normalizedSelection g) (allSelected g) (length (g_columns g)) (length (discreteRowIndexes g))"

text \<open>Whether a cell is painted as selected, and the viewer's text.\<close>

definition highlighted :: "grid \<Rightarrow> nat \<Rightarrow> nat \<Rightarrow> bool" where
  "highlighted g r c \<longleftrightarrow> allSelected g \<or> isCellSelected (normalizedSelection g) (selectedRowIndexes g) r c"

definition viewerText :: "locale_ops \<Rightarrow> grid \<Rightarrow> js" where
  "viewerText L g = (case cellViewer g of None \<Rightarrow> [] | Some (r, c) \<Rightarrow> cellValueToViewerText (cell_at (displayRows L g) r c))"

text \<open>The viewer is shown while its column exists.\<close>

definition viewer_open :: "grid \<Rightarrow> bool" where
  "viewer_open g \<longleftrightarrow> (case cellViewer g of None \<Rightarrow> False | Some p \<Rightarrow> snd p < length (g_columns g))"

section \<open>Selecting\<close>

definition deselect :: "grid \<Rightarrow> grid" where
  "deselect g = g \<lparr> allSelected := False, selection := None, selectedRowIndexes := [], anchor := None, focusCell := None \<rparr>"

definition selectAllVisibleRows :: "locale_ops \<Rightarrow> grid \<Rightarrow> grid" where
  "selectAllVisibleRows L g =
     (if viewRows L g = [] then g
      else g \<lparr> allSelected := True, selectedRowIndexes := [], selection := Some (whole L g), anchor := Some (0, 0),
               focusCell := Some (0, 0) \<rparr>)"

definition applySelection :: "ResultSelectionRect \<Rightarrow> nat \<times> nat \<Rightarrow> nat \<times> nat \<Rightarrow> grid \<Rightarrow> grid" where
  "applySelection nxt nextAnchor nextFocus g =
     g \<lparr> allSelected := False, selectedRowIndexes := [], selection := Some nxt, anchor := Some nextAnchor,
         focusCell := Some nextFocus \<rparr>"

definition seeded_rows :: "grid \<Rightarrow> nat list" where
  "seeded_rows g =
     (case (selectedRowIndexes g, normalizedSelection g) of
        ([], Some bounds) \<Rightarrow>
          if startCol bounds = 0 \<and> endCol bounds = lastColumnIndex g then [startRow bounds..<Suc (endRow bounds)] else []
      | (rows, _) \<Rightarrow> rows)"

definition toggleDiscreteRowSelection :: "nat \<Rightarrow> nat \<Rightarrow> grid \<Rightarrow> grid" where
  "toggleDiscreteRowSelection r c g =
     g \<lparr> allSelected := False,
         selectedRowIndexes := (if r \<in> set (seeded_rows g) then set_delete r (seeded_rows g) else set_add r (seeded_rows g)),
         selection := None, anchor := Some (r, 0), focusCell := Some (r, c) \<rparr>"

definition focus_or_active :: "locale_ops \<Rightarrow> grid \<Rightarrow> (nat \<times> nat) option" where
  "focus_or_active L g =
     (case focusCell g of Some p \<Rightarrow> Some p | None \<Rightarrow> map_option (\<lambda>s. (startRow s, startCol s)) (activeSelection L g))"

definition close_menu :: "grid \<Rightarrow> grid" where
  "close_menu g = g \<lparr> contextMenu := None \<rparr>"

definition selectCurrentRow :: "locale_ops \<Rightarrow> grid \<Rightarrow> grid" where
  "selectCurrentRow L g =
     (let r = (case focus_or_active L g of Some p \<Rightarrow> fst p | None \<Rightarrow> 0)
      in applySelection \<lparr> startRow = r, startCol = 0, endRow = r, endCol = lastColumnIndex g \<rparr> (r, 0) (r, lastColumnIndex g)
           (close_menu g))"

definition selectCurrentColumn :: "locale_ops \<Rightarrow> grid \<Rightarrow> grid" where
  "selectCurrentColumn L g =
     (if viewRows L g = [] then close_menu g
      else (let c = (case focus_or_active L g of Some p \<Rightarrow> snd p | None \<Rightarrow> 0)
            in applySelection \<lparr> startRow = 0, startCol = c, endRow = lastRowIndex L g, endCol = c \<rparr> (0, c) (lastRowIndex L g, c)
                 (close_menu g)))"

definition openCellViewer :: "locale_ops \<Rightarrow> grid \<Rightarrow> grid" where
  "openCellViewer L g =
     (case focus_or_active L g of None \<Rightarrow> close_menu g | Some p \<Rightarrow> (close_menu g) \<lparr> cellViewer := Some p \<rparr>)"

section \<open>Copying\<close>

definition HEADERS_SUFFIX :: js where "HEADERS_SUFFIX = ([65288, 21547, 23383, 27573, 21517, 65289])"

definition copied_cells_feedback :: "nat \<Rightarrow> bool \<Rightarrow> js" where
  "copied_cells_feedback n includeHeaders =
     ([24050, 22797, 21046] @ u '' '') @ dec n @ (u '' '' @ [20010, 21333, 20803, 26684]) @ (if includeHeaders then HEADERS_SUFFIX else [])"

definition call_copyAll :: "grid \<Rightarrow> grid_effect list" where
  "call_copyAll g = (if canCopyAll g then [CopyAll] else [])"

definition copyCurrentSelection :: "locale_ops \<Rightarrow> bool \<Rightarrow> grid \<Rightarrow> grid \<times> grid_effect list" where
  "copyCurrentSelection L includeHeaders g =
     (close_menu g,
      if allSelected g \<and> includeHeaders \<and> normalizedSearch L g = [] \<and> g_sort g = None then call_copyAll g
      else if \<not> canCopyText g then []
      else case (discreteCopyRows L g, discreteCopySelection g) of
             (Some rows, Some s) \<Rightarrow>
               [CopyText (serializeSelectionAsTsv (g_columns g) rows s includeHeaders)
                  (copied_cells_feedback (length rows * length (g_columns g)) includeHeaders)]
           | _ \<Rightarrow>
               (case activeSelection L g of
                  None \<Rightarrow> []
                | Some s \<Rightarrow>
                    (let n = (endRow s - startRow s + 1) * (endCol s - startCol s + 1)
                     in [CopyText (serializeSelectionAsTsv (g_columns g) (displayRows L g) s includeHeaders)
                           (if n = 1 \<and> \<not> includeHeaders then ([24050, 22797, 21046, 36873, 20013, 20869, 23481])
                            else copied_cells_feedback n includeHeaders)])))"

datatype copy_format = AsCsv | AsJson | AsMarkdown | AsIn | AsNames

definition copySelectionAs :: "locale_ops \<Rightarrow> copy_format \<Rightarrow> grid \<Rightarrow> grid \<times> grid_effect list" where
  "copySelectionAs L format g =
     (close_menu g,
      if \<not> canCopyText g then []
      else
        (let rows = (case discreteCopyRows L g of Some rs \<Rightarrow> rs | None \<Rightarrow> displayRows L g)
         in case (case discreteCopySelection g of Some s \<Rightarrow> Some s | None \<Rightarrow> activeSelection L g) of
              None \<Rightarrow> []
            | Some s \<Rightarrow>
                (case format of
                   AsCsv \<Rightarrow> [CopyText (serializeSelectionAsCsv (g_columns g) rows s True) (([24050, 22797, 21046, 20026] @ u '' CSV''))]
                 | AsJson \<Rightarrow> [CopyText (serializeSelectionAsJson (g_columns g) rows s) (([24050, 22797, 21046, 20026] @ u '' JSON''))]
                 | AsMarkdown \<Rightarrow> [CopyText (serializeSelectionAsMarkdown (g_columns g) rows s) (([24050, 22797, 21046, 20026] @ u '' Markdown''))]
                 | AsIn \<Rightarrow> [CopyText (serializeSelectionAsInList (g_columns g) rows s) (([24050, 22797, 21046, 20026] @ u '' IN (...)''))]
                 | AsNames \<Rightarrow> [CopyText (serializeSelectionColumnNames (g_columns g) s) (([24050, 22797, 21046, 23383, 27573, 21517]))])))"

definition insert_rows :: "locale_ops \<Rightarrow> grid \<Rightarrow> nat list" where
  "insert_rows L g =
     (if discreteRowIndexes g \<noteq> [] then discreteRowIndexes g
      else case activeSelection L g of Some s \<Rightarrow> rowIndexesFromSelection s | None \<Rightarrow> [])"

definition copySelectionAsInsert :: "locale_ops \<Rightarrow> bool \<Rightarrow> grid \<Rightarrow> grid \<times> grid_effect list" where
  "copySelectionAsInsert L withKey g =
     (close_menu g,
      if \<not> canCopyText g \<or> g_columns g = [] \<or> displayRows L g = [] \<or> insert_rows L g = [] then []
      else
        (let sql = serializeRowsAsInsert (g_columns g) (displayRows L g)
                     \<lparr> ins_tableName = g_tableName g, includePrimaryKey = withKey, rowIndexes = Some (insert_rows L g) \<rparr>
         in if sql = [] then [CopyText [] (([27809, 26377, 21487, 22797, 21046, 30340, 21015]))]
            else [CopyText sql (([24050, 22797, 21046] @ u '' '') @ dec (length (insert_rows L g)) @ (u '' '' @ [34892] @ u '' INSERT'')
                    @ (if withKey then [] else ([65288, 19981, 21547] @ u '' id'' @ [65289])))]))"

section \<open>Events\<close>

record mouse =
  main_button :: bool
  meta_or_ctrl :: bool
  shift :: bool

definition handleCellMouseDown :: "mouse \<Rightarrow> nat \<Rightarrow> nat \<Rightarrow> grid \<Rightarrow> grid" where
  "handleCellMouseDown m r c g =
     (if \<not> main_button m then g
      else if meta_or_ctrl m then toggleDiscreteRowSelection r c (close_menu g)
      else case (shift m, anchor g) of
             (True, Some a) \<Rightarrow>
               applySelection \<lparr> startRow = fst a, startCol = snd a, endRow = r, endCol = c \<rparr> a (r, c) (close_menu g)
           | _ \<Rightarrow> applySelection (cell_rect r c) (r, c) (r, c) (close_menu g))"

definition handleCellDoubleClick :: "locale_ops \<Rightarrow> nat \<Rightarrow> nat \<Rightarrow> grid \<Rightarrow> grid \<times> grid_effect list" where
  "handleCellDoubleClick L r c g =
     (applySelection (cell_rect r c) (r, c) (r, c) g,
      if canCopyText g
      then [CopyText (serializeSelectionAsTsv (g_columns g) (displayRows L g) (cell_rect r c) False) (([24050, 22797, 21046, 36873, 20013, 20869, 23481]))]
      else [])"

definition handleHeaderMouseDown :: "locale_ops \<Rightarrow> mouse \<Rightarrow> bool \<Rightarrow> nat \<Rightarrow> grid \<Rightarrow> grid" where
  "handleHeaderMouseDown L m on_handle c g =
     (if \<not> main_button m \<or> viewRows L g = [] \<or> on_handle then g
      else if meta_or_ctrl m then
        applySelection \<lparr> startRow = 0, startCol = c, endRow = lastRowIndex L g, endCol = c \<rparr> (0, c) (0, c) (close_menu g)
      else case (shift m, anchor g) of
             (True, Some a) \<Rightarrow>
               applySelection \<lparr> startRow = 0, startCol = snd a, endRow = lastRowIndex L g, endCol = c \<rparr> (0, snd a) (0, c) (close_menu g)
           | _ \<Rightarrow> (close_menu g) \<lparr> g_sort := cycleColumnSort (g_sort g) c \<rparr>)"

definition handleResizePointerDown :: "rat \<Rightarrow> nat \<Rightarrow> grid \<Rightarrow> grid" where
  "handleResizePointerDown x c g =
     g \<lparr> g_resize := Some (c, x, case Js_Strings.at (widths g) c of Some w \<Rightarrow> w | None \<Rightarrow> DEFAULT_COLUMN_WIDTH) \<rparr>"

definition grid_pointer_move :: "rat \<Rightarrow> grid \<Rightarrow> grid" where
  "grid_pointer_move x g =
     (case g_resize g of
        None \<Rightarrow> g
      | Some (c, startX, startWidth) \<Rightarrow>
          g \<lparr> columnWidths := set_index c (drag_width MIN_COLUMN_WIDTH startWidth startX x) (map Some (widths g)) \<rparr>)"

definition handleCellContextMenu :: "rat \<Rightarrow> rat \<Rightarrow> nat \<Rightarrow> nat \<Rightarrow> grid \<Rightarrow> grid" where
  "handleCellContextMenu x y r c g =
     (if highlighted g r c then g \<lparr> focusCell := Some (r, c) \<rparr> else applySelection (cell_rect r c) (r, c) (r, c) g)
       \<lparr> contextMenu := Some (clampMenuPosition (window_size g) x y) \<rparr>"

text \<open>A key event of the grid; \<open>gk_corner\<close> is the corner of the viewport.\<close>

record result_key =
  selects_rows :: bool
  views_cell :: bool
  copies :: bool
  rk_key :: js
  rk_shift :: bool
  gk_corner :: "rat \<times> rat"

definition grid_cursor :: "locale_ops \<Rightarrow> grid \<Rightarrow> nat \<times> nat" where
  "grid_cursor L g =
     (case focusCell g of
        Some p \<Rightarrow> p
      | None \<Rightarrow>
          if discreteRowIndexes g \<noteq> [] then (last (discreteRowIndexes g), 0)
          else case activeSelection L g of Some s \<Rightarrow> (endRow s, endCol s) | None \<Rightarrow> (0, 0))"

definition arrow_target :: "locale_ops \<Rightarrow> js \<Rightarrow> grid \<Rightarrow> nat \<times> nat" where
  "arrow_target L k g =
     (let (r, c) = grid_cursor L g
      in (min (lastRowIndex L g) (if k = u ''ArrowUp'' then r - 1 else if k = u ''ArrowDown'' then r + 1 else r),
          min (lastColumnIndex g) (if k = u ''ArrowLeft'' then c - 1 else if k = u ''ArrowRight'' then c + 1 else c)))"

definition arrow_key :: "locale_ops \<Rightarrow> js \<Rightarrow> bool \<Rightarrow> grid \<Rightarrow> grid" where
  "arrow_key L k extends g =
     (let (r, c) = arrow_target L k g; base = (case anchor g of Some a \<Rightarrow> a | None \<Rightarrow> grid_cursor L g)
      in if extends then applySelection \<lparr> startRow = fst base, startCol = snd base, endRow = r, endCol = c \<rparr> base (r, c) g
         else applySelection (cell_rect r c) (r, c) (r, c) g)"

definition any_selected :: "grid \<Rightarrow> bool" where
  "any_selected g \<longleftrightarrow> allSelected g \<or> selection g \<noteq> None \<or> discreteRowIndexes g \<noteq> []"

definition handleGridKeyDown :: "locale_ops \<Rightarrow> result_key \<Rightarrow> grid \<Rightarrow> grid \<times> grid_effect list" where
  "handleGridKeyDown L k g =
     (if viewRows L g = [] \<or> cellViewer g \<noteq> None then (g, [])
      else if selects_rows k then (selectAllVisibleRows L g, [])
      else if rk_key k = u ''Escape'' then
        (if contextMenu g \<noteq> None then close_menu g else if any_selected g then deselect g else g, [])
      else if views_cell k then
        (if focusCell g \<noteq> None \<or> activeSelection L g \<noteq> None \<or> discreteRowIndexes g \<noteq> [] then openCellViewer L g else g, [])
      else if rk_shift k \<and> rk_key k = u ''F10'' then
        (let r = (case focusCell g of Some p \<Rightarrow> fst p
                  | None \<Rightarrow> (case discreteRowIndexes g of i # _ \<Rightarrow> i
                             | [] \<Rightarrow> (case activeSelection L g of Some s \<Rightarrow> startRow s | None \<Rightarrow> 0)));
             c = (case focus_or_active L g of Some p \<Rightarrow> snd p | None \<Rightarrow> 0)
         in (g \<lparr> focusCell := Some (r, c),
                 contextMenu := Some (clampMenuPosition (window_size g) (fst (gk_corner k) + 24) (snd (gk_corner k) + 48)) \<rparr>, []))
      else if copies k \<and> any_selected g then
        (if allSelected g \<and> normalizedSearch L g = [] \<and> g_sort g = None then (g, call_copyAll g)
         else copyCurrentSelection L False g)
      else if rk_key k \<in> {u ''ArrowUp'', u ''ArrowDown'', u ''ArrowLeft'', u ''ArrowRight''} then
        (arrow_key L (rk_key k) (rk_shift k) g, [])
      else (g, []))"

text \<open>
  The key anywhere in the results pane, outside text fields (\<open>SelectAllKey\<close>), and a pointer or Escape outside
  the context menu (\<open>CloseMenu\<close>).
\<close>

datatype grid_label =
  SelectAllKey | CellMouseDown mouse nat nat | CellDoubleClick nat nat | CellContextMenu rat rat nat nat
| HeaderMouseDown mouse bool nat | ResizeDown rat nat | GridPointerMove rat | GridPointerUp | GridKeyDown result_key
| MenuCopy bool | MenuCopyAs copy_format | MenuInsert bool | MenuRow | MenuColumn | MenuViewer | CloseMenu
| ViewerCopy | CloseViewer
| NewResult "QueryColumn list" "CellValue list list" js | MoreRows "CellValue list list" | Search js

definition rendered :: "locale_ops \<Rightarrow> nat \<Rightarrow> nat \<Rightarrow> grid \<Rightarrow> bool" where
  "rendered L r c g \<longleftrightarrow> r < length (viewRows L g) \<and> c < length (g_columns g)"

definition menu_item :: "grid \<Rightarrow> grid \<times> grid_effect list \<Rightarrow> grid \<times> grid_effect list" where
  "menu_item g result = (if contextMenu g = None then (g, []) else result)"

fun grid_handler :: "locale_ops \<Rightarrow> grid_label \<Rightarrow> grid \<Rightarrow> grid \<times> grid_effect list" where
  "grid_handler L SelectAllKey g = (if cellViewer g = None then selectAllVisibleRows L g else g, [])"
| "grid_handler L (CellMouseDown m r c) g = (if rendered L r c g then handleCellMouseDown m r c g else g, [])"
| "grid_handler L (CellDoubleClick r c) g = (if rendered L r c g then handleCellDoubleClick L r c g else (g, []))"
| "grid_handler L (CellContextMenu x y r c) g = (if rendered L r c g then handleCellContextMenu x y r c g else g, [])"
| "grid_handler L (HeaderMouseDown m h c) g =
     (if c < length (g_columns g) then handleHeaderMouseDown L m h c g else g, [])"
| "grid_handler L (ResizeDown x c) g = (if c < length (g_columns g) then handleResizePointerDown x c g else g, [])"
| "grid_handler L (GridPointerMove x) g = (grid_pointer_move x g, [])"
| "grid_handler L GridPointerUp g = (g \<lparr> g_resize := None \<rparr>, [])"
| "grid_handler L (GridKeyDown k) g = handleGridKeyDown L k g"
| "grid_handler L (MenuCopy h) g = menu_item g (copyCurrentSelection L h g)"
| "grid_handler L (MenuCopyAs f) g = menu_item g (copySelectionAs L f g)"
| "grid_handler L (MenuInsert b) g =
     menu_item g (if b \<or> primaryKeyColumnIndexes (g_columns g) \<noteq> [] then copySelectionAsInsert L b g else (g, []))"
| "grid_handler L MenuRow g = menu_item g (selectCurrentRow L g, [])"
| "grid_handler L MenuColumn g = menu_item g (selectCurrentColumn L g, [])"
| "grid_handler L MenuViewer g = menu_item g (openCellViewer L g, [])"
| "grid_handler L CloseMenu g = (close_menu g, [])"
| "grid_handler L ViewerCopy g =
     (g, if viewer_open g \<and> canCopyText g then [CopyText (viewerText L g) (([24050, 22797, 21046, 21333, 20803, 26684, 20869, 23481]))] else [])"
| "grid_handler L CloseViewer g = (g \<lparr> cellViewer := None \<rparr>, [])"
| "grid_handler L (NewResult columns rows tableName) g =
     (g \<lparr> g_columns := columns, g_rows := rows, g_tableName := tableName \<rparr>, [])"
| "grid_handler L (MoreRows rows) g = (g \<lparr> g_rows := g_rows g @ rows \<rparr>, [])"
| "grid_handler L (Search q) g = (g \<lparr> searchQuery := q \<rparr>, [])"

text \<open>The effects: on a new columns array, on a new search or sort, and on the number of rows.\<close>

definition columns_effect :: "grid \<Rightarrow> grid" where
  "columns_effect g =
     (close_menu (deselect g)) \<lparr> columnWidths := map (\<lambda>_. Some DEFAULT_COLUMN_WIDTH) (g_columns g), g_sort := None, cellViewer := None \<rparr>"

definition view_effect :: "grid \<Rightarrow> grid" where
  "view_effect g = close_menu (deselect g)"

definition rows_effect :: "grid \<Rightarrow> grid" where
  "rows_effect g = (if g_rows g = [] then (close_menu (deselect g)) \<lparr> cellViewer := None \<rparr> else g)"

definition new_columns :: "grid_label \<Rightarrow> bool" where
  "new_columns l = (case l of NewResult c r t \<Rightarrow> True | _ \<Rightarrow> False)"

definition grid_effects :: "grid_label \<Rightarrow> grid \<Rightarrow> grid \<Rightarrow> grid" where
  "grid_effects l old g =
     (let g1 = (if new_columns l then columns_effect g else g);
          g2 = (if searchQuery g1 \<noteq> searchQuery old \<or> g_sort g1 \<noteq> g_sort old then view_effect g1 else g1)
      in if length (g_rows g2) \<noteq> length (g_rows old) then rows_effect g2 else g2)"

definition grid_step :: "locale_ops \<Rightarrow> grid_label \<Rightarrow> grid \<Rightarrow> grid \<times> grid_effect list" where
  "grid_step L l g = (let (g1, effects) = grid_handler L l g in (grid_effects l g g1, effects))"

definition grid_run :: "locale_ops \<Rightarrow> grid \<Rightarrow> grid_label list \<Rightarrow> grid" where
  "grid_run L g ls = foldl (\<lambda>g l. fst (grid_step L l g)) g ls"

section \<open>Selections stay inside the view\<close>

lemma length_view:
  "length (view_rows (buildResultView L rows search srt)) = length (shown L rows search)"
proof (cases "needle_of L search = []")
  case True
  then show ?thesis
    by (auto simp: buildResultView_def Let_def needle_of_def shown_def rowMatchesSearch_def case_prod_unfold split: option.split)
next
  case False
  then show ?thesis
    by (auto simp: buildResultView_def Let_def needle_of_def search_fold shown_def case_prod_unfold split: option.split)
qed

lemma shown_append: "\<exists>more. shown L (rows @ xs) search = shown L rows search @ more"
proof -
  have "zip [0..<length (rows @ xs)] (rows @ xs)
      = zip [0..<length rows] rows @ zip [length rows..<length rows + length xs] xs"
    unfolding length_append upt_add_eq_append [OF le0] by (rule zip_append) simp
  then show ?thesis by (simp add: shown_def)
qed

lemma more_rows_view: "length (viewRows L g) \<le> length (viewRows L (g \<lparr> g_rows := g_rows g @ rows \<rparr>))"
  using shown_append [of L "g_rows g" rows "searchQuery g"] by (auto simp: viewRows_def length_view)

definition in_view :: "nat \<Rightarrow> nat \<Rightarrow> nat \<times> nat \<Rightarrow> bool" where
  "in_view n k p \<longleftrightarrow> fst p < n \<and> snd p \<le> k"

definition rect_in_view :: "nat \<Rightarrow> nat \<Rightarrow> ResultSelectionRect \<Rightarrow> bool" where
  "rect_in_view n k s \<longleftrightarrow> startRow s < n \<and> endRow s < n \<and> startCol s \<le> k \<and> endCol s \<le> k"

definition selection_ok :: "nat \<Rightarrow> nat \<Rightarrow> grid \<Rightarrow> bool" where
  "selection_ok n k g \<longleftrightarrow>
     (selectedRowIndexes g \<noteq> [] \<longrightarrow> selection g = None) \<and> (allSelected g \<longrightarrow> selection g \<noteq> None)
     \<and> distinct (selectedRowIndexes g) \<and> (\<forall>r \<in> set (selectedRowIndexes g). r < n)
     \<and> (\<forall>s. selection g = Some s \<longrightarrow> rect_in_view n k s)
     \<and> (\<forall>p. anchor g = Some p \<longrightarrow> in_view n k p) \<and> (\<forall>p. focusCell g = Some p \<longrightarrow> in_view n k p)"

definition grid_inv :: "locale_ops \<Rightarrow> grid \<Rightarrow> bool" where
  "grid_inv L g \<longleftrightarrow> selection_ok (length (viewRows L g)) (lastColumnIndex g) g"

lemma selection_ok_mono: "selection_ok n k g \<Longrightarrow> n \<le> n' \<Longrightarrow> selection_ok n' k g"
  unfolding selection_ok_def rect_in_view_def in_view_def by (meson less_le_trans)

lemma selection_ok_deselect [simp]: "selection_ok n k (deselect g)"
  by (simp add: selection_ok_def deselect_def)

lemma selection_ok_apply:
  "rect_in_view n k s \<Longrightarrow> in_view n k a \<Longrightarrow> in_view n k f \<Longrightarrow> selection_ok n k (applySelection s a f g)"
  by (simp add: selection_ok_def applySelection_def)

text \<open>Only the selection's own fields matter.\<close>

lemma selection_ok_frame:
  "selection_ok n k (g \<lparr> contextMenu := m \<rparr>) = selection_ok n k g"
  "selection_ok n k (g \<lparr> cellViewer := v \<rparr>) = selection_ok n k g"
  "selection_ok n k (g \<lparr> g_sort := so \<rparr>) = selection_ok n k g"
  "selection_ok n k (g \<lparr> columnWidths := ws \<rparr>) = selection_ok n k g"
  "selection_ok n k (g \<lparr> g_resize := rs \<rparr>) = selection_ok n k g"
  "selection_ok n k (g \<lparr> g_rows := rows \<rparr>) = selection_ok n k g"
  "selection_ok n k (close_menu g) = selection_ok n k g"
  by (simp_all add: selection_ok_def close_menu_def)

lemma sort_simps [simp]:
  "g_sort (deselect g) = g_sort g" "g_sort (close_menu g) = g_sort g" "g_sort (applySelection s a f g) = g_sort g"
  by (simp_all add: deselect_def close_menu_def applySelection_def)

lemma view_simps [simp]:
  "viewRows L (deselect g) = viewRows L g" "lastColumnIndex (deselect g) = lastColumnIndex g"
  "viewRows L (close_menu g) = viewRows L g" "lastColumnIndex (close_menu g) = lastColumnIndex g"
  "viewRows L (applySelection s a f g) = viewRows L g" "lastColumnIndex (applySelection s a f g) = lastColumnIndex g"
  "viewRows L (toggleDiscreteRowSelection r c g) = viewRows L g"
  "lastColumnIndex (toggleDiscreteRowSelection r c g) = lastColumnIndex g"
  by (simp_all add: viewRows_def lastColumnIndex_def deselect_def close_menu_def applySelection_def toggleDiscreteRowSelection_def)

lemma normalize_in_view: "rect_in_view n k s \<Longrightarrow> rect_in_view n k (normalizeSelection s)"
  by (auto simp: rect_in_view_def normalizeSelection_def)

lemma normalized_in_view:
  "selection_ok n k g \<Longrightarrow> normalizedSelection g = Some s \<Longrightarrow> rect_in_view n k s"
  by (auto simp: selection_ok_def normalizedSelection_def normalize_in_view)

lemma active_in_view:
  assumes "grid_inv L g" "activeSelection L g = Some s"
  shows "rect_in_view (length (viewRows L g)) (lastColumnIndex g) s"
  using assms normalized_in_view [of _ _ g]
  by (auto simp: grid_inv_def activeSelection_def whole_def lastRowIndex_def rect_in_view_def split: option.splits if_splits)

lemma focus_in_view:
  "grid_inv L g \<Longrightarrow> focus_or_active L g = Some p \<Longrightarrow> in_view (length (viewRows L g)) (lastColumnIndex g) p"
  using active_in_view [of L g]
  by (auto simp: focus_or_active_def grid_inv_def selection_ok_def in_view_def rect_in_view_def split: option.splits)

lemma discrete_in_view: "grid_inv L g \<Longrightarrow> r \<in> set (discreteRowIndexes g) \<Longrightarrow> r < length (viewRows L g)"
  by (auto simp: discreteRowIndexes_def grid_inv_def selection_ok_def)

lemma cursor_in_view:
  "grid_inv L g \<Longrightarrow> viewRows L g \<noteq> [] \<Longrightarrow> in_view (length (viewRows L g)) (lastColumnIndex g) (grid_cursor L g)"
  using active_in_view [of L g] discrete_in_view [of L g "last (discreteRowIndexes g)"]
  by (auto simp: grid_cursor_def in_view_def rect_in_view_def grid_inv_def selection_ok_def split: option.splits)

lemma toggle_ok:
  assumes "selection_ok n (lastColumnIndex g) g" "r < n" "c \<le> lastColumnIndex g"
  shows "selection_ok n (lastColumnIndex g) (toggleDiscreteRowSelection r c g)"
proof -
  have "distinct (seeded_rows g) \<and> (\<forall>i \<in> set (seeded_rows g). i < n)"
    using assms(1) normalized_in_view [OF assms(1)]
    by (auto simp: seeded_rows_def selection_ok_def rect_in_view_def split: list.splits option.splits)
  then show ?thesis
    using assms by (auto simp: selection_ok_def toggleDiscreteRowSelection_def in_view_def set_delete_def set_add_def)
qed

lemma grid_inv_apply:
  "rect_in_view (length (viewRows L g)) (lastColumnIndex g) s \<Longrightarrow> in_view (length (viewRows L g)) (lastColumnIndex g) a \<Longrightarrow>
   in_view (length (viewRows L g)) (lastColumnIndex g) f \<Longrightarrow> grid_inv L (applySelection s a f g)"
  by (simp add: grid_inv_def selection_ok_apply)

lemma grid_inv_close [simp]: "grid_inv L (close_menu g) = grid_inv L g"
  by (simp add: grid_inv_def selection_ok_frame)

lemma grid_inv_anchor: "grid_inv L g \<Longrightarrow> anchor g = Some a \<Longrightarrow> in_view (length (viewRows L g)) (lastColumnIndex g) a"
  by (simp add: grid_inv_def selection_ok_def)

lemma grid_inv_focus:
  "grid_inv L g \<Longrightarrow> in_view (length (viewRows L g)) (lastColumnIndex g) p \<Longrightarrow>
     grid_inv L (g \<lparr> focusCell := Some p \<rparr>)"
  "grid_inv L g \<Longrightarrow> in_view (length (viewRows L g)) (lastColumnIndex g) p \<Longrightarrow>
     grid_inv L (g \<lparr> focusCell := Some p, contextMenu := m \<rparr>)"
  by (simp_all add: grid_inv_def selection_ok_def viewRows_def lastColumnIndex_def)

lemma grid_inv_frame:
  "grid_inv L (g \<lparr> contextMenu := m \<rparr>) = grid_inv L g" "grid_inv L (g \<lparr> cellViewer := v \<rparr>) = grid_inv L g"
  "grid_inv L (g \<lparr> columnWidths := ws \<rparr>) = grid_inv L g" "grid_inv L (g \<lparr> g_resize := rs \<rparr>) = grid_inv L g"
  by (simp_all add: grid_inv_def selection_ok_def viewRows_def lastColumnIndex_def)

lemma grid_inv_deselect: "grid_inv L (deselect g)"
  by (simp add: grid_inv_def)

lemma select_all_inv: "grid_inv L g \<Longrightarrow> grid_inv L (selectAllVisibleRows L g)"
  by (auto simp: selectAllVisibleRows_def grid_inv_def selection_ok_def whole_def rect_in_view_def in_view_def viewRows_def
      lastRowIndex_def lastColumnIndex_def)

lemma last_in_view: "viewRows L g \<noteq> [] \<Longrightarrow> lastRowIndex L g < length (viewRows L g)"
  by (simp add: lastRowIndex_def)

lemma cell_rect_in_view: "rect_in_view n k (cell_rect r c) = (r < n \<and> c \<le> k)"
  by (auto simp: rect_in_view_def cell_rect_def)

lemma rendered_in_view: "rendered L r c g \<Longrightarrow> r < length (viewRows L g) \<and> c \<le> lastColumnIndex g"
  by (auto simp: rendered_def lastColumnIndex_def)

lemma menu_actions_inv:
  assumes "grid_inv L g"
  shows "viewRows L g \<noteq> [] \<Longrightarrow> grid_inv L (selectCurrentRow L g)" "grid_inv L (selectCurrentColumn L g)" "grid_inv L (openCellViewer L g)"
proof -
  show "viewRows L g \<noteq> [] \<Longrightarrow> grid_inv L (selectCurrentRow L g)"
    using focus_in_view [OF assms]
    by (auto simp: selectCurrentRow_def Let_def rect_in_view_def in_view_def intro!: grid_inv_apply split: option.split)
  show "grid_inv L (selectCurrentColumn L g)"
    using focus_in_view [OF assms] assms last_in_view [of L g]
    by (auto simp: selectCurrentColumn_def Let_def rect_in_view_def in_view_def intro!: grid_inv_apply split: option.split)
  show "grid_inv L (openCellViewer L g)"
    using assms by (simp add: openCellViewer_def grid_inv_frame split: option.split)
qed

lemma cycle_changes: "cycleColumnSort so c \<noteq> so"
  by (cases so) (auto simp: cycleColumnSort_def, metis ResultSortState.select_convs(2) SortDirection.distinct(1))

lemma column_in_view: "c < length (g_columns g) \<Longrightarrow> c \<le> lastColumnIndex g"
  by (simp add: lastColumnIndex_def)

lemma mouse_inv:
  assumes "grid_inv L g"
  shows "rendered L r c g \<Longrightarrow> grid_inv L (handleCellMouseDown m r c g)"
    "rendered L r c g \<Longrightarrow> grid_inv L (handleCellContextMenu x y r c g)"
    "c < length (g_columns g) \<Longrightarrow> g_sort (handleHeaderMouseDown L m h c g) = g_sort g \<Longrightarrow> grid_inv L (handleHeaderMouseDown L m h c g)"
proof -
  have "grid_inv L (toggleDiscreteRowSelection r c (close_menu g))" if "rendered L r c g"
    using toggle_ok [of "length (viewRows L g)" "close_menu g" r c] assms rendered_in_view [OF that]
    by (simp add: grid_inv_def selection_ok_frame)
  then show "rendered L r c g \<Longrightarrow> grid_inv L (handleCellMouseDown m r c g)"
    using grid_inv_anchor [OF assms] assms rendered_in_view [of L r c g]
    by (auto simp: handleCellMouseDown_def cell_rect_def in_view_def rect_in_view_def intro!: grid_inv_apply
        split: option.split bool.split)
  show "rendered L r c g \<Longrightarrow> grid_inv L (handleCellContextMenu x y r c g)"
    using assms rendered_in_view [of L r c g]
    by (auto simp: handleCellContextMenu_def cell_rect_in_view in_view_def grid_inv_frame intro!: grid_inv_apply grid_inv_focus)
  show "c < length (g_columns g) \<Longrightarrow> g_sort (handleHeaderMouseDown L m h c g) = g_sort g \<Longrightarrow>
      grid_inv L (handleHeaderMouseDown L m h c g)"
    using assms grid_inv_anchor [OF assms] last_in_view [of L g] column_in_view [of c g] cycle_changes [of "g_sort g" c]
    by (auto simp: handleHeaderMouseDown_def in_view_def rect_in_view_def intro!: grid_inv_apply
        split: option.splits bool.splits if_splits)
qed

lemma arrow_inv: "grid_inv L g \<Longrightarrow> viewRows L g \<noteq> [] \<Longrightarrow> grid_inv L (arrow_key L k ext g)"
proof -
  assume inv: "grid_inv L g" and ne: "viewRows L g \<noteq> []"
  have base: "in_view (length (viewRows L g)) (lastColumnIndex g) (case anchor g of Some a \<Rightarrow> a | None \<Rightarrow> grid_cursor L g)"
    using grid_inv_anchor [OF inv] cursor_in_view [OF inv ne] by (simp split: option.split)
  have "in_view (length (viewRows L g)) (lastColumnIndex g) (arrow_target L k g)"
    using last_in_view [OF ne] by (auto simp: arrow_target_def in_view_def case_prod_unfold Let_def)
  with base show ?thesis
    unfolding arrow_key_def case_prod_unfold Let_def
    by (auto simp: cell_rect_def in_view_def rect_in_view_def intro!: grid_inv_apply)
qed

lemma copy_state [simp]:
  "fst (copyCurrentSelection L h g) = close_menu g" "fst (copySelectionAs L f g) = close_menu g"
  "fst (copySelectionAsInsert L b g) = close_menu g"
  by (simp_all add: copyCurrentSelection_def copySelectionAs_def copySelectionAsInsert_def)

lemma f10_in_view:
  assumes "grid_inv L g" "viewRows L g \<noteq> []"
  shows "in_view (length (viewRows L g)) (lastColumnIndex g)
    (case focusCell g of Some p \<Rightarrow> fst p
     | None \<Rightarrow> (case discreteRowIndexes g of i # _ \<Rightarrow> i
                | [] \<Rightarrow> (case activeSelection L g of Some s \<Rightarrow> startRow s | None \<Rightarrow> 0)),
     case focus_or_active L g of Some p \<Rightarrow> snd p | None \<Rightarrow> 0)"
proof -
  have "discreteRowIndexes g = i # is \<Longrightarrow> i < length (viewRows L g)" for i "is"
    using discrete_in_view [OF assms(1)] by simp
  then show ?thesis
    using assms focus_in_view [OF assms(1)] active_in_view [OF assms(1)]
    by (auto simp: in_view_def rect_in_view_def grid_inv_def selection_ok_def split: option.split list.split)
qed

lemma key_inv: "grid_inv L g \<Longrightarrow> grid_inv L (fst (handleGridKeyDown L k g))"
  using f10_in_view [of L g] menu_actions_inv(3) [of L g] arrow_inv [of L g "rk_key k" "rk_shift k"] select_all_inv [of L g]
  unfolding handleGridKeyDown_def Let_def
  by (simp add: grid_inv_focus grid_inv_deselect)

text \<open>The menu is open over rendered cells only.\<close>

definition menu_inv :: "locale_ops \<Rightarrow> grid \<Rightarrow> bool" where
  "menu_inv L g \<longleftrightarrow> (contextMenu g \<noteq> None \<longrightarrow> viewRows L g \<noteq> [])"

lemma grid_handler_inv:
  assumes "grid_inv L g" "menu_inv L g" "\<not> new_columns l" "g_sort (fst (grid_handler L l g)) = g_sort g" "searchQuery (fst (grid_handler L l g)) = searchQuery g"
  shows "grid_inv L (fst (grid_handler L l g))"
proof (cases l)
  case SelectAllKey
  with assms show ?thesis by (simp add: select_all_inv)
next
  case (CellMouseDown m r c)
  with assms show ?thesis by (simp add: mouse_inv(1))
next
  case (CellDoubleClick r c)
  with assms rendered_in_view [of L r c g] show ?thesis
    by (auto simp: handleCellDoubleClick_def cell_rect_in_view in_view_def intro!: grid_inv_apply)
next
  case (CellContextMenu x y r c)
  with assms show ?thesis by (simp add: mouse_inv(2))
next
  case (HeaderMouseDown m h c)
  with assms show ?thesis by (auto simp: mouse_inv(3) split: if_splits)
next
  case (ResizeDown x c)
  with assms show ?thesis by (simp add: handleResizePointerDown_def grid_inv_frame)
next
  case (GridPointerMove x)
  with assms show ?thesis by (simp add: grid_pointer_move_def grid_inv_frame split: option.split)
next
  case GridPointerUp
  with assms show ?thesis by (simp add: grid_inv_frame)
next
  case (GridKeyDown k)
  with assms show ?thesis by (simp add: key_inv)
next
  case MenuRow
  show ?thesis
  proof (cases "viewRows L g = []")
    case True
    with MenuRow assms show ?thesis by (simp add: menu_inv_def menu_item_def)
  next
    case False
    with MenuRow assms show ?thesis by (simp add: menu_item_def menu_actions_inv(1))
  qed
next
  case MenuColumn
  with assms show ?thesis by (simp add: menu_item_def menu_actions_inv)
next
  case MenuViewer
  with assms show ?thesis by (simp add: menu_item_def menu_actions_inv)
next
  case (MoreRows rows)
  have "selection_ok (length (viewRows L g)) (lastColumnIndex g) (g \<lparr> g_rows := g_rows g @ rows \<rparr>)"
    using assms(1) by (simp add: grid_inv_def selection_ok_frame)
  from selection_ok_mono [OF this more_rows_view] MoreRows show ?thesis
    by (simp add: grid_inv_def lastColumnIndex_def)
next
  case (Search q)
  with assms show ?thesis by (simp add: grid_inv_def selection_ok_def)
qed (use assms in \<open>simp_all add: menu_item_def new_columns_def grid_inv_frame\<close>)

lemma menu_frame [simp]:
  "contextMenu (close_menu g) = None" "contextMenu (applySelection s a f g) = contextMenu g"
  "contextMenu (toggleDiscreteRowSelection r c g) = contextMenu g" "contextMenu (deselect g) = contextMenu g"
  by (simp_all add: close_menu_def applySelection_def toggleDiscreteRowSelection_def deselect_def)

lemma menu_inv_closed [simp]: "contextMenu g = None \<Longrightarrow> menu_inv L g"
  by (simp add: menu_inv_def)

lemma menu_inv_same: "menu_inv L g \<Longrightarrow> contextMenu g' = contextMenu g \<Longrightarrow> viewRows L g' = viewRows L g \<Longrightarrow> menu_inv L g'"
  by (simp add: menu_inv_def)

lemma select_all_same:
  "contextMenu (selectAllVisibleRows L g) = contextMenu g" "viewRows L (selectAllVisibleRows L g) = viewRows L g"
  by (simp_all add: selectAllVisibleRows_def viewRows_def)

lemma focus_same:
  "viewRows L (g \<lparr> focusCell := f, contextMenu := m \<rparr>) = viewRows L g" "viewRows L (g \<lparr> cellViewer := v \<rparr>) = viewRows L g"
  "viewRows L (g \<lparr> focusCell := f \<rparr>) = viewRows L g" "viewRows L (g \<lparr> contextMenu := m \<rparr>) = viewRows L g"
  "viewRows L (g \<lparr> columnWidths := ws \<rparr>) = viewRows L g" "viewRows L (g \<lparr> g_resize := rs \<rparr>) = viewRows L g"
  by (simp_all add: viewRows_def)

lemma key_menu: "menu_inv L g \<Longrightarrow> menu_inv L (fst (handleGridKeyDown L k g))"
proof (cases "viewRows L g = [] \<or> cellViewer g \<noteq> None")
  case True
  then show "menu_inv L g \<Longrightarrow> ?thesis" by (simp only: handleGridKeyDown_def if_True fst_conv)
next
  case False
  then have "viewRows L (fst (handleGridKeyDown L k g)) = viewRows L g"
    unfolding handleGridKeyDown_def Let_def
    by (simp add: select_all_same focus_same openCellViewer_def arrow_key_def case_prod_unfold Let_def split: option.split)
  with False show ?thesis by (simp add: menu_inv_def)
qed

lemma menu_actions_menu [simp]:
  "contextMenu (selectCurrentRow L g) = None" "contextMenu (selectCurrentColumn L g) = None" "contextMenu (openCellViewer L g) = None"
  by (simp_all add: selectCurrentRow_def selectCurrentColumn_def openCellViewer_def Let_def split: option.split)

lemma handler_menu:
  assumes "menu_inv L g" "\<not> new_columns l" "g_sort (fst (grid_handler L l g)) = g_sort g" "searchQuery (fst (grid_handler L l g)) = searchQuery g"
  shows "menu_inv L (fst (grid_handler L l g))"
proof (cases l)
  case SelectAllKey
  with assms show ?thesis by (simp add: menu_inv_same select_all_same)
next
  case (CellMouseDown m r c)
  with assms show ?thesis by (simp add: menu_inv_def handleCellMouseDown_def split: option.split bool.split)
next
  case (CellDoubleClick r c)
  with assms show ?thesis by (simp add: menu_inv_def handleCellDoubleClick_def)
next
  case (CellContextMenu x y r c)
  with assms show ?thesis by (auto simp: menu_inv_def handleCellContextMenu_def focus_same rendered_def)
next
  case (HeaderMouseDown m h c)
  with assms cycle_changes [of "g_sort g" c] show ?thesis
    by (auto simp: menu_inv_def handleHeaderMouseDown_def split: option.splits bool.splits if_splits)
next
  case (GridKeyDown k)
  with assms show ?thesis by (simp add: key_menu)
next
  case (MoreRows rows)
  with assms more_rows_view [of L g rows] show ?thesis by (auto simp: menu_inv_def)
next
  case (GridPointerMove x)
  with assms show ?thesis by (simp add: menu_inv_def grid_pointer_move_def focus_same split: option.split)
next
  case (Search q)
  with assms show ?thesis by (simp add: menu_inv_def)
qed (use assms in \<open>simp_all add: menu_item_def new_columns_def handleResizePointerDown_def menu_inv_def focus_same\<close>)

lemma grid_inv_effects:
  "grid_inv L (columns_effect g)" "grid_inv L (view_effect g)" "grid_inv L g \<Longrightarrow> grid_inv L (rows_effect g)"
  "contextMenu (columns_effect g) = None" "contextMenu (view_effect g) = None" "menu_inv L g \<Longrightarrow> menu_inv L (rows_effect g)"
proof -
  show "grid_inv L (columns_effect g)"
    by (simp add: columns_effect_def grid_inv_def selection_ok_def) (simp add: close_menu_def deselect_def)
  show "grid_inv L (view_effect g)" "grid_inv L g \<Longrightarrow> grid_inv L (rows_effect g)"
    by (simp_all add: view_effect_def rows_effect_def grid_inv_deselect grid_inv_frame)
  show "contextMenu (columns_effect g) = None" "contextMenu (view_effect g) = None" "menu_inv L g \<Longrightarrow> menu_inv L (rows_effect g)"
    by (simp_all add: columns_effect_def view_effect_def rows_effect_def)
qed

lemma grid_step_inv:
  assumes "grid_inv L g" "menu_inv L g"
  shows "grid_inv L (fst (grid_step L l g)) \<and> menu_inv L (fst (grid_step L l g))"
proof -
  define g1 where "g1 = fst (grid_handler L l g)"
  define g2 where "g2 = (if new_columns l then columns_effect g1 else g1)"
  define g3 where "g3 = (if searchQuery g2 \<noteq> searchQuery g \<or> g_sort g2 \<noteq> g_sort g then view_effect g2 else g2)"
  have "grid_inv L g3 \<and> menu_inv L g3"
  proof (cases "new_columns l")
    case True
    then show ?thesis by (simp add: g3_def g2_def grid_inv_effects)
  next
    case False
    show ?thesis
      using grid_handler_inv [OF assms False] handler_menu [OF assms(2) False] False
      by (simp add: g3_def g2_def g1_def grid_inv_effects)
  qed
  moreover have "fst (grid_step L l g) = (if length (g_rows g3) \<noteq> length (g_rows g) then rows_effect g3 else g3)"
    by (simp add: grid_step_def grid_effects_def case_prod_unfold Let_def g1_def g2_def g3_def)
  ultimately show ?thesis by (simp add: grid_inv_effects)
qed

lemma grid_run_inv: "grid_inv L (grid_run L (init_grid cols rows q t ca ct w) ls)"
proof -
  have "grid_inv L (grid_run L (init_grid cols rows q t ca ct w) ls) \<and> menu_inv L (grid_run L (init_grid cols rows q t ca ct w) ls)"
  proof (induction ls rule: rev_induct)
    case (snoc l ls)
    then show ?case using grid_step_inv by (simp add: grid_run_def)
  qed (simp add: grid_run_def init_grid_def grid_inv_def selection_ok_def)
  then show ?thesis by simp
qed

section \<open>What a copy contains\<close>

text \<open>The rows and columns that show a highlighted cell, from the top and from the left.\<close>

definition highlighted_rows :: "locale_ops \<Rightarrow> grid \<Rightarrow> nat list" where
  "highlighted_rows L g = filter (\<lambda>r. \<exists>c < length (g_columns g). highlighted g r c) [0..<length (viewRows L g)]"

definition highlighted_columns :: "grid \<Rightarrow> nat \<Rightarrow> nat list" where
  "highlighted_columns g r = filter (highlighted g r) [0..<length (g_columns g)]"

lemma filter_between: "b < n \<Longrightarrow> filter (\<lambda>i. a \<le> i \<and> i \<le> b) [0..<n] = [a..<Suc b]"
proof -
  assume "b < n"
  then have "[0..<n] = [0..<Suc b] @ [Suc b..<n]"
    by (metis Suc_leI le0 upt_add_eq_append le_add_diff_inverse)
  moreover have "filter (\<lambda>i. a \<le> i \<and> i \<le> b) [Suc b..<n] = []" by (auto simp: filter_empty_conv)
  moreover have "filter (\<lambda>i. a \<le> i \<and> i \<le> b) [0..<Suc b] = [a..<Suc b]"
  proof (cases "a \<le> Suc b")
    case True
    then have "[0..<Suc b] = [0..<a] @ [a..<Suc b]"
      by (metis le0 upt_add_eq_append le_add_diff_inverse)
    moreover have "filter (\<lambda>i. a \<le> i \<and> i \<le> b) [0..<a] = []" by (auto simp: filter_empty_conv)
    moreover have "filter (\<lambda>i. a \<le> i \<and> i \<le> b) [a..<Suc b] = [a..<Suc b]" by (auto simp: filter_id_conv)
    ultimately show ?thesis by (simp only: filter_append append_Nil)
  qed (auto simp: filter_empty_conv)
  ultimately show ?thesis by (simp only: filter_append append_Nil2)
qed

lemma filter_members: "distinct xs \<Longrightarrow> \<forall>x \<in> set xs. x < n \<Longrightarrow> filter (\<lambda>i. i \<in> set xs) [0..<n] = sort xs"
  by (rule sorted_distinct_set_unique) (auto simp: sorted_wrt_filter)

definition selection_text :: "locale_ops \<Rightarrow> grid \<Rightarrow> js" where
  "selection_text L g = join [NEWLINE] (map (\<lambda>r. join [TAB]
     (map (\<lambda>c. tabless (cellValueToPlainText (cell_at (displayRows L g) r c))) (highlighted_columns g r))) (highlighted_rows L g))"

text \<open>Either rows were toggled one by one, or the highlighted cells are those of the active rectangle.\<close>

lemma discrete_highlights:
  assumes inv: "grid_inv L g" and cols: "g_columns g \<noteq> []" and d: "discreteRowIndexes g \<noteq> []"
  shows "highlighted_rows L g = discreteRowIndexes g"
    "r \<in> set (discreteRowIndexes g) \<Longrightarrow> highlighted_columns g r = [0..<length (g_columns g)]"
proof -
  have sel: "normalizedSelection g = None" "\<not> allSelected g"
    using inv d by (auto simp: grid_inv_def selection_ok_def discreteRowIndexes_def normalizedSelection_def)
  then have h: "highlighted g i c \<longleftrightarrow> i \<in> set (selectedRowIndexes g)" for i c
    by (simp add: highlighted_def isCellSelected_def isCellInSelection_def)
  have "\<exists>c. c < length (g_columns g)" using cols by (cases "g_columns g") auto
  then show "highlighted_rows L g = discreteRowIndexes g"
    using inv filter_members [of "selectedRowIndexes g" "length (viewRows L g)"]
    by (simp add: highlighted_rows_def h discreteRowIndexes_def grid_inv_def selection_ok_def)
  show "r \<in> set (discreteRowIndexes g) \<Longrightarrow> highlighted_columns g r = [0..<length (g_columns g)]"
    by (simp add: highlighted_columns_def h discreteRowIndexes_def filter_id_conv)
qed

lemma active_highlights:
  assumes inv: "grid_inv L g" and cols: "g_columns g \<noteq> []" and d: "discreteRowIndexes g = []"
    and all: "\<not> allSelected g \<or> selection g = Some (whole L g)" and s: "activeSelection L g = Some s"
  shows "highlighted_rows L g = sel_rows s" "r \<in> set (sel_rows s) \<Longrightarrow> highlighted_columns g r = sel_cols s"
proof -
  have none: "selectedRowIndexes g = []"
    using arg_cong [OF d [unfolded discreteRowIndexes_def], of set] by simp
  have norm: "normalizedSelection g = Some s"
    using s inv by (auto simp: activeSelection_def normalizedSelection_def grid_inv_def selection_ok_def split: option.splits if_splits)
  then have ns: "normalizeSelection s = s" "startRow s \<le> endRow s" "startCol s \<le> endCol s"
    by (auto simp: normalizedSelection_def normalizeSelection_def)
  have view: "endRow s < length (viewRows L g)" "endCol s < length (g_columns g)"
    using active_in_view [OF inv s] cols by (auto simp: rect_in_view_def lastColumnIndex_def Suc_le_eq)
      (metis Suc_pred le_imp_less_Suc length_greater_0_conv)
  have h: "highlighted g i c \<longleftrightarrow> startRow s \<le> i \<and> i \<le> endRow s \<and> startCol s \<le> c \<and> c \<le> endCol s"
    if "i < length (viewRows L g)" "c < length (g_columns g)" for i c
  proof (cases "allSelected g")
    case False
    then show ?thesis by (simp add: highlighted_def isCellSelected_def isCellInSelection_def norm none)
  next
    case True
    then have "s = whole L g"
      using all norm by (auto simp: normalizedSelection_def normalizeSelection_def whole_def)
    then show ?thesis
      using True that by (auto simp: highlighted_def whole_def lastRowIndex_def lastColumnIndex_def)
  qed
  have rows: "(\<exists>c < length (g_columns g). highlighted g i c) \<longleftrightarrow> startRow s \<le> i \<and> i \<le> endRow s"
    if "i < length (viewRows L g)" for i
    using h [OF that] ns view by (metis le_refl le_less_trans)
  show "highlighted_rows L g = sel_rows s"
    unfolding highlighted_rows_def sel_rows_def ns(1)
    by (subst filter_cong [OF refl rows]) (simp_all add: filter_between [OF view(1)])
  assume r: "r \<in> set (sel_rows s)"
  then have r': "startRow s \<le> r" "r \<le> endRow s" "r < length (viewRows L g)"
    using view(1) by (auto simp: sel_rows_def ns(1))
  then show "highlighted_columns g r = sel_cols s"
    unfolding highlighted_columns_def sel_cols_def ns(1)
    by (subst filter_cong [OF refl h [OF r'(3)]]) (simp_all add: filter_between [OF view(2)])
qed

lemma rect_text:
  assumes "\<And>r. r \<in> set (sel_rows s) \<Longrightarrow> highlighted_columns g r = sel_cols s" "highlighted_rows L g = sel_rows s"
  shows "serializeSelectionAsTsv (g_columns g) (displayRows L g) s False = selection_text L g"
  unfolding serializeSelectionAsTsv_def selection_text_def
  using assms by (auto intro!: arg_cong [where f = "join [NEWLINE]"] map_cong)

lemma discrete_text:
  assumes "grid_inv L g" "g_columns g \<noteq> []" "discreteCopyRows L g = Some rows" "discreteCopySelection g = Some s"
  shows "serializeSelectionAsTsv (g_columns g) rows s False = selection_text L g"
proof -
  let ?d = "discreteRowIndexes g"
  have d: "?d \<noteq> []" using assms(3) by (auto simp: discreteCopyRows_def)
  have sel: "sel_rows s = [0..<length ?d]" "sel_cols s = [0..<length (g_columns g)]"
    using assms d
    by (auto simp: discreteCopySelection_def sel_rows_def sel_cols_def normalizeSelection_def lastColumnIndex_def
        simp del: upt_Suc)
  have cell: "cell_at rows i c = cell_at (displayRows L g) (?d ! i) c" if "i < length ?d" for i c
    using assms(3) d that by (auto simp: discreteCopyRows_def cell_at_def at_def split: option.split if_splits)
  let ?f = "\<lambda>r. join [TAB] (map (\<lambda>c. tabless (cellValueToPlainText (cell_at (displayRows L g) r c))) [0..<length (g_columns g)])"
  have "map (\<lambda>i. join [TAB] (map (\<lambda>c. tabless (cellValueToPlainText (cell_at rows i c))) [0..<length (g_columns g)])) [0..<length ?d]
      = map (\<lambda>i. ?f (?d ! i)) [0..<length ?d]"
    by (simp add: cell)
  also have "\<dots> = map ?f ?d"
    using map_nth [of ?d] by (metis (no_types, lifting) map_map comp_def map_eq_conv)
  also have "\<dots> = map (\<lambda>r. join [TAB] (map (\<lambda>c. tabless (cellValueToPlainText (cell_at (displayRows L g) r c)))
      (highlighted_columns g r))) ?d"
    using discrete_highlights(2) [OF assms(1,2) d] by simp
  finally show ?thesis
    by (simp add: serializeSelectionAsTsv_def selection_text_def sel discrete_highlights(1) [OF assms(1,2) d])
qed

text \<open>C12: Copying the selection copies what is highlighted: whatever clicks, drags, keys, searches,
  sorts and arriving rows led to the state of the grid, when the text may be copied, there is a column and some cell is selected,
  the copied text has one line per row with a highlighted cell, from the top, with exactly the highlighted cells of that row in
  column order, and the INSERT command takes exactly these rows. The one exception is a select-all after which more rows arrived:
  then the selection is no longer the whole grid (\<open>select_all_misses_late_rows\<close>).\<close>

theorem copies_what_is_highlighted:
  assumes "g = grid_run L (init_grid cols rows q t ca ct w) ls"
    and "canCopyText g" "g_columns g \<noteq> []" "any_selected g" "\<not> allSelected g \<or> selection g = Some (whole L g)"
  shows "(\<exists>feedback. snd (copyCurrentSelection L False g) = [CopyText (selection_text L g) feedback])
    \<and> insert_rows L g = highlighted_rows L g"
proof (cases "discreteRowIndexes g = []")
  case False
  then obtain rs s where "discreteCopyRows L g = Some rs" "discreteCopySelection g = Some s"
    by (simp add: discreteCopyRows_def discreteCopySelection_def)
  with False discrete_text [OF grid_run_inv [of L cols rows q t ca ct w ls, folded assms(1)] assms(3)] assms(2)
    discrete_highlights(1) [OF grid_run_inv [of L cols rows q t ca ct w ls, folded assms(1)] assms(3) False]
  show ?thesis by (simp add: copyCurrentSelection_def insert_rows_def)
next
  case True
  note inv = grid_run_inv [of L cols rows q t ca ct w ls, folded assms(1)]
  obtain s where s: "activeSelection L g = Some s"
    using assms(4) True inv
    by (auto simp: any_selected_def activeSelection_def normalizedSelection_def grid_inv_def selection_ok_def split: option.split)
  from active_highlights [OF inv assms(3) True assms(5) s] rect_text [of s g L]
  have "serializeSelectionAsTsv (g_columns g) (displayRows L g) s False = selection_text L g" "highlighted_rows L g = sel_rows s"
    by blast+
  with True s assms(2) show ?thesis
    by (simp add: copyCurrentSelection_def insert_rows_def discreteCopyRows_def Let_def rowIndexesFromSelection_def sel_rows_def
        del: upt_Suc)
qed

definition plain_host :: locale_ops where
  "plain_host = \<lparr> collate = (\<lambda>a b. 0), locale_lower = to_lower \<rparr>"

definition two_rows :: grid where
  "two_rows = init_grid [\<lparr> qc_name = u ''a'', databaseType = u ''INT'', qc_nullable = None \<rparr>] [[CInteger [49]], [CInteger [50]]] [] (u ''t'')
     True True (800, 600)"

lemma copies_what_is_highlighted_witness:
  "\<exists>feedback. snd (copyCurrentSelection plain_host False (grid_run plain_host two_rows
       [CellMouseDown \<lparr> main_button = True, meta_or_ctrl = False, shift = False \<rparr> 1 0]))
     = [CopyText (selection_text plain_host (grid_run plain_host two_rows
         [CellMouseDown \<lparr> main_button = True, meta_or_ctrl = False, shift = False \<rparr> 1 0])) feedback]"
proof -
  let ?ls = "[CellMouseDown \<lparr> main_button = True, meta_or_ctrl = False, shift = False \<rparr> 1 0]"
  let ?g = "grid_run plain_host two_rows ?ls"
  have "length (viewRows plain_host two_rows) = 2"
    by (simp add: two_rows_def init_grid_def viewRows_def length_view shown_def needle_of_def rowMatchesSearch_def plain_host_def
        js_eval)
  then have g: "?g = applySelection (cell_rect 1 0) (1, 0) (1, 0) (close_menu two_rows)"
    by (simp add: grid_run_def grid_step_def rendered_def handleCellMouseDown_def grid_effects_def new_columns_def Let_def two_rows_def
        init_grid_def applySelection_def close_menu_def)
  have "canCopyText ?g" "g_columns ?g \<noteq> []" "any_selected ?g" "\<not> allSelected ?g"
    unfolding g by (simp_all add: applySelection_def close_menu_def any_selected_def two_rows_def init_grid_def)
  with copies_what_is_highlighted [OF refl, of plain_host] show ?thesis
    unfolding two_rows_def by blast
qed

text \<open>
  Select-all holds on to the rectangle of that moment: rows that arrive afterwards are painted as selected but are not
  in what the menu copies.
\<close>

lemma select_all_misses_late_rows:
  assumes "viewRows L g \<noteq> []" "cellViewer g = None"
  shows "allSelected (grid_run L g [SelectAllKey, MoreRows rows]) \<and> highlighted (grid_run L g [SelectAllKey, MoreRows rows]) r c
    \<and> activeSelection L (grid_run L g [SelectAllKey, MoreRows rows]) = Some (whole L g)"
proof -
  have "length (viewRows L g) = 0" if "g_rows g = []"
    using that by (simp add: viewRows_def length_view shown_def)
  then have "g_rows g \<noteq> []" using assms(1) by auto
  let ?g = "selectAllVisibleRows L g"
  have s: "searchQuery ?g = searchQuery g" "g_sort ?g = g_sort g" "g_rows ?g = g_rows g" "allSelected ?g" "selection ?g = Some (whole L g)"
    using assms by (simp_all add: selectAllVisibleRows_def)
  have "fst (grid_step L SelectAllKey g) = ?g"
    using assms s by (simp add: grid_step_def grid_effects_def new_columns_def)
  moreover have "fst (grid_step L (MoreRows rows) ?g) = ?g \<lparr> g_rows := g_rows g @ rows \<rparr>"
    using s \<open>g_rows g \<noteq> []\<close> by (simp add: grid_step_def grid_effects_def new_columns_def rows_effect_def Let_def)
  ultimately have "grid_run L g [SelectAllKey, MoreRows rows] = ?g \<lparr> g_rows := g_rows g @ rows \<rparr>"
    by (simp add: grid_run_def)
  moreover have "normalizeSelection (whole L g) = whole L g"
    by (simp add: normalizeSelection_def whole_def)
  ultimately show ?thesis
    using s by (simp add: highlighted_def activeSelection_def normalizedSelection_def)
qed

section \<open>Widths\<close>

lemma set_widths: "w \<in> set (widths g) \<longleftrightarrow> (\<exists>i < length (g_columns g). w = (case slot (columnWidths g) i of Some v \<Rightarrow> v | None \<Rightarrow> DEFAULT_COLUMN_WIDTH))"
  by (auto simp: widths_def)

definition widths_inv :: "grid \<Rightarrow> bool" where
  "widths_inv g \<longleftrightarrow> (\<forall>i w. slot (columnWidths g) i = Some w \<longrightarrow> MIN_COLUMN_WIDTH \<le> w)"

lemma widths_ge: "widths_inv g \<Longrightarrow> w \<in> set (widths g) \<Longrightarrow> MIN_COLUMN_WIDTH \<le> w"
  by (auto simp: set_widths widths_inv_def MIN_COLUMN_WIDTH_def DEFAULT_COLUMN_WIDTH_def split: option.split)

lemma columnWidths_frame [simp]:
  "columnWidths (close_menu g) = columnWidths g" "columnWidths (deselect g) = columnWidths g"
  "columnWidths (applySelection s a f g) = columnWidths g" "columnWidths (toggleDiscreteRowSelection r c g) = columnWidths g"
  "columnWidths (selectAllVisibleRows L g) = columnWidths g" "columnWidths (openCellViewer L g) = columnWidths g"
  "columnWidths (selectCurrentRow L g) = columnWidths g" "columnWidths (selectCurrentColumn L g) = columnWidths g"
  "columnWidths (handleCellMouseDown m r c g) = columnWidths g" "columnWidths (handleHeaderMouseDown L m h c g) = columnWidths g"
  by (simp_all add: close_menu_def deselect_def applySelection_def toggleDiscreteRowSelection_def selectAllVisibleRows_def
      openCellViewer_def selectCurrentRow_def selectCurrentColumn_def handleCellMouseDown_def handleHeaderMouseDown_def Let_def
      split: option.split bool.split)

lemma columnWidths_key [simp]: "columnWidths (fst (handleGridKeyDown L k g)) = columnWidths g"
  unfolding handleGridKeyDown_def Let_def by (simp add: arrow_key_def case_prod_unfold Let_def)

lemma pointer_move_widths: "widths_inv g \<Longrightarrow> widths_inv (grid_pointer_move x g)"
proof -
  assume inv: "widths_inv g"
  have "slot (map Some (widths g)) i = Some w \<Longrightarrow> MIN_COLUMN_WIDTH \<le> w" for i w
    using widths_ge [OF inv, of w] by (auto simp: slot_def at_def split: option.splits if_splits)
  then show ?thesis
    using inv by (auto simp: grid_pointer_move_def widths_inv_def drag_width_ge split: option.split)
qed

lemma handler_widths: "widths_inv g \<Longrightarrow> widths_inv (fst (grid_handler L l g))"
proof (cases l)
  case (GridPointerMove x)
  then show "widths_inv g \<Longrightarrow> ?thesis" by (simp add: pointer_move_widths)
qed (simp_all add: widths_inv_def menu_item_def handleResizePointerDown_def handleCellDoubleClick_def handleCellContextMenu_def)

text \<open>No drag, not even one that outlives its columns, makes a column narrower than the least width.\<close>

lemma grid_widths_bounded:
  "w \<in> set (widths (grid_run L (init_grid cols rows q t ca ct win) ls)) \<Longrightarrow> MIN_COLUMN_WIDTH \<le> w"
proof (rule widths_ge)
  have init: "slot (map (\<lambda>_. Some DEFAULT_COLUMN_WIDTH) cs) i = Some w \<Longrightarrow> MIN_COLUMN_WIDTH \<le> w" for cs :: "QueryColumn list" and i w
    by (auto simp: slot_def at_def MIN_COLUMN_WIDTH_def DEFAULT_COLUMN_WIDTH_def split: option.splits if_splits)
  show "widths_inv (grid_run L (init_grid cols rows q t ca ct win) ls)"
  proof (induction ls rule: rev_induct)
    case (snoc l ls)
    let ?g = "grid_run L (init_grid cols rows q t ca ct win) ls"
    have "widths_inv (grid_effects l ?g g)" if "widths_inv g" for g
      using that init by (auto simp: grid_effects_def Let_def widths_inv_def columns_effect_def view_effect_def rows_effect_def)
    with handler_widths [OF snoc] show ?case
      by (simp add: grid_run_def grid_step_def case_prod_unfold Let_def)
  qed (use init in \<open>simp add: grid_run_def init_grid_def widths_inv_def\<close>)
qed

end
