(* ===== verification/Binlog_View.thy ===== *)
theory Binlog_View
  imports Mutation_Values App_Error Js_Sort
begin

text \<open>
  What the binlog workspace shows (\<open>features/binlog/BinlogWorkspace.tsx\<close>): the data the backend returns, the
  formatting helpers, and the texts of the summary, of a transaction card and of its row images.

  Dates are the host's: \<open>date_parse\<close> is the time value of \<open>new Date(text)\<close> and \<open>date_text\<close> what
  \<open>toLocaleString("zh-CN")\<close> makes of a valid time value. A row image is the list of its properties in the order
  \<open>Object.keys\<close> has them; columns named like a property of \<open>Object.prototype\<close> are not modelled.
\<close>

section \<open>Data\<close>

datatype BinlogOperation = OpInsert | OpUpdate | OpDelete | OpDdl

datatype transaction_status = Committed | RolledBack | Incomplete | UnknownStatus

datatype analysis_status = AComplete | AWarning | AError | APartial

datatype BinlogCellValue =
  NotLogged | CellNull | CellStored CellValue | UnixTimestamp js | DecodeError js | PartialCell CellValue "js option"

type_synonym BinlogRowImage = "(js \<times> BinlogCellValue) list"

record BinlogTableChange =
  ch_database :: js
  ch_table :: js
  ch_operation :: BinlogOperation
  ch_rowCount :: nat
  ch_rows :: "(BinlogRowImage option \<times> BinlogRowImage option) list"
  ch_sql :: "js option"

record BinlogTable =
  bt_database :: js
  bt_table :: js
  bt_rowChangeCount :: "nat option"

record BinlogTransactionSummary =
  tx_id :: js
  tx_sequence :: nat
  tx_timestamp :: js
  tx_gtid :: "js option"
  tx_xid :: "js option"
  tx_serverId :: nat
  tx_fileName :: js
  tx_startPosition :: nat
  tx_endPosition :: nat
  tx_status :: transaction_status
  tx_rowChangeCount :: nat
  tx_tables :: "BinlogTable list"

record BinlogTransaction = BinlogTransactionSummary +
  tx_changes :: "BinlogTableChange list"

datatype diagnostic_severity = SevInfo | SevWarning | SevError

record BinlogDiagnostic =
  dg_code :: js
  dg_message :: js
  dg_severity :: diagnostic_severity
  dg_fileName :: "js option"
  dg_position :: "nat option"

record BinlogSummary =
  bs_files :: "js list"
  bs_status :: analysis_status
  bs_firstEventAt :: "js option"
  bs_lastEventAt :: "js option"
  bs_transactionCount :: nat
  bs_eventCount :: nat
  bs_rowChangeCount :: nat
  bs_tables :: "BinlogTable list"
  bs_diagnostics :: "BinlogDiagnostic list"

record BinlogImportProgress =
  bytesRead :: nat
  totalBytes :: nat
  filesCompleted :: nat
  fileCount :: nat
  currentFile :: "js option"
  transactionCount :: nat
  eventCount :: nat

record ResetSqlFeedback =
  fb_message :: js
  fb_tone :: nat
  fb_details :: "js option"

text \<open>The tones of a feedback: success, warning, error.\<close>

abbreviation TONE_SUCCESS :: nat where "TONE_SUCCESS \<equiv> 0"
abbreviation TONE_WARNING :: nat where "TONE_WARNING \<equiv> 1"
abbreviation TONE_ERROR :: nat where "TONE_ERROR \<equiv> 2"

record date_host =
  date_parse :: "js \<Rightarrow> js_num"
  date_text :: "js_num \<Rightarrow> js"

definition PAGE_SIZE :: nat where "PAGE_SIZE = 50"

definition EMPTY_PROGRESS :: BinlogImportProgress where
  "EMPTY_PROGRESS =
     \<lparr> bytesRead = 0, totalBytes = 0, filesCompleted = 0, fileCount = 0, currentFile = None, transactionCount = 0,
       eventCount = 0 \<rparr>"

lemma truthy_simps [simp]: "\<not> truthy None" "truthy (Some t) \<longleftrightarrow> t \<noteq> []"
  by (simp_all add: truthy_def)

section \<open>Formatting\<close>

definition is_separator :: "nat \<Rightarrow> bool" where
  "is_separator c \<longleftrightarrow> c = 47 \<or> c = BACKSLASH"

fun split_path :: "js \<Rightarrow> js list" where
  "split_path [] = [[]]"
| "split_path (c # cs) =
     (if is_separator c then [] # split_path cs else (c # hd (split_path cs)) # tl (split_path cs))"

definition fileBaseName :: "js \<Rightarrow> js" where
  "fileBaseName path = (let parts = filter (\<lambda>p. p \<noteq> []) (split_path path) in if parts = [] then path else last parts)"

text \<open>The \<open>zh-CN\<close> number format of a count: groups of three digits.\<close>

fun group_digits :: "js \<Rightarrow> js" where
  "group_digits (a # b # c # d # r) = a # b # c # COMMA # group_digits (d # r)"
| "group_digits r = r"

definition formatCount :: "nat \<Rightarrow> js" where
  "formatCount n = rev (group_digits (rev (dec n)))"

definition time_valid :: "js_num \<Rightarrow> bool" where
  "time_valid t \<longleftrightarrow>
     (case t of Fin neg m e \<Rightarrow> fst (rat_of m e) \<le> 8640000000000000 * snd (rat_of m e) | _ \<Rightarrow> False)"

definition formatTimestamp :: "date_host \<Rightarrow> js option \<Rightarrow> js" where
  "formatTimestamp D t =
     (if \<not> truthy t then ([26085, 24535, 26410, 25552, 20379])
      else let parsed = date_parse D (the t) in if time_valid parsed then date_text D parsed else the t)"

definition times :: "js_num \<Rightarrow> nat \<Rightarrow> js_num" where
  "times x k = (case x of Fin neg m e \<Rightarrow> to_double neg (fst (rat_of m e) * k, snd (rat_of m e)) | y \<Rightarrow> y)"

definition formatUnixTimestamp :: "date_host \<Rightarrow> js \<Rightarrow> js" where
  "formatUnixTimestamp D v =
     (let seconds = js_Number v; parsed = times seconds 1000 in
      if is_finite seconds \<and> time_valid parsed then date_text D parsed else v)"

text \<open>\<open>toFixed(1)\<close> of \<open>value / unit\<close> for a power of two, which a double divides by exactly.\<close>

definition tenths :: "nat \<Rightarrow> nat \<Rightarrow> js" where
  "tenths value unit = (let q = (20 * value + unit) div (2 * unit) in dec (q div 10) @ [46] @ dec (q mod 10))"

definition formatBytes :: "nat \<Rightarrow> js" where
  "formatBytes value =
     (if value < 1024 then dec value @ u '' B''
      else if value < 1024 ^ 2 then tenths value 1024 @ u '' KB''
      else if value < 1024 ^ 3 then tenths value (1024 ^ 2) @ u '' MB''
      else tenths value (1024 ^ 3) @ u '' GB'')"

fun operationLabel :: "BinlogOperation \<Rightarrow> js" where
  "operationLabel OpInsert = u ''INSERT''"
| "operationLabel OpUpdate = u ''UPDATE''"
| "operationLabel OpDelete = u ''DELETE''"
| "operationLabel OpDdl = u ''DDL''"

fun transactionStatusLabel :: "transaction_status \<Rightarrow> js" where
  "transactionStatusLabel Committed = ([24050, 25552, 20132])"
| "transactionStatusLabel RolledBack = ([35266, 23519, 21040] @ u '' ROLLBACK'')"
| "transactionStatusLabel Incomplete = ([19981, 23436, 25972])"
| "transactionStatusLabel UnknownStatus = ([29366, 24577, 26410, 30693])"

fun analysisStatusLabel :: "analysis_status \<Rightarrow> js" where
  "analysisStatusLabel AComplete = ([23436, 25972])"
| "analysisStatusLabel AWarning = ([26377, 35686, 21578])"
| "analysisStatusLabel AError = ([26377, 38169, 35823])"
| "analysisStatusLabel APartial = ([37096, 20998, 21487, 29992])"

definition normalizeImportError :: "rejection \<Rightarrow> js \<Rightarrow> AppError" where
  "normalizeImportError e fallback =
     (case e of
        RejError a \<Rightarrow> a \<lparr> ae_code := E_internal \<rparr>
      | RejMessage m \<Rightarrow> \<lparr> ae_code = E_internal, message = m, technicalDetails = None, retryable = True \<rparr>
      | RejOther \<Rightarrow> \<lparr> ae_code = E_internal, message = fallback, technicalDetails = None, retryable = True \<rparr>)"

text \<open>The parser's progress: a double quotient times a hundred, rounded half up.\<close>

definition math_round :: "js_num \<Rightarrow> nat" where
  "math_round x =
     (case x of Fin neg m e \<Rightarrow> (2 * fst (rat_of m e) + snd (rat_of m e)) div (2 * snd (rat_of m e)) | _ \<Rightarrow> 0)"

definition progressPercent :: "BinlogImportProgress \<Rightarrow> nat" where
  "progressPercent p =
     (if totalBytes p > 0 then min 100 (math_round (times (to_double False (bytesRead p, totalBytes p)) 100)) else 0)"

section \<open>Rows and cells\<close>

text \<open>A rendered value: its text, the marker class it has, and its title.\<close>

record shown =
  sh_text :: js
  sh_mark :: "js option"
  sh_title :: "js option"

definition plain :: "js \<Rightarrow> shown" where
  "plain t = \<lparr> sh_text = t, sh_mark = None, sh_title = None \<rparr>"

definition marked :: "js \<Rightarrow> js \<Rightarrow> shown" where
  "marked mark t = \<lparr> sh_text = t, sh_mark = Some mark, sh_title = None \<rparr>"

fun renderStoredCellValue :: "CellValue \<Rightarrow> shown" where
  "renderStoredCellValue CNull = marked (u ''null'') (u ''NULL'')"
| "renderStoredCellValue (CBoolean b) = plain (if b then u ''true'' else u ''false'')"
| "renderStoredCellValue (CInteger v) = plain v"
| "renderStoredCellValue (CDecimal v) = plain v"
| "renderStoredCellValue (CText v) = plain v"
| "renderStoredCellValue (CDateTime v) = plain v"
| "renderStoredCellValue (CFloat v) = plain (num_to_string v)"
| "renderStoredCellValue (CJson v) = plain v"
| "renderStoredCellValue (CBinary v) = marked (u ''binary'') ([20108, 36827, 21046, 25968, 25454])"

definition renderBinlogCellValue :: "date_host \<Rightarrow> BinlogCellValue option \<Rightarrow> shown" where
  "renderBinlogCellValue D c =
     (case c of
        None \<Rightarrow> marked (u ''not-logged'') ([26410, 35760, 24405])
      | Some NotLogged \<Rightarrow> marked (u ''not-logged'') ([26410, 35760, 24405])
      | Some CellNull \<Rightarrow> marked (u ''null'') (u ''NULL'')
      | Some (CellStored v) \<Rightarrow> renderStoredCellValue v
      | Some (UnixTimestamp v) \<Rightarrow> (plain (formatUnixTimestamp D v)) \<lparr> sh_title := Some (v @ (u '' Unix '' @ [31186])) \<rparr>
      | Some (DecodeError m) \<Rightarrow> (marked (u ''error'') ([35299, 30721, 22833, 36133])) \<lparr> sh_title := Some m \<rparr>
      | Some (PartialCell v m) \<Rightarrow>
          \<lparr> sh_text = sh_text (renderStoredCellValue v) @ (u '' '' @ [183] @ u '' '' @ [37096, 20998, 20540]), sh_mark = Some (u ''partial''), sh_title = m \<rparr>)"

definition image_keys :: "BinlogRowImage option \<Rightarrow> js list" where
  "image_keys img = (case img of None \<Rightarrow> [] | Some r \<Rightarrow> map fst r)"

definition image_cell :: "BinlogRowImage option \<Rightarrow> js \<Rightarrow> BinlogCellValue option" where
  "image_cell img column = (case img of None \<Rightarrow> None | Some r \<Rightarrow> map_of r column)"

definition rowColumns :: "BinlogRowImage option \<Rightarrow> BinlogRowImage option \<Rightarrow> js list" where
  "rowColumns before after = new_set (image_keys before @ image_keys after)"

text \<open>One row of the table of a change: the column and what it held before and after.\<close>

definition diff_rows :: "date_host \<Rightarrow> BinlogRowImage option \<times> BinlogRowImage option \<Rightarrow> (js \<times> shown \<times> shown) list" where
  "diff_rows D row =
     map (\<lambda>column. (column, renderBinlogCellValue D (image_cell (fst row) column),
                      renderBinlogCellValue D (image_cell (snd row) column)))
       (rowColumns (fst row) (snd row))"

record change_view =
  cv_operation :: js
  cv_table :: js
  cv_count :: js
  cv_sql :: "js option"
  cv_diffs :: "(js \<times> (js \<times> shown \<times> shown) list) list"

definition TableChangeDetails :: "date_host \<Rightarrow> BinlogTableChange \<Rightarrow> change_view" where
  "TableChangeDetails D change =
     \<lparr> cv_operation = operationLabel (ch_operation change),
       cv_table = ch_database change @ [46] @ ch_table change,
       cv_count = formatCount (ch_rowCount change) @ (u '' '' @ [34892]),
       cv_sql = (if truthy (ch_sql change) then ch_sql change else None),
       cv_diffs = map (\<lambda>(i, row). (([34892] @ u '' '') @ dec (i + 1), diff_rows D row)) (enumerate 0 (ch_rows change)) \<rparr>"

section \<open>A transaction\<close>

text \<open>
  The characters other than letters, digits, \<open>_\<close> and \<open>-\<close> become a hyphen; with the \<open>u\<close> flag a surrogate
  pair is one character.
\<close>

definition is_high :: "nat \<Rightarrow> bool" where "is_high c \<longleftrightarrow> 55296 \<le> c \<and> c \<le> 56319"
definition is_low :: "nat \<Rightarrow> bool" where "is_low c \<longleftrightarrow> 56320 \<le> c \<and> c \<le> 57343"

definition id_char :: "nat \<Rightarrow> bool" where
  "id_char c \<longleftrightarrow> is_lower c \<or> is_upper c \<or> is_digit c \<or> c = 95 \<or> c = 45"

fun hyphenate :: "js \<Rightarrow> js" where
  "hyphenate (c # d # r) =
     (if is_high c \<and> is_low d then 45 # hyphenate r
      else (if id_char c then c else 45) # hyphenate (d # r))"
| "hyphenate [c] = [if id_char c then c else 45]"
| "hyphenate [] = []"

definition transactionDetailsId :: "js \<Rightarrow> js" where
  "transactionDetailsId transactionId = u ''binlog-transaction-'' @ hyphenate transactionId"

definition transaction_identity :: "BinlogTransactionSummary \<Rightarrow> js" where
  "transaction_identity t =
     (if truthy (tx_gtid t) then u ''GTID '' @ the (tx_gtid t)
      else if truthy (tx_xid t) then u ''XID '' @ the (tx_xid t)
      else ([20107, 21153] @ u '' '') @ tx_id t)"

datatype details_view = Collapsed | DetailsLoading | DetailsError js | DetailsChanges "change_view list" | DetailsEmpty

record transaction_card =
  tc_time :: js
  tc_identity :: js
  tc_status :: js
  tc_status_title :: js
  tc_rows :: js
  tc_server :: js
  tc_position :: js
  tc_tables :: "js list"
  tc_reset_disabled :: bool
  tc_reset_title :: js
  tc_reset_label :: js
  tc_feedback :: "ResetSqlFeedback option"
  tc_details :: details_view

definition reset_disabled :: "BinlogTransactionSummary \<Rightarrow> bool \<Rightarrow> bool" where
  "reset_disabled t loading \<longleftrightarrow> loading \<or> tx_status t \<noteq> Committed \<or> tx_rowChangeCount t = 0"

definition reset_title :: "BinlogTransactionSummary \<Rightarrow> js" where
  "reset_title t =
     (if tx_status t \<noteq> Committed then ([21482, 20026, 24050, 25552, 20132, 20107, 21153, 29983, 25104] @ u '' Reset SQL'')
      else if tx_rowChangeCount t = 0 then ([35813, 20107, 21153, 27809, 26377, 21487, 36870, 30340, 34892, 21464, 26356])
      else ([25353, 24403, 21069, 31579, 36873, 29983, 25104, 36870, 24207] @ u '' Reset SQL'' @ [65307, 22797, 21046, 21069, 19981, 20250, 25191, 34892]))"

definition card_details :: "date_host \<Rightarrow> bool \<Rightarrow> bool \<Rightarrow> js option \<Rightarrow> BinlogTransaction option \<Rightarrow> details_view" where
  "card_details D expanded loading err detail =
     (if \<not> expanded then Collapsed
      else if loading then DetailsLoading
      else if truthy err then DetailsError (the err)
      else case detail of
        Some d \<Rightarrow> if tx_changes d = [] then DetailsEmpty else DetailsChanges (map (TableChangeDetails D) (tx_changes d))
      | None \<Rightarrow> DetailsEmpty)"

definition TransactionCard ::
  "date_host \<Rightarrow> BinlogTransactionSummary \<Rightarrow> BinlogTransaction option \<Rightarrow> js option \<Rightarrow> bool \<Rightarrow> bool \<Rightarrow>
   ResetSqlFeedback option \<Rightarrow> bool \<Rightarrow> transaction_card" where
  "TransactionCard D t detail detailError detailLoading expanded resetFeedback resetLoading =
     \<lparr> tc_time = formatTimestamp D (Some (tx_timestamp t)),
       tc_identity = transaction_identity t,
       tc_status = transactionStatusLabel (tx_status t),
       tc_status_title =
         (if tx_status t = RolledBack then ([26085, 24535, 20013, 35266, 23519, 21040] @ u '' ROLLBACK'' @ [65307, 38750, 20107, 21153, 34920, 30340, 21464, 26356, 21487, 33021, 20173, 24050, 29983, 25928])
          else ([20107, 21153, 29366, 24577, 65306]) @ transactionStatusLabel (tx_status t)),
       tc_rows = formatCount (tx_rowChangeCount t) @ (u '' '' @ [34892]),
       tc_server = u ''server '' @ dec (tx_serverId t),
       tc_position = tx_fileName t @ u '':'' @ dec (tx_startPosition t) @
         (if tx_endPosition t \<noteq> tx_startPosition t then 8211 # dec (tx_endPosition t) else []),
       tc_tables =
         (if tx_tables t = [] then [([26410, 35782, 21035, 34920])]
          else map (\<lambda>b. bt_database b @ [46] @ bt_table b @
                 (case bt_rowChangeCount b of None \<Rightarrow> [] | Some n \<Rightarrow> (u '' '' @ [183] @ u '' '') @ formatCount n)) (tx_tables t)),
       tc_reset_disabled = reset_disabled t resetLoading,
       tc_reset_title = reset_title t,
       tc_reset_label = (if resetLoading then ([29983, 25104, 20013, 8230]) else ([22797, 21046] @ u '' Reset SQL'')),
       tc_feedback = resetFeedback,
       tc_details = card_details D expanded detailLoading detailError detail \<rparr>"

section \<open>The summary\<close>

record diagnostic_view =
  dv_label :: js
  dv_code :: js
  dv_message :: js
  dv_place :: "js option"

definition diagnostic_row :: "BinlogDiagnostic \<Rightarrow> diagnostic_view" where
  "diagnostic_row d =
     \<lparr> dv_label = (case dg_severity d of SevError \<Rightarrow> ([38169, 35823]) | SevWarning \<Rightarrow> ([35686, 21578]) | SevInfo \<Rightarrow> ([20449, 24687])),
       dv_code = dg_code d, dv_message = dg_message d,
       dv_place =
         (if truthy (dg_fileName d)
          then Some (the (dg_fileName d) @ (case dg_position d of None \<Rightarrow> [] | Some p \<Rightarrow> u '':'' @ dec p)) else None) \<rparr>"

record summary_view =
  sv_files :: js
  sv_names :: js
  sv_first :: js
  sv_last :: js
  sv_transactions :: js
  sv_events :: js
  sv_row_changes :: js
  sv_status :: js
  sv_count :: js
  sv_diagnostics :: "diagnostic_view list"

definition SummaryCards :: "date_host \<Rightarrow> BinlogSummary \<Rightarrow> summary_view" where
  "SummaryCards D s =
     (let names = join ([12289]) (map fileBaseName (bs_files s)) in
      \<lparr> sv_files = formatCount (length (bs_files s)),
        sv_names = (if names = [] then ([26080]) else names),
        sv_first = formatTimestamp D (bs_firstEventAt s),
        sv_last = ([33267] @ u '' '') @ formatTimestamp D (bs_lastEventAt s),
        sv_transactions = formatCount (bs_transactionCount s),
        sv_events = formatCount (bs_eventCount s),
        sv_row_changes = formatCount (bs_rowChangeCount s),
        sv_status = analysisStatusLabel (bs_status s),
        sv_count = formatCount (length (bs_diagnostics s)) @ (u '' '' @ [39033, 35786, 26029]),
        sv_diagnostics = map diagnostic_row (bs_diagnostics s) \<rparr>)"

section \<open>The filter's choices\<close>

text \<open>\<open>sort()\<close> without a comparator compares the code units.\<close>

fun js_compare :: "js \<Rightarrow> js \<Rightarrow> int" where
  "js_compare [] [] = 0"
| "js_compare [] (y # ys) = - 1"
| "js_compare (x # xs) [] = 1"
| "js_compare (x # xs) (y # ys) = (if x < y then - 1 else if y < x then 1 else js_compare xs ys)"

definition databaseOptions :: "BinlogSummary option \<Rightarrow> js list" where
  "databaseOptions s =
     js_sort js_compare (new_set (map bt_database (case s of None \<Rightarrow> [] | Some b \<Rightarrow> bs_tables b)))"

definition tableOptions :: "js \<Rightarrow> BinlogSummary option \<Rightarrow> js list" where
  "tableOptions database s =
     js_sort js_compare (new_set (map bt_table
       (filter (\<lambda>t. database = [] \<or> bt_database t = database) (case s of None \<Rightarrow> [] | Some b \<Rightarrow> bs_tables b))))"

section \<open>Properties\<close>

lemma split_path_parts: "split_path s \<noteq> [] \<and> (\<forall>p \<in> set (split_path s). \<forall>c \<in> set p. \<not> is_separator c)"
proof (induction s)
  case (Cons c s)
  then show ?case by (cases "split_path s") auto
qed simp

lemma split_path_chars: "\<not> is_separator c \<Longrightarrow> c \<in> set s \<Longrightarrow> \<exists>p \<in> set (split_path s). p \<noteq> []"
proof (induction s)
  case (Cons d s)
  then show ?case by (cases "split_path s") (auto split: if_splits)
qed simp

text \<open>A path's directory is not shown: the name holds no separator unless the path is nothing else.\<close>

lemma fileBaseName_no_separator:
  assumes "c \<in> set path" "\<not> is_separator c" "d \<in> set (fileBaseName path)"
  shows "\<not> is_separator d"
proof -
  let ?parts = "filter (\<lambda>p. p \<noteq> []) (split_path path)"
  have parts: "?parts \<noteq> []" using split_path_chars [OF assms(2,1)] by (auto simp: filter_empty_conv)
  then have "last ?parts \<in> set (split_path path)" using last_in_set [OF parts] by auto
  with assms(3) parts show ?thesis using split_path_parts [of path] by (auto simp: fileBaseName_def Let_def)
qed

lemma filter_group_digits: "COMMA \<notin> set s \<Longrightarrow> filter (\<lambda>c. c \<noteq> COMMA) (group_digits s) = s"
  by (induction s rule: group_digits.induct) auto

text \<open>No digit of a count is lost.\<close>

lemma formatCount_digits: "filter (\<lambda>c. c \<noteq> COMMA) (formatCount n) = dec n"
proof -
  have "COMMA \<notin> set (rev (dec n))" using dec_digits [of n] by (auto simp: is_digit_def)
  then show ?thesis by (simp add: formatCount_def filter_group_digits flip: rev_filter)
qed

lemma formatCount_inj: "formatCount m = formatCount n \<Longrightarrow> m = n"
  by (metis formatCount_digits dec_inj)

lemma progressPercent_bound: "progressPercent p \<le> 100"
  by (simp add: progressPercent_def)

text \<open>What a column held is never shown as NULL when the log does not have it.\<close>

lemma missing_is_not_null:
  "c = None \<or> c = Some NotLogged \<Longrightarrow> sh_mark (renderBinlogCellValue D c) \<noteq> sh_mark (renderBinlogCellValue D (Some CellNull))"
  by (auto simp: renderBinlogCellValue_def marked_def u_eval)

lemma rowColumns_all: "set (rowColumns b a) = set (image_keys b) \<union> set (image_keys a)" "distinct (rowColumns b a)"
  by (simp_all add: rowColumns_def)

lemma hyphenate_chars: "\<forall>c \<in> set (hyphenate s). id_char c"
  by (induction s rule: hyphenate.induct) (auto simp: id_char_def)

interpretation units: comparator_on js_compare UNIV
proof unfold_locales
  fix x y z :: js
  show "js_compare x y \<le> 0 \<or> js_compare y x \<le> 0" by (induction x y rule: js_compare.induct) auto
  show "js_compare x z \<le> 0" if "js_compare x y \<le> 0" "js_compare y z \<le> 0"
    using that
  proof (induction x z arbitrary: y rule: js_compare.induct)
    case (4 a as c cs)
    then show ?case by (cases y) (auto split: if_splits)
  next
    case (3 x xs)
    then show ?case by (cases y) auto
  qed auto
qed

text \<open>The choices are the tables of the analysis, each once and in order.\<close>

lemma tableOptions_in_order:
  "sorted_wrt (\<lambda>a b. js_compare a b \<le> 0) (tableOptions db s) \<and> distinct (tableOptions db s)
   \<and> (\<forall>t. t \<in> set (tableOptions db (Some b)) \<longleftrightarrow>
         (\<exists>r \<in> set (bs_tables b). bt_table r = t \<and> (db = [] \<or> bt_database r = db)))"
  by (auto simp: tableOptions_def units.sorted_js_sort)

lemma databaseOptions_in_order:
  "sorted_wrt (\<lambda>a b. js_compare a b \<le> 0) (databaseOptions s) \<and> distinct (databaseOptions s)
   \<and> set (databaseOptions (Some b)) = bt_database ` set (bs_tables b)"
  by (auto simp: databaseOptions_def units.sorted_js_sort)

lemma reset_only_committed:
  "\<not> tc_reset_disabled (TransactionCard D t detail err loading expanded fb resetting) \<Longrightarrow>
    tx_status t = Committed \<and> 0 < tx_rowChangeCount t \<and> \<not> resetting"
  by (simp add: TransactionCard_def reset_disabled_def)

end
