(* ===== verification/Binlog_Workspace.thy ===== *)
theory Binlog_Workspace
  imports Binlog_View
begin

text \<open>
  The binlog workspace (\<open>features/binlog/BinlogWorkspace.tsx\<close>) as a machine: clicks, events of the import's channel and
  answers to what was asked of the backend. A request that has not been answered stands in \<open>bw_requests\<close>, with what
  its continuation captured. Handlers run to completion, and the render and the timeline effect follow each.

  \<open>bw_filterVersion\<close> counts the filter objects, which is what the effect's dependency compares. Maps keyed by transaction
  are partial functions; sets are lists in insertion order.
\<close>

section \<open>State\<close>

datatype ImportPhase = Empty | Importing | Loading | Ready | Failed_import | Canceled_import

record TimelineFilter =
  tf_database :: js
  tf_table :: js
  tf_operation :: "BinlogOperation option"

record BinlogResetSql =
  rs_sql :: js
  rs_statementCount :: nat
  rs_complete :: bool
  rs_warnings :: "js list"

datatype BinlogImportEvent =
  EvStarted js nat nat | EvProgress js BinlogImportProgress | EvCompleted js | EvFailed js AppError | EvCanceled js

fun event_analysis :: "BinlogImportEvent \<Rightarrow> js" where
  "event_analysis (EvStarted i n b) = i"
| "event_analysis (EvProgress i p) = i"
| "event_analysis (EvCompleted i) = i"
| "event_analysis (EvFailed i e) = i"
| "event_analysis (EvCanceled i) = i"

text \<open>
  The requests. \<open>DisposeCancel\<close> and \<open>DisposeClose\<close> are the two legs of \<open>disposeAnalysis\<close>, with the import that waits
  for them; the first argument of the others is the run or the generation their continuation compares.
\<close>

datatype request =
  PickFiles
| DisposeCancel js "(nat \<times> js list) option"
| DisposeClose js "(nat \<times> js list) option"
| StartImport nat "js list"
| RequestCancel nat js
| ReadSummary nat js
| ListFirst nat js TimelineFilter
| ListMore nat js TimelineFilter js
| ReadTransaction nat js BinlogTransactionSummary TimelineFilter
| ReadResetSql js BinlogTransactionSummary TimelineFilter
| WriteClipboard BinlogTransactionSummary BinlogResetSql

datatype reply =
  Done | Picked "js list" | GotId js | GotSummary BinlogSummary | GotPage "BinlogTransactionSummary list" "js option"
| GotTransaction BinlogTransaction | GotResetSql BinlogResetSql | Refused rejection

record binlog =
  bw_phase :: ImportPhase
  selectedPaths :: "js list"
  bw_analysisId :: "js option"
  bw_progress :: BinlogImportProgress
  bw_cancelRequested :: bool
  cancelError :: "js option"
  importError :: "AppError option"
  bw_summary :: "BinlogSummary option"
  bw_filter :: TimelineFilter
  bw_filterVersion :: nat
  bw_transactions :: "BinlogTransactionSummary list"
  nextCursor :: "js option"
  timelineLoading :: bool
  timelineError :: "js option"
  timelineReload :: nat
  expandedIds :: "js list"
  transactionDetails :: "js \<Rightarrow> BinlogTransaction option"
  transactionDetailErrors :: "js \<Rightarrow> js option"
  transactionDetailLoadingIds :: "js list"
  resetSqlLoadingIds :: "js list"
  resetSqlFeedback :: "js \<Rightarrow> ResetSqlFeedback option"
  mountedRef :: bool
  activeRunRef :: nat
  timelineGenerationRef :: nat
  transactionDetailGenerationRef :: nat
  analysisIdRef :: "js option"
  importRunningRef :: bool
  bw_cancelRequestedRef :: bool
  bw_requests :: "request list"

type_synonym binlog_result = "binlog \<times> request list"

definition NO_FILTER :: TimelineFilter where
  "NO_FILTER = \<lparr> tf_database = [], tf_table = [], tf_operation = None \<rparr>"

definition init_binlog :: binlog where
  "init_binlog =
     \<lparr> bw_phase = Empty, selectedPaths = [], bw_analysisId = None, bw_progress = EMPTY_PROGRESS,
       bw_cancelRequested = False, cancelError = None, importError = None, bw_summary = None, bw_filter = NO_FILTER,
       bw_filterVersion = 0, bw_transactions = [], nextCursor = None, timelineLoading = False, timelineError = None,
       timelineReload = 0, expandedIds = [], transactionDetails = (\<lambda>_. None), transactionDetailErrors = (\<lambda>_. None),
       transactionDetailLoadingIds = [], resetSqlLoadingIds = [], resetSqlFeedback = (\<lambda>_. None), mountedRef = True,
       activeRunRef = 0, timelineGenerationRef = 0, transactionDetailGenerationRef = 0, analysisIdRef = None,
       importRunningRef = False, bw_cancelRequestedRef = False, bw_requests = [] \<rparr>"

section \<open>Importing\<close>

definition disposeAnalysis :: "js \<Rightarrow> bool \<Rightarrow> (nat \<times> js list) option \<Rightarrow> request" where
  "disposeAnalysis i running next = (if running then DisposeCancel i next else DisposeClose i next)"

definition resetTransactionDetails :: "binlog \<Rightarrow> binlog" where
  "resetTransactionDetails s =
     s \<lparr> transactionDetailGenerationRef := transactionDetailGenerationRef s + 1, expandedIds := [],
         transactionDetails := (\<lambda>_. None), transactionDetailErrors := (\<lambda>_. None), transactionDetailLoadingIds := [],
         resetSqlLoadingIds := [], resetSqlFeedback := (\<lambda>_. None) \<rparr>"

definition set_filter :: "TimelineFilter \<Rightarrow> binlog \<Rightarrow> binlog" where
  "set_filter f s = s \<lparr> bw_filter := f, bw_filterVersion := bw_filterVersion s + 1 \<rparr>"

definition unmount_binlog :: "binlog \<Rightarrow> binlog_result" where
  "unmount_binlog s =
     (s \<lparr> mountedRef := False, activeRunRef := activeRunRef s + 1, timelineGenerationRef := timelineGenerationRef s + 1,
          transactionDetailGenerationRef := transactionDetailGenerationRef s + 1 \<rparr>,
      if truthy (analysisIdRef s) then [disposeAnalysis (the (analysisIdRef s)) (importRunningRef s) None] else [])"

definition live_run :: "nat \<Rightarrow> binlog \<Rightarrow> bool" where
  "live_run run s \<longleftrightarrow> mountedRef s \<and> run = activeRunRef s"

definition hydrateCompletedAnalysis :: "js \<Rightarrow> nat \<Rightarrow> binlog \<Rightarrow> binlog_result" where
  "hydrateCompletedAnalysis i run s =
     (s \<lparr> analysisIdRef := Some i, bw_analysisId := Some i, bw_phase := Loading \<rparr>, [ReadSummary run i])"

definition summary_answer :: "nat \<Rightarrow> rejection + BinlogSummary \<Rightarrow> binlog \<Rightarrow> binlog" where
  "summary_answer run r s =
     (if \<not> live_run run s then s
      else case r of
        Inr loaded \<Rightarrow> s \<lparr> bw_summary := Some loaded, bw_phase := Ready \<rparr>
      | Inl e \<Rightarrow> s \<lparr> importError := Some (normalizeImportError e ([20998, 26512, 25688, 35201, 21152, 36733, 22833, 36133, 65292, 35831, 37325, 35797, 12290])), bw_phase := Failed_import \<rparr>)"

definition cancel_answer :: "nat \<Rightarrow> rejection option \<Rightarrow> binlog \<Rightarrow> binlog" where
  "cancel_answer run r s =
     (case r of
        None \<Rightarrow> s
      | Some e \<Rightarrow>
          if \<not> live_run run s then s
          else s \<lparr> bw_cancelRequestedRef := False, bw_cancelRequested := False,
                   cancelError := Some (message (normalizeImportError e ([21462, 28040, 35831, 27714, 22833, 36133, 65292, 35299, 26512, 20173, 22312, 32487, 32493, 12290]))) \<rparr>)"

text \<open>\<open>beginImport\<close> up to the release of the previous analysis, and from there to the start of the parser.\<close>

definition start_import :: "nat \<Rightarrow> js list \<Rightarrow> binlog \<Rightarrow> binlog_result" where
  "start_import run paths s =
     (if \<not> live_run run s then (s, []) else (s \<lparr> importRunningRef := True \<rparr>, [StartImport run paths]))"

definition cleared_import :: "js list \<Rightarrow> binlog \<Rightarrow> binlog" where
  "cleared_import paths s =
     set_filter NO_FILTER (resetTransactionDetails
       (s \<lparr> activeRunRef := activeRunRef s + 1, analysisIdRef := None, importRunningRef := False,
            bw_cancelRequestedRef := False, selectedPaths := paths, bw_analysisId := None, bw_phase := Importing,
            bw_progress := EMPTY_PROGRESS \<lparr> fileCount := length paths \<rparr>, bw_cancelRequested := False,
            cancelError := None, importError := None, bw_summary := None, bw_transactions := [], nextCursor := None,
            timelineError := None \<rparr>))"

definition beginImport :: "js list \<Rightarrow> binlog \<Rightarrow> binlog_result" where
  "beginImport paths s =
     (if \<not> mountedRef s \<or> paths = [] then (s, [])
      else let run = activeRunRef s + 1; s1 = cleared_import paths s in
        if truthy (analysisIdRef s)
        then (s1, [disposeAnalysis (the (analysisIdRef s)) (importRunningRef s) (Some (run, paths))])
        else start_import run paths s1)"

definition dispose_done :: "(nat \<times> js list) option \<Rightarrow> binlog \<Rightarrow> binlog_result" where
  "dispose_done next s = (case next of None \<Rightarrow> (s, []) | Some (run, paths) \<Rightarrow> start_import run paths s)"

definition terminal_event :: "binlog \<Rightarrow> binlog" where
  "terminal_event s = s \<lparr> importRunningRef := False, bw_cancelRequestedRef := False, bw_cancelRequested := False \<rparr>"

definition import_event :: "nat \<Rightarrow> BinlogImportEvent \<Rightarrow> binlog \<Rightarrow> binlog_result" where
  "import_event run event s =
     (if \<not> live_run run s then (s, [])
      else let i = event_analysis event; s1 = s \<lparr> analysisIdRef := Some i, bw_analysisId := Some i \<rparr> in
        case event of
          EvStarted _ n b \<Rightarrow> (s1 \<lparr> bw_progress := (bw_progress s) \<lparr> fileCount := n, totalBytes := b \<rparr> \<rparr>, [])
        | EvProgress _ p \<Rightarrow> (s1 \<lparr> bw_progress := p \<rparr>, [])
        | EvCompleted _ \<Rightarrow> hydrateCompletedAnalysis i run (terminal_event s1)
        | EvFailed _ e \<Rightarrow> ((terminal_event s1) \<lparr> importError := Some e, bw_phase := Failed_import \<rparr>, [])
        | EvCanceled _ \<Rightarrow> ((terminal_event s1) \<lparr> bw_phase := Canceled_import \<rparr>, []))"

definition start_answer :: "nat \<Rightarrow> rejection + js \<Rightarrow> binlog \<Rightarrow> binlog_result" where
  "start_answer run r s =
     (case r of
        Inr i \<Rightarrow>
          if \<not> live_run run s then (s, [disposeAnalysis i True None])
          else (s \<lparr> analysisIdRef := Some i, bw_analysisId := Some i \<rparr>,
                if bw_cancelRequestedRef s then [RequestCancel run i] else [])
      | Inl e \<Rightarrow>
          if \<not> live_run run s then (s, [])
          else (s \<lparr> importRunningRef := False,
                    importError := Some (normalizeImportError e ([26080, 27861, 21551, 21160] @ u '' Binlog '' @ [23548, 20837, 65292, 35831, 37325, 35797, 12290])),
                    bw_phase := Failed_import \<rparr>, []))"

text \<open>\<open>chooseFiles\<close>: empty paths are dropped; a dialog that was dismissed picks nothing.\<close>

definition files_answer :: "rejection + js list \<Rightarrow> binlog \<Rightarrow> binlog_result" where
  "files_answer r s =
     (case r of
        Inr picked \<Rightarrow>
          (let paths = filter (\<lambda>p. p \<noteq> []) picked in
           if mountedRef s \<and> paths \<noteq> [] then beginImport paths s else (s, []))
      | Inl e \<Rightarrow>
          if \<not> mountedRef s then (s, [])
          else (s \<lparr> importError := Some (normalizeImportError e ([26080, 27861, 25171, 24320, 25991, 20214, 36873, 25321, 22120, 65292, 35831, 37325, 35797, 12290])),
                    bw_phase := Failed_import \<rparr>, []))"

definition cancelImport :: "binlog \<Rightarrow> binlog_result" where
  "cancelImport s =
     (if \<not> importRunningRef s \<or> bw_cancelRequestedRef s then (s, [])
      else (s \<lparr> bw_cancelRequestedRef := True, bw_cancelRequested := True, cancelError := None \<rparr>,
            if truthy (analysisIdRef s) then [RequestCancel (activeRunRef s) (the (analysisIdRef s))] else []))"

section \<open>The timeline\<close>

definition live_timeline :: "nat \<Rightarrow> binlog \<Rightarrow> bool" where
  "live_timeline generation s \<longleftrightarrow> mountedRef s \<and> generation = timelineGenerationRef s"

text \<open>The effect on \<open>[analysisId, filter, phase, timelineReload]\<close>.\<close>

definition timeline_effect :: "binlog \<Rightarrow> binlog_result" where
  "timeline_effect s =
     (if bw_phase s \<noteq> Ready \<or> \<not> truthy (bw_analysisId s) then (s, [])
      else (s \<lparr> timelineGenerationRef := timelineGenerationRef s + 1, timelineLoading := True, timelineError := None,
                bw_transactions := [], nextCursor := None \<rparr>,
            [ListFirst (timelineGenerationRef s + 1) (the (bw_analysisId s)) (bw_filter s)]))"

definition first_page :: "nat \<Rightarrow> rejection + BinlogTransactionSummary list \<times> js option \<Rightarrow> binlog \<Rightarrow> binlog" where
  "first_page generation r s =
     (if \<not> live_timeline generation s then s
      else case r of
        Inr (rows, cursor) \<Rightarrow> s \<lparr> bw_transactions := rows, nextCursor := cursor, timelineLoading := False \<rparr>
      | Inl e \<Rightarrow> s \<lparr> timelineError := Some (message (normalizeImportError e ([20107, 21153, 26102, 38388, 32447, 21152, 36733, 22833, 36133, 65292, 35831, 37325, 35797, 12290]))),
                      timelineLoading := False \<rparr>)"

definition loadMoreTransactions :: "binlog \<Rightarrow> binlog_result" where
  "loadMoreTransactions s =
     (if \<not> truthy (bw_analysisId s) \<or> \<not> truthy (nextCursor s) \<or> timelineLoading s then (s, [])
      else (s \<lparr> timelineLoading := True, timelineError := None \<rparr>,
            [ListMore (timelineGenerationRef s) (the (bw_analysisId s)) (bw_filter s) (the (nextCursor s))]))"

definition next_page :: "nat \<Rightarrow> rejection + BinlogTransactionSummary list \<times> js option \<Rightarrow> binlog \<Rightarrow> binlog" where
  "next_page generation r s =
     (if \<not> live_timeline generation s then s
      else case r of
        Inr (rows, cursor) \<Rightarrow>
          s \<lparr> bw_transactions := bw_transactions s @ rows, nextCursor := cursor, timelineLoading := False \<rparr>
      | Inl e \<Rightarrow> s \<lparr> timelineError := Some (message (normalizeImportError e ([19979, 19968, 39029, 21152, 36733, 22833, 36133, 65292, 35831, 37325, 35797, 12290]))),
                      timelineLoading := False \<rparr>)"

section \<open>Details of a transaction\<close>

definition loadTransactionDetails :: "BinlogTransactionSummary \<Rightarrow> binlog \<Rightarrow> binlog_result" where
  "loadTransactionDetails t s =
     (if \<not> truthy (bw_analysisId s) then (s, [])
      else (s \<lparr> transactionDetailLoadingIds := set_add (tx_id t) (transactionDetailLoadingIds s),
                transactionDetailErrors := (transactionDetailErrors s) (tx_id t := None) \<rparr>,
            [ReadTransaction (transactionDetailGenerationRef s) (the (bw_analysisId s)) t (bw_filter s)]))"

definition transaction_answer ::
  "nat \<Rightarrow> BinlogTransactionSummary \<Rightarrow> rejection + BinlogTransaction \<Rightarrow> binlog \<Rightarrow> binlog" where
  "transaction_answer generation t r s =
     (if \<not> (mountedRef s \<and> generation = transactionDetailGenerationRef s) then s
      else let s1 = s \<lparr> transactionDetailLoadingIds := set_delete (tx_id t) (transactionDetailLoadingIds s) \<rparr> in
        case r of
          Inr detail \<Rightarrow> s1 \<lparr> transactionDetails := (transactionDetails s) (tx_id t \<mapsto> detail) \<rparr>
        | Inl e \<Rightarrow> s1 \<lparr> transactionDetailErrors :=
            (transactionDetailErrors s) (tx_id t \<mapsto> message (normalizeImportError e ([20107, 21153, 35814, 24773, 21152, 36733, 22833, 36133]))) \<rparr>)"

definition toggleTransaction :: "BinlogTransactionSummary \<Rightarrow> binlog \<Rightarrow> binlog_result" where
  "toggleTransaction t s =
     (let i = tx_id t;
          (s1, rs) = (if i \<notin> set (expandedIds s) \<and> transactionDetails s i = None
                         \<and> i \<notin> set (transactionDetailLoadingIds s)
                      then loadTransactionDetails t s else (s, []))
      in (s1 \<lparr> expandedIds := if i \<in> set (expandedIds s) then set_delete i (expandedIds s) else set_add i (expandedIds s) \<rparr>,
          rs))"

section \<open>Reset SQL\<close>

definition set_feedback :: "js \<Rightarrow> ResetSqlFeedback option \<Rightarrow> binlog \<Rightarrow> binlog" where
  "set_feedback i fb s = s \<lparr> resetSqlFeedback := (resetSqlFeedback s) (i := fb) \<rparr>"

definition reset_loading_done :: "js \<Rightarrow> binlog \<Rightarrow> binlog" where
  "reset_loading_done i s = s \<lparr> resetSqlLoadingIds := set_delete i (resetSqlLoadingIds s) \<rparr>"

definition warning_details :: "BinlogResetSql \<Rightarrow> js option" where
  "warning_details out = (let w = join [NEWLINE] (rs_warnings out) in if w = [] then None else Some w)"

definition copyResetSql :: "BinlogTransactionSummary \<Rightarrow> binlog \<Rightarrow> binlog_result" where
  "copyResetSql t s =
     (if \<not> truthy (bw_analysisId s) \<or> tx_id t \<in> set (resetSqlLoadingIds s) then (s, [])
      else (set_feedback (tx_id t) None (s \<lparr> resetSqlLoadingIds := set_add (tx_id t) (resetSqlLoadingIds s) \<rparr>),
            [ReadResetSql (the (bw_analysisId s)) t (bw_filter s)]))"

definition reset_failed :: "BinlogTransactionSummary \<Rightarrow> rejection \<Rightarrow> binlog \<Rightarrow> binlog" where
  "reset_failed t e s =
     (if \<not> mountedRef s then s
      else reset_loading_done (tx_id t) (set_feedback (tx_id t)
        (Some \<lparr> fb_message = (u ''Reset SQL '' @ [22797, 21046, 22833, 36133]), fb_tone = TONE_ERROR,
                fb_details = Some (message (normalizeImportError e (u ''Reset SQL '' @ [29983, 25104, 25110, 22797, 21046, 22833, 36133, 12290]))) \<rparr>) s))"

definition reset_sql_answer :: "BinlogTransactionSummary \<Rightarrow> BinlogResetSql \<Rightarrow> binlog \<Rightarrow> binlog_result" where
  "reset_sql_answer t out s =
     (if \<not> mountedRef s then (s, [])
      else if rs_sql out = [] then
        (reset_loading_done (tx_id t) (set_feedback (tx_id t)
           (Some \<lparr> fb_message = ([27809, 26377, 21487, 23433, 20840, 29983, 25104, 30340] @ u '' Reset SQL''), fb_tone = TONE_WARNING,
                   fb_details = warning_details out \<rparr>) s), [])
      else (s, [WriteClipboard t out]))"

definition clipboard_answer :: "BinlogTransactionSummary \<Rightarrow> BinlogResetSql \<Rightarrow> binlog \<Rightarrow> binlog" where
  "clipboard_answer t out s =
     (if \<not> mountedRef s then s
      else reset_loading_done (tx_id t) (set_feedback (tx_id t)
        (Some \<lparr> fb_message = ([24050, 22797, 21046] @ u '' '') @ formatCount (rs_statementCount out) @
                  (if rs_complete out then (u '' '' @ [26465]) else (u '' '' @ [26465, 65292, 37096, 20998, 21464, 26356, 24050, 36339, 36807])),
                fb_tone = (if rs_complete out then TONE_SUCCESS else TONE_WARNING),
                fb_details = warning_details out \<rparr>) s))"

section \<open>Steps\<close>

datatype binlog_label =
  ChooseFiles | RetryImport | CancelImport | PickDatabase js | PickTable js | PickOperation "BinlogOperation option"
| ReloadTimeline | LoadMore | ToggleCard BinlogTransactionSummary | CopyReset BinlogTransactionSummary
| ImportEvent nat BinlogImportEvent | Reply nat reply | UnmountBinlog

text \<open>What the phases render.\<close>

definition can_choose :: "binlog \<Rightarrow> bool" where
  "can_choose s \<longleftrightarrow> bw_phase s \<noteq> Importing \<and> bw_phase s \<noteq> Loading"

definition can_retry :: "binlog \<Rightarrow> bool" where
  "can_retry s \<longleftrightarrow>
     (bw_phase s = Failed_import \<and> importError s \<noteq> None \<and> selectedPaths s \<noteq> []) \<or> bw_phase s = Canceled_import"

definition can_cancel :: "binlog \<Rightarrow> bool" where
  "can_cancel s \<longleftrightarrow> bw_phase s = Importing \<and> \<not> bw_cancelRequested s"

definition analysis_shown :: "binlog \<Rightarrow> bool" where
  "analysis_shown s \<longleftrightarrow> bw_phase s = Ready \<and> bw_summary s \<noteq> None"

definition change_filter :: "(TimelineFilter \<Rightarrow> TimelineFilter) \<Rightarrow> binlog \<Rightarrow> binlog" where
  "change_filter f s = set_filter (f (bw_filter s)) (resetTransactionDetails s)"

definition reply_result :: "request \<Rightarrow> reply \<Rightarrow> binlog \<Rightarrow> binlog_result option" where
  "reply_result q a s =
     (case (q, a) of
        (PickFiles, Picked paths) \<Rightarrow> Some (files_answer (Inr paths) s)
      | (PickFiles, Refused e) \<Rightarrow> Some (files_answer (Inl e) s)
      | (DisposeCancel i next, Done) \<Rightarrow> Some (s, [DisposeClose i next])
      | (DisposeCancel i next, Refused e) \<Rightarrow> Some (s, [DisposeClose i next])
      | (DisposeClose i next, Done) \<Rightarrow> Some (dispose_done next s)
      | (DisposeClose i next, Refused e) \<Rightarrow> Some (dispose_done next s)
      | (StartImport run paths, GotId i) \<Rightarrow> Some (start_answer run (Inr i) s)
      | (StartImport run paths, Refused e) \<Rightarrow> Some (start_answer run (Inl e) s)
      | (RequestCancel run i, Done) \<Rightarrow> Some (cancel_answer run None s, [])
      | (RequestCancel run i, Refused e) \<Rightarrow> Some (cancel_answer run (Some e) s, [])
      | (ReadSummary run i, GotSummary b) \<Rightarrow> Some (summary_answer run (Inr b) s, [])
      | (ReadSummary run i, Refused e) \<Rightarrow> Some (summary_answer run (Inl e) s, [])
      | (ListFirst g i f, GotPage rows cursor) \<Rightarrow> Some (first_page g (Inr (rows, cursor)) s, [])
      | (ListFirst g i f, Refused e) \<Rightarrow> Some (first_page g (Inl e) s, [])
      | (ListMore g i f c, GotPage rows cursor) \<Rightarrow> Some (next_page g (Inr (rows, cursor)) s, [])
      | (ListMore g i f c, Refused e) \<Rightarrow> Some (next_page g (Inl e) s, [])
      | (ReadTransaction g i t f, GotTransaction d) \<Rightarrow> Some (transaction_answer g t (Inr d) s, [])
      | (ReadTransaction g i t f, Refused e) \<Rightarrow> Some (transaction_answer g t (Inl e) s, [])
      | (ReadResetSql i t f, GotResetSql out) \<Rightarrow> Some (reset_sql_answer t out s)
      | (ReadResetSql i t f, Refused e) \<Rightarrow> Some (reset_failed t e s, [])
      | (WriteClipboard t out, Done) \<Rightarrow> Some (clipboard_answer t out s, [])
      | (WriteClipboard t out, Refused e) \<Rightarrow> Some (reset_failed t e s, [])
      | _ \<Rightarrow> None)"

definition answered :: "nat \<Rightarrow> binlog \<Rightarrow> binlog" where
  "answered n s = s \<lparr> bw_requests := take n (bw_requests s) @ drop (Suc n) (bw_requests s) \<rparr>"

definition reply_handler :: "nat \<Rightarrow> reply \<Rightarrow> binlog \<Rightarrow> binlog_result" where
  "reply_handler n a s =
     (case at (bw_requests s) n of
        None \<Rightarrow> (s, [])
      | Some q \<Rightarrow> (case reply_result q a (answered n s) of None \<Rightarrow> (s, []) | Some r \<Rightarrow> r))"

definition on_click :: "bool \<Rightarrow> binlog_result \<Rightarrow> binlog \<Rightarrow> binlog_result" where
  "on_click b r s = (if mountedRef s \<and> b then r else (s, []))"

fun binlog_handler :: "binlog_label \<Rightarrow> binlog \<Rightarrow> binlog_result" where
  "binlog_handler ChooseFiles s = on_click (can_choose s) (s, [PickFiles]) s"
| "binlog_handler RetryImport s = on_click (can_retry s) (beginImport (selectedPaths s) s) s"
| "binlog_handler CancelImport s = on_click (can_cancel s) (cancelImport s) s"
| "binlog_handler (PickDatabase d) s =
     on_click (analysis_shown s) (change_filter (\<lambda>f. f \<lparr> tf_database := d, tf_table := [] \<rparr>) s, []) s"
| "binlog_handler (PickTable t) s = on_click (analysis_shown s) (change_filter (\<lambda>f. f \<lparr> tf_table := t \<rparr>) s, []) s"
| "binlog_handler (PickOperation p) s = on_click (analysis_shown s) (change_filter (\<lambda>f. f \<lparr> tf_operation := p \<rparr>) s, []) s"
| "binlog_handler ReloadTimeline s =
     on_click (analysis_shown s \<and> truthy (timelineError s)) (s \<lparr> timelineReload := timelineReload s + 1 \<rparr>, []) s"
| "binlog_handler LoadMore s = on_click (analysis_shown s \<and> truthy (nextCursor s)) (loadMoreTransactions s) s"
| "binlog_handler (ToggleCard t) s = on_click (analysis_shown s \<and> t \<in> set (bw_transactions s)) (toggleTransaction t s) s"
| "binlog_handler (CopyReset t) s =
     on_click (analysis_shown s \<and> t \<in> set (bw_transactions s)
             \<and> \<not> reset_disabled t (tx_id t \<in> set (resetSqlLoadingIds s))) (copyResetSql t s) s"
| "binlog_handler (ImportEvent run event) s = import_event run event s"
| "binlog_handler (Reply n a) s = reply_handler n a s"
| "binlog_handler UnmountBinlog s = on_click True (unmount_binlog s) s"

definition timeline_deps :: "binlog \<Rightarrow> js option \<times> nat \<times> ImportPhase \<times> nat" where
  "timeline_deps s = (bw_analysisId s, bw_filterVersion s, bw_phase s, timelineReload s)"

text \<open>The render and the timeline effect after a handler, and the requests that were made.\<close>

definition binlog_effects :: "binlog \<Rightarrow> binlog \<Rightarrow> binlog_result" where
  "binlog_effects old s = (if timeline_deps s \<noteq> timeline_deps old then timeline_effect s else (s, []))"

definition binlog_step :: "binlog_label \<Rightarrow> binlog \<Rightarrow> binlog_result" where
  "binlog_step l s =
     (let (s1, rs) = binlog_handler l s; (s2, rs') = binlog_effects s s1
      in (s2 \<lparr> bw_requests := bw_requests s2 @ rs @ rs' \<rparr>, rs @ rs'))"

section \<open>What is rendered\<close>

definition import_title :: "binlog \<Rightarrow> js" where
  "import_title s =
     (if truthy (currentFile (bw_progress s)) then fileBaseName (the (currentFile (bw_progress s)))
      else ([20934, 22791, 26085, 24535, 25991, 20214]))"

definition import_stats :: "binlog \<Rightarrow> js list" where
  "import_stats s =
     (let p = bw_progress s in
      [formatBytes (bytesRead p) @ u '' / '' @ formatBytes (totalBytes p),
       ([25991, 20214] @ u '' '') @ dec (filesCompleted p) @ u '' / '' @
         dec (if fileCount p = 0 then length (selectedPaths s) else fileCount p),
       formatCount (transactionCount p) @ (u '' '' @ [20010, 20107, 21153]),
       formatCount (eventCount p) @ (u '' '' @ [20010, 20107, 20214])])"

definition timeline_cards :: "date_host \<Rightarrow> binlog \<Rightarrow> transaction_card list" where
  "timeline_cards D s =
     map (\<lambda>t. TransactionCard D t (transactionDetails s (tx_id t)) (transactionDetailErrors s (tx_id t))
                (tx_id t \<in> set (transactionDetailLoadingIds s)) (tx_id t \<in> set (expandedIds s))
                (resetSqlFeedback s (tx_id t)) (tx_id t \<in> set (resetSqlLoadingIds s))) (bw_transactions s)"

text \<open>The notice that the filter matches nothing, and the one that the timeline ends here.\<close>

definition shows_no_match :: "binlog \<Rightarrow> bool" where
  "shows_no_match s \<longleftrightarrow>
     analysis_shown s \<and> \<not> timelineLoading s \<and> \<not> truthy (timelineError s) \<and> bw_transactions s = []"

definition shows_end :: "binlog \<Rightarrow> bool" where
  "shows_end s \<longleftrightarrow> analysis_shown s \<and> \<not> truthy (nextCursor s) \<and> bw_transactions s \<noteq> []"

end
