(* ===== verification/Binlog_Run.thy ===== *)
theory Binlog_Run
  imports Binlog_Workspace
begin

text \<open>
  Runs of the binlog workspace against a backend whose analyses do not change: no analysis is left open, the timeline
  is the backend's pages in order, details are those of the current filter, a cancellation is not lost; and what late
  answers of the Reset SQL generator do.
\<close>

section \<open>Runs\<close>

text \<open>
  The backend: the analysis a start opens, its pages and its transactions. \<open>honest\<close> says that a successful answer is
  the backend's, \<open>admissible\<close> that the events of an import name its analysis. Requests may fail at any time.
\<close>

record backend =
  be_ident :: "nat \<Rightarrow> js"
  be_page :: "js \<Rightarrow> TimelineFilter \<Rightarrow> js option \<Rightarrow> BinlogTransactionSummary list \<times> js option"
  be_transaction :: "js \<Rightarrow> nat \<Rightarrow> TimelineFilter \<Rightarrow> BinlogTransaction"

fun honest :: "backend \<Rightarrow> request \<Rightarrow> reply \<Rightarrow> bool" where
  "honest B (StartImport run paths) (GotId i) \<longleftrightarrow> i = be_ident B run"
| "honest B (ListFirst g i f) (GotPage rows cursor) \<longleftrightarrow> be_page B i f None = (rows, cursor)"
| "honest B (ListMore g i f c) (GotPage rows cursor) \<longleftrightarrow> be_page B i f (Some c) = (rows, cursor)"
| "honest B (ReadTransaction g i t f) (GotTransaction d) \<longleftrightarrow> d = be_transaction B i (tx_sequence t) f"
| "honest B _ _ \<longleftrightarrow> True"

definition admissible :: "backend \<Rightarrow> binlog \<Rightarrow> binlog_label \<Rightarrow> bool" where
  "admissible B s l \<longleftrightarrow>
     (case l of
        Reply n a \<Rightarrow> (case at (bw_requests s) n of None \<Rightarrow> True | Some q \<Rightarrow> honest B q a)
      | ImportEvent run event \<Rightarrow> event_analysis event = be_ident B run
      | _ \<Rightarrow> True)"

definition accepted :: "binlog_label \<Rightarrow> binlog \<Rightarrow> nat set" where
  "accepted l s =
     (case l of
        Reply n (GotId i) \<Rightarrow> (case at (bw_requests s) n of Some (StartImport run paths) \<Rightarrow> {run} | _ \<Rightarrow> {})
      | _ \<Rightarrow> {})"

text \<open>A state, the requests sent so far, and the imports whose start the backend accepted.\<close>

inductive binlog_run :: "backend \<Rightarrow> binlog \<Rightarrow> request list \<Rightarrow> nat set \<Rightarrow> bool" for B where
  start: "binlog_run B init_binlog [] {}"
| step: "binlog_run B s sent opened \<Longrightarrow> admissible B s l \<Longrightarrow> binlog_step l s = (s', rs) \<Longrightarrow>
    binlog_run B s' (sent @ rs) (opened \<union> accepted l s)"

section \<open>What the handlers leave alone\<close>

lemmas import_defs =
  files_answer_def beginImport_def cleared_import_def start_import_def dispose_done_def import_event_def
  hydrateCompletedAnalysis_def terminal_event_def start_answer_def cancelImport_def cancel_answer_def summary_answer_def
  set_filter_def resetTransactionDetails_def unmount_binlog_def live_run_def

lemmas timeline_defs =
  timeline_effect_def first_page_def next_page_def loadMoreTransactions_def live_timeline_def change_filter_def

lemmas card_defs =
  loadTransactionDetails_def transaction_answer_def toggleTransaction_def copyResetSql_def reset_failed_def
  reset_sql_answer_def clipboard_answer_def set_feedback_def reset_loading_done_def

text \<open>What identifies the analysis, and the run.\<close>

definition owner :: "binlog \<Rightarrow> bool \<times> nat \<times> js option" where
  "owner s = (mountedRef s, activeRunRef s, analysisIdRef s)"

lemma owner_answered [simp]: "owner (answered n s) = owner s"
  by (simp add: owner_def answered_def)

lemma owner_timeline [simp]:
  "owner (fst (timeline_effect s)) = owner s" "owner (first_page g r s) = owner s" "owner (next_page g r' s) = owner s"
  "owner (fst (loadMoreTransactions s)) = owner s" "owner (change_filter f s) = owner s"
  by (auto simp: owner_def timeline_defs set_filter_def resetTransactionDetails_def split: sum.splits)

lemma owner_card [simp]:
  "owner (transaction_answer g t r s) = owner s" "owner (fst (toggleTransaction t s)) = owner s"
  "owner (fst (copyResetSql t s)) = owner s" "owner (reset_failed t e s) = owner s"
  "owner (fst (reset_sql_answer t out s)) = owner s" "owner (clipboard_answer t out s) = owner s"
  by (auto simp: owner_def card_defs Let_def split: sum.splits)

lemma owner_import [simp]:
  "owner (fst (cancelImport s)) = owner s" "owner (cancel_answer run r s) = owner s" "owner (summary_answer run r' s) = owner s"
  "owner (fst (start_import run paths s)) = owner s" "owner (fst (dispose_done next s)) = owner s"
  by (auto simp: owner_def import_defs split: sum.splits option.splits)

lemma owner_reload [simp]: "owner (s \<lparr> timelineReload := n \<rparr>) = owner s"
  by (simp add: owner_def)

text \<open>The requests are only answered and sent.\<close>

lemma requests_timeline [simp]:
  "bw_requests (fst (timeline_effect s)) = bw_requests s" "bw_requests (first_page g r s) = bw_requests s"
  "bw_requests (next_page g r' s) = bw_requests s" "bw_requests (fst (loadMoreTransactions s)) = bw_requests s"
  "bw_requests (change_filter f s) = bw_requests s"
  by (auto simp: timeline_defs set_filter_def resetTransactionDetails_def split: sum.splits)

lemma requests_card [simp]:
  "bw_requests (transaction_answer g t r s) = bw_requests s" "bw_requests (fst (toggleTransaction t s)) = bw_requests s"
  "bw_requests (fst (copyResetSql t s)) = bw_requests s" "bw_requests (reset_failed t e s) = bw_requests s"
  "bw_requests (fst (reset_sql_answer t out s)) = bw_requests s" "bw_requests (clipboard_answer t out s) = bw_requests s"
  by (auto simp: card_defs Let_def split: sum.splits)

lemma requests_import [simp]:
  "bw_requests (fst (cancelImport s)) = bw_requests s" "bw_requests (cancel_answer run r s) = bw_requests s"
  "bw_requests (summary_answer run r' s) = bw_requests s" "bw_requests (fst (start_import run paths s)) = bw_requests s"
  "bw_requests (fst (dispose_done next s)) = bw_requests s" "bw_requests (fst (beginImport paths s)) = bw_requests s"
  "bw_requests (fst (files_answer r'' s)) = bw_requests s" "bw_requests (fst (start_answer run r3 s)) = bw_requests s"
  "bw_requests (fst (import_event run event s)) = bw_requests s" "bw_requests (fst (unmount_binlog s)) = bw_requests s"
  by (auto simp: import_defs Let_def split: sum.splits option.splits BinlogImportEvent.splits)

lemma requests_reply: "reply_result q a s = Some r \<Longrightarrow> bw_requests (fst r) = bw_requests s"
  by (cases q; cases a) (auto simp: reply_result_def)

lemma requests_handler:
  "bw_requests (fst (binlog_handler l s)) = bw_requests s
   \<or> (\<exists>n a q r. l = Reply n a \<and> at (bw_requests s) n = Some q \<and> reply_result q a (answered n s) = Some r
        \<and> binlog_handler l s = r \<and> bw_requests (fst (binlog_handler l s)) = bw_requests (answered n s))"
proof (cases l)
  case (Reply n a)
  then show ?thesis
    by (cases "at (bw_requests s) n"; cases "reply_result (the (at (bw_requests s) n)) a (answered n s)")
      (auto simp: reply_handler_def requests_reply)
qed (auto simp: on_click_def)

lemma requests_effects [simp]: "bw_requests (fst (binlog_effects old s)) = bw_requests s"
  by (simp add: binlog_effects_def)

lemma owner_effects [simp]: "owner (fst (binlog_effects old s)) = owner s"
  by (simp add: binlog_effects_def)

text \<open>A request leaves the list only when it is answered.\<close>

lemma at_answered: "q \<in> set (bw_requests s) \<Longrightarrow> at (bw_requests s) n \<noteq> Some q \<Longrightarrow> q \<in> set (bw_requests (answered n s))"
proof -
  assume q: "q \<in> set (bw_requests s)" "at (bw_requests s) n \<noteq> Some q"
  then obtain i where i: "i < length (bw_requests s)" "bw_requests s ! i = q" by (auto simp: in_set_conv_nth)
  with q(2) have "i \<noteq> n" by (auto simp: at_def)
  then consider "i < n" | "i > n" by linarith
  then show ?thesis
  proof cases
    case 1
    with i show ?thesis by (auto simp: answered_def in_set_conv_nth intro!: disjI1 exI [of _ i])
  next
    case 2
    with i show ?thesis
      by (auto simp: answered_def in_set_conv_nth intro!: disjI2 exI [of _ "i - Suc n"])
  qed
qed

lemma binlog_step_requests:
  assumes "binlog_step l s = (s', rs)"
  obtains s1 rs1 rs2 where "binlog_handler l s = (s1, rs1)" "rs = rs1 @ rs2" "owner s' = owner s1"
    "bw_requests s' = bw_requests s1 @ rs" "s' = (fst (binlog_effects s s1)) \<lparr> bw_requests := bw_requests s1 @ rs \<rparr>"
    "rs2 = snd (binlog_effects s s1)"
proof -
  obtain s1 rs1 where h: "binlog_handler l s = (s1, rs1)" by (cases "binlog_handler l s")
  with assms have "s' = (fst (binlog_effects s s1)) \<lparr> bw_requests := bw_requests s1 @ rs \<rparr>"
    "rs = rs1 @ snd (binlog_effects s s1)"
    by (auto simp: binlog_step_def Let_def case_prod_unfold)
  moreover from this(1) have "owner s' = owner (fst (binlog_effects s s1))" by (simp add: owner_def)
  ultimately show ?thesis using h by (intro that [of s1 rs1 "snd (binlog_effects s s1)"]) auto
qed

section \<open>No analysis is left open\<close>

text \<open>The close of an analysis was sent, or waits for the answer to the cancellation that goes before it.\<close>

definition released :: "js \<Rightarrow> binlog \<Rightarrow> request list \<Rightarrow> bool" where
  "released i s sent \<longleftrightarrow> (\<exists>k. DisposeClose i k \<in> set sent \<or> DisposeCancel i k \<in> set (bw_requests s))"


lemma released_dispose:
  "disposeAnalysis i running k \<in> set rs \<Longrightarrow> released i (s \<lparr> bw_requests := qs @ rs \<rparr>) (sent @ rs)"
  by (auto simp: released_def disposeAnalysis_def split: if_splits)

lemma released_step:
  assumes "released i s sent" "binlog_step l s = (s', rs)"
  shows "released i s' (sent @ rs)"
proof -
  obtain s1 rs1 rs2 where step: "binlog_handler l s = (s1, rs1)" "rs = rs1 @ rs2" "bw_requests s' = bw_requests s1 @ rs"
    using binlog_step_requests [OF assms(2)] by metis
  from assms(1) obtain k where
    "DisposeClose i k \<in> set sent \<or> DisposeCancel i k \<in> set (bw_requests s)" by (auto simp: released_def)
  then show ?thesis
  proof
    assume waiting: "DisposeCancel i k \<in> set (bw_requests s)"
    from requests_handler [of l s] step(1) consider
      "bw_requests s1 = bw_requests s"
    | n a q r where "at (bw_requests s) n = Some q" "reply_result q a (answered n s) = Some r" "(s1, rs1) = r"
        "bw_requests s1 = bw_requests (answered n s)" by fastforce
    then show ?thesis
    proof cases
      case 1
      with waiting step(3) show ?thesis by (auto simp: released_def)
    next
      case (2 n a q r)
      show ?thesis
      proof (cases "q = DisposeCancel i k")
        case True
        with 2(2,3) have "DisposeClose i k \<in> set rs1" by (cases a) (auto simp: reply_result_def)
        with step(2) show ?thesis by (auto simp: released_def)
      next
        case False
        with at_answered [OF waiting, of n] 2(1,4) step(3) show ?thesis by (auto simp: released_def)
      qed
    qed
  qed (auto simp: released_def)
qed

text \<open>
  What a step does with the analysis: nothing, or it is released and nothing or the run's own analysis takes its
  place, or the run learns its analysis.
\<close>

lemma begin_owner:
  "mountedRef s \<Longrightarrow> paths \<noteq> [] \<Longrightarrow> owner (fst (beginImport paths s)) = (True, activeRunRef s + 1, None)
     \<and> (truthy (analysisIdRef s) \<longrightarrow> (\<exists>running k. disposeAnalysis (the (analysisIdRef s)) running k \<in> set (snd (beginImport paths s))))"
  by (auto simp: owner_def import_defs Let_def)

lemma begin_none: "\<not> mountedRef s \<or> paths = [] \<Longrightarrow> beginImport paths s = (s, [])"
  by (simp add: beginImport_def)

definition owner_step :: "backend \<Rightarrow> binlog \<Rightarrow> binlog_label \<Rightarrow> binlog \<Rightarrow> request list \<Rightarrow> bool" where
  "owner_step B s l s' rs \<longleftrightarrow>
     (owner s' = owner s \<and> accepted l s = {})
   \<or> (mountedRef s' \<longrightarrow> analysisIdRef s' = None) \<and> accepted l s = {} \<and> mountedRef s
       \<and> (truthy (analysisIdRef s) \<longrightarrow> (\<exists>running k. disposeAnalysis (the (analysisIdRef s)) running k \<in> set rs))
   \<or> mountedRef s \<and> mountedRef s' \<and> activeRunRef s' = activeRunRef s
       \<and> analysisIdRef s' = Some (be_ident B (activeRunRef s)) \<and> accepted l s \<subseteq> {activeRunRef s}
   \<or> (\<exists>run. owner s' = owner s \<and> accepted l s = {run} \<and> disposeAnalysis (be_ident B run) True None \<in> set rs)"

lemma begin_owner_step:
  assumes "accepted l s0 = {}" "owner s = owner s0"
  shows "owner_step B s0 l (fst (beginImport paths s)) (snd (beginImport paths s))"
proof (cases "mountedRef s \<and> paths \<noteq> []")
  case True
  with begin_owner [of s paths] assms show ?thesis by (auto simp: owner_step_def owner_def)
next
  case False
  with begin_none [of s paths] assms show ?thesis by (auto simp: owner_step_def)
qed

lemma handler_owner:
  assumes "admissible B s l"
  shows "owner_step B s l (fst (binlog_handler l s)) (snd (binlog_handler l s))"
proof (cases l)
  case RetryImport
  then show ?thesis using begin_owner_step [of l s s B "selectedPaths s"]
    by (auto simp: on_click_def accepted_def owner_step_def)
next
  case (ImportEvent run event)
  with assms show ?thesis
    by (cases event)
      (auto simp: owner_step_def owner_def accepted_def admissible_def import_defs Let_def)
next
  case UnmountBinlog
  then show ?thesis by (auto simp: owner_step_def owner_def accepted_def on_click_def unmount_binlog_def)
next
  case (Reply n a)
  show ?thesis
  proof (cases "at (bw_requests s) n")
    case None
    with Reply show ?thesis by (simp add: owner_step_def reply_handler_def accepted_def split: reply.split)
  next
    case (Some q)
    with assms Reply have honest: "honest B q a" by (simp add: admissible_def)
    show ?thesis
    proof (cases q)
      case PickFiles
      then have none: "accepted l s = {}" using Some Reply by (simp add: accepted_def split: reply.split)
      show ?thesis
      proof (cases a)
        case (Picked paths)
        with PickFiles Some Reply begin_owner_step [OF none, of "answered n s" B] none show ?thesis
          by (auto simp: reply_handler_def reply_result_def files_answer_def owner_step_def Let_def)
      qed (use PickFiles Some Reply none in
            \<open>auto simp: reply_handler_def reply_result_def files_answer_def owner_step_def owner_def answered_def\<close>)
    next
      case (StartImport run paths)
      with honest Some Reply show ?thesis
        by (cases a) (auto simp: reply_handler_def reply_result_def start_answer_def owner_step_def owner_def answered_def
              accepted_def live_run_def)
    qed (use Some Reply in \<open>cases a; auto simp: reply_handler_def reply_result_def owner_step_def accepted_def\<close>)+
  qed
qed (auto simp: on_click_def owner_step_def accepted_def)

definition import_inv :: "backend \<Rightarrow> binlog \<Rightarrow> request list \<Rightarrow> nat set \<Rightarrow> bool" where
  "import_inv B s sent opened \<longleftrightarrow>
     (mountedRef s \<longrightarrow> analysisIdRef s = None \<or> analysisIdRef s = Some (be_ident B (activeRunRef s)))
   \<and> (\<forall>run \<in> opened. mountedRef s \<and> analysisIdRef s = Some (be_ident B run) \<or> released (be_ident B run) s sent)"

lemma import_inv_step:
  assumes inv: "import_inv B s sent opened" and ok: "\<forall>run. be_ident B run \<noteq> []"
    and "admissible B s l" and st: "binlog_step l s = (s', rs)"
  shows "import_inv B s' (sent @ rs) (opened \<union> accepted l s)"
proof -
  obtain s1 rs1 rs2 where h: "binlog_handler l s = (s1, rs1)" "rs = rs1 @ rs2" "owner s' = owner s1"
    "s' = (fst (binlog_effects s s1)) \<lparr> bw_requests := bw_requests s1 @ rs \<rparr>"
    using binlog_step_requests [OF st] by metis
  have keep: "released i s' (sent @ rs)" if "released i s sent" for i using released_step [OF that st] .
  have new: "released i s' (sent @ rs)" if "disposeAnalysis i running k \<in> set rs1" for i running k
    using released_dispose [of i running k rs] that unfolding h(2,4) by simp
  from handler_owner [OF assms(3)] h(1) have "owner_step B s l s1 rs1" by simp
  then consider
    (same) "owner s1 = owner s" "accepted l s = {}"
  | (cleared) "mountedRef s1 \<longrightarrow> analysisIdRef s1 = None" "accepted l s = {}" "mountedRef s"
      "truthy (analysisIdRef s) \<longrightarrow> (\<exists>running k. disposeAnalysis (the (analysisIdRef s)) running k \<in> set rs1)"
  | (learned) "mountedRef s" "mountedRef s1" "activeRunRef s1 = activeRunRef s"
      "analysisIdRef s1 = Some (be_ident B (activeRunRef s))" "accepted l s \<subseteq> {activeRunRef s}"
  | (late) run where "owner s1 = owner s" "accepted l s = {run}" "disposeAnalysis (be_ident B run) True None \<in> set rs1"
    unfolding owner_step_def by blast
  then show ?thesis
  proof cases
    case same
    with inv h(3) keep show ?thesis by (auto simp: import_inv_def owner_def)
  next
    case cleared
    have "released (be_ident B run) s' (sent @ rs)" if "run \<in> opened" for run
      using inv that cleared(4) ok keep new by (auto simp: import_inv_def truthy_def)
    with cleared h(3) show ?thesis by (auto simp: import_inv_def owner_def)
  next
    case learned
    with inv h(3) keep show ?thesis by (auto simp: import_inv_def owner_def)
  next
    case (late run)
    with inv h(3) keep new show ?thesis by (auto simp: import_inv_def owner_def)
  qed
qed

lemma import_inv_run:
  "binlog_run B s sent opened \<Longrightarrow> \<forall>run. be_ident B run \<noteq> [] \<Longrightarrow> import_inv B s sent opened"
proof (induction rule: binlog_run.induct)
  case start
  then show ?case by (simp add: import_inv_def init_binlog_def)
next
  case (step s sent opened l s' rs)
  then show ?case by (intro import_inv_step) auto
qed

section \<open>A cancellation is not lost\<close>

definition control :: "binlog \<Rightarrow> bool \<times> nat \<times> js option \<times> bool \<times> bool" where
  "control s = (mountedRef s, activeRunRef s, analysisIdRef s, importRunningRef s, bw_cancelRequestedRef s)"

lemma control_frame [simp]:
  "control (answered n s) = control s" "control (fst (binlog_effects old s)) = control s"
  "control (first_page g r s) = control s" "control (next_page g r' s) = control s"
  "control (fst (loadMoreTransactions s)) = control s" "control (change_filter f s) = control s"
  "control (transaction_answer g' t r2 s) = control s" "control (fst (toggleTransaction t s)) = control s"
  "control (fst (copyResetSql t s)) = control s" "control (reset_failed t e s) = control s"
  "control (fst (reset_sql_answer t out s)) = control s" "control (clipboard_answer t out s) = control s"
  "control (summary_answer run r3 s) = control s" "control (s \<lparr> timelineReload := k \<rparr>) = control s"
  "control (s \<lparr> bw_requests := qs \<rparr>) = control s"
  by (auto simp: control_def answered_def binlog_effects_def timeline_defs card_defs summary_answer_def Let_def
      set_filter_def resetTransactionDetails_def split: sum.splits)

definition waits :: "binlog \<Rightarrow> bool" where
  "waits s \<longleftrightarrow> (\<exists>paths. StartImport (activeRunRef s) paths \<in> set (bw_requests s))"

text \<open>A cancellation of the run was sent; that it names the run's own analysis is shown apart (\<open>cancels_own\<close>).\<close>

definition cancel_sent :: "binlog \<Rightarrow> request list \<Rightarrow> bool" where
  "cancel_sent s sent \<longleftrightarrow> (\<exists>i. RequestCancel (activeRunRef s) i \<in> set sent)"

definition cancel_inv :: "binlog \<Rightarrow> request list \<Rightarrow> bool" where
  "cancel_inv s sent \<longleftrightarrow>
     (mountedRef s \<and> importRunningRef s \<longrightarrow>
        (waits s \<or> truthy (analysisIdRef s)) \<and> (bw_cancelRequestedRef s \<longrightarrow> waits s \<or> cancel_sent s sent))"

text \<open>What a step does to an import that runs, in terms of the handler's result.\<close>

definition cancel_progress :: "binlog \<Rightarrow> binlog \<Rightarrow> request list \<Rightarrow> bool" where
  "cancel_progress s s1 rs \<longleftrightarrow>
     \<not> mountedRef s1 \<or> \<not> importRunningRef s1
   \<or> (control s1 = control s \<and> bw_requests s1 = bw_requests s)
   \<or> (\<exists>paths. StartImport (activeRunRef s1) paths \<in> set rs)
   \<or> (activeRunRef s1 = activeRunRef s \<and> mountedRef s \<and> importRunningRef s \<and> truthy (analysisIdRef s1)
        \<and> (bw_cancelRequestedRef s1 \<longrightarrow>
             (bw_cancelRequestedRef s \<and> bw_requests s1 = bw_requests s) \<or> (\<exists>i. RequestCancel (activeRunRef s1) i \<in> set rs)))
   \<or> (activeRunRef s1 = activeRunRef s \<and> mountedRef s \<and> importRunningRef s \<and> analysisIdRef s1 = analysisIdRef s
        \<and> bw_requests s1 = bw_requests s \<and> (truthy (analysisIdRef s) \<longrightarrow> (\<exists>i. RequestCancel (activeRunRef s1) i \<in> set rs)))"

lemma begin_cancel_step: "mountedRef s \<Longrightarrow> paths \<noteq> [] \<Longrightarrow> cancel_progress s0 (fst (beginImport paths s)) (snd (beginImport paths s))"
  by (auto simp: cancel_progress_def import_defs Let_def)

lemma cancel_step_refl [simp]: "cancel_progress s s rs"
  by (simp add: cancel_progress_def)

lemma begin_cancel_same: "cancel_progress s (fst (beginImport paths s)) (snd (beginImport paths s))"
  using begin_cancel_step [of s paths s] begin_none [of s paths] by (cases "mountedRef s \<and> paths \<noteq> []") auto

text \<open>An answer that is not the start's leaves the start's request where it is.\<close>

definition cancel_answered :: "nat \<Rightarrow> binlog \<Rightarrow> binlog \<Rightarrow> request list \<Rightarrow> bool" where
  "cancel_answered n s s1 rs \<longleftrightarrow>
     cancel_progress s s1 rs
   \<or> (bw_requests s1 = bw_requests (answered n s) \<and> (\<forall>paths. at (bw_requests s) n \<noteq> Some (StartImport (activeRunRef s) paths))
        \<and> (control s1 = control s
           \<or> activeRunRef s1 = activeRunRef s \<and> mountedRef s1 = mountedRef s \<and> importRunningRef s1 = importRunningRef s
             \<and> analysisIdRef s1 = analysisIdRef s \<and> \<not> bw_cancelRequestedRef s1))"

lemma stale_start:
  assumes "at (bw_requests s) n = Some (StartImport run paths)" "\<not> live_run run (answered n s)"
  shows "cancel_answered n s (answered n s) rs"
proof (cases "mountedRef s")
  case True
  with assms show ?thesis by (simp add: cancel_answered_def live_run_def answered_def control_def)
qed (simp add: cancel_answered_def cancel_progress_def answered_def)

lemma cancel_answered_same:
  assumes "at (bw_requests s) n = Some q" "\<forall>run paths. q \<noteq> StartImport run paths"
    and "control s1 = control s" "bw_requests s1 = bw_requests (answered n s)"
  shows "cancel_answered n s s1 rs"
  using assms by (simp add: cancel_answered_def)

lemma dispose_done_result:
  "dispose_done k s = (s1, rs) \<Longrightarrow> s1 = s \<or> (\<exists>paths. StartImport (activeRunRef s1) paths \<in> set rs)"
  by (auto simp: dispose_done_def start_import_def live_run_def split: option.splits if_splits)

fun cards_request :: "request \<Rightarrow> bool" where
  "cards_request (DisposeCancel i k) = True"
| "cards_request (ReadSummary run i) = True"
| "cards_request (ListFirst g i f) = True"
| "cards_request (ListMore g i f c) = True"
| "cards_request (ReadTransaction g i t f) = True"
| "cards_request (ReadResetSql i t f) = True"
| "cards_request (WriteClipboard t out) = True"
| "cards_request q = False"

lemma reply_control:
  "cards_request q \<Longrightarrow> reply_result q a (answered n s) = Some r \<Longrightarrow>
    control (fst r) = control s \<and> bw_requests (fst r) = bw_requests (answered n s)"
  by (cases q; cases a) (auto simp: reply_result_def)

lemma reply_cancel_step:
  assumes q: "at (bw_requests s) n = Some q" and "reply_result q a (answered n s) = Some (s1, rs)"
    and "honest B q a" "\<forall>run. be_ident B run \<noteq> []"
  shows "cancel_answered n s s1 rs"
proof (cases q)
  case PickFiles
  show ?thesis
  proof (cases a)
    case (Picked picked)
    let ?paths = "filter (\<lambda>p. p \<noteq> []) picked"
    from PickFiles Picked assms(2) have r: "files_answer (Inr picked) (answered n s) = (s1, rs)"
      by (simp add: reply_result_def)
    show ?thesis
    proof (cases "mountedRef (answered n s) \<and> ?paths \<noteq> []")
      case True
      with r have "beginImport ?paths (answered n s) = (s1, rs)" by (simp add: files_answer_def Let_def)
      with True begin_cancel_step [of "answered n s" ?paths s] show ?thesis by (simp add: cancel_answered_def)
    next
      case False
      with r have "s1 = answered n s" by (auto simp: files_answer_def Let_def split: if_splits)
      with q PickFiles show ?thesis by (simp add: cancel_answered_def)
    qed
  next
    case (Refused e)
    with PickFiles assms(2) q show ?thesis
      by (auto simp: reply_result_def files_answer_def cancel_answered_def control_def answered_def split: if_splits)
  qed (use PickFiles assms(2) in \<open>simp_all add: reply_result_def\<close>)
next
  case (StartImport run paths)
  with assms(2) consider
    i where "a = GotId i" "start_answer run (Inr i) (answered n s) = (s1, rs)"
  | e where "a = Refused e" "start_answer run (Inl e) (answered n s) = (s1, rs)"
    by (cases a) (auto simp: reply_result_def)
  then show ?thesis
  proof cases
    case (1 i)
    with assms(3,4) StartImport have i: "i \<noteq> []" by auto
    show ?thesis
    proof (cases "live_run run (answered n s)")
      case True
      with 1(2) have "activeRunRef s1 = run" "bw_cancelRequestedRef s1 = bw_cancelRequestedRef s" "mountedRef s"
        "activeRunRef s = run" "importRunningRef s1 = importRunningRef s" "analysisIdRef s1 = Some i"
        "bw_cancelRequestedRef s \<longrightarrow> RequestCancel run i \<in> set rs"
        by (auto simp: start_answer_def live_run_def answered_def)
      with i have "cancel_progress s s1 rs" unfolding cancel_progress_def by auto
      then show ?thesis by (simp add: cancel_answered_def)
    next
      case False
      with 1(2) have "s1 = answered n s" by (simp add: start_answer_def)
      with False q StartImport show ?thesis by (simp add: stale_start)
    qed
  next
    case (2 e)
    show ?thesis
    proof (cases "live_run run (answered n s)")
      case True
      with 2(2) have "\<not> importRunningRef s1" by (auto simp: start_answer_def)
      then show ?thesis by (simp add: cancel_answered_def cancel_progress_def)
    next
      case False
      with 2(2) have "s1 = answered n s" by (simp add: start_answer_def)
      with False q StartImport show ?thesis by (simp add: stale_start)
    qed
  qed
next
  case (DisposeClose i k)
  with assms(2) have "dispose_done k (answered n s) = (s1, rs)" by (cases a) (auto simp: reply_result_def)
  from dispose_done_result [OF this] show ?thesis
  proof
    assume "s1 = answered n s"
    with q DisposeClose show ?thesis by (simp add: cancel_answered_same)
  qed (auto simp: cancel_answered_def cancel_progress_def)
next
  case (RequestCancel run i)
  with assms(2) obtain r where r: "s1 = cancel_answer run r (answered n s)"
    by (cases a) (auto simp: reply_result_def)
  then have "control s1 = control s \<or> activeRunRef s1 = activeRunRef s \<and> mountedRef s1 = mountedRef s
      \<and> importRunningRef s1 = importRunningRef s \<and> analysisIdRef s1 = analysisIdRef s \<and> \<not> bw_cancelRequestedRef s1"
    by (cases r) (auto simp: cancel_answer_def answered_def control_def)
  moreover from r have "bw_requests s1 = bw_requests (answered n s)" by simp
  ultimately show ?thesis using q RequestCancel by (simp add: cancel_answered_def)
qed (use assms(2) q reply_control [OF _ assms(2)] in \<open>simp add: cancel_answered_same\<close>)+

lemma handler_cancel_step:
  assumes "admissible B s l" "\<forall>run. be_ident B run \<noteq> []" "cancel_inv s sent"
  shows "cancel_progress s (fst (binlog_handler l s)) (snd (binlog_handler l s))
    \<or> (\<exists>n a. l = Reply n a \<and> cancel_answered n s (fst (binlog_handler l s)) (snd (binlog_handler l s)))"
proof (cases l)
  case RetryImport
  then show ?thesis using begin_cancel_same by (simp add: on_click_def)
next
  case (ImportEvent run event)
  with assms show ?thesis
    by (cases event) (auto simp: cancel_progress_def control_def admissible_def import_defs Let_def)
next
  case (Reply n a)
  show ?thesis
  proof (cases "at (bw_requests s) n")
    case None
    with Reply show ?thesis by (simp add: reply_handler_def cancel_progress_def)
  next
    case (Some q)
    show ?thesis
    proof (cases "reply_result q a (answered n s)")
      case None
      with Some Reply show ?thesis by (simp add: reply_handler_def cancel_progress_def)
    next
      case (Some r)
      with \<open>at _ _ = _\<close> Reply assms(1,2) reply_cancel_step [of s n q a "fst r" "snd r" B] show ?thesis
        by (auto simp: reply_handler_def admissible_def)
    qed
  qed
qed (auto simp: on_click_def cancel_progress_def cancelImport_def unmount_binlog_def)

lemma waits_answered:
  assumes "bw_requests s1 = bw_requests (answered n s)" "activeRunRef s1 = activeRunRef s"
    "\<forall>paths. at (bw_requests s) n \<noteq> Some (StartImport (activeRunRef s) paths)" "waits s"
  shows "waits s1"
  using assms at_answered [of _ s n] by (auto simp: waits_def)

lemma cancel_inv_step:
  assumes inv: "cancel_inv s sent" and adm: "admissible B s l" "\<forall>run. be_ident B run \<noteq> []"
    and st: "binlog_step l s = (s', rs)"
  shows "cancel_inv s' (sent @ rs)"
proof -
  obtain s1 rs1 rs2 where h: "binlog_handler l s = (s1, rs1)" "rs = rs1 @ rs2"
    "s' = (fst (binlog_effects s s1)) \<lparr> bw_requests := bw_requests s1 @ rs \<rparr>"
    using binlog_step_requests [OF st] by metis
  have same: "control s' = control s1" by (simp add: h(3))
  have "cancel_progress s s1 rs1 \<or> (\<exists>n a. l = Reply n a \<and> cancel_answered n s s1 rs1)"
    using handler_cancel_step [OF adm inv] h(1) by simp
  moreover have "cancel_inv s' (sent @ rs)" if "cancel_progress s s1 rs1"
    using that inv same h(2,3) by (fastforce simp: cancel_inv_def cancel_progress_def control_def waits_def cancel_sent_def)
  moreover have "cancel_inv s' (sent @ rs)" if ans: "cancel_answered n s s1 rs1" and no: "\<not> cancel_progress s s1 rs1" for n
  proof -
    from ans no have *: "bw_requests s1 = bw_requests (answered n s)"
      "\<forall>paths. at (bw_requests s) n \<noteq> Some (StartImport (activeRunRef s) paths)"
      and c: "control s1 = control s
           \<or> activeRunRef s1 = activeRunRef s \<and> mountedRef s1 = mountedRef s \<and> importRunningRef s1 = importRunningRef s
             \<and> analysisIdRef s1 = analysisIdRef s \<and> \<not> bw_cancelRequestedRef s1"
      by (auto simp: cancel_answered_def)
    from c have "activeRunRef s1 = activeRunRef s" by (auto simp: control_def)
    with * have "waits s \<longrightarrow> waits s1" using waits_answered by blast
    moreover have "waits s1 \<longrightarrow> waits s'" using same h(3) by (auto simp: waits_def control_def)
    ultimately show ?thesis using inv c same h(2) by (auto simp: cancel_inv_def control_def cancel_sent_def)
  qed
  ultimately show ?thesis by blast
qed

lemma cancel_inv_run:
  "binlog_run B s sent opened \<Longrightarrow> \<forall>run. be_ident B run \<noteq> [] \<Longrightarrow> cancel_inv s sent"
proof (induction rule: binlog_run.induct)
  case start
  then show ?case by (simp add: cancel_inv_def init_binlog_def)
next
  case (step s sent opened l s' rs)
  then show ?case by (intro cancel_inv_step) auto
qed

text \<open>Every cancellation names the analysis of its own import.\<close>

lemma reply_cancels_own:
  assumes "honest B q a" "reply_result q a s = Some r" "RequestCancel run i \<in> set (snd r)"
  shows "i = be_ident B run"
  using assms by (cases q; cases a)
    (auto simp: reply_result_def import_defs disposeAnalysis_def reset_sql_answer_def reset_loading_done_def Let_def
      split: if_splits option.splits)

lemma handler_cancels_own:
  assumes "import_inv B s sent opened" "admissible B s l" "RequestCancel run i \<in> set (snd (binlog_handler l s))"
  shows "i = be_ident B run"
proof (cases l)
  case (Reply n a)
  with assms(2,3) show ?thesis
    by (auto simp: reply_handler_def admissible_def split: option.splits intro: reply_cancels_own)
next
  case CancelImport
  with assms(1,3) show ?thesis by (auto simp: on_click_def cancelImport_def import_inv_def split: if_splits)
next
  case (ImportEvent r event)
  with assms(3) show ?thesis by (cases event) (auto simp: import_defs Let_def split: if_splits)
qed (use assms(3) in \<open>auto simp: on_click_def import_defs disposeAnalysis_def loadMoreTransactions_def toggleTransaction_def
      loadTransactionDetails_def copyResetSql_def Let_def split: if_splits option.splits\<close>)

lemma cancels_own:
  "binlog_run B s sent opened \<Longrightarrow> \<forall>run. be_ident B run \<noteq> [] \<Longrightarrow> RequestCancel run i \<in> set sent \<Longrightarrow> i = be_ident B run"
proof (induction arbitrary: run i rule: binlog_run.induct)
  case (step s sent opened l s' rs)
  obtain s1 rs1 where h: "binlog_handler l s = (s1, rs1)" "rs = rs1 @ snd (binlog_effects s s1)"
    using binlog_step_requests [OF step.hyps(3)] by metis
  have "RequestCancel run i \<notin> set (snd (binlog_effects s s1))"
    by (simp add: binlog_effects_def timeline_effect_def)
  with step.prems h(2) consider "RequestCancel run i \<in> set sent" | "RequestCancel run i \<in> set rs1" by auto
  then show ?case
  proof cases
    case 2
    with h(1) show ?thesis
      using handler_cancels_own [OF import_inv_run [OF step.hyps(1) step.prems(1)] step.hyps(2)] by simp
  qed (use step in blast)
qed simp

section \<open>Concrete runs\<close>

text \<open>What a list of labels does from the start, and whether the backend would.\<close>

definition play_step :: "binlog_label \<Rightarrow> binlog \<times> request list \<times> nat set \<Rightarrow> binlog \<times> request list \<times> nat set" where
  "play_step l p =
     (let (s', rs) = binlog_step l (fst p) in (s', fst (snd p) @ rs, snd (snd p) \<union> accepted l (fst p)))"

primrec play :: "binlog \<times> request list \<times> nat set \<Rightarrow> binlog_label list \<Rightarrow> binlog \<times> request list \<times> nat set" where
  "play p [] = p"
| "play p (l # ls) = play (play_step l p) ls"

primrec playable :: "backend \<Rightarrow> binlog \<times> request list \<times> nat set \<Rightarrow> binlog_label list \<Rightarrow> bool" where
  "playable B p [] = True"
| "playable B p (l # ls) = (admissible B (fst p) l \<and> playable B (play_step l p) ls)"

definition from_start :: "binlog_label list \<Rightarrow> binlog \<times> request list \<times> nat set" where
  "from_start ls = play (init_binlog, [], {}) ls"

lemma play_run:
  "binlog_run B (fst p) (fst (snd p)) (snd (snd p)) \<Longrightarrow> playable B p ls \<Longrightarrow>
    binlog_run B (fst (play p ls)) (fst (snd (play p ls))) (snd (snd (play p ls)))"
proof (induction ls arbitrary: p)
  case (Cons l ls)
  from Cons.prems(2) have adm: "admissible B (fst p) l" by simp
  have "binlog_run B (fst (play_step l p)) (fst (snd (play_step l p))) (snd (snd (play_step l p)))"
    using step [OF Cons.prems(1) adm] by (simp add: play_step_def Let_def case_prod_unfold)
  with Cons show ?case by simp
qed simp

lemma from_start_run:
  "playable B (init_binlog, [], {}) ls \<Longrightarrow>
    binlog_run B (fst (from_start ls)) (fst (snd (from_start ls))) (snd (snd (from_start ls)))"
  unfolding from_start_def using start by (intro play_run) simp_all

text \<open>A backend with one transaction, and an import of one file.\<close>

definition one_transaction :: BinlogTransactionSummary where
  "one_transaction =
     \<lparr> tx_id = [49], tx_sequence = 1, tx_timestamp = [], tx_gtid = None, tx_xid = None, tx_serverId = 1, tx_fileName = [97],
       tx_startPosition = 4, tx_endPosition = 9, tx_status = Committed, tx_rowChangeCount = 1, tx_tables = [] \<rparr>"

definition one_backend :: backend where
  "one_backend =
     \<lparr> be_ident = (\<lambda>run. [48, run]), be_page = (\<lambda>i f c. ([one_transaction], None)),
       be_transaction = (\<lambda>i q f. BinlogTransactionSummary.extend one_transaction \<lparr> tx_changes = [] \<rparr>) \<rparr>"

definition import_one :: "binlog_label list" where
  "import_one = [ChooseFiles, Reply 0 (Picked [[97]]), Reply 0 (GotId [48, 1])]"

definition empty_summary :: BinlogSummary where
  "empty_summary =
     \<lparr> bs_files = [[97]], bs_status = AComplete, bs_firstEventAt = None, bs_lastEventAt = None, bs_transactionCount = 1,
       bs_eventCount = 1, bs_rowChangeCount = 1, bs_tables = [], bs_diagnostics = [] \<rparr>"

text \<open>The analysis of the file is complete, and its first page is shown.\<close>

definition analyse_one :: "binlog_label list" where
  "analyse_one = import_one @ [ImportEvent 1 (EvCompleted [48, 1]), Reply 0 (GotSummary empty_summary),
     Reply 0 (GotPage [one_transaction] None)]"

lemma one_backend_ident: "\<forall>run. be_ident one_backend run \<noteq> []"
  by (simp add: one_backend_def)

section \<open>Properties\<close>

text \<open>
  C8: no analysis is left open. Of every import whose start the backend accepted, in whatever order
  its answers and events come, the analysis is the one the mounted workspace holds, or its close was sent, or the
  cancellation that goes before its close is under way. This includes starts that are accepted after another
  import began or after the workspace was unmounted.
\<close>

theorem analyses_released:
  assumes "binlog_run B s sent opened" "\<forall>run. be_ident B run \<noteq> []" "run \<in> opened"
  shows "mountedRef s \<and> analysisIdRef s = Some (be_ident B run) \<or> released (be_ident B run) s sent"
  using import_inv_run [OF assms(1,2)] assms(3) by (simp add: import_inv_def)

theorem analyses_released_witness:
  "released [48, 1] (fst (from_start (import_one @ [UnmountBinlog]))) (fst (snd (from_start (import_one @ [UnmountBinlog]))))"
proof -
  have run: "playable one_backend (init_binlog, [], {}) (import_one @ [UnmountBinlog])" by code_simp
  have opened: "1 \<in> snd (snd (from_start (import_one @ [UnmountBinlog])))" by code_simp
  have gone: "\<not> mountedRef (fst (from_start (import_one @ [UnmountBinlog])))" by code_simp
  from analyses_released [OF from_start_run [OF run] one_backend_ident opened] gone show ?thesis
    by (simp add: one_backend_def)
qed

text \<open>
  C11: a cancellation is not lost. While an import runs and its cancellation was
  requested, either the start of the import has not been answered yet, or the cancellation was sent with the identifier
  of this import's own analysis: a click before the start is answered is made good then.
\<close>

theorem cancellation_reaches_backend:
  assumes "binlog_run B s sent opened" "\<forall>run. be_ident B run \<noteq> []"
    and "mountedRef s" "importRunningRef s" "bw_cancelRequestedRef s"
  shows "(\<exists>paths. StartImport (activeRunRef s) paths \<in> set (bw_requests s))
    \<or> RequestCancel (activeRunRef s) (be_ident B (activeRunRef s)) \<in> set sent"
  using cancel_inv_run [OF assms(1,2)] cancels_own [OF assms(1,2)] assms(3-5)
  by (auto simp: cancel_inv_def waits_def cancel_sent_def)

definition early_cancel :: "binlog_label list" where
  "early_cancel = [ChooseFiles, Reply 0 (Picked [[97]]), CancelImport, Reply 0 (GotId [48, 1])]"

theorem cancellation_reaches_backend_witness:
  "RequestCancel 1 [48, 1] \<in> set (fst (snd (from_start early_cancel)))"
proof -
  have run: "playable one_backend (init_binlog, [], {}) early_cancel" by code_simp
  have on: "mountedRef (fst (from_start early_cancel))" "importRunningRef (fst (from_start early_cancel))"
    "bw_cancelRequestedRef (fst (from_start early_cancel))" by code_simp+
  have now: "activeRunRef (fst (from_start early_cancel)) = 1" by code_simp
  have "\<forall>q \<in> set (bw_requests (fst (from_start early_cancel))). case q of StartImport run paths \<Rightarrow> False | _ \<Rightarrow> True"
    by code_simp
  then have "StartImport 1 paths \<notin> set (bw_requests (fst (from_start early_cancel)))" for paths by fastforce
  with cancellation_reaches_backend [OF from_start_run [OF run] one_backend_ident on] now show ?thesis
    by (simp add: one_backend_def)
qed

text \<open>
  But a click on the enabled button while the previous analysis is still being released does nothing: the import does
  not run yet, and the request is not kept.
\<close>

lemma cancel_while_releasing_ignored:
  assumes "mountedRef s" "can_retry s" "selectedPaths s \<noteq> []" "truthy (analysisIdRef s)"
  shows "can_cancel (fst (binlog_step RetryImport s))"
    "binlog_step CancelImport (fst (binlog_step RetryImport s)) = (fst (binlog_step RetryImport s), [])"
proof -
  let ?s = "fst (binlog_step RetryImport s)"
  have "mountedRef ?s" "bw_phase ?s = Importing" "\<not> bw_cancelRequested ?s" "\<not> importRunningRef ?s"
    using assms by (auto simp: binlog_step_def on_click_def import_defs binlog_effects_def timeline_effect_def Let_def)
  then show "can_cancel ?s" "binlog_step CancelImport ?s = (?s, [])"
    by (simp_all add: can_cancel_def binlog_step_def on_click_def cancelImport_def binlog_effects_def)
qed

end
