(* ===== verification/Binlog_Timeline.thy ===== *)
theory Binlog_Timeline
  imports Binlog_Run
begin

text \<open>
  The timeline of the binlog workspace: what it shows are the backend's pages in order under the present filter, and
  the details are those of the present filter. Answers that come late change nothing, but for those of the Reset SQL
  generator.
\<close>

section \<open>The pages of a filter\<close>

inductive timeline :: "backend \<Rightarrow> js \<Rightarrow> TimelineFilter \<Rightarrow> BinlogTransactionSummary list \<Rightarrow> js option \<Rightarrow> bool"
  for B i f where
  first: "be_page B i f None = (rows, cursor) \<Longrightarrow> timeline B i f rows cursor"
| more: "timeline B i f rows (Some c) \<Longrightarrow> be_page B i f (Some c) = (rows', cursor) \<Longrightarrow>
    timeline B i f (rows @ rows') cursor"

fun page_generation :: "request \<Rightarrow> nat option" where
  "page_generation (ListFirst g i f) = Some g"
| "page_generation (ListMore g i f c) = Some g"
| "page_generation q = None"

text \<open>The requests for a page whose answer will be shown.\<close>

definition page_requests :: "binlog \<Rightarrow> request list" where
  "page_requests s = filter (\<lambda>q. page_generation q = Some (timelineGenerationRef s)) (bw_requests s)"

text \<open>
  What is shown for a filter, and the requests under way: none, a first page, or the page after what is shown.
\<close>

fun page_state ::
  "backend \<Rightarrow> js \<Rightarrow> TimelineFilter \<Rightarrow> BinlogTransactionSummary list \<Rightarrow> js option \<Rightarrow> bool \<Rightarrow> js option \<Rightarrow> request list \<Rightarrow> bool"
where
  "page_state B i f rows cursor loading err [] \<longleftrightarrow>
     \<not> loading \<and> (rows = [] \<and> cursor = None \<and> err \<noteq> None \<or> timeline B i f rows cursor)"
| "page_state B i f rows cursor loading err [ListFirst g i' f'] \<longleftrightarrow>
     loading \<and> i' = i \<and> f' = f \<and> rows = [] \<and> cursor = None"
| "page_state B i f rows cursor loading err [ListMore g i' f' c] \<longleftrightarrow>
     loading \<and> i' = i \<and> f' = f \<and> cursor = Some c \<and> timeline B i f rows (Some c)"
| "page_state B i f rows cursor loading err _ \<longleftrightarrow> False"

definition shown_ok :: "backend \<Rightarrow> binlog \<Rightarrow> bool" where
  "shown_ok B s \<longleftrightarrow>
     (\<exists>i. bw_analysisId s = Some i \<and> i \<noteq> []
      \<and> page_state B i (bw_filter s) (bw_transactions s) (nextCursor s) (timelineLoading s) (timelineError s)
          (page_requests s))"

section \<open>What the handlers leave alone\<close>

text \<open>What \<open>shown_ok\<close> looks at, apart from the requests.\<close>

definition timeline_part ::
  "binlog \<Rightarrow> js option \<times> TimelineFilter \<times> BinlogTransactionSummary list \<times> js option \<times> bool \<times> js option \<times> nat" where
  "timeline_part s =
     (bw_analysisId s, bw_filter s, bw_transactions s, nextCursor s, timelineLoading s, timelineError s,
      timelineGenerationRef s)"

lemma shown_ok_cong:
  "timeline_part s' = timeline_part s \<Longrightarrow> page_requests s' = page_requests s \<Longrightarrow> shown_ok B s \<Longrightarrow> shown_ok B s'"
  by (simp add: shown_ok_def timeline_part_def)

lemma filter_answered:
  "at (bw_requests s) n = Some q \<Longrightarrow>
    filter P (bw_requests s) = filter P (take n (bw_requests s)) @ filter P [q] @ filter P (drop (Suc n) (bw_requests s))"
proof -
  assume "at (bw_requests s) n = Some q"
  then have "n < length (bw_requests s)" "bw_requests s ! n = q" by (auto simp: at_def split: if_splits)
  then have "bw_requests s = take n (bw_requests s) @ q # drop (Suc n) (bw_requests s)" by (metis id_take_nth_drop)
  then have "filter P (bw_requests s) = filter P (take n (bw_requests s) @ q # drop (Suc n) (bw_requests s))" by simp
  then show ?thesis by simp
qed

lemma page_answered:
  assumes "at (bw_requests s) n = Some q"
  shows "page_generation q \<noteq> Some (timelineGenerationRef s) \<Longrightarrow> page_requests (answered n s) = page_requests s"
    and "page_generation q = Some (timelineGenerationRef s) \<Longrightarrow> length (page_requests s) \<le> 1 \<Longrightarrow>
      page_requests s = [q] \<and> page_requests (answered n s) = []"
  using filter_answered [OF assms, of "\<lambda>q. page_generation q = Some (timelineGenerationRef s)"]
  by (auto simp: page_requests_def answered_def)

lemma page_state_one: "page_state B i f rows cursor loading err qs \<Longrightarrow> length qs \<le> 1"
  by (cases "(B, i, f, rows, cursor, loading, err, qs)" rule: page_state.cases) auto

lemma shown_one: "shown_ok B s \<Longrightarrow> length (page_requests s) \<le> 1"
  by (auto simp: shown_ok_def dest: page_state_one)

lemma answered_fields [simp]:
  "timeline_part (answered n s) = timeline_part s" "mountedRef (answered n s) = mountedRef s"
  "bw_phase (answered n s) = bw_phase s" "timelineGenerationRef (answered n s) = timelineGenerationRef s"
  "timeline_deps (answered n s) = timeline_deps s" "activeRunRef (answered n s) = activeRunRef s"
  "bw_analysisId (answered n s) = bw_analysisId s"
  by (simp_all add: answered_def timeline_part_def timeline_deps_def)

lemma timeline_part_requests [simp]: "timeline_part (s \<lparr> bw_requests := qs \<rparr>) = timeline_part s"
  by (simp add: timeline_part_def)

lemma card_timeline [simp]:
  "timeline_part (transaction_answer g t r s) = timeline_part s" "timeline_part (fst (toggleTransaction t s)) = timeline_part s"
  "timeline_part (fst (copyResetSql t s)) = timeline_part s" "timeline_part (reset_failed t e s) = timeline_part s"
  "timeline_part (fst (reset_sql_answer t out s)) = timeline_part s" "timeline_part (clipboard_answer t out s) = timeline_part s"
  by (auto simp: timeline_part_def card_defs Let_def split: sum.splits)

lemma import_timeline [simp]:
  "timeline_part (fst (cancelImport s)) = timeline_part s" "timeline_part (cancel_answer run r s) = timeline_part s"
  "timeline_part (summary_answer run r' s) = timeline_part s" "timeline_part (fst (dispose_done k s)) = timeline_part s"
  by (auto simp: timeline_part_def import_defs split: sum.splits option.splits)

lemma begin_phase: "beginImport paths s = (s1, rs) \<Longrightarrow> bw_phase s1 = Ready \<Longrightarrow> s1 = s \<and> rs = []"
  by (auto simp: import_defs Let_def split: if_splits)

lemma files_phase: "files_answer r s = (s1, rs) \<Longrightarrow> bw_phase s1 = Ready \<Longrightarrow> s1 = s \<and> rs = []"
  by (auto simp: files_answer_def Let_def dest: begin_phase split: sum.splits if_splits)

lemma start_answer_timeline:
  "start_answer run r s = (s1, rs) \<Longrightarrow> bw_analysisId s1 = bw_analysisId s \<Longrightarrow> timeline_part s1 = timeline_part s"
  by (auto simp: start_answer_def timeline_part_def split: sum.splits if_splits)

lemma event_timeline:
  "import_event run event s = (s1, rs) \<Longrightarrow> bw_analysisId s1 = bw_analysisId s \<Longrightarrow> timeline_part s1 = timeline_part s"
  by (auto simp: import_defs Let_def timeline_part_def split: BinlogImportEvent.splits if_splits)

text \<open>No page is asked for, but by the two that ask for pages.\<close>

definition no_page :: "request list \<Rightarrow> bool" where
  "no_page rs \<longleftrightarrow> (\<forall>q \<in> set rs. page_generation q = None)"

lemma page_dispose [simp]: "page_generation (disposeAnalysis i running k) = None"
  by (simp add: disposeAnalysis_def)

lemma no_page_requests [simp]:
  "no_page []" "no_page (snd (copyResetSql t s))" "no_page (snd (toggleTransaction t s))" "no_page (snd (cancelImport s))"
  "no_page (snd (reset_sql_answer t out s))" "no_page (snd (dispose_done k s))" "no_page (snd (start_answer run r s))"
  "no_page (snd (import_event run event s))"
  by (auto simp: no_page_def card_defs import_defs Let_def split: sum.splits option.splits BinlogImportEvent.splits)

lemma page_requests_append: "no_page rs \<Longrightarrow> page_requests (s \<lparr> bw_requests := bw_requests s @ rs \<rparr>) = page_requests s"
  by (simp add: page_requests_def no_page_def filter_empty_conv)

section \<open>The steps\<close>

lemma mounted_before:
  "admissible B s l \<Longrightarrow> binlog_handler l s = (s1, rs) \<Longrightarrow> mountedRef s1 \<Longrightarrow> mountedRef s"
  using handler_owner [of B s l] by (auto simp: owner_step_def owner_def)

text \<open>The frame: same timeline, and requests other than pages.\<close>

lemma shown_frame:
  assumes "shown_ok B s" "timeline_part s1 = timeline_part s" "page_requests s1 = page_requests s" "no_page rs"
  shows "shown_ok B (s1 \<lparr> bw_requests := bw_requests s1 @ rs \<rparr>)"
proof (rule shown_ok_cong [OF _ _ assms(1)])
  show "page_requests (s1 \<lparr> bw_requests := bw_requests s1 @ rs \<rparr>) = page_requests s"
    using assms(3,4) page_requests_append [of rs s1] by simp
qed (simp add: assms(2))

lemma page_requests_cong:
  "timeline_part s1 = timeline_part s \<Longrightarrow> bw_requests s1 = bw_requests s \<Longrightarrow> page_requests s1 = page_requests s"
  by (simp add: page_requests_def timeline_part_def)

lemma shown_same_requests:
  assumes "shown_ok B s" "timeline_part s1 = timeline_part s" "bw_requests s1 = bw_requests s" "no_page rs"
  shows "shown_ok B (s1 \<lparr> bw_requests := bw_requests s1 @ rs \<rparr>)"
  using assms shown_frame page_requests_cong by blast

text \<open>An answer that is not a page's.\<close>

lemma shown_answered:
  assumes "shown_ok B s" "at (bw_requests s) n = Some q" "page_generation q \<noteq> Some (timelineGenerationRef s)"
    and "timeline_part s1 = timeline_part s" "bw_requests s1 = bw_requests (answered n s)" "no_page rs"
  shows "shown_ok B (s1 \<lparr> bw_requests := bw_requests s1 @ rs \<rparr>)"
proof (rule shown_frame)
  show "page_requests s1 = page_requests s"
    using page_requests_cong [of s1 "answered n s"] page_answered(1) [OF assms(2,3)] assms(4,5) by simp
qed (use assms in auto)

lemma shown_load_more:
  assumes "shown_ok B s" "loadMoreTransactions s = (s1, rs)"
  shows "shown_ok B (s1 \<lparr> bw_requests := bw_requests s1 @ rs \<rparr>)"
proof (cases "rs = []")
  case True
  with assms(2) have "s1 = s" by (auto simp: loadMoreTransactions_def split: if_splits)
  with True assms(1) show ?thesis by simp
next
  case False
  with assms(2) have r: "\<not> timelineLoading s" "truthy (nextCursor s)"
      "s1 = s \<lparr> timelineLoading := True, timelineError := None \<rparr>"
      "rs = [ListMore (timelineGenerationRef s) (the (bw_analysisId s)) (bw_filter s) (the (nextCursor s))]"
    by (auto simp: loadMoreTransactions_def split: if_splits)
  from assms(1) obtain i where i: "bw_analysisId s = Some i" "i \<noteq> []"
      "page_state B i (bw_filter s) (bw_transactions s) (nextCursor s) (timelineLoading s) (timelineError s)
         (page_requests s)" by (auto simp: shown_ok_def)
  with r(1) have none: "page_requests s = []"
    by (cases "(B, i, bw_filter s, bw_transactions s, nextCursor s, timelineLoading s, timelineError s, page_requests s)"
        rule: page_state.cases) auto
  with i r have "timeline B i (bw_filter s) (bw_transactions s) (nextCursor s)" by auto
  with i r none show ?thesis by (cases "nextCursor s") (auto simp: shown_ok_def page_requests_def)
qed

lemma shown_page_answer:
  assumes ok: "shown_ok B s" and q: "at (bw_requests s) n = Some q" "page_generation q = Some (timelineGenerationRef s)"
    and r: "reply_result q a (answered n s) = Some (s1, rs)" and "honest B q a" and m: "mountedRef s"
  shows "shown_ok B (s1 \<lparr> bw_requests := bw_requests s1 @ rs \<rparr>)"
proof -
  from page_answered(2) [OF q shown_one [OF ok]] have req: "page_requests s = [q]" "page_requests (answered n s) = []"
    by auto
  from ok obtain i where i: "bw_analysisId s = Some i" "i \<noteq> []"
      "page_state B i (bw_filter s) (bw_transactions s) (nextCursor s) (timelineLoading s) (timelineError s) [q]"
    unfolding shown_ok_def req by blast
  have f: "bw_filter (answered n s) = bw_filter s" "bw_transactions (answered n s) = bw_transactions s"
    "nextCursor (answered n s) = nextCursor s"
    by (simp_all add: answered_def)
  show ?thesis
  proof (cases q)
    case (ListFirst g i' f')
    with i q(2) have *: "i' = i" "f' = bw_filter s" "bw_transactions s = []" "nextCursor s = None"
      "g = timelineGenerationRef s" by auto
    from r ListFirst consider
      rows cursor where "a = GotPage rows cursor" "s1 = first_page g (Inr (rows, cursor)) (answered n s)" "rs = []"
    | e where "a = Refused e" "s1 = first_page g (Inl e) (answered n s)" "rs = []"
      by (cases a) (auto simp: reply_result_def)
    then show ?thesis
    proof cases
      case (1 rows cursor)
      with assms(5) ListFirst * have "timeline B i (bw_filter s) rows cursor" by (auto intro: timeline.first)
      with 1 i req(2) f * m show ?thesis
        by (simp add: shown_ok_def page_requests_def first_page_def live_timeline_def)
    next
      case (2 e)
      with i req(2) f * m show ?thesis
        by (simp add: shown_ok_def page_requests_def first_page_def live_timeline_def)
    qed
  next
    case (ListMore g i' f' c)
    with i q(2) have *: "i' = i" "f' = bw_filter s" "nextCursor s = Some c" "g = timelineGenerationRef s"
      "timeline B i (bw_filter s) (bw_transactions s) (Some c)" by auto
    from r ListMore consider
      rows cursor where "a = GotPage rows cursor" "s1 = next_page g (Inr (rows, cursor)) (answered n s)" "rs = []"
    | e where "a = Refused e" "s1 = next_page g (Inl e) (answered n s)" "rs = []"
      by (cases a) (auto simp: reply_result_def)
    then show ?thesis
    proof cases
      case (1 rows cursor)
      with assms(5) ListMore * have "timeline B i (bw_filter s) (bw_transactions s @ rows) cursor"
        by (auto intro: timeline.more)
      with 1 i req(2) f * m show ?thesis
        by (simp add: shown_ok_def page_requests_def next_page_def live_timeline_def)
    next
      case (2 e)
      with i req(2) f * m show ?thesis
        by (simp add: shown_ok_def page_requests_def next_page_def live_timeline_def)
    qed
  qed (use q(2) in auto)
qed

lemma reply_timeline:
  assumes "reply_result q a (answered n s) = Some r" "page_generation q \<noteq> Some (timelineGenerationRef s)"
    and "timeline_deps (fst r) = timeline_deps s" "bw_phase (fst r) = Ready"
  shows "timeline_part (fst r) = timeline_part s \<and> no_page (snd r)"
proof (cases q)
  case PickFiles
  then obtain f where "files_answer f (answered n s) = r" using assms(1) by (cases a) (auto simp: reply_result_def)
  with files_phase [of f "answered n s" "fst r" "snd r"] assms(4) show ?thesis by simp
next
  case (StartImport run paths)
  then obtain f where r: "start_answer run f (answered n s) = r" using assms(1) by (cases a) (auto simp: reply_result_def)
  with start_answer_timeline [of run f "answered n s" "fst r" "snd r"] assms(3) show ?thesis
    by (auto simp: timeline_deps_def)
next
  case (DisposeCancel i k)
  with assms show ?thesis by (cases a) (auto simp: reply_result_def no_page_def)
qed (use assms in \<open>cases a; auto simp: reply_result_def first_page_def next_page_def live_timeline_def\<close>)+

lemma reply_shown:
  assumes ok: "shown_ok B s" and q: "at (bw_requests s) n = Some q" and r: "reply_result q a (answered n s) = Some (s1, rs)"
    and "honest B q a" "mountedRef s" "timeline_deps s1 = timeline_deps s" "bw_phase s1 = Ready"
  shows "shown_ok B (s1 \<lparr> bw_requests := bw_requests s1 @ rs \<rparr>)"
proof (cases "page_generation q = Some (timelineGenerationRef s)")
  case True
  with assms shown_page_answer show ?thesis by blast
next
  case False
  with reply_timeline [OF r] assms(6,7) have "timeline_part s1 = timeline_part s" "no_page rs" by auto
  moreover from requests_reply [OF r] have "bw_requests s1 = bw_requests (answered n s)" by simp
  ultimately show ?thesis using shown_answered [OF ok q False] by blast
qed

lemma toggle_requests: "toggleTransaction t s = (s1, rs) \<Longrightarrow> bw_requests s1 = bw_requests s \<and> timeline_part s1 = timeline_part s \<and> no_page rs"
  using requests_card(2) [of t s] card_timeline(2) [of t s] no_page_requests(3) [of t s] by simp

lemma copy_requests: "copyResetSql t s = (s1, rs) \<Longrightarrow> bw_requests s1 = bw_requests s \<and> timeline_part s1 = timeline_part s \<and> no_page rs"
  using requests_card(3) [of t s] card_timeline(3) [of t s] no_page_requests(2) [of t s] by simp

lemma cancel_requests: "cancelImport s = (s1, rs) \<Longrightarrow> bw_requests s1 = bw_requests s \<and> timeline_part s1 = timeline_part s \<and> no_page rs"
  using requests_import(1) [of s] import_timeline(1) [of s] no_page_requests(4) [of s] by simp

text \<open>While nothing the effect depends on changes, what is shown stays right.\<close>

lemma handler_shown:
  assumes ok: "shown_ok B s" and adm: "admissible B s l" and h: "binlog_handler l s = (s1, rs)"
    and m: "mountedRef s" "mountedRef s1" and same: "timeline_deps s1 = timeline_deps s" "bw_phase s1 = Ready"
  shows "shown_ok B (s1 \<lparr> bw_requests := bw_requests s1 @ rs \<rparr>)"
proof -
  have idle: ?thesis if "s1 = s" "rs = []" using that ok by simp
  show ?thesis
  proof (cases l)
    case ChooseFiles
    with h ok show ?thesis by (auto simp: on_click_def no_page_def intro!: shown_same_requests split: if_splits)
  next
    case RetryImport
    with h same(2) show ?thesis by (intro idle) (auto simp: on_click_def dest: begin_phase split: if_splits)
  next
    case CancelImport
    with h ok show ?thesis
      by (auto simp: on_click_def dest!: cancel_requests intro!: shown_same_requests split: if_splits)
  next
    case LoadMore
    with h shown_load_more [OF ok] idle show ?thesis by (auto simp: on_click_def split: if_splits)
  next
    case (ToggleCard t)
    with h ok idle show ?thesis
      by (auto simp: on_click_def dest!: toggle_requests intro!: shown_same_requests split: if_splits)
  next
    case (CopyReset t)
    with h ok idle show ?thesis
      by (auto simp: on_click_def dest!: copy_requests intro!: shown_same_requests split: if_splits)
  next
    case (ImportEvent run event)
    with h have e: "import_event run event s = (s1, rs)" by simp
    with same event_timeline [OF e] have "timeline_part s1 = timeline_part s" by (simp add: timeline_deps_def)
    moreover from e have "bw_requests s1 = bw_requests s" "no_page rs"
      using requests_import(9) [of run event s] no_page_requests(8) [of run event s] by simp_all
    ultimately show ?thesis using ok shown_same_requests by blast
  next
    case (Reply n a)
    show ?thesis
    proof (cases "at (bw_requests s) n")
      case None
      with h Reply show ?thesis by (intro idle) (auto simp: reply_handler_def)
    next
      case (Some q)
      show ?thesis
      proof (cases "reply_result q a (answered n s)")
        case None
        with h Reply Some show ?thesis by (intro idle) (auto simp: reply_handler_def)
      next
        case (Some r)
        with h Reply \<open>at _ _ = _\<close> have "reply_result q a (answered n s) = Some (s1, rs)" by (simp add: reply_handler_def)
        moreover have "honest B q a" using adm Reply \<open>at _ _ = _\<close> by (simp add: admissible_def)
        ultimately show ?thesis using reply_shown [OF ok \<open>at _ _ = _\<close>] m same by blast
      qed
    qed
  next
    case UnmountBinlog
    with h m show ?thesis by (auto simp: on_click_def unmount_binlog_def)
  qed (use h ok same(1) in \<open>auto simp: on_click_def timeline_deps_def change_filter_def set_filter_def
        resetTransactionDetails_def intro!: idle split: if_splits\<close>)
qed

text \<open>The effect asks for the first page anew.\<close>

definition bounded :: "binlog \<Rightarrow> bool" where
  "bounded s \<longleftrightarrow> (\<forall>q \<in> set (bw_requests s). \<forall>g. page_generation q = Some g \<longrightarrow> g \<le> timelineGenerationRef s)"

lemma effect_shown:
  assumes "bounded (s \<lparr> bw_requests := qs \<rparr>)" "bw_phase s = Ready" "truthy (bw_analysisId s)" "timeline_effect s = (s', rs)"
  shows "shown_ok B (s' \<lparr> bw_requests := qs @ rs \<rparr>)"
proof -
  from assms(2-4) have s': "s' = s \<lparr> timelineGenerationRef := timelineGenerationRef s + 1, timelineLoading := True,
      timelineError := None, bw_transactions := [], nextCursor := None \<rparr>"
    "rs = [ListFirst (timelineGenerationRef s + 1) (the (bw_analysisId s)) (bw_filter s)]"
    by (auto simp: timeline_effect_def)
  have "filter (\<lambda>q. page_generation q = Some (timelineGenerationRef s + 1)) qs = []"
    using assms(1) by (fastforce simp: bounded_def filter_empty_conv)
  then have "page_requests (s' \<lparr> bw_requests := qs @ rs \<rparr>) = rs" by (simp add: s' page_requests_def)
  with assms(3) show ?thesis by (cases "bw_analysisId s") (auto simp: shown_ok_def s')
qed

section \<open>The invariant\<close>

text \<open>
  Requests ask for pages of this generation or earlier ones, and for summaries of this run or earlier ones; a summary
  that is awaited and an analysis that is shown have an identifier.
\<close>

definition summary_due :: "binlog \<Rightarrow> bool" where
  "summary_due s \<longleftrightarrow> (\<exists>i. ReadSummary (activeRunRef s) i \<in> set (bw_requests s))"

definition summaries_bounded :: "binlog \<Rightarrow> bool" where
  "summaries_bounded s \<longleftrightarrow> (\<forall>run i. ReadSummary run i \<in> set (bw_requests s) \<longrightarrow> run \<le> activeRunRef s)"

definition timeline_inv :: "backend \<Rightarrow> binlog \<Rightarrow> bool" where
  "timeline_inv B s \<longleftrightarrow>
     bounded s \<and> summaries_bounded s
   \<and> (mountedRef s \<and> (summary_due s \<or> bw_phase s = Ready) \<longrightarrow> truthy (bw_analysisId s))
   \<and> (mountedRef s \<and> bw_phase s = Ready \<longrightarrow> shown_ok B s)"

text \<open>What a handler does about generations.\<close>

definition generation_step :: "binlog \<Rightarrow> binlog \<Rightarrow> request list \<Rightarrow> bool" where
  "generation_step s s1 rs \<longleftrightarrow>
     timelineGenerationRef s \<le> timelineGenerationRef s1
   \<and> (\<forall>q \<in> set rs. \<forall>g. page_generation q = Some g \<longrightarrow> g \<le> timelineGenerationRef s1)"

lemma generation_no_page:
  "no_page rs \<Longrightarrow> timelineGenerationRef s \<le> timelineGenerationRef s1 \<Longrightarrow> generation_step s s1 rs"
  by (auto simp: generation_step_def no_page_def)

lemma begin_generation:
  "timelineGenerationRef (fst (beginImport paths s)) = timelineGenerationRef s \<and> no_page (snd (beginImport paths s))"
  by (auto simp: import_defs Let_def no_page_def)

lemma files_generation:
  "timelineGenerationRef (fst (files_answer f s)) = timelineGenerationRef s \<and> no_page (snd (files_answer f s))"
  using begin_generation by (auto simp: files_answer_def Let_def no_page_def split: sum.split)

lemma import_generation [simp]:
  "timelineGenerationRef (fst (cancelImport s)) = timelineGenerationRef s"
  "timelineGenerationRef (fst (import_event run event s)) = timelineGenerationRef s"
  "timelineGenerationRef (fst (start_answer run f s)) = timelineGenerationRef s"
  "timelineGenerationRef (fst (dispose_done k s)) = timelineGenerationRef s"
  "timelineGenerationRef (cancel_answer run e s) = timelineGenerationRef s"
  "timelineGenerationRef (summary_answer run b s) = timelineGenerationRef s"
  by (auto simp: import_defs Let_def split: sum.splits option.splits BinlogImportEvent.splits)

lemma page_kept_generation [simp]:
  "timelineGenerationRef (first_page g r s) = timelineGenerationRef s"
  "timelineGenerationRef (next_page g r s) = timelineGenerationRef s"
  "timelineGenerationRef (change_filter h s) = timelineGenerationRef s"
  by (auto simp: timeline_defs set_filter_def resetTransactionDetails_def split: sum.splits)

lemma card_generation [simp]:
  "timelineGenerationRef (fst (toggleTransaction t s)) = timelineGenerationRef s"
  "timelineGenerationRef (fst (copyResetSql t s)) = timelineGenerationRef s"
  "timelineGenerationRef (transaction_answer g t r s) = timelineGenerationRef s"
  "timelineGenerationRef (reset_failed t e s) = timelineGenerationRef s"
  "timelineGenerationRef (fst (reset_sql_answer t out s)) = timelineGenerationRef s"
  "timelineGenerationRef (clipboard_answer t out s) = timelineGenerationRef s"
  using card_timeline by (simp_all add: timeline_part_def)

lemma reply_generation:
  "reply_result q a (answered n s) = Some r \<Longrightarrow> timelineGenerationRef (fst r) = timelineGenerationRef s \<and> no_page (snd r)"
  using files_generation [of _ "answered n s"]
  by (cases q; cases a) (auto simp: reply_result_def no_page_def [of "[_]"])

lemma handler_generation: "generation_step s (fst (binlog_handler l s)) (snd (binlog_handler l s))"
proof (cases l)
  case (Reply n a)
  then show ?thesis
  proof (cases "at (bw_requests s) n")
    case (Some q)
    with Reply show ?thesis
      using reply_generation [of q a n s]
      by (cases "reply_result q a (answered n s)") (auto simp: reply_handler_def intro!: generation_no_page)
  qed (auto simp: reply_handler_def intro!: generation_no_page)
next
  case LoadMore
  then show ?thesis by (auto simp: on_click_def loadMoreTransactions_def generation_step_def)
next
  case UnmountBinlog
  then show ?thesis by (auto simp: on_click_def unmount_binlog_def generation_step_def)
qed (use begin_generation in \<open>auto simp: on_click_def no_page_def [of "[_]"] intro!: generation_no_page\<close>)

text \<open>What a handler does about the run, its analysis and its summary.\<close>

definition summary_step :: "binlog \<Rightarrow> binlog \<Rightarrow> request list \<Rightarrow> bool" where
  "summary_step s s1 rs \<longleftrightarrow>
     activeRunRef s1 = activeRunRef s + 1 \<and> (mountedRef s1 \<longrightarrow> bw_phase s1 \<noteq> Ready) \<and> (\<forall>run i. ReadSummary run i \<notin> set rs)
   \<or> activeRunRef s1 = activeRunRef s
     \<and> (bw_analysisId s1 = bw_analysisId s \<or> truthy (bw_analysisId s1))
     \<and> (\<forall>run i. ReadSummary run i \<in> set rs \<longrightarrow> run = activeRunRef s \<and> truthy (bw_analysisId s1))
     \<and> (bw_phase s1 = Ready \<longrightarrow> bw_phase s = Ready \<or> summary_due s)"

definition phase_part :: "binlog \<Rightarrow> nat \<times> js option \<times> ImportPhase" where
  "phase_part s = (activeRunRef s, bw_analysisId s, bw_phase s)"

definition no_summary :: "request list \<Rightarrow> bool" where
  "no_summary rs \<longleftrightarrow> (\<forall>run i. ReadSummary run i \<notin> set rs)"

lemma summary_same: "phase_part s1 = phase_part s \<Longrightarrow> no_summary rs \<Longrightarrow> summary_step s s1 rs"
  by (auto simp: summary_step_def phase_part_def no_summary_def)

lemma phase_frame [simp]:
  "phase_part (answered n s) = phase_part s" "phase_part (first_page g r s) = phase_part s"
  "phase_part (next_page g r s) = phase_part s" "phase_part (change_filter h s) = phase_part s"
  "phase_part (fst (loadMoreTransactions s)) = phase_part s" "phase_part (fst (toggleTransaction t s)) = phase_part s"
  "phase_part (fst (copyResetSql t s)) = phase_part s" "phase_part (transaction_answer g t r2 s) = phase_part s"
  "phase_part (reset_failed t e s) = phase_part s" "phase_part (fst (reset_sql_answer t out s)) = phase_part s"
  "phase_part (clipboard_answer t out s) = phase_part s" "phase_part (fst (cancelImport s)) = phase_part s"
  "phase_part (cancel_answer run e2 s) = phase_part s" "phase_part (fst (dispose_done k s)) = phase_part s"
  "phase_part (s \<lparr> timelineReload := m \<rparr>) = phase_part s" "phase_part (fst (timeline_effect s)) = phase_part s"
  by (auto simp: phase_part_def answered_def timeline_defs card_defs cancelImport_def cancel_answer_def dispose_done_def
      start_import_def Let_def set_filter_def resetTransactionDetails_def split: sum.splits option.splits)

lemma no_summary_simps [simp]:
  "no_summary []" "no_summary (snd (toggleTransaction t s))" "no_summary (snd (copyResetSql t s))"
  "no_summary (snd (loadMoreTransactions s))" "no_summary (snd (reset_sql_answer t out s))"
  "no_summary (snd (cancelImport s))" "no_summary (snd (dispose_done k s))" "no_summary [PickFiles]"
  "no_summary [DisposeClose i k]" "no_summary (snd (timeline_effect s))" "no_summary (snd (beginImport paths s))"
  "no_summary (snd (start_answer run f s))"
  by (auto simp: no_summary_def card_defs timeline_defs cancelImport_def dispose_done_def start_import_def
      beginImport_def start_answer_def disposeAnalysis_def Let_def split: sum.splits option.splits)

lemma begin_summary: "summary_step s (fst (beginImport paths s)) (snd (beginImport paths s))"
proof (cases "mountedRef s \<and> paths \<noteq> []")
  case True
  then have "activeRunRef (fst (beginImport paths s)) = activeRunRef s + 1" "bw_phase (fst (beginImport paths s)) = Importing"
    by (auto simp: import_defs Let_def)
  then show ?thesis using no_summary_simps(11) [of paths s] by (simp add: summary_step_def no_summary_def)
next
  case False
  then show ?thesis by (simp add: begin_none summary_same)
qed

lemma files_summary: "summary_step s (fst (files_answer f s)) (snd (files_answer f s))"
  using begin_summary [of s] by (auto simp: files_answer_def Let_def summary_same summary_step_def split: sum.split)

lemma reply_summary:
  assumes q: "at (bw_requests s) n = Some q" and r: "reply_result q a (answered n s) = Some r"
    and "honest B q a" "\<forall>run. be_ident B run \<noteq> []"
  shows "summary_step s (fst r) (snd r)"
proof (cases q)
  case PickFiles
  then obtain f where f: "r = files_answer f (answered n s)" using r by (cases a) (auto simp: reply_result_def)
  have "summary_due (answered n s) \<Longrightarrow> summary_due s"
    by (auto simp: summary_due_def answered_def dest: in_set_takeD in_set_dropD)
  with files_summary [of "answered n s" f] show ?thesis by (auto simp: f summary_step_def)
next
  case (StartImport run paths)
  with r assms(3,4) show ?thesis
    by (cases a) (auto simp: reply_result_def start_answer_def summary_step_def disposeAnalysis_def split: if_splits)
next
  case (ReadSummary run i)
  then obtain f where f: "r = (summary_answer run f (answered n s), [])" using r by (cases a) (auto simp: reply_result_def)
  have "ReadSummary run i \<in> set (bw_requests s)" using at_Some [OF q] ReadSummary by simp
  then show ?thesis
    by (auto simp: f summary_answer_def live_run_def summary_step_def summary_due_def split: sum.split)
qed (use r in \<open>cases a; auto simp: reply_result_def intro!: summary_same\<close>)+

lemma handler_summary:
  assumes "admissible B s l" "\<forall>run. be_ident B run \<noteq> []"
  shows "summary_step s (fst (binlog_handler l s)) (snd (binlog_handler l s))"
proof (cases l)
  case RetryImport
  with begin_summary [of s] show ?thesis by (simp add: on_click_def summary_same)
next
  case (ImportEvent run event)
  with assms show ?thesis
    by (cases event) (auto simp: admissible_def import_defs Let_def summary_step_def)
next
  case (Reply n a)
  show ?thesis
  proof (cases "at (bw_requests s) n")
    case None
    with Reply show ?thesis by (simp add: reply_handler_def summary_same)
  next
    case (Some q)
    with Reply assms have "honest B q a" by (simp add: admissible_def)
    with Some Reply reply_summary [OF Some _ _ assms(2)] show ?thesis
      by (cases "reply_result q a (answered n s)") (auto simp: reply_handler_def summary_same)
  qed
next
  case UnmountBinlog
  then show ?thesis by (auto simp: on_click_def unmount_binlog_def summary_step_def disposeAnalysis_def)
qed (auto simp: on_click_def intro!: summary_same)

lemma set_answered: "set (bw_requests (answered n s)) \<subseteq> set (bw_requests s)"
  by (auto simp: answered_def dest: in_set_takeD in_set_dropD)

lemma handler_request_set:
  "set (bw_requests (fst (binlog_handler l s))) \<subseteq> set (bw_requests s)"
  using requests_handler [of l s] set_answered [of _ s] by auto blast

lemma timeline_inv_step:
  assumes inv: "timeline_inv B s" and ok: "\<forall>run. be_ident B run \<noteq> []"
    and adm: "admissible B s l" and st: "binlog_step l s = (s', rs)"
  shows "timeline_inv B s'"
proof -
  obtain s1 rs1 rs2 where h: "binlog_handler l s = (s1, rs1)" "rs = rs1 @ rs2" "owner s' = owner s1"
    "s' = (fst (binlog_effects s s1)) \<lparr> bw_requests := bw_requests s1 @ rs \<rparr>" "rs2 = snd (binlog_effects s s1)"
    using binlog_step_requests [OF st] by metis
  have sub: "set (bw_requests s1) \<subseteq> set (bw_requests s)" using handler_request_set [of l s] h(1) by simp
  have gen: "generation_step s s1 rs1" using handler_generation [of s l] h(1) by simp
  have sum: "summary_step s s1 rs1" using handler_summary [OF adm ok] h(1) by simp
  have ph: "phase_part s' = phase_part s1" by (auto simp: h(4) binlog_effects_def phase_part_def timeline_effect_def)
  have no2: "no_summary rs2" by (simp add: h(5) binlog_effects_def)
  have mem: "q \<in> set (bw_requests s') \<Longrightarrow> q \<in> set (bw_requests s) \<or> q \<in> set rs1 \<or> q \<in> set rs2" for q
    using sub by (auto simp: h(2,4))
  from inv sub gen have b1: "bounded (s1 \<lparr> bw_requests := bw_requests s1 @ rs1 \<rparr>)"
    by (auto simp: timeline_inv_def bounded_def generation_step_def dest: order_trans)
  have "bounded s'"
  proof (cases "timeline_deps s1 = timeline_deps s")
    case True
    with b1 show ?thesis by (simp add: h(2,4,5) binlog_effects_def bounded_def)
  next
    case False
    with b1 show ?thesis by (auto simp: h(2,4,5) binlog_effects_def bounded_def timeline_effect_def dest: le_SucI)
  qed
  moreover have sb: "summaries_bounded s'"
    using inv sum mem no2 ph
    by (fastforce simp: timeline_inv_def summaries_bounded_def summary_step_def no_summary_def phase_part_def)
  moreover have given: "truthy (bw_analysisId s')" if m: "mountedRef s'" and d: "summary_due s' \<or> bw_phase s' = Ready"
  proof -
    have m1: "mountedRef s1" "mountedRef s" using m h(3) mounted_before [OF adm h(1)] by (auto simp: owner_def)
    have p: "activeRunRef s' = activeRunRef s1" "bw_analysisId s' = bw_analysisId s1" "bw_phase s' = bw_phase s1"
      using ph by (auto simp: phase_part_def)
    from sum consider
      "activeRunRef s1 = activeRunRef s + 1" "bw_phase s1 \<noteq> Ready" "\<forall>run i. ReadSummary run i \<notin> set rs1"
    | "activeRunRef s1 = activeRunRef s" "bw_analysisId s1 = bw_analysisId s \<or> truthy (bw_analysisId s1)"
      "\<forall>run i. ReadSummary run i \<in> set rs1 \<longrightarrow> truthy (bw_analysisId s1)"
      "bw_phase s1 = Ready \<longrightarrow> bw_phase s = Ready \<or> summary_due s"
      using m1 by (auto simp: summary_step_def)
    then show ?thesis
    proof cases
      case 1
      with d p obtain i where "ReadSummary (activeRunRef s + 1) i \<in> set (bw_requests s')" by (auto simp: summary_due_def)
      with mem [of "ReadSummary (activeRunRef s + 1) i"] 1(3) no2 have "ReadSummary (activeRunRef s + 1) i \<in> set (bw_requests s)"
        unfolding no_summary_def by blast
      with inv show ?thesis by (fastforce simp: timeline_inv_def summaries_bounded_def)
    next
      case 2
      have "summary_due s' \<Longrightarrow> summary_due s \<or> truthy (bw_analysisId s1)"
        using mem 2(1,3) no2 p by (fastforce simp: summary_due_def no_summary_def)
      with d p 2(4) have "truthy (bw_analysisId s1) \<or> summary_due s \<or> bw_phase s = Ready" by auto
      with inv m1 2(2) p show ?thesis by (auto simp: timeline_inv_def)
    qed
  qed
  moreover have "shown_ok B s'" if m: "mountedRef s'" and r: "bw_phase s' = Ready"
  proof -
    have m1: "mountedRef s1" "mountedRef s" using m h(3) mounted_before [OF adm h(1)] by (auto simp: owner_def)
    have p: "bw_phase s1 = Ready" "truthy (bw_analysisId s1)" using ph r given m by (auto simp: phase_part_def)
    show ?thesis
    proof (cases "timeline_deps s1 = timeline_deps s")
      case True
      then have "bw_phase s = Ready" using p by (simp add: timeline_deps_def)
      with inv m1 have "shown_ok B s" by (simp add: timeline_inv_def)
      from handler_shown [OF this adm h(1) m1(2,1) True p(1)] True show ?thesis
        by (simp add: h(2,4,5) binlog_effects_def)
    next
      case False
      then obtain s2 where "timeline_effect s1 = (s2, rs2)" "s' = s2 \<lparr> bw_requests := bw_requests s1 @ rs \<rparr>"
        using h(4,5) by (cases "timeline_effect s1") (simp add: binlog_effects_def)
      with effect_shown [OF b1 p] show ?thesis by (simp add: h(2))
    qed
  qed
  ultimately show ?thesis by (simp add: timeline_inv_def)
qed

lemma timeline_inv_init: "timeline_inv B init_binlog"
  by (simp add: timeline_inv_def bounded_def summaries_bounded_def summary_due_def init_binlog_def)

lemma timeline_inv_run:
  "binlog_run B s sent opened \<Longrightarrow> \<forall>run. be_ident B run \<noteq> [] \<Longrightarrow> timeline_inv B s"
proof (induction rule: binlog_run.induct)
  case start
  show ?case by (rule timeline_inv_init)
next
  case (step s sent opened l s' rs)
  from timeline_inv_step [OF step.IH [OF step.prems] step.prems step.hyps(2,3)] show ?case .
qed

section \<open>Details of the present filter\<close>

text \<open>
  A request for details whose answer is kept was made for the analysis and the filter of the timeline, and so were the
  details that are kept.
\<close>

definition details_inv :: "backend \<Rightarrow> binlog \<Rightarrow> bool" where
  "details_inv B s \<longleftrightarrow>
     (mountedRef s \<longrightarrow> bw_analysisId s = None \<or> bw_analysisId s = Some (be_ident B (activeRunRef s)))
   \<and> (\<forall>g i t f. ReadTransaction g i t f \<in> set (bw_requests s) \<longrightarrow>
        g \<le> transactionDetailGenerationRef s
      \<and> (g = transactionDetailGenerationRef s \<longrightarrow> bw_analysisId s = Some i \<and> f = bw_filter s))
   \<and> (\<forall>k d. transactionDetails s k = Some d \<longrightarrow>
        (\<exists>(t :: BinlogTransactionSummary) i. bw_analysisId s = Some i \<and> tx_id t = k \<and> d = be_transaction B i (tx_sequence t) (bw_filter s)))"

text \<open>What the details depend on.\<close>

definition details_part :: "binlog \<Rightarrow> bool \<times> nat \<times> js option \<times> TimelineFilter \<times> nat \<times> (js \<Rightarrow> BinlogTransaction option)" where
  "details_part s =
     (mountedRef s, activeRunRef s, bw_analysisId s, bw_filter s, transactionDetailGenerationRef s, transactionDetails s)"

definition no_details :: "request list \<Rightarrow> bool" where
  "no_details rs \<longleftrightarrow> (\<forall>g i t f. ReadTransaction g i t f \<notin> set rs)"

text \<open>A handler keeps all of it, drops all details, or learns the run's analysis.\<close>

definition details_step :: "backend \<Rightarrow> binlog \<Rightarrow> binlog \<Rightarrow> request list \<Rightarrow> bool" where
  "details_step B s s1 rs \<longleftrightarrow>
     details_part s1 = details_part s \<and> no_details rs
   \<or> transactionDetailGenerationRef s < transactionDetailGenerationRef s1 \<and> no_details rs
     \<and> (mountedRef s1 \<longrightarrow> transactionDetails s1 = (\<lambda>_. None)
          \<and> (bw_analysisId s1 = None \<or> bw_analysisId s1 = bw_analysisId s \<and> activeRunRef s1 = activeRunRef s \<and> mountedRef s))
     \<and> (\<not> mountedRef s1 \<longrightarrow> transactionDetails s1 = transactionDetails s \<and> bw_analysisId s1 = bw_analysisId s
          \<and> bw_filter s1 = bw_filter s)
   \<or> mountedRef s \<and> mountedRef s1 \<and> activeRunRef s1 = activeRunRef s \<and> bw_filter s1 = bw_filter s
     \<and> transactionDetailGenerationRef s1 = transactionDetailGenerationRef s \<and> transactionDetails s1 = transactionDetails s
     \<and> bw_analysisId s1 = Some (be_ident B (activeRunRef s)) \<and> no_details rs
   \<or> details_part s1 = details_part s
     \<and> (\<exists>i t. bw_analysisId s = Some i \<and> rs = [ReadTransaction (transactionDetailGenerationRef s) i t (bw_filter s)])"

lemma details_frame [simp]:
  "details_part (answered n s) = details_part s" "details_part (first_page g r s) = details_part s"
  "details_part (next_page g r s) = details_part s" "details_part (fst (loadMoreTransactions s)) = details_part s"
  "details_part (fst (copyResetSql t s)) = details_part s" "details_part (reset_failed t e s) = details_part s"
  "details_part (fst (reset_sql_answer t out s)) = details_part s" "details_part (clipboard_answer t out s) = details_part s"
  "details_part (fst (cancelImport s)) = details_part s" "details_part (cancel_answer run e2 s) = details_part s"
  "details_part (summary_answer run b s) = details_part s" "details_part (fst (dispose_done k s)) = details_part s"
  "details_part (s \<lparr> timelineReload := m \<rparr>) = details_part s" "details_part (fst (timeline_effect s)) = details_part s"
  "details_part (fst (toggleTransaction t s)) = details_part s" "details_part (s \<lparr> bw_requests := qs \<rparr>) = details_part s"
  by (auto simp: details_part_def answered_def timeline_defs card_defs import_defs Let_def
      split: sum.splits option.splits)

lemma no_details_simps [simp]:
  "no_details []" "no_details (snd (copyResetSql t s))" "no_details (snd (loadMoreTransactions s))"
  "no_details (snd (reset_sql_answer t out s))" "no_details (snd (cancelImport s))" "no_details (snd (dispose_done k s))"
  "no_details [PickFiles]" "no_details [DisposeClose i k]" "no_details (snd (timeline_effect s))"
  "no_details (snd (beginImport paths s))" "no_details (snd (start_answer run f s))" "no_details (snd (import_event run ev s))"
  by (auto simp: no_details_def card_defs timeline_defs import_defs disposeAnalysis_def Let_def
      split: sum.splits option.splits BinlogImportEvent.splits)

lemma details_same: "details_part s1 = details_part s \<Longrightarrow> no_details rs \<Longrightarrow> details_step B s s1 rs"
  by (simp add: details_step_def)

lemma begin_details: "details_step B s (fst (beginImport paths s)) (snd (beginImport paths s))"
proof (cases "mountedRef s \<and> paths \<noteq> []")
  case True
  then have "transactionDetailGenerationRef (fst (beginImport paths s)) = transactionDetailGenerationRef s + 1"
    "transactionDetails (fst (beginImport paths s)) = (\<lambda>_. None)" "bw_analysisId (fst (beginImport paths s)) = None"
    "mountedRef (fst (beginImport paths s))"
    by (auto simp: import_defs Let_def)
  then show ?thesis using no_details_simps(10) [of paths s] by (simp add: details_step_def)
next
  case False
  then show ?thesis by (simp add: begin_none details_same)
qed

lemma details_step_answered:
  "details_step B (answered n s) s1 rs \<Longrightarrow> details_step B s s1 rs"
  using details_frame(1) [of n s] by (auto simp: details_step_def details_part_def)

lemma files_details: "details_step B s (fst (files_answer f s)) (snd (files_answer f s))"
  using begin_details [of B s]
  by (auto simp: files_answer_def Let_def details_same split: sum.split)
    (auto simp: details_part_def intro!: details_same)

lemma change_details: "mountedRef s \<Longrightarrow> details_step B s (change_filter f s) []"
  by (simp add: details_step_def change_filter_def set_filter_def resetTransactionDetails_def)

lemma toggle_details: "details_step B s (fst (toggleTransaction t s)) (snd (toggleTransaction t s))"
proof -
  have "no_details (snd (toggleTransaction t s)) \<or> (\<exists>i. bw_analysisId s = Some i \<and>
      snd (toggleTransaction t s) = [ReadTransaction (transactionDetailGenerationRef s) i t (bw_filter s)])"
    by (cases "bw_analysisId s") (auto simp: toggleTransaction_def loadTransactionDetails_def Let_def)
  then show ?thesis by (auto simp: details_step_def)
qed

text \<open>Every handler but the one that takes an answer of details.\<close>

lemma reply_details:
  assumes r: "reply_result q a (answered n s) = Some r" and "honest B q a" "\<forall>g i t f. q \<noteq> ReadTransaction g i t f"
  shows "details_step B s (fst r) (snd r)"
proof (cases q)
  case PickFiles
  then obtain f where "r = files_answer f (answered n s)" using r by (cases a) (auto simp: reply_result_def)
  with files_details [of B "answered n s" f] show ?thesis by (auto intro: details_step_answered)
next
  case (StartImport run paths)
  then obtain f where f: "r = start_answer run f (answered n s)" "f = (case a of GotId i \<Rightarrow> Inr i | Refused e \<Rightarrow> Inl e)"
    using r by (cases a) (auto simp: reply_result_def)
  show ?thesis
  proof (cases "live_run run (answered n s) \<and> (\<exists>i. f = Inr i)")
    case True
    with f StartImport assms(2) r have "mountedRef s" "mountedRef (fst r)" "activeRunRef (fst r) = activeRunRef s"
        "bw_filter (fst r) = bw_filter s" "transactionDetailGenerationRef (fst r) = transactionDetailGenerationRef s"
        "transactionDetails (fst r) = transactionDetails s" "bw_analysisId (fst r) = Some (be_ident B (activeRunRef s))"
      by (cases a; auto simp: start_answer_def live_run_def answered_def reply_result_def)+
    then show ?thesis using f(1) by (simp add: details_step_def)
  next
    case False
    then have "details_part (fst r) = details_part s"
      by (auto simp: f(1) start_answer_def details_part_def answered_def split: sum.split)
    then show ?thesis using f(1) by (simp add: details_same)
  qed
qed (use r assms(3) in \<open>cases a; auto simp: reply_result_def intro!: details_same\<close>)+

text \<open>The answer of details is kept if it is of this generation.\<close>

definition details_answer :: "backend \<Rightarrow> binlog \<Rightarrow> binlog \<Rightarrow> request list \<Rightarrow> bool" where
  "details_answer B s s1 rs \<longleftrightarrow>
     rs = [] \<and> (\<exists>i t f. ReadTransaction (transactionDetailGenerationRef s) i t f \<in> set (bw_requests s)
       \<and> details_part s1 = details_part
           (s \<lparr> transactionDetails := (transactionDetails s) (tx_id t \<mapsto> be_transaction B i (tx_sequence t) f) \<rparr>))"

lemma transaction_details:
  assumes q: "at (bw_requests s) n = Some (ReadTransaction g i t f)" and "honest B (ReadTransaction g i t f) a"
    and r: "reply_result (ReadTransaction g i t f) a (answered n s) = Some r"
  shows "details_step B s (fst r) (snd r) \<or> details_answer B s (fst r) (snd r)"
proof -
  from r consider
    d where "a = GotTransaction d" "r = (transaction_answer g t (Inr d) (answered n s), [])"
  | e where "r = (transaction_answer g t (Inl e) (answered n s), [])"
    by (cases a) (auto simp: reply_result_def)
  then show ?thesis
  proof cases
    case (1 d)
    show ?thesis
    proof (cases "mountedRef s \<and> g = transactionDetailGenerationRef s")
      case True
      with 1 assms(2) at_Some [OF q] have "details_answer B s (fst r) (snd r)"
        by (auto simp: details_answer_def transaction_answer_def details_part_def answered_def Let_def
            intro!: exI [of _ i] exI [of _ t] exI [of _ f])
      then show ?thesis ..
    next
      case False
      then have "details_part (fst r) = details_part s"
        by (auto simp: 1(2) transaction_answer_def details_part_def answered_def)
      with 1(2) show ?thesis by (simp add: details_same)
    qed
  next
    case (2 e)
    have "details_part (fst r) = details_part s"
      by (simp add: 2 transaction_answer_def details_part_def answered_def Let_def)
    with 2 show ?thesis by (simp add: details_same)
  qed
qed

lemma handler_details:
  assumes "admissible B s l"
  shows "details_step B s (fst (binlog_handler l s)) (snd (binlog_handler l s))
    \<or> details_answer B s (fst (binlog_handler l s)) (snd (binlog_handler l s))"
proof (cases l)
  case RetryImport
  with begin_details [of B s] show ?thesis by (simp add: on_click_def details_same)
next
  case (ToggleCard t)
  with toggle_details [of B s t] show ?thesis by (simp add: on_click_def details_same)
next
  case (ImportEvent run event)
  have "details_step B s (fst (import_event run event s)) (snd (import_event run event s))"
  proof (cases "live_run run s")
    case True
    with ImportEvent assms have "mountedRef s" "mountedRef (fst (import_event run event s))"
        "activeRunRef (fst (import_event run event s)) = activeRunRef s"
        "bw_filter (fst (import_event run event s)) = bw_filter s"
        "transactionDetailGenerationRef (fst (import_event run event s)) = transactionDetailGenerationRef s"
        "transactionDetails (fst (import_event run event s)) = transactionDetails s"
        "bw_analysisId (fst (import_event run event s)) = Some (be_ident B (activeRunRef s))"
      by (cases event; auto simp: import_defs Let_def admissible_def)+
    then show ?thesis by (simp add: details_step_def)
  qed (simp add: import_event_def details_same)
  with ImportEvent show ?thesis by simp
next
  case (Reply n a)
  show ?thesis
  proof (cases "at (bw_requests s) n")
    case None
    with Reply show ?thesis by (simp add: reply_handler_def details_same)
  next
    case (Some q)
    with Reply assms have "honest B q a" by (simp add: admissible_def)
    then have honest: "honest B q a" .
    show ?thesis
    proof (cases "reply_result q a (answered n s)")
      case None
      with Reply Some show ?thesis by (simp add: reply_handler_def details_same)
    next
      case r: (Some r)
      have "details_step B s (fst r) (snd r) \<or> details_answer B s (fst r) (snd r)"
      proof (cases "\<exists>g i t f. q = ReadTransaction g i t f")
        case True
        then obtain g i t f where "q = ReadTransaction g i t f" by blast
        with Some honest r transaction_details [of s n g i t f B a r] show ?thesis by simp
      next
        case False
        with reply_details [OF r honest] show ?thesis by simp
      qed
      with Reply Some r show ?thesis by (simp add: reply_handler_def)
    qed
  qed
next
  case UnmountBinlog
  then show ?thesis
    by (auto simp: on_click_def unmount_binlog_def details_step_def details_part_def no_details_def disposeAnalysis_def)
qed (auto simp: on_click_def intro!: details_same change_details)

lemma details_inv_keep:
  assumes inv: "details_inv B s" and mem: "\<And>g i t f. ReadTransaction g i t f \<in> set (bw_requests s') \<Longrightarrow>
      ReadTransaction g i t f \<in> set (bw_requests s) \<or> ReadTransaction g i t f \<in> set rs"
    and "details_part s' = details_part s1"
    and "details_step B s s1 rs"
  shows "details_inv B s'"
proof -
  from assms(4) consider
    (same) "details_part s1 = details_part s" "no_details rs"
  | (dropped) "transactionDetailGenerationRef s < transactionDetailGenerationRef s1" "no_details rs"
      "mountedRef s1 \<longrightarrow> transactionDetails s1 = (\<lambda>_. None)
          \<and> (bw_analysisId s1 = None \<or> bw_analysisId s1 = bw_analysisId s \<and> activeRunRef s1 = activeRunRef s \<and> mountedRef s)"
      "\<not> mountedRef s1 \<longrightarrow> transactionDetails s1 = transactionDetails s \<and> bw_analysisId s1 = bw_analysisId s
          \<and> bw_filter s1 = bw_filter s"
  | (learned) "mountedRef s" "mountedRef s1" "activeRunRef s1 = activeRunRef s" "bw_filter s1 = bw_filter s"
      "transactionDetailGenerationRef s1 = transactionDetailGenerationRef s" "transactionDetails s1 = transactionDetails s"
      "bw_analysisId s1 = Some (be_ident B (activeRunRef s))" "no_details rs"
  | (asked) i t where "details_part s1 = details_part s" "bw_analysisId s = Some i"
      "rs = [ReadTransaction (transactionDetailGenerationRef s) i t (bw_filter s)]"
    unfolding details_step_def by blast
  then show ?thesis
  proof cases
    case same
    with inv mem assms(3) show ?thesis by (fastforce simp: details_inv_def details_part_def no_details_def)
  next
    case dropped
    have old: "ReadTransaction g i t f \<in> set (bw_requests s') \<Longrightarrow> g < transactionDetailGenerationRef s1" for g i t f
      using inv mem [of g i t f] dropped(1,2) by (fastforce simp: details_inv_def no_details_def)
    show ?thesis
    proof (cases "mountedRef s1")
      case True
      with dropped old inv assms(3) show ?thesis
        by (fastforce simp: details_inv_def details_part_def dest: less_imp_le)
    next
      case False
      with dropped old inv assms(3) show ?thesis
        by (fastforce simp: details_inv_def details_part_def dest: less_imp_le)
    qed
  next
    case learned
    have "bw_analysisId s = None \<or> bw_analysisId s = bw_analysisId s1"
      using inv learned(1,7) by (auto simp: details_inv_def)
    with inv mem learned assms(3) show ?thesis
      by (fastforce simp: details_inv_def details_part_def no_details_def)
  next
    case (asked i t)
    with inv mem assms(3) show ?thesis by (fastforce simp: details_inv_def details_part_def)
  qed
qed

lemma details_inv_answer:
  assumes inv: "details_inv B s" and mem: "\<And>g i t f. ReadTransaction g i t f \<in> set (bw_requests s') \<Longrightarrow>
      ReadTransaction g i t f \<in> set (bw_requests s) \<or> ReadTransaction g i t f \<in> set rs"
    and d: "details_part s' = details_part s1" and "details_answer B s s1 rs"
  shows "details_inv B s'"
proof -
  from assms(4) obtain i t f where r: "rs = []"
      "ReadTransaction (transactionDetailGenerationRef s) i t f \<in> set (bw_requests s)"
      "details_part s1 = details_part
         (s \<lparr> transactionDetails := (transactionDetails s) (tx_id t \<mapsto> be_transaction B i (tx_sequence t) f) \<rparr>)"
    by (auto simp: details_answer_def)
  from inv r(2) have now: "bw_analysisId s = Some i" "f = bw_filter s" by (auto simp: details_inv_def)
  from r(3) d have p: "mountedRef s' = mountedRef s" "activeRunRef s' = activeRunRef s" "bw_analysisId s' = bw_analysisId s"
      "bw_filter s' = bw_filter s" "transactionDetailGenerationRef s' = transactionDetailGenerationRef s"
      "transactionDetails s' = (transactionDetails s) (tx_id t \<mapsto> be_transaction B i (tx_sequence t) f)"
    by (auto simp: details_part_def)
  have "\<exists>(t' :: BinlogTransactionSummary) i'. bw_analysisId s' = Some i' \<and> tx_id t' = k \<and> x = be_transaction B i' (tx_sequence t') (bw_filter s')"
    if "transactionDetails s' k = Some x" for k x
    using that inv now p by (cases "k = tx_id t") (auto simp: details_inv_def)
  moreover have "g \<le> transactionDetailGenerationRef s'
      \<and> (g = transactionDetailGenerationRef s' \<longrightarrow> bw_analysisId s' = Some j \<and> h = bw_filter s')"
    if "ReadTransaction g j t' h \<in> set (bw_requests s')" for g j t' h
    using mem [OF that] inv r(1) unfolding details_inv_def p by simp
  ultimately show ?thesis using inv unfolding details_inv_def p(1-3) by blast
qed

lemma details_inv_step:
  assumes inv: "details_inv B s" and adm: "admissible B s l" and st: "binlog_step l s = (s', rs)"
  shows "details_inv B s'"
proof -
  obtain s1 rs1 rs2 where h: "binlog_handler l s = (s1, rs1)" "rs = rs1 @ rs2"
    "s' = (fst (binlog_effects s s1)) \<lparr> bw_requests := bw_requests s1 @ rs \<rparr>" "rs2 = snd (binlog_effects s s1)"
    using binlog_step_requests [OF st] by metis
  have "no_details rs2" by (simp add: h(4) binlog_effects_def)
  then have mem: "ReadTransaction g i t f \<in> set (bw_requests s') \<Longrightarrow>
      ReadTransaction g i t f \<in> set (bw_requests s) \<or> ReadTransaction g i t f \<in> set rs1" for g i t f
    using handler_request_set [of l s] h(1) by (auto simp: h(2,3) no_details_def)
  have d: "details_part s' = details_part s1" by (simp add: h(3) binlog_effects_def)
  from handler_details [OF adm] h(1) have "details_step B s s1 rs1 \<or> details_answer B s s1 rs1" by simp
  then show ?thesis using details_inv_keep [OF inv mem d] details_inv_answer [OF inv mem d] by blast
qed

lemma details_inv_init: "details_inv B init_binlog"
  by (simp add: details_inv_def init_binlog_def)

lemma details_inv_run: "binlog_run B s sent opened \<Longrightarrow> details_inv B s"
proof (induction rule: binlog_run.induct)
  case start
  show ?case by (rule details_inv_init)
next
  case (step s sent opened l s' rs)
  from details_inv_step [OF step.IH step.hyps(2,3)] show ?case .
qed

section \<open>Properties\<close>

text \<open>
  C9: what the timeline shows is right. Whatever answers come late, while an analysis is ready
  the transactions shown are the backend's pages for this analysis and the present filter, each once and in
  order, up to the cursor that is kept; they are missing only while the first page is loading or has failed.
\<close>

theorem timeline_in_order:
  assumes "binlog_run B s sent opened" "\<forall>run. be_ident B run \<noteq> []" "mountedRef s" "bw_phase s = Ready"
  shows "\<exists>i. bw_analysisId s = Some i
    \<and> (timeline B i (bw_filter s) (bw_transactions s) (nextCursor s)
       \<or> bw_transactions s = [] \<and> nextCursor s = None \<and> (timelineLoading s \<or> timelineError s \<noteq> None))"
proof -
  from timeline_inv_run [OF assms(1,2)] assms(3,4) obtain i where "bw_analysisId s = Some i"
      "page_state B i (bw_filter s) (bw_transactions s) (nextCursor s) (timelineLoading s) (timelineError s)
         (page_requests s)"
    by (auto simp: timeline_inv_def shown_ok_def)
  then show ?thesis
    by (cases "(B, i, bw_filter s, bw_transactions s, nextCursor s, timelineLoading s, timelineError s, page_requests s)"
        rule: page_state.cases) auto
qed

theorem timeline_in_order_witness:
  "bw_transactions (fst (from_start analyse_one)) = [one_transaction]
   \<and> timeline one_backend [48, 1] NO_FILTER [one_transaction] None"
proof -
  let ?s = "fst (from_start analyse_one)"
  have run: "playable one_backend (init_binlog, [], {}) analyse_one" by code_simp
  have on: "mountedRef ?s" "bw_phase ?s = Ready" by code_simp+
  have now: "bw_analysisId ?s = Some [48, 1]" "bw_filter ?s = NO_FILTER" "bw_transactions ?s = [one_transaction]"
    "nextCursor ?s = None" by code_simp+
  from timeline_in_order [OF from_start_run [OF run] one_backend_ident on] now show ?thesis by simp
qed

lemma timeline_empty: "timeline B i f rows cursor \<Longrightarrow> rows = [] \<Longrightarrow> fst (be_page B i f None) = []"
  by (induction rule: timeline.induct) auto

text \<open>The notice that no transaction matches the filter is true.\<close>

lemma no_match_is_true:
  assumes "binlog_run B s sent opened" "\<forall>run. be_ident B run \<noteq> []" "mountedRef s" "shows_no_match s" "timelineError s \<noteq> Some []"
  shows "\<exists>i. bw_analysisId s = Some i \<and> fst (be_page B i (bw_filter s) None) = []"
proof -
  from assms(4,5) have n: "bw_phase s = Ready" "\<not> timelineLoading s" "timelineError s = None" "bw_transactions s = []"
    by (cases "timelineError s"; auto simp: shows_no_match_def analysis_shown_def)+
  with timeline_in_order [OF assms(1-3)] timeline_empty show ?thesis by fastforce
qed

text \<open>
  C10: details that are shown are those of the present analysis and filter: the answer to a request
  made under another filter, or for another import, never stays.
\<close>

theorem details_of_filter:
  assumes "binlog_run B s sent opened" "transactionDetails s k = Some d"
  shows "\<exists>(t :: BinlogTransactionSummary) i.
    bw_analysisId s = Some i \<and> tx_id t = k \<and> d = be_transaction B i (tx_sequence t) (bw_filter s)"
  using details_inv_run [OF assms(1)] assms(2) by (simp add: details_inv_def)

definition expand_one :: "binlog_label list" where
  "expand_one = analyse_one @ [ToggleCard one_transaction,
     Reply 0 (GotTransaction (be_transaction one_backend [48, 1] 1 NO_FILTER))]"

theorem details_of_filter_witness:
  "\<exists>d (t :: BinlogTransactionSummary). transactionDetails (fst (from_start expand_one)) [49] = Some d \<and> tx_id t = [49]
    \<and> d = be_transaction one_backend [48, 1] (tx_sequence t) NO_FILTER"
proof -
  let ?s = "fst (from_start expand_one)"
  have run: "playable one_backend (init_binlog, [], {}) expand_one" by code_simp
  have now: "bw_analysisId ?s = Some [48, 1]" "bw_filter ?s = NO_FILTER" by code_simp+
  have "transactionDetails ?s [49] \<noteq> None" by code_simp
  then obtain d where d: "transactionDetails ?s [49] = Some d" by blast
  from details_of_filter [OF from_start_run [OF run] d] now d show ?thesis by auto
qed

section \<open>Late answers\<close>

text \<open>The run or the generation that a request's continuation compares is not the present one.\<close>

fun outdated :: "binlog \<Rightarrow> request \<Rightarrow> bool" where
  "outdated s (RequestCancel run i) \<longleftrightarrow> \<not> live_run run s"
| "outdated s (ReadSummary run i) \<longleftrightarrow> \<not> live_run run s"
| "outdated s (ListFirst g i f) \<longleftrightarrow> \<not> live_timeline g s"
| "outdated s (ListMore g i f c) \<longleftrightarrow> \<not> live_timeline g s"
| "outdated s (ReadTransaction g i t f) \<longleftrightarrow> \<not> (mountedRef s \<and> g = transactionDetailGenerationRef s)"
| "outdated s (StartImport run paths) \<longleftrightarrow> \<not> live_run run s"
| "outdated s q \<longleftrightarrow> False"

lemma late_answer_ignored:
  "outdated s q \<Longrightarrow> reply_result q a s = Some (s', rs) \<Longrightarrow> s' = s \<and> (rs \<noteq> [] \<longrightarrow> (\<exists>i. rs = [DisposeCancel i None]))"
  by (cases q; cases a)
    (auto simp: reply_result_def start_answer_def cancel_answer_def summary_answer_def first_page_def next_page_def
      transaction_answer_def disposeAnalysis_def)

text \<open>
  Reset SQL has no such guard: SQL generated for a filter is copied after the filter has changed, when its button
  is no longer marked as busy.
\<close>

lemma reset_sql_outlives_filter:
  fixes d :: js
  assumes "mountedRef s" "analysis_shown s" "at (bw_requests s) n = Some (ReadResetSql i t f)" "rs_sql out \<noteq> []"
  defines "s1 \<equiv> fst (binlog_step (PickDatabase d) s)"
  shows "tf_database (bw_filter s1) = d" "resetSqlLoadingIds s1 = []"
    "snd (binlog_step (Reply n (GotResetSql out)) s1) = [WriteClipboard t out]"
proof -
  have s1: "mountedRef s1" "tf_database (bw_filter s1) = d" "resetSqlLoadingIds s1 = []" "\<exists>rs. bw_requests s1 = bw_requests s @ rs"
    using assms(1,2) by (auto simp: s1_def binlog_step_def on_click_def change_filter_def set_filter_def
        resetTransactionDetails_def binlog_effects_def timeline_effect_def Let_def)
  from s1(4) assms(3) have "at (bw_requests s1) n = Some (ReadResetSql i t f)"
    by (auto simp: at_def nth_append split: if_splits)
  with s1(1) assms(4) show "snd (binlog_step (Reply n (GotResetSql out)) s1) = [WriteClipboard t out]"
    by (simp add: binlog_step_def reply_handler_def reply_result_def reset_sql_answer_def binlog_effects_def)
  show "tf_database (bw_filter s1) = d" "resetSqlLoadingIds s1 = []" using s1(2,3) .
qed

end
