(* ===== verification/Redis_Commands.thy ===== *)
theory Redis_Commands
  imports Workspace_Navigation Preferences Binlog_View
begin

text \<open>
  The commands of the Redis workspace (\<open>features/redis/RedisWorkspace.tsx\<close>): what is read for a key, the plans its
  forms make, and the formatting helpers. The reader \<open>redis_words\<close> is the backend's lexical rule (the words of a
  redis-cli line), and the lemmas say what it makes of each command.

  Numbers read from a reply (\<open>parseInt\<close>) are integers; those typed into a form are doubles.
\<close>

section \<open>Quoting and reading cells\<close>

text \<open>\<open>window.atob\<close>: white space is dropped, padding is optional; \<open>None\<close> is the exception.\<close>

definition sextet :: "nat \<Rightarrow> nat option" where
  "sextet c = find_index (\<lambda>a. a = c) base64_alphabet"

fun sextet_bytes :: "nat list \<Rightarrow> nat list" where
  "sextet_bytes (a # b # c # d # r) = (4 * a + b div 16) # (16 * (b mod 16) + c div 4) # (64 * (c mod 4) + d) # sextet_bytes r"
| "sextet_bytes [a, b, c] = [4 * a + b div 16, 16 * (b mod 16) + c div 4]"
| "sextet_bytes [a, b] = [4 * a + b div 16]"
| "sextet_bytes r = []"

definition unpadded :: "js \<Rightarrow> js" where
  "unpadded t =
     (if length t mod 4 \<noteq> 0 then t
      else if ends_with t (u ''=='') then take (length t - 2) t
      else if ends_with t (u ''='') then take (length t - 1) t else t)"

definition atob :: "js \<Rightarrow> nat list option" where
  "atob s =
     (let t = unpadded (filter (\<lambda>c. c \<notin> {9, 10, 12, 13, 32}) s) in
      if length t mod 4 = 1 \<or> (\<exists>c \<in> set t. sextet c = None) then None
      else Some (sextet_bytes (map (\<lambda>c. the (sextet c)) t)))"

definition redis_hex_digit :: "nat \<Rightarrow> nat" where
  "redis_hex_digit n = (if n < 10 then 48 + n else 87 + n)"

definition hex_escape :: "nat \<Rightarrow> js" where
  "hex_escape b = [BACKSLASH, 120, redis_hex_digit (b div 16), redis_hex_digit (b mod 16)]"

definition quoteRedisBinaryArgument :: "js \<Rightarrow> js option" where
  "quoteRedisBinaryArgument value =
     (case atob (trim value) of
        None \<Rightarrow> None
      | Some bytes \<Rightarrow> Some ([DQUOTE] @ concat (map hex_escape bytes) @ [DQUOTE]))"

definition redis_cellText :: "CellValue option \<Rightarrow> js" where
  "redis_cellText c =
     (case c of
        None \<Rightarrow> [] | Some CNull \<Rightarrow> []
      | Some (CBoolean b) \<Rightarrow> if b then u ''true'' else u ''false''
      | Some (CJson v) \<Rightarrow> v
      | Some (CBinary v) \<Rightarrow> u ''base64:'' @ v
      | Some (CFloat x) \<Rightarrow> num_to_string x
      | Some (CInteger v) \<Rightarrow> v | Some (CDecimal v) \<Rightarrow> v | Some (CText v) \<Rightarrow> v | Some (CDateTime v) \<Rightarrow> v)"

definition row_cell :: "CellValue list list \<Rightarrow> nat \<Rightarrow> nat \<Rightarrow> CellValue option" where
  "row_cell rows r c = (case Js_Strings.at rows r of None \<Rightarrow> None | Some row \<Rightarrow> Js_Strings.at row c)"

definition scalarText :: "CellValue list list \<Rightarrow> js" where
  "scalarText rows = redis_cellText (row_cell rows 0 0)"

section \<open>The key of an inspection tab\<close>

definition quotedUnitRx :: rx where
  "quotedUnitRx = Alt (Seq (rx_chr BACKSLASH) (Cls (\<lambda>c. c \<notin> {10, 13, 8232, 8233}))) (Cls (\<lambda>c. c \<noteq> DQUOTE))"

definition quotedTypeRx :: rx where
  "quotedTypeRx = Seq Bol (Seq (rx_liti ''type'') (Seq (rx_plus rx_ws) (Seq (rx_chr DQUOTE)
     (Seq (Grp 1 (Star quotedUnitRx))
       (Seq (rx_chr DQUOTE) (rx_opt (rx_chr SEMICOLON)))))))"

definition bareTypeRx :: rx where
  "bareTypeRx = Seq Bol (Seq (rx_liti ''type'') (Seq (rx_plus rx_ws)
     (Seq (Grp 1 (rx_plus (Cls (\<lambda>c. \<not> is_ws c \<and> c \<noteq> SEMICOLON)))) (rx_opt (rx_chr SEMICOLON)))))"

definition unescaped :: "nat \<Rightarrow> nat option" where
  "unescaped c =
     (if c = BACKSLASH then Some BACKSLASH else if c = 110 then Some NEWLINE else if c = 114 then Some CARRIAGE
      else if c = 116 then Some TAB else if c = DQUOTE then Some DQUOTE else None)"

fun unescape_key :: "js \<Rightarrow> js" where
  "unescape_key (c # d # r) =
     (if c = BACKSLASH \<and> unescaped d \<noteq> None then the (unescaped d) # unescape_key r else c # unescape_key (d # r))"
| "unescape_key s = s"

definition inspectionKeyFromSql :: "js \<Rightarrow> js option" where
  "inspectionKeyFromSql sqlText =
     (case rx_groups quotedTypeRx sqlText of
        Some g \<Rightarrow> map_option unescape_key (g 1)
      | None \<Rightarrow> (case rx_groups bareTypeRx sqlText of Some g \<Rightarrow> g 1 | None \<Rightarrow> None))"

section \<open>Labels\<close>

fun redis_environmentLabel :: "Environment \<Rightarrow> js" where
  "redis_environmentLabel Production = ([29983, 20135])"
| "redis_environmentLabel Development = ([24320, 21457])"
| "redis_environmentLabel Unspecified = ([26410, 25351, 23450])"

definition redis_formatBytes :: "int option \<Rightarrow> js" where
  "redis_formatBytes b =
     (case b of
        None \<Rightarrow> ([8212])
      | Some n \<Rightarrow>
          if n < 0 then ([8212])
          else if n < 1024 then dec (nat n) @ u '' B''
          else if n < 1024 * 1024 then tenths (nat n) 1024 @ u '' KB''
          else tenths (nat n) (1024 * 1024) @ u '' MB'')"

definition formatTtl :: "int option \<Rightarrow> js" where
  "formatTtl t =
     (case t of
        None \<Rightarrow> ([8212])
      | Some n \<Rightarrow>
          if n = - 1 then ([27704, 20037])
          else if n = - 2 then ([24050, 22833, 25928])
          else if n \<ge> 86400 then dec (nat (n div 86400)) @ (u '' '' @ [22825])
          else if n \<ge> 3600 then dec (nat (n div 3600)) @ (u '' '' @ [23567, 26102])
          else if n \<ge> 60 then dec (nat (n div 60)) @ (u '' '' @ [20998, 38047])
          else dec (nat (max 0 n)) @ (u '' '' @ [31186]))"

definition redisErrorMessage :: "rejection \<Rightarrow> js" where
  "redisErrorMessage e =
     (case e of
        RejError a \<Rightarrow> (if truthy (technicalDetails a) then message a @ ([65306]) @ the (technicalDetails a) else message a)
      | RejMessage m \<Rightarrow> m
      | RejOther \<Rightarrow> (u ''Redis '' @ [25805, 20316, 22833, 36133, 65292, 35831, 37325, 35797, 12290]))"

section \<open>Reading a key\<close>

definition valueCommand :: "js \<Rightarrow> js \<Rightarrow> js option" where
  "valueCommand kind key =
     (let quotedKey = quoteRedisArgument key; t = to_lower kind in
      if t = u ''string'' then Some (u ''GET '' @ quotedKey)
      else if t = u ''hash'' then Some (u ''HSCAN '' @ quotedKey @ u '' 0 MATCH '' @ [DQUOTE, 42, DQUOTE] @ u '' COUNT 200'')
      else if t = u ''list'' then Some (u ''LRANGE '' @ quotedKey @ u '' 0 199'')
      else if t = u ''set'' then Some (u ''SSCAN '' @ quotedKey @ u '' 0 MATCH '' @ [DQUOTE, 42, DQUOTE] @ u '' COUNT 200'')
      else if t = u ''zset'' then Some (u ''ZSCAN '' @ quotedKey @ u '' 0 MATCH '' @ [DQUOTE, 42, DQUOTE] @ u '' COUNT 200'')
      else if t = u ''stream'' then Some (u ''XRANGE '' @ quotedKey @ u '' - + COUNT 100'')
      else if t = u ''rejson-rl'' \<or> t = u ''json'' then Some (u ''JSON.GET '' @ quotedKey)
      else None)"

datatype RedisDataType = RAll | RString | RHash | RList | RSet | RZSet | RStream

fun type_value :: "RedisDataType \<Rightarrow> js" where
  "type_value RAll = u ''all''"
| "type_value RString = u ''string''"
| "type_value RHash = u ''hash''"
| "type_value RList = u ''list''"
| "type_value RSet = u ''set''"
| "type_value RZSet = u ''zset''"
| "type_value RStream = u ''stream''"

definition has_wildcard :: "js \<Rightarrow> bool" where
  "has_wildcard p \<longleftrightarrow> (\<exists>c \<in> set p. c = 42 \<or> c = 63 \<or> c = 91 \<or> c = 93)"

definition scan_pattern :: "js \<Rightarrow> js" where
  "scan_pattern searchPattern =
     (if searchPattern = [42] \<or> has_wildcard searchPattern then searchPattern else [42] @ searchPattern @ [42])"

definition scan_command :: "js \<Rightarrow> js \<Rightarrow> RedisDataType \<Rightarrow> js" where
  "scan_command cursor searchPattern typeFilter =
     u ''SCAN '' @ cursor @ u '' MATCH '' @ quoteRedisArgument (scan_pattern searchPattern) @ u '' COUNT 200'' @
     (if typeFilter = RAll then [] else u '' TYPE '' @ type_value typeFilter)"

section \<open>Plans\<close>

text \<open>\<open>mp_nextKey\<close>: \<open>None\<close> is undefined, \<open>Some None\<close> is null.\<close>

record MutationPlan =
  mp_title :: js
  mp_summary :: js
  mp_commands :: "js list"
  mp_destructive :: bool
  mp_nextKey :: "js option option"
  mp_refreshKeys :: bool

definition simple_plan :: "js \<Rightarrow> js \<Rightarrow> js \<Rightarrow> MutationPlan" where
  "simple_plan title summary command =
     \<lparr> mp_title = title, mp_summary = summary, mp_commands = [command], mp_destructive = False, mp_nextKey = None,
       mp_refreshKeys = False \<rparr>"

definition js_isInteger :: "js_num \<Rightarrow> bool" where
  "js_isInteger x = (case x of Fin neg m e \<Rightarrow> fst (rat_of m e) mod snd (rat_of m e) = 0 | _ \<Rightarrow> False)"

definition js_positive :: "js_num \<Rightarrow> bool" where
  "js_positive x = (case x of Fin neg m e \<Rightarrow> \<not> neg \<and> 0 < m | Inf neg \<Rightarrow> \<not> neg | NaN \<Rightarrow> False)"

definition ATOMIC_CREATE_WITH_TTL_SCRIPT :: js where
  "ATOMIC_CREATE_WITH_TTL_SCRIPT =
     join [SEMICOLON]
       [u ''local result=redis.call(ARGV[1],KEYS[1],unpack(ARGV,2,#ARGV-1))'',
        u ''redis.call('' @ [QUOTE] @ u ''EXPIRE'' @ [QUOTE] @ u '',KEYS[1],ARGV[#ARGV])'',
        u ''return result'']"

text \<open>The command name and its arguments for a new key; an error otherwise.\<close>

definition create_parts :: "RedisDataType \<Rightarrow> js \<Rightarrow> js \<Rightarrow> js + js \<times> js list" where
  "create_parts createType createAuxiliary createValue =
     (let value = quoteRedisArgument createValue; auxiliary = quoteRedisArgument createAuxiliary in
      case createType of
        RHash \<Rightarrow> if createAuxiliary = [] then Inl (u ''Hash '' @ [38656, 35201, 23383, 27573, 21517, 12290]) else Inr (u ''HSET'', [auxiliary, value])
      | RList \<Rightarrow> Inr (u ''RPUSH'', [value])
      | RSet \<Rightarrow> Inr (u ''SADD'', [value])
      | RZSet \<Rightarrow>
          (let score = js_Number createAuxiliary in
           if \<not> is_finite score then Inl (u ''ZSet '' @ [38656, 35201, 26377, 25928, 20998, 25968, 12290])
           else Inr (u ''ZADD'', [quoteRedisArgument (num_to_string score), value]))
      | RStream \<Rightarrow>
          if createAuxiliary = [] then Inl (u ''Stream '' @ [38656, 35201, 23383, 27573, 21517, 12290])
          else Inr (u ''XADD'', [quoteRedisArgument [42], auxiliary, value])
      | _ \<Rightarrow> Inr (u ''SET'', [value]))"

definition create_command :: "RedisDataType \<Rightarrow> js \<Rightarrow> js_num option \<Rightarrow> js \<times> js list \<Rightarrow> js" where
  "create_command createType name ttl parts =
     (let key = quoteRedisArgument name in
      case ttl of
        None \<Rightarrow> join [32] ([fst parts, key] @ snd parts)
      | Some t \<Rightarrow>
          if createType = RString then join [32] ([fst parts, key] @ snd parts @ [u ''EX'', num_to_string t])
          else join [32] ([u ''EVAL'', quoteRedisArgument ATOMIC_CREATE_WITH_TTL_SCRIPT, u ''1'', key,
                 quoteRedisArgument (fst parts)] @ snd parts @ [num_to_string t]))"

definition create_plan :: "RedisDataType \<Rightarrow> js \<Rightarrow> js \<Rightarrow> js \<Rightarrow> js \<Rightarrow> js + MutationPlan" where
  "create_plan createType createName createValue createAuxiliary createTtl =
     (let name = trim createName; ttl = (if trim createTtl \<noteq> [] then Some (js_Number createTtl) else None) in
      if name = [] then Inl ([35831, 36755, 20837, 38190, 21517, 12290])
      else if (case ttl of None \<Rightarrow> False | Some t \<Rightarrow> \<not> js_isInteger t \<or> \<not> js_positive t)
        then Inl (u ''TTL '' @ [24517, 39035, 26159, 22823, 20110] @ u '' 0 '' @ [30340, 25972, 25968, 31186, 25968, 12290])
      else case create_parts createType createAuxiliary createValue of
        Inl e \<Rightarrow> Inl e
      | Inr parts \<Rightarrow> Inr
          \<lparr> mp_title = ([21019, 24314, 38190]),
            mp_summary = ([21019, 24314] @ u '' '') @ type_value createType @ (u '' '' @ [38190, 8220]) @ name @ ([8221]) @
              (case ttl of None \<Rightarrow> [] | Some t \<Rightarrow> ([65292, 24182, 35774, 32622] @ u '' '') @ num_to_string t @ (u '' '' @ [31186] @ u '' TTL'')) @ ([12290]),
            mp_commands = [create_command createType name ttl parts], mp_destructive = False,
            mp_nextKey = Some (Some name), mp_refreshKeys = True \<rparr>)"

record RedisKeyDetails =
  rd_key :: js
  rd_type :: js
  rd_ttl :: "int option"
  rd_memory :: "int option"
  rd_columns :: "QueryColumn list"
  rd_rows :: "CellValue list list"

definition scalar_plan :: "RedisKeyDetails \<Rightarrow> js \<Rightarrow> bool \<Rightarrow> js + MutationPlan" where
  "scalar_plan d draft binary =
     (let key = quoteRedisArgument (rd_key d);
          isJson = (to_lower (rd_type d) \<in> {u ''json'', u ''rejson-rl''});
          valueArgument = (if binary then quoteRedisBinaryArgument draft else Some (quoteRedisArgument draft))
      in case valueArgument of
           None \<Rightarrow> Inl ([20108, 36827, 21046, 20540, 24517, 39035, 26159, 26377, 25928, 30340] @ u '' Base64'' @ [12290])
         | Some v \<Rightarrow>
             if isJson \<and> json_parse draft = None then Inl (u ''JSON '' @ [20869, 23481, 26684, 24335, 26080, 25928, 12290])
             else Inr (simple_plan ([20445, 23384, 20540])
               (([26356, 26032, 8220]) @ rd_key d @ ([8221, 30340]) @ (if isJson then u '' JSON'' else []) @ ([20869, 23481, 12290]))
               (if isJson then u ''JSON.SET '' @ key @ u '' $ '' @ quoteRedisArgument draft
                else u ''SET '' @ key @ u '' '' @ v @ u '' KEEPTTL'')))"

text \<open>\<open>None\<close>: the type has no entry form, and nothing happens.\<close>

definition entry_command :: "RedisKeyDetails \<Rightarrow> bool \<Rightarrow> js \<Rightarrow> js \<Rightarrow> (js + js) option" where
  "entry_command d left entryPrimary entrySecondary =
     (let key = quoteRedisArgument (rd_key d); primary = quoteRedisArgument entryPrimary;
          secondary = quoteRedisArgument entrySecondary; t = to_lower (rd_type d)
      in if t = u ''hash'' then
           Some (if entryPrimary = [] then Inl ([35831, 36755, 20837] @ u '' Hash '' @ [23383, 27573, 21517, 12290])
                 else Inr (u ''HSET '' @ key @ u '' '' @ primary @ u '' '' @ secondary))
         else if t = u ''list'' then
           Some (Inr ((if left then u ''LPUSH'' else u ''RPUSH'') @ u '' '' @ key @ u '' '' @ primary))
         else if t = u ''set'' then Some (Inr (u ''SADD '' @ key @ u '' '' @ primary))
         else if t = u ''zset'' then
           Some (let score = js_Number entrySecondary in
                 if \<not> is_finite score then Inl ([35831, 36755, 20837, 26377, 25928, 30340] @ u '' ZSet '' @ [20998, 25968, 12290])
                 else Inr (u ''ZADD '' @ key @ u '' '' @ num_to_string score @ u '' '' @ primary))
         else if t = u ''stream'' then
           Some (if entryPrimary = [] then Inl ([35831, 36755, 20837] @ u '' Stream '' @ [23383, 27573, 21517, 12290])
                 else Inr (u ''XADD '' @ key @ u '' * '' @ primary @ u '' '' @ secondary))
         else None)"

definition entry_plan :: "RedisKeyDetails \<Rightarrow> js \<Rightarrow> MutationPlan" where
  "entry_plan d command =
     simple_plan ([20445, 23384, 20803, 32032]) (([26356, 26032, 8220]) @ rd_key d @ ([8221, 20013, 30340, 19968, 20010, 20803, 32032, 12290])) command"

definition delete_entry_plan :: "RedisKeyDetails \<Rightarrow> CellValue \<Rightarrow> js + MutationPlan" where
  "delete_entry_plan d element =
     (let t = to_lower (rd_type d);
          commandName = (if t = u ''hash'' then u ''HDEL'' else if t = u ''set'' then u ''SREM'' else u ''ZREM'');
          primaryArgument = (case element of CBinary v \<Rightarrow> quoteRedisBinaryArgument v
                             | _ \<Rightarrow> Some (quoteRedisArgument (redis_cellText (Some element))))
      in case primaryArgument of
           None \<Rightarrow> Inl ([26080, 27861, 35299, 26512, 35813, 20108, 36827, 21046, 20803, 32032, 12290])
         | Some a \<Rightarrow> Inr ((simple_plan ([21024, 38500, 20803, 32032])
             (([20174, 8220]) @ rd_key d @ ([8221, 20013, 21024, 38500, 8220]) @ redis_cellText (Some element) @ ([8221, 12290]))
             (commandName @ u '' '' @ quoteRedisArgument (rd_key d) @ u '' '' @ a)) \<lparr> mp_destructive := True \<rparr>))"

definition delete_key_plan :: "RedisKeyDetails \<Rightarrow> MutationPlan" where
  "delete_key_plan d =
     \<lparr> mp_title = ([21024, 38500, 38190]), mp_summary = ([27704, 20037, 21024, 38500, 8220]) @ rd_key d @ ([8221, 12290, 27492, 25805, 20316, 26080, 27861, 25764, 38144, 12290]),
       mp_commands = [u ''DEL '' @ quoteRedisArgument (rd_key d)], mp_destructive = True, mp_nextKey = Some None,
       mp_refreshKeys = True \<rparr>"

definition expire_plan :: "RedisKeyDetails \<Rightarrow> js \<Rightarrow> js + MutationPlan" where
  "expire_plan d ttlDraft =
     (let ttl = js_Number ttlDraft in
      if \<not> js_isInteger ttl \<or> \<not> js_positive ttl then Inl (u ''TTL '' @ [24517, 39035, 26159, 22823, 20110] @ u '' 0 '' @ [30340, 25972, 25968, 31186, 25968, 12290])
      else Inr (simple_plan ([35774, 32622] @ u '' TTL'') (([23558, 8220]) @ rd_key d @ ([8221, 35774, 32622, 20026] @ u '' '') @ num_to_string ttl @ (u '' '' @ [31186, 21518, 36807, 26399, 12290]))
        (u ''EXPIRE '' @ quoteRedisArgument (rd_key d) @ u '' '' @ num_to_string ttl)))"

definition persist_plan :: "RedisKeyDetails \<Rightarrow> MutationPlan" where
  "persist_plan d =
     simple_plan ([31227, 38500] @ u '' TTL'') (([23558, 8220]) @ rd_key d @ ([8221, 35774, 20026, 27704, 20037, 38190, 12290])) (u ''PERSIST '' @ quoteRedisArgument (rd_key d))"

definition rename_plan :: "RedisKeyDetails \<Rightarrow> js \<Rightarrow> MutationPlan" where
  "rename_plan d renameDraft =
     (let nextKey = trim renameDraft in
      \<lparr> mp_title = ([37325, 21629, 21517, 38190]),
        mp_summary = ([23558, 8220]) @ rd_key d @ ([8221, 37325, 21629, 21517, 20026, 8220]) @ nextKey @ ([8221, 12290, 30446, 26631, 38190, 23384, 22312, 26102] @ u '' Redis '' @ [20250, 35206, 30422, 23427, 12290]),
        mp_commands = [u ''RENAME '' @ quoteRedisArgument (rd_key d) @ u '' '' @ quoteRedisArgument nextKey],
        mp_destructive = True, mp_nextKey = Some (Some nextKey), mp_refreshKeys = True \<rparr>)"

section \<open>The words of a command\<close>

text \<open>
  The backend's lexical rule, the loop of \<open>parse_command\<close> (\<open>crates/pipa-redis/src/adapter.rs\<close>): words are separated by
  white space, quotes of either kind group, a backslash takes the next unit, and \<open>\x\<close> two hexadecimal digits for one byte
  (Rust's \<open>from_str_radix\<close> accepts a plus sign for the first). The second argument says that a word has begun. A text is
  its UTF-16 units here and its UTF-8 bytes there; the limit on the size of a command and the refusal of an empty one are left out.
\<close>

datatype redis_char = Chr nat | Byte nat

definition redis_hex_value :: "nat \<Rightarrow> nat option" where
  "redis_hex_value c =
     (if is_digit c then Some (c - 48) else if 97 \<le> c \<and> c \<le> 102 then Some (c - 87)
      else if 65 \<le> c \<and> c \<le> 70 then Some (c - 55) else None)"

definition hex_byte :: "nat \<Rightarrow> nat \<Rightarrow> nat option" where
  "hex_byte h l =
     (if h = 43 then redis_hex_value l
      else case (redis_hex_value h, redis_hex_value l) of (Some a, Some b) \<Rightarrow> Some (16 * a + b) | _ \<Rightarrow> None)"

definition rust_ws :: "nat \<Rightarrow> bool" where
  "rust_ws c \<longleftrightarrow> (9 \<le> c \<and> c \<le> 13) \<or> c \<in> {32, 133, 160, 5760, 8232, 8233, 8239, 8287, 12288} \<or> (8192 \<le> c \<and> c \<le> 8202)"

definition redis_escape :: "nat \<Rightarrow> nat" where
  "redis_escape c = (if c = 110 then NEWLINE else if c = 114 then CARRIAGE else if c = 116 then TAB else c)"

function (sequential) words :: "nat option \<Rightarrow> bool \<Rightarrow> redis_char list \<Rightarrow> js \<Rightarrow> redis_char list list option" where
  "words q started word [] = (if q \<noteq> None then None else Some (if started then [word] else []))"
| "words q started word (c # cs) =
     (if q = None \<and> rust_ws c then
        (if started then map_option ((#) word) (words None False [] cs) else words None False [] cs)
      else if c = QUOTE \<or> c = DQUOTE then
        (if q = Some c then words None started word cs
         else if q = None then words (Some c) True word cs
         else words q started (word @ [Chr c]) cs)
      else if c = BACKSLASH then
        (case cs of
           [] \<Rightarrow> None
         | d # ds \<Rightarrow>
             if d = 120 then
               (case ds of
                  h # l # r \<Rightarrow> (case hex_byte h l of Some b \<Rightarrow> words q True (word @ [Byte b]) r | None \<Rightarrow> None)
                | _ \<Rightarrow> None)
             else words q True (word @ [Chr (redis_escape d)]) ds)
      else words q True (word @ [Chr c]) cs)"
  by pat_completeness auto
termination by (relation "measure (\<lambda>(q, started, word, s). length s)") auto

definition redis_words :: "js \<Rightarrow> redis_char list list option" where
  "redis_words s = words None False [] s"

text \<open>A text that is read as one word, whatever comes next.\<close>

definition reads_as :: "js \<Rightarrow> redis_char list \<Rightarrow> bool" where
  "reads_as p w \<longleftrightarrow> (\<forall>rest. words None False [] (p @ rest) = words None True w rest)"

lemma rust_ws_quote [simp]: "\<not> rust_ws DQUOTE" "rust_ws 32"
  by (simp_all add: rust_ws_def)

lemma words_quoted: "words (Some DQUOTE) True w (concat (map esc_redis v) @ DQUOTE # rest) = words None True (w @ map Chr v) rest"
  by (induction v arbitrary: w) (auto simp: esc_redis_def redis_escape_def)

lemma words_bytes:
  "\<forall>b \<in> set v. b < 256 \<Longrightarrow>
    words (Some DQUOTE) True w (concat (map hex_escape v) @ DQUOTE # rest) = words None True (w @ map Byte v) rest"
proof (induction v arbitrary: w)
  case (Cons b v)
  then have b: "b div 16 < 16" "16 * (b div 16) + b mod 16 = b" by auto
  have "redis_hex_value (redis_hex_digit n) = Some n" "redis_hex_digit n \<noteq> 43" if "n < 16" for n
    using that by (auto simp: redis_hex_value_def redis_hex_digit_def is_digit_def)
  with b have "hex_byte (redis_hex_digit (b div 16)) (redis_hex_digit (b mod 16)) = Some b" by (simp add: hex_byte_def)
  with Cons show ?case by (simp add: hex_escape_def)
qed simp

lemma reads_quoted [simp]: "reads_as (quoteRedisArgument v) (map Chr v)"
  by (simp add: reads_as_def quoteRedisArgument_esc words_quoted [of "[]", simplified])

lemma sextet_less: "sextet c = Some n \<Longrightarrow> n < 64"
  using find_index_Some [of "\<lambda>a. a = c" base64_alphabet n] by (simp add: sextet_def base64_alphabet_def)

lemma sextet_bytes_less: "\<forall>n \<in> set s. n < 64 \<Longrightarrow> \<forall>b \<in> set (sextet_bytes s). b < 256"
  by (induction s rule: sextet_bytes.induct) auto

lemma atob_bytes:
  assumes "atob s = Some bytes"
  shows "\<forall>b \<in> set bytes. b < 256"
proof -
  from assms obtain t where t: "bytes = sextet_bytes (map (\<lambda>c. the (sextet c)) t)" "\<forall>c \<in> set t. sextet c \<noteq> None"
    unfolding atob_def Let_def by (auto split: if_splits)
  have "\<forall>n \<in> set (map (\<lambda>c. the (sextet c)) t). n < 64"
    using t(2) sextet_less by fastforce
  then show ?thesis unfolding t(1) by (rule sextet_bytes_less)
qed

lemma reads_binary:
  "quoteRedisBinaryArgument v = Some a \<Longrightarrow> \<exists>bytes. atob (trim v) = Some bytes \<and> reads_as a (map Byte bytes)"
  by (auto simp: quoteRedisBinaryArgument_def reads_as_def words_bytes [of _ "[]", simplified] dest!: atob_bytes split: option.splits)

text \<open>A word of plain characters.\<close>

definition bare :: "js \<Rightarrow> bool" where
  "bare w \<longleftrightarrow> w \<noteq> [] \<and> (\<forall>c \<in> set w. \<not> rust_ws c \<and> c \<noteq> QUOTE \<and> c \<noteq> DQUOTE \<and> c \<noteq> BACKSLASH)"

lemma words_bare:
  "\<forall>c \<in> set v. \<not> rust_ws c \<and> c \<noteq> QUOTE \<and> c \<noteq> DQUOTE \<and> c \<noteq> BACKSLASH \<Longrightarrow>
    words None True w (v @ rest) = words None True (w @ map Chr v) rest"
  by (induction v arbitrary: w) auto

lemma reads_bare: "bare w \<Longrightarrow> reads_as w (map Chr w)"
  by (cases w) (auto simp: bare_def reads_as_def words_bare)

lemma redis_words_last: "reads_as p w \<Longrightarrow> redis_words p = Some [w]"
  using spec [of "\<lambda>rest. words None False [] (p @ rest) = words None True w rest" "[]"]
  by (simp add: reads_as_def redis_words_def)

lemma redis_words_space: "reads_as p w \<Longrightarrow> redis_words (p @ 32 # rest) = map_option ((#) w) (redis_words rest)"
  by (simp add: reads_as_def redis_words_def)

text \<open>Words joined by spaces are read back, each as itself.\<close>

lemma redis_words_join:
  "list_all2 reads_as ps ws \<Longrightarrow> ps \<noteq> [] \<Longrightarrow> redis_words (join [32] ps) = Some ws"
proof (induction ps arbitrary: ws)
  case (Cons p ps)
  then obtain w ws' where ws: "ws = w # ws'" "reads_as p w" "list_all2 reads_as ps ws'" by (auto simp: list_all2_Cons1)
  show ?case
  proof (cases "ps = []")
    case True
    with ws show ?thesis by (simp add: redis_words_last)
  next
    case False
    with Cons.IH [OF ws(3)] ws show ?thesis by (simp add: join_Cons redis_words_space)
  qed
qed simp

text \<open>Numbers are plain words.\<close>

definition number_char :: "nat \<Rightarrow> bool" where
  "number_char c \<longleftrightarrow> is_digit c \<or> c \<in> {43, 45, 46} \<or> is_lower c \<or> is_upper c"

lemma dec_number: "c \<in> set (dec n) \<Longrightarrow> number_char c"
  using dec_digits [of n] by (auto simp: number_char_def)

lemma layout_number: "c \<in> set (layout (dec k) n) \<Longrightarrow> number_char c"
  by (auto simp: layout_def Let_def dec_number number_char_def is_lower_def is_digit_def
      dest!: in_set_takeD in_set_dropD dec_number split: if_splits)

lemma number_text: "c \<in> set (num_to_string x) \<Longrightarrow> number_char c"
  by (cases x) (auto simp: num_to_string_def Let_def layout_number u_eval number_char_def is_digit_def is_lower_def is_upper_def
      dest: layout_number split: if_splits prod.splits)

lemma layout_not_Nil: "layout (dec k) n \<noteq> []"
  by (auto simp: layout_def Let_def)

lemma bare_number [simp]: "bare (num_to_string x)"
proof -
  have "num_to_string x \<noteq> []"
    by (cases x) (auto simp: num_to_string_def Let_def layout_not_Nil split: prod.splits)
  moreover have "\<not> rust_ws c \<and> c \<noteq> QUOTE \<and> c \<noteq> DQUOTE \<and> c \<noteq> BACKSLASH" if "number_char c" for c
    using that by (auto simp: number_char_def rust_ws_def is_digit_def is_lower_def is_upper_def)
  ultimately show ?thesis by (auto simp: bare_def dest: number_text)
qed

lemma reads_number [simp]: "reads_as (num_to_string x) (map Chr (num_to_string x))"
  by (rule reads_bare) simp

lemma reads_unit [simp]: "reads_as (u ''1'') (map Chr (u ''1''))"
  by (rule reads_bare) (simp add: bare_def u_eval rust_ws_def)

section \<open>The inspection commands\<close>

lemma rxf_Star_step:
  "rxf r st = Some st1 \<Longrightarrow> length (rx_rest st1) < length (rx_rest st) \<Longrightarrow> rxf (Star r) st1 = Some st2 \<Longrightarrow>
    rxf (Star r) st = Some st2"
  by (cases st) (auto simp: rxf_def rxm_Star [of _ st] rxm_Star [of _ "(_, _, _)"] star_next_def split: list.splits)

lemma rxf_Star_stop: "rxf r st = None \<Longrightarrow> rxf (Star r) st = Some st"
  by (cases st) (auto simp: rxf_None rxf_def [of "Star r"] rxm_Star)

lemma quoted_unit:
  "rxf quotedUnitRx (pre, esc_redis c @ rest, caps) = Some (rev (esc_redis c) @ pre, rest, caps)"
  by (auto simp: quotedUnitRx_def rxf_def rx_chr_def esc_redis_def)

lemma quoted_units:
  "rxf (Star quotedUnitRx) (pre, concat (map esc_redis k) @ DQUOTE # rest, caps) =
    Some (rev (concat (map esc_redis k)) @ pre, DQUOTE # rest, caps)"
proof (induction k arbitrary: pre)
  case Nil
  show ?case by (simp add: rxf_Star_stop quotedUnitRx_def rxf_None rx_chr_def)
next
  case (Cons c k)
  have "length (concat (map esc_redis k) @ DQUOTE # rest) < length (esc_redis c @ concat (map esc_redis k) @ DQUOTE # rest)"
    by (simp add: esc_redis_def)
  then show ?case
    using rxf_Star_step [OF quoted_unit [of pre c "concat (map esc_redis k) @ DQUOTE # rest" caps] _ Cons.IH] by simp
qed

lemma unescape_quoted: "unescape_key (concat (map esc_redis k)) = k"
proof (induction k)
  case (Cons c k)
  show ?case
  proof (cases "length (esc_redis c) = 1")
    case True
    then have "esc_redis c = [c]" "c \<noteq> BACKSLASH" by (auto simp: esc_redis_def split: if_splits)
    with Cons show ?thesis by (cases "concat (map esc_redis k)") auto
  next
    case False
    with Cons show ?thesis by (auto simp: esc_redis_def unescaped_def split: if_splits)
  qed
qed simp

end
