(* ===== verification/Redis_Workspace.thy ===== *)
theory Redis_Workspace
  imports Redis_Commands
begin

text \<open>
  The Redis workspace (\<open>features/redis/RedisWorkspace.tsx\<close>) as a machine: scanning keys, reading a key, mutations with
  their confirmation, and the database switch. A call of \<open>executeQueryOnce\<close> that has not settled is a task with what
  its continuation captured; the three reads of a key's value are one task. Handlers run to completion, then the
  effects run. The database is that of the profile the workspace was given, which the parent may change at any time.
\<close>

section \<open>State\<close>

datatype RedisWorkspaceMode = BrowserMode | CliMode

text \<open>What a mutation's closure captured when it was started.\<close>

record capture =
  cap_pattern :: js
  cap_type :: RedisDataType
  cap_database :: js
  cap_selected :: "js option"

datatype continuation = NoMutation | ThenSelect MutationPlan capture | ThenDone

datatype redis_task =
  ScanKeys nat bool js js continuation
| ReadType nat js js continuation
| ReadValue nat js js js continuation
| RunCommand js js MutationPlan "js list" capture
| CopyKeyName js

datatype redis_reply =
  GotRows "CellValue list list"
| GotValue "CellValue list list option" "CellValue list list option" "QueryColumn list" "CellValue list list"
| Copied
| RedisFailed rejection

datatype redis_effect = Ask redis_task | ChangeDatabase js | RunningChanged bool

record redis_ws =
  rw_active :: bool
  rw_environment :: Environment
  rw_database :: js
  rw_initialKey :: "js option"
  rw_mode :: RedisWorkspaceMode
  searchDraft :: js
  searchPattern :: js
  typeFilter :: RedisDataType
  rw_keys :: "js list"
  rw_cursor :: js
  selectedKey :: "js option"
  rw_details :: "RedisKeyDetails option"
  loadingKeys :: bool
  loadingDetails :: bool
  cliRunning :: bool
  mutationRunning :: bool
  rw_error :: "js option"
  rw_feedback :: "js option"
  pendingMutation :: "MutationPlan option"
  createOpen :: bool
  createType :: RedisDataType
  createName :: js
  createValue :: js
  createAuxiliary :: js
  createTtl :: js
  stringDraft :: js
  stringDraftIsBinary :: bool
  entryPrimary :: js
  entrySecondary :: js
  ttlDraft :: js
  renameDraft :: js
  databaseDraft :: js
  keyRequestIdRef :: nat
  detailRequestIdRef :: nat
  rw_tasks :: "redis_task list"

type_synonym redis_result = "redis_ws \<times> redis_effect list"

definition ZERO :: js where "ZERO = [48]"

definition initial_redis :: "Environment \<Rightarrow> js \<Rightarrow> js \<Rightarrow> redis_ws" where
  "initial_redis env database sqlText =
     (let initialKey = inspectionKeyFromSql sqlText in
      \<lparr> rw_active = True, rw_environment = env, rw_database = database, rw_initialKey = initialKey,
        rw_mode = (if truthy initialKey \<or> to_upper (trim sqlText) = u ''PING'' then BrowserMode else CliMode),
        searchDraft = [], searchPattern = [42], typeFilter = RAll, rw_keys = [], rw_cursor = ZERO,
        selectedKey = initialKey, rw_details = None, loadingKeys = False, loadingDetails = False, cliRunning = False,
        mutationRunning = False, rw_error = None, rw_feedback = None, pendingMutation = None, createOpen = False,
        createType = RString, createName = [], createValue = [], createAuxiliary = [], createTtl = [], stringDraft = [],
        stringDraftIsBinary = False, entryPrimary = [], entrySecondary = [], ttlDraft = [], renameDraft = [],
        databaseDraft = database, keyRequestIdRef = 0, detailRequestIdRef = 0, rw_tasks = [] \<rparr>)"

section \<open>Reading\<close>

definition scope_of :: "redis_ws \<Rightarrow> capture" where
  "scope_of s =
     \<lparr> cap_pattern = searchPattern s, cap_type = typeFilter s, cap_database = rw_database s, cap_selected = selectedKey s \<rparr>"

definition loadKeys :: "capture \<Rightarrow> js \<Rightarrow> bool \<Rightarrow> continuation \<Rightarrow> redis_ws \<Rightarrow> redis_result" where
  "loadKeys scope nextCursor replace k s =
     (let requestId = (if replace then keyRequestIdRef s + 1 else keyRequestIdRef s) in
      (s \<lparr> keyRequestIdRef := requestId, loadingKeys := True, rw_error := None \<rparr>,
       [Ask (ScanKeys requestId replace (scan_command nextCursor (cap_pattern scope) (cap_type scope)) (cap_database scope) k)]))"

definition scanned_keys :: "CellValue list list \<Rightarrow> js list" where
  "scanned_keys rows = filter (\<lambda>key. key \<noteq> []) (map (\<lambda>row. redis_cellText (Js_Strings.at row 1)) rows)"

definition scanned_cursor :: "CellValue list list \<Rightarrow> js" where
  "scanned_cursor rows = (case rows of [] \<Rightarrow> ZERO | row # _ \<Rightarrow> redis_cellText (Js_Strings.at row 0))"

definition keys_answer :: "nat \<Rightarrow> bool \<Rightarrow> rejection + CellValue list list \<Rightarrow> redis_ws \<Rightarrow> redis_ws" where
  "keys_answer requestId replace r s =
     (if keyRequestIdRef s \<noteq> requestId then s
      else case r of
        Inr rows \<Rightarrow>
          s \<lparr> rw_keys := new_set (if replace then scanned_keys rows else rw_keys s @ scanned_keys rows),
              rw_cursor := (if scanned_cursor rows = [] then ZERO else scanned_cursor rows), loadingKeys := False \<rparr>
      | Inl e \<Rightarrow> s \<lparr> rw_error := Some (redisErrorMessage e), loadingKeys := False \<rparr>)"

definition loadDetails :: "js \<Rightarrow> js \<Rightarrow> continuation \<Rightarrow> redis_ws \<Rightarrow> redis_result" where
  "loadDetails key database k s =
     (s \<lparr> detailRequestIdRef := detailRequestIdRef s + 1, selectedKey := Some key, loadingDetails := True, rw_error := None \<rparr>,
      [Ask (ReadType (detailRequestIdRef s + 1) key database k)])"

definition details_failed :: "nat \<Rightarrow> js \<Rightarrow> redis_ws \<Rightarrow> redis_ws" where
  "details_failed requestId text s =
     (if detailRequestIdRef s \<noteq> requestId then s
      else s \<lparr> rw_details := None, rw_error := Some text, loadingDetails := False \<rparr>)"

definition reply_int :: "CellValue list list option \<Rightarrow> int option" where
  "reply_int r =
     (case r of None \<Rightarrow> None
      | Some rows \<Rightarrow> (case parseInt (scalarText rows) of Number (Some q) \<Rightarrow> Some \<lfloor>q\<rfloor> | _ \<Rightarrow> None))"

definition is_binary :: "CellValue option \<Rightarrow> bool" where
  "is_binary c \<longleftrightarrow> (case c of Some (CBinary v) \<Rightarrow> True | _ \<Rightarrow> False)"

definition value_answer ::
  "nat \<Rightarrow> js \<Rightarrow> js \<Rightarrow> CellValue list list option \<Rightarrow> CellValue list list option \<Rightarrow> QueryColumn list \<Rightarrow> CellValue list list \<Rightarrow>
   redis_ws \<Rightarrow> redis_ws" where
  "value_answer requestId key kind ttlResult memoryResult columns rows s =
     (if detailRequestIdRef s \<noteq> requestId then s
      else let scalarCell = row_cell rows 0 0; ttl = reply_int ttlResult in
        s \<lparr> rw_details := Some \<lparr> rd_key = key, rd_type = kind, rd_ttl = ttl, rd_memory = reply_int memoryResult,
                                rd_columns = columns, rd_rows = rows \<rparr>,
            stringDraft := (case scalarCell of Some (CBinary v) \<Rightarrow> v | c \<Rightarrow> redis_cellText c),
            stringDraftIsBinary := is_binary scalarCell, renameDraft := key,
            ttlDraft := (case ttl of Some n \<Rightarrow> if n \<ge> 0 then dec (nat n) else [] | None \<Rightarrow> []),
            entryPrimary := [], entrySecondary := [], loadingDetails := False \<rparr>)"

section \<open>Mutations\<close>

definition mutation_done :: "redis_ws \<Rightarrow> redis_ws" where
  "mutation_done s = s \<lparr> mutationRunning := False \<rparr>"

text \<open>After the commands and the reload of the keys: the selection of the plan, or the one captured.\<close>

definition after_keys :: "MutationPlan \<Rightarrow> capture \<Rightarrow> redis_ws \<Rightarrow> redis_result" where
  "after_keys plan cap s =
     (if mp_nextKey plan = Some None then
        (mutation_done (s \<lparr> detailRequestIdRef := detailRequestIdRef s + 1, selectedKey := None, rw_details := None \<rparr>), [])
      else let keyToLoad = (case mp_nextKey plan of Some k \<Rightarrow> k | None \<Rightarrow> cap_selected cap) in
        if truthy keyToLoad then loadDetails (the keyToLoad) (cap_database cap) ThenDone s else (mutation_done s, []))"

definition after_commands :: "MutationPlan \<Rightarrow> capture \<Rightarrow> redis_ws \<Rightarrow> redis_result" where
  "after_commands plan cap s =
     (let s1 = s \<lparr> rw_feedback := Some (mp_title plan @ ([25104, 21151])) \<rparr> in
      if mp_refreshKeys plan then loadKeys cap ZERO True (ThenSelect plan cap) s1 else after_keys plan cap s1)"

definition run_commands :: "js list \<Rightarrow> MutationPlan \<Rightarrow> capture \<Rightarrow> redis_ws \<Rightarrow> redis_result" where
  "run_commands commands plan cap s =
     (case commands of
        [] \<Rightarrow> after_commands plan cap s
      | c # rest \<Rightarrow> (s, [Ask (RunCommand c (cap_database cap) plan rest cap)]))"

definition executeMutation :: "MutationPlan \<Rightarrow> redis_ws \<Rightarrow> redis_result" where
  "executeMutation plan s =
     (if mutationRunning s then (s, [])
      else run_commands (mp_commands plan) plan (scope_of s)
        (s \<lparr> mutationRunning := True, pendingMutation := None, rw_error := None, rw_feedback := None \<rparr>))"

definition mutation_failed :: "rejection \<Rightarrow> redis_ws \<Rightarrow> redis_ws" where
  "mutation_failed e s = mutation_done (s \<lparr> rw_error := Some (redisErrorMessage e) \<rparr>)"

definition resume :: "continuation \<Rightarrow> redis_ws \<Rightarrow> redis_result" where
  "resume k s =
     (case k of NoMutation \<Rightarrow> (s, []) | ThenSelect plan cap \<Rightarrow> after_keys plan cap s | ThenDone \<Rightarrow> (mutation_done s, []))"

definition requestMutation :: "MutationPlan \<Rightarrow> redis_ws \<Rightarrow> redis_result" where
  "requestMutation plan s =
     (if rw_environment s = Production \<or> mp_destructive plan then (s \<lparr> pendingMutation := Some plan \<rparr>, [])
      else executeMutation plan s)"

definition plan_or_error :: "js + MutationPlan \<Rightarrow> redis_ws \<Rightarrow> redis_result" where
  "plan_or_error r s = (case r of Inl e \<Rightarrow> (s \<lparr> rw_error := Some e \<rparr>, []) | Inr plan \<Rightarrow> requestMutation plan s)"

definition createKey :: "redis_ws \<Rightarrow> redis_result" where
  "createKey s =
     (case create_plan (createType s) (createName s) (createValue s) (createAuxiliary s) (createTtl s) of
        Inl e \<Rightarrow> (s \<lparr> rw_error := Some e \<rparr>, [])
      | Inr plan \<Rightarrow> (let (s1, es) = requestMutation plan s in (s1 \<lparr> createOpen := False \<rparr>, es)))"

definition saveScalarValue :: "RedisKeyDetails \<Rightarrow> redis_ws \<Rightarrow> redis_result" where
  "saveScalarValue d s = plan_or_error (scalar_plan d (stringDraft s) (stringDraftIsBinary s)) s"

definition saveCollectionEntry :: "RedisKeyDetails \<Rightarrow> bool \<Rightarrow> redis_ws \<Rightarrow> redis_result" where
  "saveCollectionEntry d left s =
     (case entry_command d left (entryPrimary s) (entrySecondary s) of
        None \<Rightarrow> (s, [])
      | Some (Inl e) \<Rightarrow> (s \<lparr> rw_error := Some e \<rparr>, [])
      | Some (Inr command) \<Rightarrow> requestMutation (entry_plan d command) s)"

section \<open>Searching, copying and the command workbench\<close>

definition submitSearch :: "redis_ws \<Rightarrow> redis_ws" where
  "submitSearch s = s \<lparr> searchPattern := (if trim (searchDraft s) = [] then [42] else trim (searchDraft s)) \<rparr>"

definition copySelectedKey :: "redis_ws \<Rightarrow> redis_result" where
  "copySelectedKey s = (if truthy (selectedKey s) then (s, [Ask (CopyKeyName (the (selectedKey s)))]) else (s, []))"

definition handleCliRunningChange :: "bool \<Rightarrow> redis_ws \<Rightarrow> redis_result" where
  "handleCliRunningChange b s = (s \<lparr> cliRunning := b \<rparr>, [RunningChanged b])"

section \<open>The database\<close>

definition commitDatabaseDraft :: "js \<Rightarrow> redis_ws \<Rightarrow> redis_result" where
  "commitDatabaseDraft draft s =
     (let database = js_Number draft in
      if \<not> js_isInteger database \<or> (is_negative database \<and> \<not> is_zero database) then
        (s \<lparr> databaseDraft := rw_database s, rw_error := Some (u ''Redis '' @ [25968, 25454, 24211, 32534, 21495, 24517, 39035, 26159, 38750, 36127, 25972, 25968, 12290]) \<rparr>, [])
      else let normalized = num_to_string database; s1 = s \<lparr> databaseDraft := normalized \<rparr> in
        if normalized = rw_database s then (s1, [])
        else (s1 \<lparr> detailRequestIdRef := detailRequestIdRef s + 1, selectedKey := None, rw_details := None \<rparr>,
              [ChangeDatabase normalized]))"

text \<open>Escape sets the draft and blurs; the blur's handler still holds the draft of the last render.\<close>

definition database_escape :: "redis_ws \<Rightarrow> redis_result" where
  "database_escape s = commitDatabaseDraft (databaseDraft s) (s \<lparr> databaseDraft := rw_database s \<rparr>)"

section \<open>Steps\<close>

datatype redis_label =
  SetDraft js | SubmitSearch | ClearSearch | RefreshKeys | LoadMoreKeys | PickType RedisDataType | SelectKey js
| OpenCreate | CloseCreate | SetCreateType RedisDataType | SetCreateName js | SetCreateValue js | SetCreateAuxiliary js
| SetCreateTtl js | CreateKey | DismissError | CopyName | RefreshKey | DeleteKey | SetString js | SaveScalar
| EditEntry nat | RemoveEntry nat | SetPrimary js | SetSecondary js | SaveEntry bool | SetTtlDraft js | ExpireKey
| PersistKey | SetRename js | RenameKey | ConfirmMutation | CancelMutation | DialogEscape | RunShortcut | FeedbackExpires
| ShowBrowser | ShowCli | CliRunning bool | SetDatabaseDraft js | BlurDatabase | EscapeDatabase
| Answer nat redis_reply | DatabaseChanged js | ActiveChanged bool

definition when_click :: "bool \<Rightarrow> redis_ws \<Rightarrow> redis_result \<Rightarrow> redis_result" where
  "when_click b s r = (if b then r else (s, []))"

text \<open>The details that are on screen.\<close>

definition shown_details :: "redis_ws \<Rightarrow> RedisKeyDetails option" where
  "shown_details s = (if rw_mode s = BrowserMode \<and> \<not> loadingDetails s then rw_details s else None)"

definition with_details :: "redis_ws \<Rightarrow> (RedisKeyDetails \<Rightarrow> redis_result) \<Rightarrow> redis_result" where
  "with_details s f = (case shown_details s of None \<Rightarrow> (s, []) | Some d \<Rightarrow> f d)"

definition collectionRows :: "RedisKeyDetails \<Rightarrow> CellValue list list" where
  "collectionRows d = filter (\<lambda>row. Js_Strings.at row 1 \<noteq> Some CNull) (rd_rows d)"

definition detail_type :: "RedisKeyDetails \<Rightarrow> js" where
  "detail_type d = to_lower (rd_type d)"

definition scalar_types :: "js set" where
  "scalar_types = {u ''string'', u ''json'', u ''rejson-rl''}"

definition collection_types :: "js set" where
  "collection_types = {u ''hash'', u ''list'', u ''set'', u ''zset'', u ''stream''}"

definition edit_entry :: "RedisKeyDetails \<Rightarrow> nat \<Rightarrow> redis_ws \<Rightarrow> redis_ws" where
  "edit_entry d i s =
     (case Js_Strings.at (collectionRows d) i of
        None \<Rightarrow> s
      | Some row \<Rightarrow>
          if is_binary (Js_Strings.at row 1) \<or> is_binary (Js_Strings.at row 2) then s
          else s \<lparr> entryPrimary := redis_cellText (Js_Strings.at row 1), entrySecondary := redis_cellText (Js_Strings.at row 2) \<rparr>)"

definition remove_entry :: "RedisKeyDetails \<Rightarrow> nat \<Rightarrow> redis_ws \<Rightarrow> redis_result" where
  "remove_entry d i s =
     (case Js_Strings.at (collectionRows d) i of
        None \<Rightarrow> (s, [])
      | Some row \<Rightarrow> (case Js_Strings.at row 1 of None \<Rightarrow> (s, []) | Some c \<Rightarrow> plan_or_error (delete_entry_plan d c) s))"

definition reply_task :: "redis_task \<Rightarrow> redis_reply \<Rightarrow> redis_ws \<Rightarrow> redis_result option" where
  "reply_task t a s =
     (case (t, a) of
        (ScanKeys i replace c db k, GotRows rows) \<Rightarrow> Some (resume k (keys_answer i replace (Inr rows) s))
      | (ScanKeys i replace c db k, RedisFailed e) \<Rightarrow> Some (resume k (keys_answer i replace (Inl e) s))
      | (ReadType i key db k, GotRows rows) \<Rightarrow>
          Some (if to_lower (scalarText rows) = u ''none''
                then resume k (details_failed i ([35813, 38190, 24050, 19981, 23384, 22312, 65292, 38190, 21015, 34920, 21487, 33021, 24050, 21457, 29983, 21464, 21270, 12290]) s)
                else (s, [Ask (ReadValue i key (scalarText rows) db k)]))
      | (ReadType i key db k, RedisFailed e) \<Rightarrow> Some (resume k (details_failed i (redisErrorMessage e) s))
      | (ReadValue i key kind db k, GotValue ttl memory columns rows) \<Rightarrow>
          Some (resume k (if valueCommand kind key = None then value_answer i key kind ttl memory [] [] s
                          else value_answer i key kind ttl memory columns rows s))
      | (ReadValue i key kind db k, RedisFailed e) \<Rightarrow> Some (resume k (details_failed i (redisErrorMessage e) s))
      | (RunCommand c db plan rest cap, GotRows rows) \<Rightarrow> Some (run_commands rest plan cap s)
      | (RunCommand c db plan rest cap, RedisFailed e) \<Rightarrow> Some (mutation_failed e s, [])
      | (CopyKeyName key, Copied) \<Rightarrow> Some (s \<lparr> rw_feedback := Some ([24050, 22797, 21046, 38190, 21517]) \<rparr>, [])
      | (CopyKeyName key, RedisFailed e) \<Rightarrow> Some (s \<lparr> rw_error := Some (redisErrorMessage e) \<rparr>, [])
      | _ \<Rightarrow> None)"

definition task_done :: "nat \<Rightarrow> redis_ws \<Rightarrow> redis_ws" where
  "task_done n s = s \<lparr> rw_tasks := take n (rw_tasks s) @ drop (Suc n) (rw_tasks s) \<rparr>"

definition answer_task :: "nat \<Rightarrow> redis_reply \<Rightarrow> redis_ws \<Rightarrow> redis_result" where
  "answer_task n a s =
     (case Js_Strings.at (rw_tasks s) n of
        None \<Rightarrow> (s, [])
      | Some t \<Rightarrow> (case reply_task t a (task_done n s) of None \<Rightarrow> (s, []) | Some r \<Rightarrow> r))"

definition dialog_escape :: "redis_ws \<Rightarrow> redis_ws" where
  "dialog_escape s =
     (if (\<not> createOpen s \<and> pendingMutation s = None) \<or> mutationRunning s then s
      else if pendingMutation s \<noteq> None then s \<lparr> pendingMutation := None \<rparr> else s \<lparr> createOpen := False \<rparr>)"

definition run_shortcut :: "redis_ws \<Rightarrow> redis_result" where
  "run_shortcut s =
     (if \<not> rw_active s \<or> rw_mode s \<noteq> BrowserMode \<or> createOpen s \<or> pendingMutation s \<noteq> None then (s, [])
      else if truthy (selectedKey s) then loadDetails (the (selectedKey s)) (rw_database s) NoMutation s
      else loadKeys (scope_of s) ZERO True NoMutation s)"

abbreviation browsing :: "redis_ws \<Rightarrow> bool" where "browsing s \<equiv> rw_mode s = BrowserMode"

fun key_list_handler :: "redis_label \<Rightarrow> redis_ws \<Rightarrow> redis_result" where
  "key_list_handler (SetDraft t) s = (s \<lparr> searchDraft := t \<rparr>, [])"
| "key_list_handler SubmitSearch s =
     (submitSearch s, [])"
| "key_list_handler ClearSearch s = when_click (searchDraft s \<noteq> []) s (s \<lparr> searchDraft := [], searchPattern := [42] \<rparr>, [])"
| "key_list_handler RefreshKeys s = when_click (\<not> loadingKeys s) s (loadKeys (scope_of s) ZERO True NoMutation s)"
| "key_list_handler LoadMoreKeys s =
     when_click (rw_cursor s \<noteq> ZERO \<and> \<not> loadingKeys s) s (loadKeys (scope_of s) (rw_cursor s) False NoMutation s)"
| "key_list_handler (PickType t) s = (s \<lparr> typeFilter := t, rw_cursor := ZERO \<rparr>, [])"
| "key_list_handler (SelectKey key) s =
     when_click (key \<in> set (rw_keys s)) s (loadDetails key (rw_database s) NoMutation s)"
| "key_list_handler OpenCreate s =
     (s \<lparr> rw_error := None, createName := [], createValue := [], createAuxiliary := [], createTtl := [], createOpen := True \<rparr>, [])"
| "key_list_handler DismissError s = (s \<lparr> rw_error := None \<rparr>, [])"
| "key_list_handler l s = (s, [])"

fun details_handler :: "redis_label \<Rightarrow> RedisKeyDetails \<Rightarrow> redis_ws \<Rightarrow> redis_result" where
  "details_handler CopyName d s = copySelectedKey s"
| "details_handler RefreshKey d s = when_click (\<not> mutationRunning s) s (loadDetails (rd_key d) (rw_database s) NoMutation s)"
| "details_handler DeleteKey d s = when_click (\<not> mutationRunning s) s (requestMutation (delete_key_plan d) s)"
| "details_handler (SetString t) d s =
     when_click (detail_type d \<in> scalar_types) s (s \<lparr> stringDraft := t \<rparr>, [])"
| "details_handler SaveScalar d s =
     when_click (\<not> mutationRunning s \<and> detail_type d \<in> scalar_types) s (saveScalarValue d s)"
| "details_handler (EditEntry i) d s = when_click (detail_type d \<in> {u ''hash'', u ''zset''}) s (edit_entry d i s, [])"
| "details_handler (RemoveEntry i) d s =
     when_click (\<not> mutationRunning s \<and> detail_type d \<in> {u ''hash'', u ''set'', u ''zset''}) s (remove_entry d i s)"
| "details_handler (SetPrimary t) d s =
     when_click (detail_type d \<in> collection_types) s (s \<lparr> entryPrimary := t \<rparr>, [])"
| "details_handler (SetSecondary t) d s =
     when_click (detail_type d \<in> {u ''hash'', u ''zset'', u ''stream''}) s (s \<lparr> entrySecondary := t \<rparr>, [])"
| "details_handler (SaveEntry left) d s =
     when_click (\<not> mutationRunning s \<and> detail_type d \<in> collection_types \<and> (left \<longrightarrow> detail_type d = u ''list''))
       s (saveCollectionEntry d left s)"
| "details_handler (SetTtlDraft t) d s = (s \<lparr> ttlDraft := t \<rparr>, [])"
| "details_handler ExpireKey d s = when_click (\<not> mutationRunning s) s (plan_or_error (expire_plan d (ttlDraft s)) s)"
| "details_handler PersistKey d s =
     when_click (\<not> mutationRunning s \<and> rd_ttl d \<noteq> Some (- 1)) s (requestMutation (persist_plan d) s)"
| "details_handler (SetRename t) d s = (s \<lparr> renameDraft := t \<rparr>, [])"
| "details_handler RenameKey d s =
     when_click (\<not> mutationRunning s \<and> trim (renameDraft s) \<noteq> [] \<and> renameDraft s \<noteq> rd_key d) s
       (requestMutation (rename_plan d (renameDraft s)) s)"
| "details_handler l d s = (s, [])"

fun dialog_handler :: "redis_label \<Rightarrow> redis_ws \<Rightarrow> redis_result" where
  "dialog_handler CloseCreate s = (s \<lparr> createOpen := False \<rparr>, [])"
| "dialog_handler (SetCreateType t) s = when_click (createOpen s \<and> t \<noteq> RAll) s (s \<lparr> createType := t \<rparr>, [])"
| "dialog_handler (SetCreateName t) s = when_click (createOpen s) s (s \<lparr> createName := t \<rparr>, [])"
| "dialog_handler (SetCreateValue t) s = when_click (createOpen s) s (s \<lparr> createValue := t \<rparr>, [])"
| "dialog_handler (SetCreateAuxiliary t) s =
     when_click (createOpen s \<and> createType s \<in> {RHash, RStream, RZSet}) s (s \<lparr> createAuxiliary := t \<rparr>, [])"
| "dialog_handler (SetCreateTtl t) s = when_click (createOpen s) s (s \<lparr> createTtl := t \<rparr>, [])"
| "dialog_handler CreateKey s = when_click (createOpen s \<and> \<not> mutationRunning s) s (createKey s)"
| "dialog_handler ConfirmMutation s =
     (case pendingMutation s of
        Some plan \<Rightarrow> when_click (\<not> mutationRunning s) s (executeMutation plan s) | None \<Rightarrow> (s, []))"
| "dialog_handler CancelMutation s = when_click (\<not> mutationRunning s) s (s \<lparr> pendingMutation := None \<rparr>, [])"
| "dialog_handler DialogEscape s = (dialog_escape s, [])"
| "dialog_handler l s = (s, [])"

text \<open>Where a control is.\<close>

fun key_list_label :: "redis_label \<Rightarrow> bool" where
  "key_list_label (SetDraft t) = True" | "key_list_label SubmitSearch = True" | "key_list_label ClearSearch = True"
| "key_list_label RefreshKeys = True" | "key_list_label LoadMoreKeys = True" | "key_list_label (PickType t) = True"
| "key_list_label (SelectKey k) = True" | "key_list_label OpenCreate = True" | "key_list_label DismissError = True"
| "key_list_label l = False"

fun dialog_label :: "redis_label \<Rightarrow> bool" where
  "dialog_label CloseCreate = True" | "dialog_label (SetCreateType t) = True" | "dialog_label (SetCreateName t) = True"
| "dialog_label (SetCreateValue t) = True" | "dialog_label (SetCreateAuxiliary t) = True"
| "dialog_label (SetCreateTtl t) = True" | "dialog_label CreateKey = True" | "dialog_label ConfirmMutation = True"
| "dialog_label CancelMutation = True" | "dialog_label DialogEscape = True"
| "dialog_label l = False"

fun redis_handler :: "redis_label \<Rightarrow> redis_ws \<Rightarrow> redis_result" where
  "redis_handler RunShortcut s = run_shortcut s"
| "redis_handler FeedbackExpires s = (s \<lparr> rw_feedback := None \<rparr>, [])"
| "redis_handler ShowBrowser s = when_click (\<not> cliRunning s) s (s \<lparr> rw_mode := BrowserMode \<rparr>, [])"
| "redis_handler ShowCli s = (s \<lparr> rw_mode := CliMode \<rparr>, [])"
| "redis_handler (CliRunning b) s = when_click (rw_mode s = CliMode) s (handleCliRunningChange b s)"
| "redis_handler (SetDatabaseDraft t) s =
     when_click (\<not> cliRunning s \<and> \<not> mutationRunning s) s (s \<lparr> databaseDraft := t \<rparr>, [])"
| "redis_handler BlurDatabase s =
     when_click (\<not> cliRunning s \<and> \<not> mutationRunning s) s (commitDatabaseDraft (databaseDraft s) s)"
| "redis_handler EscapeDatabase s = when_click (\<not> cliRunning s \<and> \<not> mutationRunning s) s (database_escape s)"
| "redis_handler (Answer n a) s = answer_task n a s"
| "redis_handler (DatabaseChanged db) s = (s \<lparr> rw_database := db \<rparr>, [])"
| "redis_handler (ActiveChanged b) s = (s \<lparr> rw_active := b \<rparr>, [])"
| "redis_handler l s =
     (if key_list_label l then when_click (browsing s) s (key_list_handler l s)
      else if dialog_label l then dialog_handler l s else with_details s (\<lambda>d. details_handler l d s))"

section \<open>Labels of the view\<close>

definition firstLabel :: "js \<Rightarrow> js" where
  "firstLabel t =
     (if t = u ''stream'' then ([28040, 24687]) else if t = u ''hash'' then ([23383, 27573])
      else if t = u ''zset'' then ([25104, 21592]) else ([20540]))"

definition secondLabel :: "js \<Rightarrow> js" where
  "secondLabel t = (if t = u ''zset'' then ([20998, 25968]) else ([20540]))"

definition key_namespace :: "js \<Rightarrow> js option" where
  "key_namespace key = (if 58 \<in> set key \<and> takeWhile (\<lambda>c. c \<noteq> 58) key \<noteq> [] then Some (takeWhile (\<lambda>c. c \<noteq> 58) key) else None)"

definition keys_summary :: "redis_ws \<Rightarrow> js \<times> js" where
  "keys_summary s =
     (if searchPattern s = [42] then ([24403, 21069, 25968, 25454, 24211]) else ([21305, 37197] @ u '' '') @ searchPattern s,
      dec (length (rw_keys s)) @ (u '' '' @ [20010, 24050, 21152, 36733]))"

definition preview_limit :: "js \<Rightarrow> js" where
  "preview_limit t = ([26368, 22810] @ u '' '') @ (if t = u ''stream'' then u ''100'' else u ''200'') @ (u '' '' @ [39033])"

section \<open>Effects\<close>

text \<open>In their order: the draft follows the database, the keys its scope, and the tab's own key is read again.\<close>

definition redis_effects :: "redis_ws \<Rightarrow> redis_ws \<Rightarrow> redis_result" where
  "redis_effects s0 s =
     (let moved = (rw_database s \<noteq> rw_database s0);
          s1 = (if moved then s \<lparr> databaseDraft := rw_database s \<rparr> else s);
          (s2, es) = (if moved \<or> searchPattern s \<noteq> searchPattern s0 \<or> typeFilter s \<noteq> typeFilter s0
                      then loadKeys (scope_of s1) ZERO True NoMutation s1 else (s1, []));
          (s3, es') = (if moved \<and> truthy (rw_initialKey s)
                       then loadDetails (the (rw_initialKey s)) (rw_database s) NoMutation s2 else (s2, []))
      in (s3, es @ es'))"

definition asked :: "redis_effect list \<Rightarrow> redis_task list" where
  "asked es = concat (map (\<lambda>e. case e of Ask t \<Rightarrow> [t] | _ \<Rightarrow> []) es)"

definition settle_redis :: "redis_result \<Rightarrow> redis_ws" where
  "settle_redis r = (fst r) \<lparr> rw_tasks := rw_tasks (fst r) @ asked (snd r) \<rparr>"

definition mount_redis :: "Environment \<Rightarrow> js \<Rightarrow> js \<Rightarrow> redis_ws" where
  "mount_redis env database sqlText =
     (let s = initial_redis env database sqlText; s1 = settle_redis (loadKeys (scope_of s) ZERO True NoMutation s) in
      if truthy (rw_initialKey s) then settle_redis (loadDetails (the (rw_initialKey s)) database NoMutation s1) else s1)"

definition redis_step :: "redis_label \<Rightarrow> redis_ws \<Rightarrow> redis_ws" where
  "redis_step l s = (let s1 = settle_redis (redis_handler l s) in settle_redis (redis_effects s s1))"

text \<open>A history pairs each event with the state it found.\<close>

inductive redis_run :: "redis_ws \<Rightarrow> (redis_label \<times> redis_ws) list \<Rightarrow> bool" where
  run_mount: "redis_run (mount_redis env database sqlText) []"
| run_step: "redis_run s h \<Longrightarrow> redis_run (redis_step l s) (h @ [(l, s)])"

end
