(* ===== verification/Redis_View.thy ===== *)
theory Redis_View
  imports Redis_Workspace
begin

text \<open>
  What the Redis workspace shows (\<open>features/redis/RedisWorkspace.tsx\<close>): the key list, the details of the selected key
  with the controls its type has, and the two dialogs. A control is given with whether it is enabled.
\<close>

section \<open>The key list\<close>

definition type_label :: "RedisDataType \<Rightarrow> js" where
  "type_label t =
     (case t of RAll \<Rightarrow> ([20840, 37096]) | RString \<Rightarrow> u ''String'' | RHash \<Rightarrow> u ''Hash'' | RList \<Rightarrow> u ''List''
      | RSet \<Rightarrow> u ''Set'' | RZSet \<Rightarrow> u ''ZSet'' | RStream \<Rightarrow> u ''Stream'')"

definition REDIS_DATA_TYPES :: "(RedisDataType \<times> js) list" where
  "REDIS_DATA_TYPES = map (\<lambda>t. (t, type_label t)) [RAll, RString, RHash, RList, RSet, RZSet, RStream]"

text \<open>Each key with whether it is selected and its namespace.\<close>

definition key_rows :: "redis_ws \<Rightarrow> (js \<times> bool \<times> js option) list" where
  "key_rows s = map (\<lambda>key. (key, selectedKey s = Some key, key_namespace key)) (rw_keys s)"

definition no_keys_shown :: "redis_ws \<Rightarrow> bool" where
  "no_keys_shown s \<longleftrightarrow> \<not> loadingKeys s \<and> rw_keys s = []"

definition more_button :: "redis_ws \<Rightarrow> (bool \<times> js) option" where
  "more_button s =
     (if rw_cursor s = ZERO then None
      else Some (\<not> loadingKeys s, if loadingKeys s then ([27491, 22312, 21152, 36733, 8230]) else ([32487, 32493, 21152, 36733])))"

section \<open>The details\<close>

datatype DetailsPane = ReadingKey | KeyPane RedisKeyDetails | NoKeyPane

definition details_pane :: "redis_ws \<Rightarrow> DetailsPane" where
  "details_pane s =
     (if loadingDetails s then ReadingKey else case rw_details s of Some d \<Rightarrow> KeyPane d | None \<Rightarrow> NoKeyPane)"

definition key_metadata :: "RedisKeyDetails \<Rightarrow> js list" where
  "key_metadata d = [rd_type d, formatTtl (rd_ttl d), redis_formatBytes (rd_memory d), preview_limit (detail_type d)]"

text \<open>A row: its index, its two texts, and whether it has an edit and a removal button that are enabled.\<close>

record EntryRow =
  er_index :: "js option"
  er_primary :: js
  er_secondary :: "js option"
  er_edit :: "bool option"
  er_remove :: "bool option"

definition indexed :: "js \<Rightarrow> bool" where
  "indexed t \<longleftrightarrow> t = u ''list'' \<or> t = u ''stream''"

definition paired :: "js \<Rightarrow> bool" where
  "paired t \<longleftrightarrow> t = u ''hash'' \<or> t = u ''zset''"

definition entry_row :: "redis_ws \<Rightarrow> js \<Rightarrow> CellValue list \<Rightarrow> EntryRow" where
  "entry_row s t row =
     (let primaryCell = Js_Strings.at row 1; secondaryCell = Js_Strings.at row 2;
          shown = (\<lambda>c. if redis_cellText c = [] then ([31354, 20540]) else redis_cellText c)
      in \<lparr> er_index = (if indexed t then Some (redis_cellText (Js_Strings.at row 0)) else None),
           er_primary = shown primaryCell,
           er_secondary = (if paired t then Some (shown secondaryCell) else None),
           er_edit = (if paired t then Some (\<not> (is_binary primaryCell \<or> is_binary secondaryCell)) else None),
           er_remove = (if paired t \<or> t = u ''set'' then Some (\<not> mutationRunning s) else None) \<rparr>)"

definition entry_columns :: "js \<Rightarrow> js list" where
  "entry_columns t =
     (if indexed t then [([32034, 24341] @ u '' / ID'')] else []) @ [firstLabel t] @ (if paired t then [secondLabel t] else [])"

text \<open>The scalar editor says whether its draft is Base64 and whether it can be saved.\<close>

datatype ValuePane = ScalarEditor js bool bool | EntryTable "js list" "EntryRow list" | NoEntries js

definition value_pane :: "redis_ws \<Rightarrow> RedisKeyDetails \<Rightarrow> ValuePane" where
  "value_pane s d =
     (let t = detail_type d in
      if t \<in> scalar_types then ScalarEditor (stringDraft s) (stringDraftIsBinary s) (\<not> mutationRunning s)
      else if collectionRows d \<noteq> [] then EntryTable (entry_columns t) (map (entry_row s t) (collectionRows d))
      else NoEntries (if valueCommand (rd_type d) (rd_key d) \<noteq> None then ([35813, 38190, 24403, 21069, 20026, 31354]) else ([26242, 19981, 25903, 25345, 32467, 26500, 21270, 39044, 35272])))"

text \<open>The inputs of the entry form, each a label and a placeholder, and its buttons.\<close>

definition entry_form :: "RedisKeyDetails \<Rightarrow> ((js \<times> js) list \<times> js list) option" where
  "entry_form d =
     (let t = detail_type d in
      if t \<notin> collection_types then None
      else Some
        ([(firstLabel t, if t = u ''list'' \<or> t = u ''set'' then ([36755, 20837, 20540]) else ([36755, 20837]) @ firstLabel t)] @
         (if paired t \<or> t = u ''stream'' then [(secondLabel t, ([36755, 20837]) @ secondLabel t)] else []),
         (if t = u ''list'' then [([20174, 24038, 28155, 21152]), ([20174, 21491, 28155, 21152])]
          else if t = u ''stream'' then [([36861, 21152, 28040, 24687])] else [([20445, 23384, 20803, 32032])])))"

definition can_persist :: "redis_ws \<Rightarrow> RedisKeyDetails \<Rightarrow> bool" where
  "can_persist s d \<longleftrightarrow> \<not> (mutationRunning s \<or> rd_ttl d = Some (- 1))"

definition can_rename :: "redis_ws \<Rightarrow> RedisKeyDetails \<Rightarrow> bool" where
  "can_rename s d \<longleftrightarrow> \<not> (mutationRunning s \<or> trim (renameDraft s) = [] \<or> renameDraft s = rd_key d)"

section \<open>The dialogs\<close>

text \<open>The form of a new key: its error, its inputs with their drafts, and whether it can be sent.\<close>

definition create_form :: "redis_ws \<Rightarrow> (js option \<times> (js \<times> js) list \<times> bool) option" where
  "create_form s =
     (if \<not> createOpen s then None
      else Some (rw_error s,
        [(([25968, 25454, 31867, 22411]), type_value (createType s)), (([38190, 21517]), createName s)] @
        (if createType s = RHash \<or> createType s = RStream then [(([23383, 27573, 21517]), createAuxiliary s)] else []) @
        (if createType s = RZSet then [(([20998, 25968]), createAuxiliary s)] else []) @
        [(([21021, 22987, 20540]), createValue s), ((u ''TTL'' @ [65288, 21487, 36873, 65292, 31186, 65289]), createTtl s)],
        \<not> mutationRunning s))"

record ConfirmView =
  cv_kicker :: js
  cv_title :: js
  cv_summary :: js
  cv_commands :: js
  cv_warning :: "js option"
  cv_confirm :: "js \<times> bool"

definition confirm_view :: "redis_ws \<Rightarrow> ConfirmView option" where
  "confirm_view s =
     (case pendingMutation s of
        None \<Rightarrow> None
      | Some plan \<Rightarrow> Some
          \<lparr> cv_kicker = (if rw_environment s = Production then u ''PRODUCTION WRITE'' else u ''CONFIRM ACTION''),
            cv_title = mp_title plan, cv_summary = mp_summary plan, cv_commands = join [NEWLINE] (mp_commands plan),
            cv_warning = (if mp_destructive plan then Some ([27492, 25805, 20316, 21487, 33021, 23548, 33268, 25968, 25454, 20002, 22833, 12290]) else None),
            cv_confirm = (if mutationRunning s then ([27491, 22312, 25191, 34892, 8230]) else ([30830, 35748, 25191, 34892]), \<not> mutationRunning s) \<rparr>)"

section \<open>The controls do what is shown\<close>

text \<open>An enabled edit button puts the two texts of its row into the entry form.\<close>

lemma edit_takes_row:
  assumes "i < length (collectionRows d)" "er_edit (entry_row s (detail_type d) (collectionRows d ! i)) = Some True"
  shows "entryPrimary (edit_entry d i s) = redis_cellText (Js_Strings.at (collectionRows d ! i) 1)"
    "entrySecondary (edit_entry d i s) = redis_cellText (Js_Strings.at (collectionRows d ! i) 2)"
  using assms by (auto simp: entry_row_def edit_entry_def at_def Let_def split: if_splits)

text \<open>A disabled button of the key operations does nothing.\<close>

lemma disabled_operations:
  assumes "shown_details s = Some d"
  shows "\<not> can_persist s d \<Longrightarrow> redis_handler PersistKey s = (s, [])"
    "\<not> can_rename s d \<Longrightarrow> redis_handler RenameKey s = (s, [])"
  using assms by (auto simp: with_details_def can_persist_def can_rename_def when_click_def)

text \<open>The dialog shows every command that its confirmation sends.\<close>

lemma confirm_shows_commands:
  assumes "confirm_view s = Some v" "\<not> mutationRunning s" "mp_commands (the (pendingMutation s)) = c # cs"
  shows "cv_commands v = join [NEWLINE] (c # cs) \<and>
    (\<exists>cap s'. redis_handler ConfirmMutation s =
       (s', [Ask (RunCommand c (rw_database s) (the (pendingMutation s)) cs cap)]))"
  using assms by (auto simp: confirm_view_def when_click_def executeMutation_def run_commands_def scope_of_def split: option.splits)

end
