(* ===== verification/Redis_Script.thy ===== *)
theory Redis_Script
  imports "HOL-Library.Monad_Syntax" Redis_Commands
begin

text \<open>
  What the server does with a command line: a reader of the part of Lua 5.1 that Redis documents for \<open>EVAL\<close> scripts and
  that the creation of a key uses (string literals, \<open>KEYS\<close> and \<open>ARGV\<close> read at an index counted from one or from the
  length, \<open>unpack\<close> of a range, \<open>redis.call\<close>, \<open>local\<close> and \<open>return\<close>), and the calls such a script makes. It is a
  specification: the calls of a script are those of its text, whatever the text is, and a script outside this part has
  none.
\<close>

abbreviation chars :: "js \<Rightarrow> redis_char list" where "chars s \<equiv> map Chr s"

section \<open>The words of a script\<close>

datatype lua_token = LName js | LNumber nat | LString js | LSymbol nat

definition lua_letter :: "nat \<Rightarrow> bool" where
  "lua_letter c \<longleftrightarrow> 97 \<le> c \<and> c \<le> 122 \<or> 65 \<le> c \<and> c \<le> 90 \<or> c = 95"

definition lua_name_unit :: "nat \<Rightarrow> bool" where
  "lua_name_unit c \<longleftrightarrow> lua_letter c \<or> is_digit c"

definition lua_symbols :: js where
  "lua_symbols = u '';=.()[],#-''"

text \<open>No escapes and no comments: a text with either is not read.\<close>

function lua_lex :: "js \<Rightarrow> lua_token list option" where
  "lua_lex [] = Some []"
| "lua_lex (c # cs) =
     (if is_ws c then lua_lex cs
      else if lua_letter c then
        map_option ((#) (LName (c # takeWhile lua_name_unit cs))) (lua_lex (dropWhile lua_name_unit cs))
      else if is_digit c then
        map_option ((#) (LNumber (radix_value 10 (c # takeWhile is_digit cs)))) (lua_lex (dropWhile is_digit cs))
      else if c = QUOTE \<or> c = DQUOTE then
        (let body = takeWhile (\<lambda>d. d \<noteq> c) cs in
         if dropWhile (\<lambda>d. d \<noteq> c) cs = [] \<or> BACKSLASH \<in> set body \<or> NEWLINE \<in> set body then None
         else map_option ((#) (LString body)) (lua_lex (tl (dropWhile (\<lambda>d. d \<noteq> c) cs))))
      else if c = 45 \<and> cs \<noteq> [] \<and> hd cs = 45 then None
      else if c \<in> set lua_symbols then map_option ((#) (LSymbol c)) (lua_lex cs)
      else None)"
  by pat_completeness auto
termination
  by (relation "measure length") (auto simp: less_Suc_eq_le length_dropWhile_le intro: le_trans [OF diff_le_self])

section \<open>Its statements\<close>

datatype script_table = KEYS | ARGV
datatype script_index = From_start nat | From_end nat
datatype script_arg = Text js | Entry script_table script_index | Unpack script_table script_index script_index
datatype script_statement = Call "script_arg list" | Return js

definition expect :: "lua_token \<Rightarrow> lua_token list \<Rightarrow> lua_token list option" where
  "expect t ts = (case ts of x # r \<Rightarrow> if x = t then Some r else None | [] \<Rightarrow> None)"

fun lua_table :: "lua_token list \<Rightarrow> (script_table \<times> lua_token list) option" where
  "lua_table (LName n # r) = (if n = u ''KEYS'' then Some (KEYS, r) else if n = u ''ARGV'' then Some (ARGV, r) else None)"
| "lua_table _ = None"

text \<open>An index into a table: a number, the length of the table, or the length less a number.\<close>

fun lua_index :: "script_table \<Rightarrow> lua_token list \<Rightarrow> (script_index \<times> lua_token list) option" where
  "lua_index t (LNumber n # r) = Some (From_start n, r)"
| "lua_index t ts =
     do { r \<leftarrow> expect (LSymbol 35) ts;
          (t', r) \<leftarrow> lua_table r;
          (if t' \<noteq> t then None
           else case r of
             LSymbol s # LNumber n # r' \<Rightarrow> if s = 45 then Some (From_end n, r') else Some (From_end 0, r)
           | _ \<Rightarrow> Some (From_end 0, r)) }"

fun lua_arg :: "lua_token list \<Rightarrow> (script_arg \<times> lua_token list) option" where
  "lua_arg (LString s # r) = Some (Text s, r)"
| "lua_arg (LName n # r) =
     (if n = u ''unpack'' then
        do { r \<leftarrow> expect (LSymbol 40) r;
             (t, r) \<leftarrow> lua_table r;
             r \<leftarrow> expect (LSymbol 44) r;
             (i, r) \<leftarrow> lua_index t r;
             r \<leftarrow> expect (LSymbol 44) r;
             (j, r) \<leftarrow> lua_index t r;
             r \<leftarrow> expect (LSymbol 41) r;
             Some (Unpack t i j, r) }
      else
        do { (t, r) \<leftarrow> lua_table (LName n # r);
             r \<leftarrow> expect (LSymbol 91) r;
             (i, r) \<leftarrow> lua_index t r;
             r \<leftarrow> expect (LSymbol 93) r;
             Some (Entry t i, r) })"
| "lua_arg _ = None"

text \<open>The arguments up to the closing parenthesis; every argument takes a token, so their number bounds the reading.\<close>

fun lua_args :: "nat \<Rightarrow> lua_token list \<Rightarrow> (script_arg list \<times> lua_token list) option" where
  "lua_args 0 ts = None"
| "lua_args (Suc n) ts =
     do { (a, r) \<leftarrow> lua_arg ts;
          (case expect (LSymbol 41) r of
             Some r' \<Rightarrow> Some ([a], r')
           | None \<Rightarrow> do { r \<leftarrow> expect (LSymbol 44) r; (as, r) \<leftarrow> lua_args n r; Some (a # as, r) }) }"

definition lua_call :: "lua_token list \<Rightarrow> (script_statement \<times> lua_token list) option" where
  "lua_call ts =
     do { r \<leftarrow> expect (LName (u ''redis'')) ts;
          r \<leftarrow> expect (LSymbol 46) r;
          r \<leftarrow> expect (LName (u ''call'')) r;
          r \<leftarrow> expect (LSymbol 40) r;
          (as, r) \<leftarrow> lua_args (length r) r;
          Some (Call as, r) }"

fun lua_statement :: "lua_token list \<Rightarrow> (script_statement \<times> lua_token list) option" where
  "lua_statement (LName k # ts) =
     (if k = u ''local'' then
        (case ts of LName x # r \<Rightarrow> do { r \<leftarrow> expect (LSymbol 61) r; lua_call r } | _ \<Rightarrow> None)
      else if k = u ''return'' then (case ts of LName x # r \<Rightarrow> Some (Return x, r) | _ \<Rightarrow> None)
      else lua_call (LName k # ts))"
| "lua_statement _ = None"

text \<open>A \<open>return\<close> ends the script.\<close>

fun lua_block :: "nat \<Rightarrow> lua_token list \<Rightarrow> script_statement list option" where
  "lua_block 0 ts = None"
| "lua_block (Suc n) ts =
     do { (s, r) \<leftarrow> lua_statement ts;
          (if r = [] then Some [s]
           else case s of
             Return x \<Rightarrow> None
           | Call as \<Rightarrow> do { r \<leftarrow> expect (LSymbol SEMICOLON) r; map_option ((#) s) (lua_block n r) }) }"

definition lua_script :: "js \<Rightarrow> script_statement list option" where
  "lua_script s = do { ts \<leftarrow> lua_lex s; lua_block (length ts) ts }"

section \<open>Running it\<close>

type_synonym redis_word = "redis_char list"

definition table_words :: "redis_word list \<Rightarrow> redis_word list \<Rightarrow> script_table \<Rightarrow> redis_word list" where
  "table_words keys args t = (case t of KEYS \<Rightarrow> keys | ARGV \<Rightarrow> args)"

fun index_in :: "redis_word list \<Rightarrow> script_index \<Rightarrow> nat option" where
  "index_in ws (From_start n) = (if 1 \<le> n \<and> n \<le> length ws then Some n else None)"
| "index_in ws (From_end n) = (if n < length ws then Some (length ws - n) else None)"

fun arg_words :: "redis_word list \<Rightarrow> redis_word list \<Rightarrow> script_arg \<Rightarrow> redis_word list option" where
  "arg_words keys args (Text s) = Some [chars s]"
| "arg_words keys args (Entry t i) =
     (let ws = table_words keys args t in map_option (\<lambda>n. [ws ! (n - 1)]) (index_in ws i))"
| "arg_words keys args (Unpack t i j) =
     (let ws = table_words keys args t in
      do { a \<leftarrow> index_in ws i; b \<leftarrow> index_in ws j; Some (take (b + 1 - a) (drop (a - 1) ws)) })"

text \<open>Lua keeps the first word of every argument but the last, of which it passes all.\<close>

fun call_words :: "redis_word list \<Rightarrow> redis_word list \<Rightarrow> script_arg list \<Rightarrow> redis_word list option" where
  "call_words keys args [] = Some []"
| "call_words keys args [a] = arg_words keys args a"
| "call_words keys args (a # b # as) =
     do { ws \<leftarrow> arg_words keys args a;
          (case ws of [] \<Rightarrow> None | w # _ \<Rightarrow> map_option ((#) w) (call_words keys args (b # as))) }"

fun script_calls :: "redis_word list \<Rightarrow> redis_word list \<Rightarrow> script_statement list \<Rightarrow> redis_word list list option" where
  "script_calls keys args [] = Some []"
| "script_calls keys args (Return x # ss) = Some []"
| "script_calls keys args (Call as # ss) =
     do { ws \<leftarrow> call_words keys args as; map_option ((#) ws) (script_calls keys args ss) }"

section \<open>The calls of a command line\<close>

fun word_text :: "redis_word \<Rightarrow> js option" where
  "word_text [] = Some []"
| "word_text (Chr c # w) = map_option ((#) c) (word_text w)"
| "word_text (Byte b # w) = None"

lemma word_text_chars [simp]: "word_text (chars s) = Some s"
  by (induction s) simp_all

definition word_number :: "redis_word \<Rightarrow> nat option" where
  "word_number w = do { s \<leftarrow> word_text w; (if s \<noteq> [] \<and> list_all is_digit s then Some (radix_value 10 s) else None) }"

text \<open>
  \<open>EVAL script numkeys key ... arg ...\<close> makes the calls of its script, with \<open>numkeys\<close> keys and the rest as arguments; every
  other command is its own call. The name of a command does not depend on case.
\<close>

definition redis_calls :: "redis_word list \<Rightarrow> redis_word list list option" where
  "redis_calls ws =
     (case ws of
        [] \<Rightarrow> Some []
      | c # rest \<Rightarrow>
          if map_option to_lower (word_text c) \<noteq> Some (u ''eval'') then Some [ws]
          else (case rest of
            script # numkeys # operands \<Rightarrow>
              do { statements \<leftarrow> word_text script \<bind> lua_script;
                   n \<leftarrow> word_number numkeys;
                   (if n \<le> length operands then script_calls (take n operands) (drop n operands) statements else None) }
          | _ \<Rightarrow> None))"

section \<open>The script of the creation of a key\<close>

text \<open>Its text read as statements: the command on the key with the arguments up to the last, then the expiry.\<close>

definition create_tokens :: "lua_token list" where
  "create_tokens =
     (let n = (\<lambda>s. LName (u s)); y = LSymbol; call = [n ''redis'', y 46, n ''call'', y 40] in
      [n ''local'', n ''result'', y 61] @ call @
        [n ''ARGV'', y 91, LNumber 1, y 93, y 44, n ''KEYS'', y 91, LNumber 1, y 93, y 44,
         n ''unpack'', y 40, n ''ARGV'', y 44, LNumber 2, y 44, y 35, n ''ARGV'', y 45, LNumber 1, y 41, y 41, y 59] @
      call @ [LString (u ''EXPIRE''), y 44, n ''KEYS'', y 91, LNumber 1, y 93, y 44,
         n ''ARGV'', y 91, y 35, n ''ARGV'', y 93, y 41, y 59] @
      [n ''return'', n ''result''])"

lemma create_lex: "lua_lex ATOMIC_CREATE_WITH_TTL_SCRIPT = Some create_tokens"
  by (simp add: ATOMIC_CREATE_WITH_TTL_SCRIPT_def create_tokens_def u_eval lua_letter_def lua_name_unit_def lua_symbols_def
      is_digit_def is_ws_def radix_value_def Let_def)

lemma create_script:
  "lua_script ATOMIC_CREATE_WITH_TTL_SCRIPT =
     Some [Call [Entry ARGV (From_start 1), Entry KEYS (From_start 1), Unpack ARGV (From_start 2) (From_end 1)],
           Call [Text (u ''EXPIRE''), Entry KEYS (From_start 1), Entry ARGV (From_end 0)],
           Return (u ''result'')]"
  by (simp add: lua_script_def create_lex create_tokens_def u_eval lua_call_def expect_def Let_def)

text \<open>The script called with one key: a command with its arguments, and the number that ends them.\<close>

lemma create_script_calls:
  assumes "rest \<noteq> []"
  shows "redis_calls (map chars ([u ''EVAL'', ATOMIC_CREATE_WITH_TTL_SCRIPT, u ''1'', name, c] @ rest @ [n])) =
    Some (map (map chars) [c # name # rest, [u ''EXPIRE'', name, n]])"
proof -
  have e: "to_lower (u ''EVAL'') = u ''eval''" by code_simp
  have one: "word_number (chars (u ''1'')) = Some 1" by code_simp
  have l: "take (Suc (length rest) - Suc 0) (map chars rest @ [chars n]) = map chars rest" by simp
  show ?thesis using assms
    by (simp add: redis_calls_def e one create_script table_words_def nth_append Let_def)
qed

end
