(* ===== verification/Redis_Plans.thy ===== *)
theory Redis_Plans
  imports Redis_Script
begin

text \<open>
  What the plans of the Redis workspace (\<open>features/redis/RedisWorkspace.tsx\<close>) do: the words the backend reads from
  their commands, the calls the TTL script makes, and the key an inspection tab recovers from its commands.
\<close>

section \<open>Reading the commands\<close>

lemma words_argument [simp]:
  "words None False [] (quoteRedisArgument v @ rest) = words None True (chars v) rest"
  "words None False [] (quoteRedisArgument v) = words None True (chars v) []"
  "words None False [] (num_to_string x @ rest) = words None True (chars (num_to_string x)) rest"
  "words None False [] (num_to_string x) = words None True (chars (num_to_string x)) []"
  using reads_quoted [of v, unfolded reads_as_def, rule_format, of rest]
    reads_quoted [of v, unfolded reads_as_def, rule_format, of "[]"]
    reads_number [of x, unfolded reads_as_def, rule_format, of rest]
    reads_number [of x, unfolded reads_as_def, rule_format, of "[]"]
  by (simp_all only: append_Nil2)

lemma words_started [simp]:
  "words None True w [] = Some [w]"
  "words None True w (32 # rest) = map_option ((#) w) (words None False [] rest)"
  by (simp_all add: rust_ws_def)

lemma words_binary:
  "quoteRedisBinaryArgument v = Some a \<Longrightarrow>
    \<exists>bytes. atob (trim v) = Some bytes \<and> (\<forall>rest. words None False [] (a @ rest) = words None True (map Byte bytes) rest)"
  using reads_binary [of v a] by (auto simp: reads_as_def)

lemmas read_words = redis_words_def u_eval rust_ws_def

section \<open>A new key\<close>

text \<open>The call a form stands for: the command of the type, its key and arguments.\<close>

definition create_call :: "RedisDataType \<Rightarrow> js \<Rightarrow> js \<Rightarrow> js \<Rightarrow> js list" where
  "create_call t name value auxiliary =
     (case t of
        RHash \<Rightarrow> [u ''HSET'', name, auxiliary, value]
      | RList \<Rightarrow> [u ''RPUSH'', name, value]
      | RSet \<Rightarrow> [u ''SADD'', name, value]
      | RZSet \<Rightarrow> [u ''ZADD'', name, num_to_string (js_Number auxiliary), value]
      | RStream \<Rightarrow> [u ''XADD'', name, [42], auxiliary, value]
      | _ \<Rightarrow> [u ''SET'', name, value])"

definition create_calls :: "RedisDataType \<Rightarrow> js \<Rightarrow> js \<Rightarrow> js \<Rightarrow> js_num option \<Rightarrow> js list list" where
  "create_calls t name value auxiliary ttl =
     (let call = create_call t name value auxiliary in
      case ttl of
        None \<Rightarrow> [call]
      | Some n \<Rightarrow> if t = RString then [call @ [u ''EX'', num_to_string n]]
                 else [call, [u ''EXPIRE'', name, num_to_string n]])"

definition typed_ttl :: "js \<Rightarrow> js_num option" where
  "typed_ttl s = (if trim s \<noteq> [] then Some (js_Number s) else None)"

lemma reads_EX: "reads_as (u ''EX'') (chars (u ''EX''))" "reads_as (u ''EVAL'') (chars (u ''EVAL''))"
  by (rule reads_bare; simp add: bare_def u_eval rust_ws_def)+

lemma reads_star [simp]: "reads_as (quoteRedisArgument [42]) [Chr 42]"
  using reads_quoted [of "[42]"] by simp

lemma create_parts_read:
  assumes "create_parts t auxiliary value = Inr (c, args)"
  obtains rest where "create_call t name value auxiliary = c # name # rest" "list_all2 reads_as args (map chars rest)"
    "reads_as c (chars c)" "rest \<noteq> []"
proof -
  have c: "reads_as c (chars c)"
    using assms by (auto intro!: reads_bare simp: create_parts_def bare_def u_eval rust_ws_def Let_def
        split: RedisDataType.splits if_splits)
  show thesis
    by (rule that [of "drop 2 (create_call t name value auxiliary)"])
      (use assms c in \<open>auto simp: create_parts_def create_call_def Let_def split: RedisDataType.splits if_splits\<close>)
qed

lemma create_command_read:
  assumes p: "create_parts t auxiliary value = Inr parts"
  shows "\<exists>ws. redis_words (create_command t name ttl parts) = Some ws \<and>
           redis_calls ws = Some (map (map chars) (create_calls t name value auxiliary ttl))"
proof -
  obtain c args where parts: "parts = (c, args)" by (cases parts)
  with p obtain rest where r: "create_call t name value auxiliary = c # name # rest" "list_all2 reads_as args (map chars rest)"
    "reads_as c (chars c)" "rest \<noteq> []" by (auto elim: create_parts_read)
  have plain: "redis_calls (map chars (c # name # rest @ more)) = Some [map chars (c # name # rest @ more)]" for more
    using p parts by (auto simp: redis_calls_def create_parts_def u_eval to_lower_def lower_unit_def Let_def split: RedisDataType.splits if_splits)
  show ?thesis
  proof (cases ttl)
    case None
    have "list_all2 reads_as (c # quoteRedisArgument name # args) (map chars (c # name # rest))" using r by simp
    from redis_words_join [OF this] plain [of "[]"] None r(1) parts show ?thesis
      by (simp add: create_command_def create_calls_def)
  next
    case (Some n)
    note ttl = Some
    show ?thesis
    proof (cases "t = RString")
      case True
      have "list_all2 reads_as (c # quoteRedisArgument name # args @ [u ''EX'', num_to_string n])
          (map chars (c # name # rest @ [u ''EX'', num_to_string n]))"
        using r reads_EX by (auto intro!: list_all2_appendI)
      from redis_words_join [OF this] plain [of "[u ''EX'', num_to_string n]"] ttl True r(1) parts show ?thesis
        by (simp add: create_command_def create_calls_def)
    next
      case False
      have "list_all2 reads_as
          ([u ''EVAL'', quoteRedisArgument ATOMIC_CREATE_WITH_TTL_SCRIPT, u ''1'', quoteRedisArgument name, quoteRedisArgument c]
            @ args @ [num_to_string n])
          (map chars ([u ''EVAL'', ATOMIC_CREATE_WITH_TTL_SCRIPT, u ''1'', name, c] @ rest @ [num_to_string n]))"
        using r reads_EX reads_unit by (auto intro!: list_all2_appendI)
      from redis_words_join [OF this] ttl False r(1) parts show ?thesis
        using create_script_calls [OF r(4), of name c "num_to_string n"] by (simp add: create_command_def create_calls_def)
    qed
  qed
qed

text \<open>C4: Creating a key, whatever its type: the one command of the plan is read by the backend as
  words whose calls are the type's own command on exactly the typed name, value and field or score and, with a
  TTL, \<open>SET ... EX\<close> for a string or, after the command, an \<open>EXPIRE\<close> of the same key for the others. The calls of the
  TTL script are those its Lua text makes (\<open>Redis_Script\<close>). No quote, space or newline in what was typed changes the
  words.\<close>

theorem created_key_calls:
  assumes "create_plan t name value auxiliary ttl = Inr plan"
  shows "\<exists>command ws. mp_commands plan = [command] \<and> redis_words command = Some ws \<and>
           redis_calls ws = Some (map (map chars) (create_calls t (trim name) value auxiliary (typed_ttl ttl)))"
proof -
  from assms obtain parts where "create_parts t auxiliary value = Inr parts"
    "mp_commands plan = [create_command t (trim name) (typed_ttl ttl) parts]"
    by (auto simp: create_plan_def typed_ttl_def Let_def split: if_splits sum.splits)
  with create_command_read [of t auxiliary "value" parts "trim name" "typed_ttl ttl"] show ?thesis by simp
qed

theorem created_key_calls_witness:
  "\<exists>plan command ws. create_plan RSet [107] [97] [] [53] = Inr plan \<and> mp_commands plan = [command] \<and>
     redis_words command = Some ws \<and>
     redis_calls ws = Some (map (map chars) [[u ''SADD'', [107], [97]], [u ''EXPIRE'', [107], num_to_string (js_Number [53])]])"
proof -
  have five: "js_isInteger (js_Number [53])" "js_positive (js_Number [53])"
    by (simp_all add: js_isInteger_def js_positive_def rat_of_def js_eval)
  then obtain plan where p: "create_plan RSet [107] [97] [] [53] = Inr plan"
    by (simp add: create_plan_def create_parts_def trim_defs is_ws_def Let_def)
  have "create_calls RSet (trim [107]) [97] [] (typed_ttl [53]) =
      [[u ''SADD'', [107], [97]], [u ''EXPIRE'', [107], num_to_string (js_Number [53])]]"
    by (simp add: create_calls_def create_call_def typed_ttl_def trim_defs is_ws_def)
  with created_key_calls [OF p] p show ?thesis by auto
qed

section \<open>Changing a key\<close>

definition entry_call :: "RedisKeyDetails \<Rightarrow> bool \<Rightarrow> js \<Rightarrow> js \<Rightarrow> js list" where
  "entry_call d left first_field second_field =
     (let t = to_lower (rd_type d); key = rd_key d in
      if t = u ''hash'' then [u ''HSET'', key, first_field, second_field]
      else if t = u ''list'' then [if left then u ''LPUSH'' else u ''RPUSH'', key, first_field]
      else if t = u ''set'' then [u ''SADD'', key, first_field]
      else if t = u ''zset'' then [u ''ZADD'', key, num_to_string (js_Number second_field), first_field]
      else [u ''XADD'', key, [42], first_field, second_field])"

text \<open>The command that adds or changes an entry of a collection is read as the command of the
  collection's type, on the key whose details are shown, with the typed field, member, score or value each one word.\<close>

lemma entry_words:
  assumes "entry_command d left first_field second_field = Some (Inr command)"
  shows "redis_words command = Some (map chars (entry_call d left first_field second_field))"
  using assms by (auto simp: entry_command_def entry_call_def Let_def read_words split: if_splits)

text \<open>The value of a scalar: its text, or the bytes its Base64 stands for.\<close>

definition scalar_words :: "RedisKeyDetails \<Rightarrow> js \<Rightarrow> bool \<Rightarrow> redis_char list list option" where
  "scalar_words d draft binary =
     (if to_lower (rd_type d) \<in> {u ''json'', u ''rejson-rl''}
      then Some (map chars [u ''JSON.SET'', rd_key d, [36], draft])
      else map_option (\<lambda>v. [chars (u ''SET''), chars (rd_key d), v, chars (u ''KEEPTTL'')])
             (if binary then map_option (map Byte) (atob (trim draft)) else Some (chars draft)))"

text \<open>Saving a string or JSON value is read as \<open>SET\<close> of the shown key to the draft, or to the bytes
  the draft's Base64 stands for, keeping its TTL, and as \<open>JSON.SET\<close> at the root for JSON.\<close>

lemma saved_value_words:
  assumes "scalar_plan d draft binary = Inr plan"
  shows "\<exists>command ws. mp_commands plan = [command] \<and> redis_words command = Some ws \<and> scalar_words d draft binary = Some ws"
proof (cases "to_lower (rd_type d) \<in> {u ''json'', u ''rejson-rl''}")
  case True
  with assms show ?thesis
    by (auto simp: scalar_plan_def scalar_words_def simple_plan_def Let_def read_words split: if_splits option.splits)
next
  case False
  note not_json = False
  show ?thesis
  proof (cases binary)
    case True
    with assms not_json obtain a where a: "quoteRedisBinaryArgument draft = Some a"
      "mp_commands plan = [u ''SET '' @ quoteRedisArgument (rd_key d) @ u '' '' @ a @ u '' KEEPTTL'']"
      by (auto simp: scalar_plan_def simple_plan_def Let_def split: if_splits option.splits)
    from words_binary [OF a(1)] not_json True a(2) show ?thesis by (auto simp: scalar_words_def read_words)
  next
    case False
    with assms not_json show ?thesis
      by (auto simp: scalar_plan_def scalar_words_def simple_plan_def Let_def read_words split: if_splits)
  qed
qed

text \<open>Deleting, renaming, expiring and persisting address the shown key and nothing else: the words
  of their commands are the command, that key, and the trimmed new name or the number of seconds.\<close>

lemma key_operation_words:
  "map redis_words (mp_commands (delete_key_plan d)) = [Some (map chars [u ''DEL'', rd_key d])]"
  "map redis_words (mp_commands (persist_plan d)) = [Some (map chars [u ''PERSIST'', rd_key d])]"
  "map redis_words (mp_commands (rename_plan d name)) = [Some (map chars [u ''RENAME'', rd_key d, trim name])]"
  "expire_plan d ttl = Inr plan \<Longrightarrow>
     map redis_words (mp_commands plan) = [Some (map chars [u ''EXPIRE'', rd_key d, num_to_string (js_Number ttl)])]"
  by (auto simp: delete_key_plan_def persist_plan_def rename_plan_def expire_plan_def simple_plan_def Let_def read_words
      split: if_splits)

lemma scalar_words_key:
  "scalar_words d draft binary = Some ws \<Longrightarrow> \<exists>name args. ws = chars name # chars (rd_key d) # args"
proof -
  assume "scalar_words d draft binary = Some ws"
  then have "ws = chars (u ''JSON.SET'') # chars (rd_key d) # drop 2 ws \<or> ws = chars (u ''SET'') # chars (rd_key d) # drop 2 ws"
    by (auto simp: scalar_words_def split: if_splits)
  then show ?thesis by blast
qed

lemma entry_call_key:
  "map chars (entry_call d left first_field second_field) =
    chars (hd (entry_call d left first_field second_field)) # chars (rd_key d)
      # map chars (drop 2 (entry_call d left first_field second_field))"
  by (simp add: entry_call_def Let_def)

lemma deleted_entry_words:
  assumes "delete_entry_plan d element = Inr plan"
  shows "\<exists>command name args. mp_commands plan = [command] \<and> redis_words command = Some [chars name, chars (rd_key d), args]"
proof -
  let ?t = "to_lower (rd_type d)"
  let ?name = "if ?t = u ''hash'' then u ''HDEL'' else if ?t = u ''set'' then u ''SREM'' else u ''ZREM''"
  have n: "reads_as ?name (chars ?name)"
    by (rule reads_bare) (simp add: bare_def u_eval rust_ws_def)
  let ?arg = "case element of CBinary v \<Rightarrow> quoteRedisBinaryArgument v
              | _ \<Rightarrow> Some (quoteRedisArgument (redis_cellText (Some element)))"
  have sp: "u '' '' = [32]" by (simp add: u_eval)
  from assms obtain a where a: "?arg = Some a" "mp_commands plan = [join [32] [?name, quoteRedisArgument (rd_key d), a]]"
    by (auto simp: delete_entry_plan_def simple_plan_def Let_def join_Cons sp split: option.splits)
  have "\<exists>w. reads_as a w"
    using a(1) by (cases element) (auto dest: reads_binary intro: reads_quoted)
  then obtain w where "reads_as a w" by blast
  with n have "list_all2 reads_as [?name, quoteRedisArgument (rd_key d), a] [chars ?name, chars (rd_key d), w]" by simp
  from redis_words_join [OF this] a(2) show ?thesis by fastforce
qed

text \<open>C5: Whatever control of the details pane makes it, a plan is one command line, which the backend
  reads as a command name, then exactly the key whose details are shown, then its arguments: no key, value, field or
  new name can end its word early, add a word or redirect the command to another key.\<close>

theorem pane_commands_name_key:
  assumes "plan \<in> {delete_key_plan d, persist_plan d, rename_plan d new_name} \<or> expire_plan d seconds = Inr plan \<or>
    scalar_plan d draft binary = Inr plan \<or> delete_entry_plan d element = Inr plan \<or>
    (\<exists>command. entry_command d left first_field second_field = Some (Inr command) \<and> plan = entry_plan d command)"
  shows "\<exists>command name args. mp_commands plan = [command] \<and> redis_words command = Some (chars name # chars (rd_key d) # args)"
  using assms
proof (elim disjE exE conjE)
  assume "plan \<in> {delete_key_plan d, persist_plan d, rename_plan d new_name}"
  then show ?thesis using key_operation_words(1,2) [of d] key_operation_words(3) [of d new_name] by (auto simp: map_eq_Cons_conv)
next
  assume "expire_plan d seconds = Inr plan"
  from key_operation_words(4) [OF this] show ?thesis by (auto simp: map_eq_Cons_conv)
next
  assume "scalar_plan d draft binary = Inr plan"
  from saved_value_words [OF this] scalar_words_key [of d draft binary] show ?thesis by blast
next
  assume "delete_entry_plan d element = Inr plan"
  from deleted_entry_words [OF this] show ?thesis by fastforce
next
  fix command assume "entry_command d left first_field second_field = Some (Inr command)" "plan = entry_plan d command"
  then have "mp_commands plan = [command]" "redis_words command =
      Some (chars (hd (entry_call d left first_field second_field)) # chars (rd_key d)
        # map chars (drop 2 (entry_call d left first_field second_field)))"
    using entry_words [of d left first_field second_field command]
    by (simp_all add: entry_plan_def simple_plan_def entry_call_key)
  then show ?thesis by blast
qed

theorem pane_commands_name_key_witness:
  "\<exists>command name args. mp_commands (rename_plan \<lparr> rd_key = [32, 34], rd_type = [], rd_ttl = None, rd_memory = None, rd_columns = [],
      rd_rows = [] \<rparr> [97]) = [command] \<and> redis_words command = Some (chars name # chars [32, 34] # args)"
  using pane_commands_name_key [of "rename_plan \<lparr> rd_key = [32, 34], rd_type = [], rd_ttl = None, rd_memory = None, rd_columns = [],
      rd_rows = [] \<rparr> [97]" "\<lparr> rd_key = [32, 34], rd_type = [], rd_ttl = None, rd_memory = None, rd_columns = [], rd_rows = [] \<rparr>" "[97]"]
  by simp

section \<open>The tab of a key\<close>

lemma inspection_key_reads: "inspectionKeyFromSql (redisKeyInspectionCommands k) = Some k"
proof -
  let ?q = "concat (map esc_redis k)"
  obtain rest where sql: "redisKeyInspectionCommands k = u ''TYPE'' @ [32, DQUOTE] @ ?q @ DQUOTE # SEMICOLON # rest"
    by (simp add: redisKeyInspectionCommands_def quoteRedisArgument_esc u_eval Let_def)
  let ?pre = "[DQUOTE, 32, 69, 80, 89, 84]"
  have t: "rxf (rx_liti ''type'') ([], u ''TYPE'' @ s, []) = Some ([69, 80, 89, 84], s, [])" for s
    by (simp add: rx_forms u_eval rxf_def is_lower_def)
  have w: "rxf (rx_plus rx_ws) ([69, 80, 89, 84], [32] @ DQUOTE # s, []) = Some ([32, 69, 80, 89, 84], DQUOTE # s, [])" for s
    using rxf_plus_cls [of "[32]" is_ws "DQUOTE # s"] by (simp add: rx_ws_def is_ws_def)
  have g: "rxf (Grp 1 (Star quotedUnitRx)) (?pre, ?q @ DQUOTE # s, []) = Some (rev ?q @ ?pre, DQUOTE # s, [(1, ?q)])" for s
    using rxf_Grp [OF quoted_units [of ?pre k s "[]"], of 1] by simp
  have e: "rxf (Seq (rx_chr DQUOTE) (rx_opt (rx_chr SEMICOLON))) (p, DQUOTE # SEMICOLON # s, c) = Some (SEMICOLON # DQUOTE # p, s, c)"
    for p s c by (simp add: rxf_def rx_chr_def rx_opt_def)
  have "rxf (Seq (rx_chr DQUOTE) (Seq (Grp 1 (Star quotedUnitRx)) (Seq (rx_chr DQUOTE) (rx_opt (rx_chr SEMICOLON)))))
      ([32, 69, 80, 89, 84], DQUOTE # ?q @ DQUOTE # SEMICOLON # rest, []) =
      Some (SEMICOLON # DQUOTE # rev ?q @ ?pre, rest, [(1, ?q)])"
    by (rule rxf_Seq [of _ _ "(?pre, ?q @ DQUOTE # SEMICOLON # rest, [])"], simp add: rx_chr_def)
      (rule rxf_Seq [OF g e])
  then have "rx_exec quotedTypeRx (redisKeyInspectionCommands k) =
      Some ([], SEMICOLON # DQUOTE # rev ?q @ ?pre, rest, [(1, ?q)])"
    unfolding quotedTypeRx_def rx_exec_Bol sql using rxf_Seq [OF t rxf_Seq [OF w]] by simp
  then show ?thesis by (simp add: inspectionKeyFromSql_def rx_groups_def unescape_quoted)
qed

text \<open>C6: The tab that inspects a key is saved as its commands only; reading them back finds the
  exact key, whatever quotes, backslashes and line ends it has, so the workspace opens on it after a restart.\<close>

theorem inspection_key_roundtrip: "inspectionKeyFromSql (redisKeyInspectionCommands k) = Some k"
  by (rule inspection_key_reads)

end
