(* ===== verification/Redis_Run.thy ===== *)
theory Redis_Run
  imports Redis_Workspace Redis_Plans
begin

text \<open>
  What holds along a run of the Redis workspace (\<open>features/redis/RedisWorkspace.tsx\<close>): writes are confirmed where they
  must be, one mutation runs at a time, and the details on screen are those of the selected key. The handlers are
  first classified by what they do to the part of the state these facts depend on.
\<close>

section \<open>Moves\<close>

definition redis_core :: "redis_ws \<Rightarrow> _" where
  "redis_core s =
     (rw_environment s, selectedKey s, rw_details s, loadingDetails s, mutationRunning s, detailRequestIdRef s,
      rw_tasks s, pendingMutation s)"

definition same_core :: "redis_ws \<Rightarrow> redis_ws \<Rightarrow> bool" where
  "same_core s s' \<longleftrightarrow> redis_core s = redis_core s'"

lemma same_core_iff:
  "same_core s s' \<longleftrightarrow>
     rw_environment s = rw_environment s' \<and> selectedKey s = selectedKey s' \<and> rw_details s = rw_details s' \<and>
     loadingDetails s = loadingDetails s' \<and> mutationRunning s = mutationRunning s' \<and>
     detailRequestIdRef s = detailRequestIdRef s' \<and> rw_tasks s = rw_tasks s' \<and> pendingMutation s = pendingMutation s'"
  by (auto simp: same_core_def redis_core_def)

fun harmless :: "redis_task \<Rightarrow> bool" where
  "harmless (ScanKeys i replace c db k) = (k = NoMutation)"
| "harmless (CopyKeyName key) = True"
| "harmless t = False"

definition gated :: "redis_ws \<Rightarrow> MutationPlan \<Rightarrow> bool" where
  "gated s plan \<longleftrightarrow> rw_environment s = Production \<or> mp_destructive plan"

definition may_run :: "redis_label \<Rightarrow> redis_ws \<Rightarrow> MutationPlan \<Rightarrow> bool" where
  "may_run l s plan \<longleftrightarrow> \<not> gated s plan \<or> (l = ConfirmMutation \<and> pendingMutation s = Some plan)"

inductive redis_move :: "redis_label \<Rightarrow> redis_ws \<Rightarrow> redis_result \<Rightarrow> bool" for l s where
  move_ask: "same_core s s' \<Longrightarrow> \<forall>t \<in> set (asked es). harmless t \<Longrightarrow> redis_move l s (s', es)"
| move_read: "redis_move l s (loadDetails key db NoMutation s)"
| move_run: "may_run l s plan \<Longrightarrow> executeMutation plan s = (s1, es) \<Longrightarrow> same_core s1 s' \<Longrightarrow> redis_move l s (s', es)"
| move_pend: "same_core (s \<lparr> pendingMutation := p \<rparr>) s' \<Longrightarrow> redis_move l s (s', [])"
| move_leave: "same_core (s \<lparr> detailRequestIdRef := detailRequestIdRef s + 1, selectedKey := None, rw_details := None \<rparr>) s' \<Longrightarrow>
    asked es = [] \<Longrightarrow> redis_move l s (s', es)"
| move_answer: "l = Answer n a \<Longrightarrow> redis_move l s (answer_task n a s)"

lemma asked_simps [simp]:
  "asked [] = []" "asked (es @ es') = asked es @ asked es'" "asked (Ask t # es) = t # asked es"
  "asked (ChangeDatabase db # es) = asked es" "asked (RunningChanged b # es) = asked es"
  by (simp_all add: asked_def)

lemma move_quiet: "same_core s s' \<Longrightarrow> redis_move l s (s', [])"
  by (rule move_ask) simp_all

lemma move_scan: "redis_move l s (loadKeys scope c replace NoMutation s)"
  by (auto simp: loadKeys_def Let_def same_core_iff intro!: move_ask)

lemma move_request: "redis_move l s (requestMutation plan s)"
proof (cases "gated s plan")
  case True
  then show ?thesis by (auto simp: requestMutation_def gated_def same_core_iff intro: move_pend)
next
  case False
  moreover obtain s1 es where "executeMutation plan s = (s1, es)" by fastforce
  ultimately show ?thesis
    using move_run [of l s plan s1 es s1] by (auto simp: requestMutation_def gated_def may_run_def same_core_iff)
qed


lemma move_create: "redis_move l s (createKey s)"
proof (cases "create_plan (createType s) (createName s) (createValue s) (createAuxiliary s) (createTtl s)")
  case (Inl e)
  then show ?thesis by (simp add: createKey_def move_quiet same_core_iff)
next
  case (Inr plan)
  show ?thesis
  proof (cases "gated s plan")
    case True
    then show ?thesis using Inr
      by (auto simp: createKey_def requestMutation_def gated_def same_core_iff intro: move_pend)
  next
    case False
    moreover obtain s1 es where "executeMutation plan s = (s1, es)" by fastforce
    ultimately show ?thesis
      using move_run [of l s plan s1 es "s1 \<lparr> createOpen := False \<rparr>"] Inr
      by (auto simp: createKey_def requestMutation_def gated_def may_run_def same_core_iff)
  qed
qed

lemma move_plan: "redis_move l s (plan_or_error r s)"
  by (auto simp: plan_or_error_def same_core_iff intro: move_request move_quiet split: sum.splits)

lemma move_click: "(b \<Longrightarrow> redis_move l s r) \<Longrightarrow> redis_move l s (when_click b s r)"
  by (auto simp: when_click_def same_core_iff intro: move_quiet)

lemma move_confirm: "pendingMutation s = Some plan \<Longrightarrow> redis_move ConfirmMutation s (executeMutation plan s)"
  by (cases "executeMutation plan s") (auto simp: may_run_def same_core_iff intro: move_run)

lemma move_commit: "redis_move l s (commitDatabaseDraft draft (s \<lparr> databaseDraft := t \<rparr>))"
  by (auto simp: commitDatabaseDraft_def Let_def same_core_iff intro!: move_quiet move_leave)

lemma move_commit_draft: "redis_move l s (commitDatabaseDraft draft s)"
  by (auto simp: commitDatabaseDraft_def Let_def same_core_iff intro!: move_quiet move_leave)

lemmas moves = move_click move_scan move_read move_request move_create move_plan move_confirm move_commit move_commit_draft
  move_answer [OF refl]

lemma key_list_move: "redis_move l' s (key_list_handler l s)"
  by (cases l) (auto simp: same_core_iff submitSearch_def intro!: moves move_quiet)

lemma details_move: "redis_move l' s (details_handler l d s)"
  by (cases l)
    (auto simp: same_core_iff copySelectedKey_def saveScalarValue_def saveCollectionEntry_def remove_entry_def edit_entry_def
       intro!: moves move_quiet move_ask split: option.splits sum.splits)

lemma dialog_move: "redis_move l s (dialog_handler l s)"
  by (cases l)
    (auto simp: same_core_iff dialog_escape_def intro!: moves intro: move_quiet move_pend split: option.splits)

lemma handler_move: "redis_move l s (redis_handler l s)"
  by (cases l)
    (auto simp: same_core_iff handleCliRunningChange_def run_shortcut_def with_details_def database_escape_def
       simp del: key_list_handler.simps details_handler.simps dialog_handler.simps
       intro!: moves key_list_move details_move dialog_move intro: move_quiet move_ask split: option.splits)

section \<open>What a step appends\<close>

lemma settle_effects:
  "settle_redis (redis_effects s0 s) =
     (let moved = (rw_database s \<noteq> rw_database s0);
          s1 = (if moved then s \<lparr> databaseDraft := rw_database s \<rparr> else s);
          s2 = (if moved \<or> searchPattern s \<noteq> searchPattern s0 \<or> typeFilter s \<noteq> typeFilter s0
                then settle_redis (loadKeys (scope_of s1) ZERO True NoMutation s1) else s1)
      in if moved \<and> truthy (rw_initialKey s)
         then settle_redis (loadDetails (the (rw_initialKey s)) (rw_database s) NoMutation s2) else s2)"
  by (simp add: redis_effects_def settle_redis_def Let_def loadKeys_def loadDetails_def split: prod.splits)

text \<open>A fact about states that every kind of call keeps is kept by the effects.\<close>

lemma effects_keep:
  assumes "P s" "\<And>s t. P s \<Longrightarrow> P (s \<lparr> databaseDraft := t \<rparr>)"
    "\<And>s scope c r. P s \<Longrightarrow> P (settle_redis (loadKeys scope c r NoMutation s))"
    "\<And>s key db. P s \<Longrightarrow> P (settle_redis (loadDetails key db NoMutation s))"
  shows "P (settle_redis (redis_effects s0 s))"
  unfolding settle_effects Let_def using assms by auto

lemma mount_keeps:
  assumes "P (initial_redis env db sql)"
    "\<And>s scope c r. P s \<Longrightarrow> P (settle_redis (loadKeys scope c r NoMutation s))"
    "\<And>s key db. P s \<Longrightarrow> P (settle_redis (loadDetails key db NoMutation s))"
  shows "P (mount_redis env db sql)"
  unfolding mount_redis_def Let_def using assms by auto

text \<open>The request that an answer settles leaves the list.\<close>

lemma at_split:
  assumes "Js_Strings.at (rw_tasks s) n = Some t"
  obtains p q where "rw_tasks s = p @ t # q" "rw_tasks (task_done n s) = p @ q"
proof
  have "n < length (rw_tasks s)" "rw_tasks s ! n = t" using assms by (auto simp: at_def split: if_splits)
  then show "rw_tasks s = take n (rw_tasks s) @ t # drop (Suc n) (rw_tasks s)" by (metis id_take_nth_drop)
  show "rw_tasks (task_done n s) = take n (rw_tasks s) @ drop (Suc n) (rw_tasks s)" by (simp add: task_done_def)
qed

lemma task_done_fields [simp]:
  "mutationRunning (task_done n s) = mutationRunning s" "selectedKey (task_done n s) = selectedKey s"
  "rw_details (task_done n s) = rw_details s" "loadingDetails (task_done n s) = loadingDetails s"
  "detailRequestIdRef (task_done n s) = detailRequestIdRef s" "rw_environment (task_done n s) = rw_environment s"
  "pendingMutation (task_done n s) = pendingMutation s"
  by (simp_all add: task_done_def)

section \<open>One mutation at a time\<close>

fun mutating :: "redis_task \<Rightarrow> bool" where
  "mutating (ScanKeys i r c db k) = (k \<noteq> NoMutation)"
| "mutating (ReadType i key db k) = (k \<noteq> NoMutation)"
| "mutating (ReadValue i key kind db k) = (k \<noteq> NoMutation)"
| "mutating (RunCommand c db plan rest cap) = True"
| "mutating (CopyKeyName key) = False"

text \<open>A continuation that is being run counts until it asks again or ends.\<close>

definition balanced :: "bool \<Rightarrow> redis_ws \<Rightarrow> bool" where
  "balanced owed s \<longleftrightarrow> length (filter mutating (rw_tasks s)) + of_bool owed = of_bool (mutationRunning s)"

lemma harmless_mutating: "harmless t \<Longrightarrow> \<not> mutating t"
  by (cases t) auto

lemma balanced_same: "same_core s s' \<Longrightarrow> balanced b s' = balanced b s"
  by (simp add: balanced_def same_core_iff)

lemma balanced_keys: "balanced (k \<noteq> NoMutation) s \<Longrightarrow> balanced False (settle_redis (loadKeys scope c r k s))"
  by (auto simp: balanced_def settle_redis_def loadKeys_def Let_def)

lemma balanced_details: "balanced (k \<noteq> NoMutation) s \<Longrightarrow> balanced False (settle_redis (loadDetails key db k s))"
  by (auto simp: balanced_def settle_redis_def loadDetails_def)

lemma balanced_done: "balanced True s \<Longrightarrow> balanced False (mutation_done s)"
  by (cases "mutationRunning s") (auto simp: balanced_def mutation_done_def)

lemma settle_nothing [simp]: "settle_redis (s, []) = s"
  by (simp add: settle_redis_def)

lemma balanced_after_keys: "balanced True s \<Longrightarrow> balanced False (settle_redis (after_keys plan cap s))"
  using balanced_details [of ThenDone s] balanced_done [of s]
    balanced_done [of "s \<lparr> detailRequestIdRef := detailRequestIdRef s + 1, selectedKey := None, rw_details := None \<rparr>"]
  by (auto simp: after_keys_def Let_def balanced_def)

lemma balanced_commands: "balanced True s \<Longrightarrow> balanced False (settle_redis (run_commands cs plan cap s))"
proof (cases cs)
  case Nil
  assume b: "balanced True s"
  let ?s = "s \<lparr> rw_feedback := Some (mp_title plan @ ([25104, 21151])) \<rparr>"
  from b have "balanced True ?s" by (simp add: balanced_def)
  with Nil show ?thesis
    using balanced_keys [of "ThenSelect plan cap" ?s] balanced_after_keys [of ?s]
    by (auto simp: run_commands_def after_commands_def Let_def)
qed (auto simp: run_commands_def balanced_def settle_redis_def)

lemma balanced_execute: "balanced False s \<Longrightarrow> balanced False (settle_redis (executeMutation plan s))"
  using balanced_commands [of "s \<lparr> mutationRunning := True, pendingMutation := None, rw_error := None, rw_feedback := None \<rparr>"]
  by (auto simp: executeMutation_def balanced_def)

lemma balanced_resume: "balanced (k \<noteq> NoMutation) s \<Longrightarrow> balanced False (settle_redis (resume k s))"
  by (cases k) (auto simp: resume_def balanced_after_keys balanced_done)

lemma balanced_answers:
  "balanced b (keys_answer i r a s) = balanced b s" "balanced b (details_failed i e s) = balanced b s"
  "balanced b (value_answer i key kind x y cols rows s) = balanced b s" "balanced b (s \<lparr> rw_error := f \<rparr>) = balanced b s"
  "balanced b (s \<lparr> rw_feedback := f \<rparr>) = balanced b s" "balanced b (mutation_failed g s) = balanced b (mutation_done s)"
  by (auto simp: balanced_def keys_answer_def details_failed_def value_answer_def mutation_failed_def mutation_done_def Let_def
      split: sum.splits)

lemma balanced_reply:
  assumes "reply_task t a s = Some r" "balanced (mutating t) s"
  shows "balanced False (settle_redis r)"
  using assms
  by (cases t; cases a)
    (auto simp: reply_task_def balanced_answers balanced_commands balanced_done
      intro!: balanced_resume split: if_splits, auto simp: balanced_def settle_redis_def)

lemma balanced_answer:
  assumes "balanced False s"
  shows "balanced False (settle_redis (answer_task n a s))"
proof (cases "Js_Strings.at (rw_tasks s) n")
  case (Some t)
  then obtain p q where "rw_tasks s = p @ t # q" "rw_tasks (task_done n s) = p @ q" by (rule at_split)
  with assms have "balanced (mutating t) (task_done n s)"
    by (cases "mutating t") (simp_all add: balanced_def)
  with Some assms balanced_reply show ?thesis by (auto simp: answer_task_def split: option.splits)
qed (use assms in \<open>simp add: answer_task_def\<close>)

lemma balanced_handler: "balanced False s \<Longrightarrow> balanced False (settle_redis (redis_handler l s))"
  using handler_move [of l s]
proof (cases rule: redis_move.cases)
  case (move_ask s' es)
  moreover assume "balanced False s"
  moreover have "filter mutating (asked es) = []" using move_ask harmless_mutating by (auto simp: filter_empty_conv)
  ultimately show ?thesis by (simp add: balanced_def same_core_iff settle_redis_def)
next
  case (move_run plan s1 es s')
  assume "balanced False s"
  from balanced_execute [OF this, of plan] move_run show ?thesis by (simp add: balanced_def same_core_iff settle_redis_def)
next
  case move_read
  assume "balanced False s"
  with move_read show ?thesis by (simp add: balanced_details)
next
  case move_answer
  assume "balanced False s"
  with move_answer show ?thesis by (simp add: balanced_answer)
qed (auto simp: balanced_def same_core_iff settle_redis_def)

lemma balanced_run: "redis_run s h \<Longrightarrow> balanced False s"
proof (induction rule: redis_run.induct)
  case (run_mount env db sql)
  show ?case
    by (rule mount_keeps) (auto simp: balanced_keys balanced_details, simp add: balanced_def initial_redis_def Let_def)
next
  case (run_step s h l)
  from balanced_handler [OF this(2), of l] show ?case
    unfolding redis_step_def Let_def
    by (rule effects_keep [where P = "balanced False"]) (auto simp: balanced_keys balanced_details, simp add: balanced_def)
qed

text \<open>C2: At every moment of a run at most one call belongs to a mutation, its command or the reloads
  that follow it, and there is one exactly while the workspace says a mutation is running: the buttons are never
  disabled for good, and a second write is never started behind the first.\<close>

theorem one_redis_mutation:
  assumes "redis_run s h"
  shows "length (filter mutating (rw_tasks s)) = (if mutationRunning s then 1 else 0)"
  using balanced_run [OF assms] by (simp add: balanced_def)

section \<open>Confirmed writes\<close>

definition confirmed :: "(redis_label \<times> redis_ws) list \<Rightarrow> MutationPlan \<Rightarrow> bool" where
  "confirmed h plan \<longleftrightarrow> (\<exists>s0. (ConfirmMutation, s0) \<in> set h \<and> pendingMutation s0 = Some plan)"

text \<open>What is known of a call: a command is one of its plan, and the plan may run.\<close>

fun write_ok :: "Environment \<Rightarrow> (MutationPlan \<Rightarrow> bool) \<Rightarrow> redis_task \<Rightarrow> bool" where
  "write_ok env C (RunCommand c db plan rest cap) =
     (c \<in> set (mp_commands plan) \<and> set rest \<subseteq> set (mp_commands plan) \<and>
      (env = Production \<or> mp_destructive plan \<longrightarrow> C plan))"
| "write_ok env C t = True"

definition writes_ok :: "(MutationPlan \<Rightarrow> bool) \<Rightarrow> redis_ws \<Rightarrow> bool" where
  "writes_ok C s \<longleftrightarrow> (\<forall>t \<in> set (rw_tasks s). write_ok (rw_environment s) C t)"

lemma writes_mono: "writes_ok C s \<Longrightarrow> (\<And>p. C p \<Longrightarrow> D p) \<Longrightarrow> writes_ok D s"
proof -
  assume w: "writes_ok C s" and i: "\<And>p. C p \<Longrightarrow> D p"
  have "write_ok env D t" if "write_ok env C t" for env t using that i by (cases t) auto
  with w show ?thesis by (auto simp: writes_ok_def)
qed

lemma writes_keys: "writes_ok C s \<Longrightarrow> writes_ok C (settle_redis (loadKeys scope c r k s))"
  by (auto simp: writes_ok_def settle_redis_def loadKeys_def Let_def)

lemma writes_details: "writes_ok C s \<Longrightarrow> writes_ok C (settle_redis (loadDetails key db k s))"
  by (auto simp: writes_ok_def settle_redis_def loadDetails_def)

lemma writes_after_keys: "writes_ok C s \<Longrightarrow> writes_ok C (settle_redis (after_keys plan cap s))"
  using writes_details by (auto simp: after_keys_def Let_def mutation_done_def) (auto simp: writes_ok_def)

lemma writes_commands:
  assumes "writes_ok C s" "set cs \<subseteq> set (mp_commands plan)" "gated s plan \<Longrightarrow> C plan"
  shows "writes_ok C (settle_redis (run_commands cs plan cap s))"
proof (cases cs)
  case Nil
  let ?s = "s \<lparr> rw_feedback := Some (mp_title plan @ ([25104, 21151])) \<rparr>"
  have "writes_ok C ?s" using assms(1) by (simp add: writes_ok_def)
  with Nil show ?thesis
    using writes_keys [of C ?s] writes_after_keys [of C ?s] by (auto simp: run_commands_def after_commands_def Let_def)
qed (use assms in \<open>auto simp: run_commands_def writes_ok_def settle_redis_def gated_def\<close>)

lemma writes_execute:
  assumes "writes_ok C s" "gated s plan \<Longrightarrow> C plan"
  shows "writes_ok C (settle_redis (executeMutation plan s))"
  using writes_commands [of C "s \<lparr> mutationRunning := True, pendingMutation := None, rw_error := None, rw_feedback := None \<rparr>"
      "mp_commands plan" plan] assms
  by (auto simp: executeMutation_def) (auto simp: writes_ok_def gated_def)

lemma writes_answers:
  "writes_ok C (keys_answer i r a s) = writes_ok C s" "writes_ok C (details_failed i e s) = writes_ok C s"
  "writes_ok C (value_answer i key kind x y cols rows s) = writes_ok C s" "writes_ok C (s \<lparr> rw_error := f \<rparr>) = writes_ok C s"
  "writes_ok C (s \<lparr> rw_feedback := f \<rparr>) = writes_ok C s" "writes_ok C (mutation_failed g s) = writes_ok C s"
  "writes_ok C (mutation_done s) = writes_ok C s"
  by (auto simp: writes_ok_def keys_answer_def details_failed_def value_answer_def mutation_failed_def mutation_done_def Let_def
      split: sum.splits)

lemma writes_resume: "writes_ok C s \<Longrightarrow> writes_ok C (settle_redis (resume k s))"
  by (cases k) (auto simp: resume_def writes_after_keys writes_answers)

lemma writes_reply:
  assumes "reply_task t a s = Some r" "writes_ok C s" "write_ok (rw_environment s) C t"
  shows "writes_ok C (settle_redis r)"
  using assms
  by (cases t; cases a)
    (auto simp: reply_task_def writes_answers gated_def intro!: writes_resume writes_commands split: if_splits,
      auto simp: writes_ok_def settle_redis_def)

lemma writes_answer:
  assumes "writes_ok C s"
  shows "writes_ok C (settle_redis (answer_task n a s))"
proof (cases "Js_Strings.at (rw_tasks s) n")
  case (Some t)
  then obtain p q where "rw_tasks s = p @ t # q" "rw_tasks (task_done n s) = p @ q" by (rule at_split)
  with assms have "writes_ok C (task_done n s)" "write_ok (rw_environment s) C t" by (auto simp: writes_ok_def)
  with Some assms writes_reply show ?thesis by (auto simp: answer_task_def split: option.splits)
qed (use assms in \<open>simp add: answer_task_def\<close>)

lemma writes_handler:
  assumes "writes_ok C s" "\<And>plan. l = ConfirmMutation \<Longrightarrow> pendingMutation s = Some plan \<Longrightarrow> C plan"
  shows "writes_ok C (settle_redis (redis_handler l s))"
  using handler_move [of l s]
proof (cases rule: redis_move.cases)
  case (move_ask s' es)
  have "write_ok env C t" if "harmless t" for t env using that by (cases t) auto
  with move_ask assms(1) show ?thesis by (auto simp: writes_ok_def same_core_iff settle_redis_def)
next
  case (move_run plan s1 es s')
  then have "gated s plan \<Longrightarrow> C plan" using assms(2) by (auto simp: may_run_def)
  from writes_execute [OF assms(1) this] move_run show ?thesis by (simp add: writes_ok_def same_core_iff settle_redis_def)
next
  case move_read
  with assms(1) show ?thesis by (simp add: writes_details)
next
  case move_answer
  with assms(1) show ?thesis by (simp add: writes_answer)
qed (use assms(1) in \<open>auto simp: writes_ok_def same_core_iff settle_redis_def\<close>)

lemma writes_run: "redis_run s h \<Longrightarrow> writes_ok (confirmed h) s"
proof (induction rule: redis_run.induct)
  case (run_mount env db sql)
  show ?case
    by (rule mount_keeps) (auto simp: writes_keys writes_details, simp add: writes_ok_def initial_redis_def Let_def)
next
  case (run_step s h l)
  from run_step.IH have "writes_ok (confirmed (h @ [(l, s)])) s"
    by (rule writes_mono) (auto simp: confirmed_def)
  then have "writes_ok (confirmed (h @ [(l, s)])) (settle_redis (redis_handler l s))"
    by (rule writes_handler) (auto simp: confirmed_def)
  then show ?case
    unfolding redis_step_def Let_def
    by (rule effects_keep [where P = "writes_ok _"]) (auto simp: writes_keys writes_details, simp add: writes_ok_def)
qed

text \<open>C1: Whatever the user does and in whatever order answers come, a command of a mutation plan (the
  key browser's reads and the command line are not plans) that is sent to a production server, or that belongs to a
  destructive plan anywhere, is one of the commands of a plan the confirmation dialog showed at the moment it was
  confirmed.\<close>

theorem redis_writes_confirmed:
  assumes "redis_run s h" "RunCommand command db plan rest cap \<in> set (rw_tasks s)"
    "rw_environment s = Production \<or> mp_destructive plan"
  shows "command \<in> set (mp_commands plan) \<and> (\<exists>s0. (ConfirmMutation, s0) \<in> set h \<and> pendingMutation s0 = Some plan)"
  using bspec [OF writes_run [OF assms(1), unfolded writes_ok_def] assms(2)] assms(3) by (auto simp: confirmed_def)

section \<open>The details on screen\<close>

fun reads_key :: "redis_task \<Rightarrow> (nat \<times> js) option" where
  "reads_key (ReadType i key db k) = Some (i, key)"
| "reads_key (ReadValue i key kind db k) = Some (i, key)"
| "reads_key t = None"

definition read_ok :: "nat \<Rightarrow> js option \<Rightarrow> redis_task \<Rightarrow> bool" where
  "read_ok ref sel t \<longleftrightarrow> (\<forall>i key. reads_key t = Some (i, key) \<longrightarrow> i \<le> ref \<and> (i = ref \<longrightarrow> sel = Some key))"

definition pointed :: "redis_ws \<Rightarrow> bool" where
  "pointed s \<longleftrightarrow>
     (\<forall>t \<in> set (rw_tasks s). read_ok (detailRequestIdRef s) (selectedKey s) t) \<and>
     (\<forall>d. rw_details s = Some d \<longrightarrow> loadingDetails s \<or> selectedKey s = Some (rd_key d))"

lemma pointed_keys: "pointed s \<Longrightarrow> pointed (settle_redis (loadKeys scope c r k s))"
  by (auto simp: pointed_def settle_redis_def loadKeys_def Let_def read_ok_def)

lemma pointed_details: "pointed s \<Longrightarrow> pointed (settle_redis (loadDetails key db k s))"
  by (fastforce simp: pointed_def settle_redis_def loadDetails_def read_ok_def)

lemma pointed_leave:
  "pointed s \<Longrightarrow> pointed (s \<lparr> detailRequestIdRef := detailRequestIdRef s + 1, selectedKey := None, rw_details := None \<rparr>)"
  by (fastforce simp: pointed_def read_ok_def)

lemma pointed_done: "pointed (mutation_done s) = pointed s" "pointed (mutation_failed g s) = pointed s"
  "pointed (s \<lparr> rw_error := f \<rparr>) = pointed s" "pointed (s \<lparr> rw_feedback := f \<rparr>) = pointed s"
  by (simp_all add: pointed_def mutation_done_def mutation_failed_def)

lemma pointed_keys_answer: "pointed (keys_answer i r a s) = pointed s"
  by (simp add: pointed_def keys_answer_def split: sum.splits)

lemma pointed_failed: "pointed s \<Longrightarrow> pointed (details_failed i e s)"
  by (auto simp: pointed_def details_failed_def)

lemma pointed_value:
  "pointed s \<Longrightarrow> read_ok (detailRequestIdRef s) (selectedKey s) (ReadValue i key kind' db k) \<Longrightarrow>
    pointed (value_answer i key kind x y cols rows s)"
  by (auto simp: pointed_def value_answer_def read_ok_def Let_def)

lemma pointed_after_keys: "pointed s \<Longrightarrow> pointed (settle_redis (after_keys plan cap s))"
  using pointed_leave [of s] by (auto simp: after_keys_def Let_def pointed_details pointed_done)

lemma pointed_commands: "pointed s \<Longrightarrow> pointed (settle_redis (run_commands cs plan cap s))"
  by (cases cs)
    (auto simp: run_commands_def after_commands_def Let_def pointed_done intro!: pointed_keys pointed_after_keys,
      auto simp: pointed_def settle_redis_def read_ok_def)

lemma pointed_execute: "pointed s \<Longrightarrow> pointed (settle_redis (executeMutation plan s))"
  by (auto simp: executeMutation_def intro!: pointed_commands) (simp add: pointed_def)

lemma pointed_resume: "pointed s \<Longrightarrow> pointed (settle_redis (resume k s))"
  by (cases k) (auto simp: resume_def pointed_after_keys pointed_done)

lemma pointed_reply:
  assumes "reply_task t a s = Some r" "pointed s" "read_ok (detailRequestIdRef s) (selectedKey s) t"
  shows "pointed (settle_redis r)"
  using assms
  by (cases t; cases a)
    (auto simp: reply_task_def pointed_done pointed_keys_answer
      intro!: pointed_resume pointed_commands pointed_failed intro: pointed_value split: if_splits,
      auto simp: pointed_def settle_redis_def read_ok_def)

lemma pointed_answer:
  assumes "pointed s"
  shows "pointed (settle_redis (answer_task n a s))"
proof (cases "Js_Strings.at (rw_tasks s) n")
  case (Some t)
  then obtain p q where "rw_tasks s = p @ t # q" "rw_tasks (task_done n s) = p @ q" by (rule at_split)
  with assms have "pointed (task_done n s)" "read_ok (detailRequestIdRef s) (selectedKey s) t" by (auto simp: pointed_def)
  with Some assms pointed_reply show ?thesis by (auto simp: answer_task_def split: option.splits)
qed (use assms in \<open>simp add: answer_task_def\<close>)

lemma pointed_handler:
  assumes "pointed s"
  shows "pointed (settle_redis (redis_handler l s))"
  using handler_move [of l s]
proof (cases rule: redis_move.cases)
  case (move_ask s' es)
  have "read_ok i j t" if "harmless t" for t i j using that by (cases t) (auto simp: read_ok_def)
  with move_ask assms show ?thesis by (auto simp: pointed_def same_core_iff settle_redis_def)
next
  case (move_run plan s1 es s')
  from pointed_execute [OF assms, of plan] move_run show ?thesis by (simp add: pointed_def same_core_iff settle_redis_def)
next
  case (move_leave s' es)
  with pointed_leave [OF assms] show ?thesis by (simp add: pointed_def same_core_iff settle_redis_def)
next
  case move_read
  with assms show ?thesis by (simp add: pointed_details)
next
  case move_answer
  with assms show ?thesis by (simp add: pointed_answer)
qed (use assms in \<open>auto simp: pointed_def same_core_iff settle_redis_def\<close>)

lemma pointed_run: "redis_run s h \<Longrightarrow> pointed s"
proof (induction rule: redis_run.induct)
  case (run_mount env db sql)
  show ?case
    by (rule mount_keeps) (auto simp: pointed_keys pointed_details, simp add: pointed_def initial_redis_def Let_def)
next
  case (run_step s h l)
  from pointed_handler [OF run_step.IH, of l] show ?case
    unfolding redis_step_def Let_def
    by (rule effects_keep [where P = pointed]) (auto simp: pointed_keys pointed_details, simp add: pointed_def)
qed

text \<open>C3: The details on screen, which every save, rename, expiry and deletion of the pane addresses,
  are those of the key that is marked as selected in the list, however the answers of earlier selections overtake
  each other.\<close>

theorem details_of_selection:
  assumes "redis_run s h" "shown_details s = Some d"
  shows "selectedKey s = Some (rd_key d)"
  using pointed_run [OF assms(1)] assms(2) by (auto simp: pointed_def shown_details_def split: if_splits)

section \<open>Concrete runs\<close>

lemma effects_quiet:
  "rw_database s = rw_database s0 \<Longrightarrow> searchPattern s = searchPattern s0 \<Longrightarrow> typeFilter s = typeFilter s0 \<Longrightarrow>
    redis_effects s0 s = (s, [])"
  by (simp add: redis_effects_def)

lemma run_of: "\<exists>h. redis_run (fold redis_step ls (mount_redis env db sql)) h"
  by (induction ls rule: rev_induct) (auto intro: redis_run.intros)

text \<open>A tab that inspects a key opens on it; two answers later its value is on screen.\<close>

lemma mounted:
  assumes "k \<noteq> []" and s: "s = mount_redis env db (redisKeyInspectionCommands k)"
  shows "rw_mode s = BrowserMode" "rw_environment s = env" "rw_database s = db" "rw_initialKey s = Some k" "createType s = RString"
    "mutationRunning s = False" "pendingMutation s = None" "selectedKey s = Some k" "loadingDetails s"
    "createTtl s = []" "detailRequestIdRef s = 1" "rw_details s = None"
    "rw_tasks s = [ScanKeys 1 True (scan_command ZERO [42] RAll) db NoMutation, ReadType 1 k db NoMutation]"
  unfolding s mount_redis_def
  by (simp_all add: inspection_key_reads initial_redis_def Let_def assms(1) loadKeys_def loadDetails_def settle_redis_def scope_of_def)

definition open_labels :: "redis_label list" where
  "open_labels = [Answer 1 (GotRows [[CText (u ''string'')]]), Answer 1 (GotValue None None [] [[CText []]])]"

lemmas step_eval = redis_step_def effects_quiet when_click_def createKey_def create_plan_def create_parts_def Let_def
  requestMutation_def executeMutation_def run_commands_def js_eval answer_task_def task_done_def reply_task_def
  shown_details_def with_details_def scalarText_def row_cell_def redis_cellText_def resume_def value_answer_def
  settle_redis_def

lemma opened:
  assumes "k \<noteq> []"
  shows "\<exists>d. shown_details (fold redis_step open_labels (mount_redis env db (redisKeyInspectionCommands k))) = Some d \<and> rd_key d = k"
  using mounted [OF assms refl, of env db] by (simp add: step_eval open_labels_def at_def)

theorem one_redis_mutation_witness:
  "\<exists>s h. redis_run s h \<and> mutationRunning s \<and> length (filter mutating (rw_tasks s)) = 1"
proof -
  let ?m = "mount_redis Development ZERO (redisKeyInspectionCommands [107])"
  let ?s = "fold redis_step [OpenCreate, SetCreateName [107], CreateKey] ?m"
  obtain h where h: "redis_run ?s h" using run_of by blast
  have "mutationRunning ?s" using mounted [of "[107]" ?m Development ZERO] by (simp add: step_eval)
  with h one_redis_mutation [OF h] show ?thesis by auto
qed

theorem redis_writes_confirmed_witness:
  "\<exists>s h command plan s0. redis_run s h \<and> command \<in> set (mp_commands plan) \<and> rw_environment s = Production \<and>
     (ConfirmMutation, s0) \<in> set h \<and> pendingMutation s0 = Some plan"
proof -
  let ?m = "mount_redis Production ZERO (redisKeyInspectionCommands [107])"
  let ?s = "fold redis_step [OpenCreate, SetCreateName [107], CreateKey, ConfirmMutation] ?m"
  obtain h where h: "redis_run ?s h" using run_of by blast
  have e: "rw_environment ?s = Production" "\<exists>command db plan rest cap. RunCommand command db plan rest cap \<in> set (rw_tasks ?s)"
    using mounted [of "[107]" ?m Production ZERO] by (simp_all add: step_eval)
  then obtain command db plan rest cap where "RunCommand command db plan rest cap \<in> set (rw_tasks ?s)" by blast
  from redis_writes_confirmed [OF h this] e(1) h show ?thesis by blast
qed

theorem details_of_selection_witness:
  "\<exists>s h d. redis_run s h \<and> shown_details s = Some d \<and> selectedKey s = Some (rd_key d)"
proof -
  let ?s = "fold redis_step open_labels (mount_redis Production ZERO (redisKeyInspectionCommands [107]))"
  obtain h where h: "redis_run ?s h" using run_of by blast
  obtain d where d: "shown_details ?s = Some d" using opened [of "[107]" Production ZERO] by auto
  from details_of_selection [OF h d] h d show ?thesis by blast
qed

section \<open>A database picked in the navigator\<close>

text \<open>C7: The input of the workspace clears the details when it switches the database; the
  navigator does not. In a tab that was not opened for a key and while no mutation is running, the details of the old
  database stay on screen after the navigator picks another one, and deleting the key there, once confirmed, sends
  \<open>DEL\<close> of its name to the new database.\<close>

theorem pane_outlives_its_database:
  assumes "shown_details s = Some d" "\<not> truthy (rw_initialKey s)" "\<not> mutationRunning s"
  shows "shown_details (redis_step (DatabaseChanged db) s) = Some d \<and>
    (\<exists>cap. RunCommand (u ''DEL '' @ quoteRedisArgument (rd_key d)) db (delete_key_plan d) [] cap
             \<in> set (rw_tasks (fold redis_step [DatabaseChanged db, DeleteKey, ConfirmMutation] s)))"
proof -
  obtain s1 where step: "redis_step (DatabaseChanged db) s = s1" by blast
  from step have s1: "shown_details s1 = Some d" "rw_database s1 = db" "mutationRunning s1 = False"
    using assms by (auto simp: redis_step_def redis_effects_def settle_redis_def loadKeys_def shown_details_def Let_def
        split: if_splits)
  have s2: "redis_step DeleteKey s1 = s1 \<lparr> pendingMutation := Some (delete_key_plan d) \<rparr>"
    using s1 by (simp add: redis_step_def with_details_def when_click_def requestMutation_def delete_key_plan_def effects_quiet)
  have c: "mp_commands (delete_key_plan d) = [u ''DEL '' @ quoteRedisArgument (rd_key d)]" by (simp add: delete_key_plan_def)
  have "\<exists>cap. RunCommand (u ''DEL '' @ quoteRedisArgument (rd_key d)) db (delete_key_plan d) [] cap
      \<in> set (rw_tasks (redis_step ConfirmMutation (redis_step DeleteKey s1)))"
    unfolding s2 using s1
    by (auto simp: redis_step_def when_click_def executeMutation_def run_commands_def effects_quiet settle_redis_def scope_of_def c)
  with s1(1) step show ?thesis by simp
qed

text \<open>A tab that was not opened for a key: its first answer lists one, which is then selected.\<close>

lemma mounted_blank:
  assumes s: "s = mount_redis env db []"
  shows "rw_mode s = CliMode" "rw_database s = db" "rw_initialKey s = None" "mutationRunning s = False" "cliRunning s = False"
    "keyRequestIdRef s = 1" "detailRequestIdRef s = 0" "rw_details s = None"
    "rw_tasks s = [ScanKeys 1 True (scan_command ZERO [42] RAll) db NoMutation]"
proof -
  have "inspectionKeyFromSql [] = None"
    by (simp add: inspectionKeyFromSql_def rx_groups_def quotedTypeRx_def bareTypeRx_def rx_exec_Bol rx_forms rxf_def u_eval)
  then show "rw_mode s = CliMode" "rw_database s = db" "rw_initialKey s = None" "mutationRunning s = False" "cliRunning s = False"
    "keyRequestIdRef s = 1" "detailRequestIdRef s = 0" "rw_details s = None"
    "rw_tasks s = [ScanKeys 1 True (scan_command ZERO [42] RAll) db NoMutation]"
    unfolding s mount_redis_def
    by (simp_all add: initial_redis_def Let_def loadKeys_def settle_redis_def scope_of_def trim_defs u_eval to_upper_def)
qed

definition select_labels :: "redis_label list" where
  "select_labels = [ShowBrowser, Answer 0 (GotRows [[CText ZERO, CText [107]]]), SelectKey [107],
     Answer 0 (GotRows [[CText (u ''string'')]]), Answer 0 (GotValue None None [] [[CText []]])]"

abbreviation selected_tab :: redis_ws where
  "selected_tab \<equiv> fold redis_step select_labels (mount_redis Development ZERO [])"

theorem pane_outlives_its_database_witness:
  "\<exists>d. rd_key d = [107] \<and> shown_details selected_tab = Some d \<and> \<not> truthy (rw_initialKey selected_tab) \<and>
     \<not> mutationRunning selected_tab \<and> shown_details (redis_step (DatabaseChanged [49]) selected_tab) = Some d \<and>
     (\<exists>cap. RunCommand (u ''DEL '' @ quoteRedisArgument [107]) [49] (delete_key_plan d) [] cap
        \<in> set (rw_tasks (fold redis_step [DatabaseChanged [49], DeleteKey, ConfirmMutation] selected_tab)))"
proof -
  note m = mounted_blank [of "mount_redis Development ZERO []" Development ZERO, OF refl]
  have s: "\<exists>d. shown_details selected_tab = Some d \<and> rd_key d = [107]" "\<not> truthy (rw_initialKey selected_tab)"
    "\<not> mutationRunning selected_tab"
    using m by (simp_all add: step_eval select_labels_def at_def keys_answer_def scanned_keys_def scanned_cursor_def new_set_def
        loadDetails_def)
  from s(1) obtain d where d: "shown_details selected_tab = Some d" "rd_key d = [107]" by blast
  from pane_outlives_its_database [OF d(1) s(2,3), of "[49]"] have
    "shown_details (redis_step (DatabaseChanged [49]) selected_tab) = Some d \<and>
     (\<exists>cap. RunCommand (u ''DEL '' @ quoteRedisArgument [107]) [49] (delete_key_plan d) [] cap
        \<in> set (rw_tasks (fold redis_step [DatabaseChanged [49], DeleteKey, ConfirmMutation] selected_tab)))"
    unfolding d(2) .
  with d s(2,3) show ?thesis by blast
qed

end
