(* ===== verification/Spec2Isabelle.thy ===== *)
theory Spec2Isabelle
  imports Table_Filter Table_Mutation Result_View Query_Session Workspace_Persistence Shortcuts
    Table_Actions Preferences Interaction Mcp_State Command_Palette Table_Commit
    Result_Grid Binlog_Timeline Redis_View Redis_Run
begin

text \<open>
  Pipa is a local-first desktop workbench for MySQL and Redis: a React front end (\<open>src/src\<close>) that talks over an
  IPC bridge (\<open>src/src/lib/tauriClient.ts\<close>) to a Rust backend (\<open>src/src-tauri\<close>, \<open>src/crates\<close>). This library
  models the front end's TypeScript. The backend is not modelled, but for its rule for the words of a
  Redis command: its answers are inputs of the step functions and its calls are effects they emit.

  \<^bold>\<open>The language.\<close> Js\_Strings (strings as lists of UTF-16 units, \<open>u\<close> for ASCII literals, slices, trimming, case of
  ASCII), Js\_Regex (a backtracking matcher in the language's order of attempts), Js\_Numbers (doubles, their
  parsing and printing), Js\_Json (\<open>JSON.stringify\<close>, \<open>JSON.parse\<close>), Js\_Sort (stable sorting, number comparators),
  Url\_Params (\<open>URLSearchParams\<close>) and Local\_Storage (storage that may refuse a read or a write). What the host
  decides (collation, locale lower case, Unicode normalisation, key case) is a parameter of the definitions that
  use it.

  \<^bold>\<open>SQL text.\<close> Sql\_Scanner (\<open>query/sqlSelection.ts\<close>, \<open>mcp/sqlReview.ts\<close>), Sql\_Text (the quoting functions),
  Column\_Types, Table\_Ddl, Table\_Filter, Mutation\_Values and Table\_Mutation (\<open>tables/tableSql.ts\<close>), Result\_Export
  and Result\_View (\<open>query/resultExport.ts\<close>, \<open>query/resultView.ts\<close>). Their lemmas are about readers: what one side
  quotes, MySQL's or redis-cli's lexical rules read back, so a filter is one statement, a mutation stays within
  its key, and a CSV field is one field. Two readers are rules of their own, apart from the code: \<open>sql_text\<close> (Sql\_Scanner),
  the pieces of a SQL text, against which the scanner's delimiters are checked, and \<open>sql_or\<close> (Table\_Filter), the
  precedence of \<open>AND\<close> and \<open>OR\<close>, by which a filter clause reads as its conditions in the order of the bar.

  \<^bold>\<open>Hooks and components.\<close> A hook is a record of its React state and refs, and a step function: the label is a user
  action, an event or the answer to an awaited call, the result the new state and the list of emitted calls.
  Query\_Session (\<open>useQuerySession.ts\<close>, \<open>executeQueryOnce.ts\<close>), Workspace\_Persistence
  (\<open>useWorkspacePersistence.ts\<close>), Connections (\<open>features/connections\<close>), Shortcuts and Command\_Palette
  (\<open>features/commands\<close>), Workspace\_Navigation (\<open>features/workspace\<close>, \<open>redisKeyWorkspace.ts\<close>), Table\_Actions
  (\<open>tableActions.ts\<close>, \<open>useTableUtilityActions.ts\<close>, pins), Preferences (\<open>features/preferences\<close>), Interaction (toasts,
  dialogs, select-all), Mcp\_State (\<open>useMcpState.ts\<close>), and Table\_Rows, Table\_Drafts, Table\_Workspace
  (\<open>TableWorkspace.tsx\<close>), Column\_Widths (its columns' widths), Result\_Grid (\<open>query/ResultGrid.tsx\<close>), Binlog\_View
  and Binlog\_Workspace (\<open>binlog/BinlogWorkspace.tsx\<close>). Table\_Commit holds the guarantees of the table workspace: they are statements over every run
  (\<open>tw_run\<close>), by an invariant of the commits under way (\<open>commit_inv\<close>) and a case analysis of what a handler can be
  (\<open>handler_cases\<close>). Binlog\_Run and Binlog\_Timeline do the same for the binlog workspace, whose state keeps the requests
  that are not answered; the run (\<open>binlog_run\<close>) assumes that successful answers are those of one backend.

  \<^bold>\<open>Redis.\<close> Redis\_Commands and Redis\_Plans (the commands and mutation plans of \<open>redis/RedisWorkspace.tsx\<close>, checked
  against the backend's rule for the words of a command line, \<open>parse_command\<close> of \<open>crates/pipa-redis\<close>), Redis\_Script (a
  reader of the Lua of the one script the program sends: the calls of an \<open>EVAL\<close> are those of its text), Redis\_Workspace
  (its state machine: a call that has not settled is a task that holds its continuation), Redis\_View (what it shows)
  and Redis\_Run: every handler is one of six moves (\<open>redis_move\<close>), and the guarantees over all runs (\<open>redis_run\<close>)
  follow move by move.

  \<^bold>\<open>Interfaces.\<close> \<open>text_codec\<close> (Sql\_Text) is the contract of a quoting function: its reader takes the token back,
  whatever follows; interpreted on identifiers, string literals, Redis arguments, JSON strings, CSV fields and the
  members of ENUM types. \<open>comparator_on\<close> (Js\_Sort) is what a sort asks of its comparator; interpreted on tab
  positions, numeric result columns and the palette's ranking. \<open>preference\<close> and \<open>stable_preference\<close> (Local\_Storage)
  say that a stored preference survives a restart and touches no other key; interpreted on every preference of
  the program.

  \<^bold>\<open>Bounds.\<close> Loops over an index are recursions on the remaining text. The JSON parser runs on fuel, twice the length
  of the text and two; \<open>json_fuel_enough\<close> shows that it never runs out. The reader of Lua scripts stops after as many arguments and statements
  as there are tokens, of which each takes one; \<open>create_script\<close> shows that it reads the program's script. Everything else terminates by its
  recursion or a measure.

  \<^bold>\<open>Not modelled.\<close> The backend and the generated bindings (other languages, generated files); \<open>tauriClient.ts\<close> (one
  call each); rendering, focus, geometry and animation of the components; the editor (Monaco); the components
  \<open>App.tsx\<close>, \<open>ConnectionSidebar.tsx\<close>, \<open>QueryWorkspace.tsx\<close>, \<open>McpPanel.tsx\<close>, the dialogs, the SQL
  library and the updater, beyond the hooks and functions named above.
\<close>

end
